(* ===== verification/Bridge_Prelude.thy ===== *)
theory Bridge_Prelude
  imports Main "HOL-Library.Word" "HOL-Library.Sublist"
begin

text \<open>
  Shared vocabulary of the development: the result type of fallible Rust functions, JSON
  values (\<open>serde_json::Value\<close>), the string operations of the Rust standard library that
  the daemon uses, and the named collections the component theories add their facts to.

  A Rust \<open>String\<close> or \<open>&str\<close> is its UTF-8 byte sequence, one HOL \<^typ>\<open>char\<close> per byte, so
  \<open>len()\<close> is \<^const>\<open>length\<close>. A \<open>u64\<close> millisecond clock is a \<^typ>\<open>nat\<close>: the code only
  compares such values and subtracts them with \<open>saturating_sub\<close>, which is the truncated
  subtraction of \<^typ>\<open>nat\<close>. Integers whose width matters are words.
\<close>

unbundle bit_operations_syntax

named_theorems frame_simps \<open>what an operation leaves unchanged\<close>
named_theorems result_simps \<open>unfolding of the result combinators\<close>

section \<open>Results\<close>

type_synonym ('e, 'a) res = "'e + 'a"

abbreviation Ok :: "'a \<Rightarrow> ('e, 'a) res" where "Ok \<equiv> Inr"
abbreviation Err :: "'e \<Rightarrow> ('e, 'a) res" where "Err \<equiv> Inl"

text \<open>The \<open>?\<close> operator: continue on \<open>Ok\<close>, return early on \<open>Err\<close>.\<close>

definition try_bind :: "('e, 'a) res \<Rightarrow> ('a \<Rightarrow> ('e, 'b) res) \<Rightarrow> ('e, 'b) res" where
  "try_bind r f = (case r of Inl e \<Rightarrow> Inl e | Inr a \<Rightarrow> f a)"

lemma try_bind_simps [simp, result_simps]:
  "try_bind (Inl e) f = Inl e"
  "try_bind (Inr a) f = f a"
  by (simp_all add: try_bind_def)

lemma try_bind_Inr: "try_bind r f = Inr b \<longleftrightarrow> (\<exists>a. r = Inr a \<and> f a = Inr b)"
  by (cases r) auto

definition is_ok :: "('e, 'a) res \<Rightarrow> bool" where
  "is_ok r = (case r of Inl _ \<Rightarrow> False | Inr _ \<Rightarrow> True)"

lemma is_ok_simps [simp]: "\<not> is_ok (Inl e)" "is_ok (Inr a)"
  by (simp_all add: is_ok_def)

section \<open>Machine integers\<close>

type_synonym u8 = "8 word"
type_synonym u16 = "16 word"
type_synonym u32 = "32 word"
type_synonym u64 = "64 word"

text \<open>\<open>u32::saturating_add\<close>.\<close>

definition saturating_add32 :: "u32 \<Rightarrow> u32 \<Rightarrow> u32" where
  "saturating_add32 a b = (if unat a + unat b < 2 ^ 32 then a + b else - 1)"

lemma unat_saturating_add32: "unat (saturating_add32 a b) = min (unat a + unat b) (2 ^ 32 - 1)"
proof (cases "unat a + unat b < 2 ^ 32")
  case True
  then have "unat (a + b) = unat a + unat b"
    by (subst unat_plus_simple [symmetric]) (simp add: no_olen_add_nat)
  then show ?thesis using True by (simp add: saturating_add32_def unsigned_minus_1_eq_mask mask_eq_exp_minus_1)
next
  case False
  then show ?thesis by (simp add: saturating_add32_def unsigned_minus_1_eq_mask mask_eq_exp_minus_1)
qed

section \<open>JSON values\<close>

text \<open>
  \<open>serde_json::Value\<close>. Integer numbers carry their value; a number with a fraction or an
  exponent keeps its text, which no code of the daemon's core looks into. An object is the
  list of its members in map order, with distinct keys.
\<close>

datatype json =
    JNull
  | JBool bool
  | JInt int
  | JFloat string
  | JStr string
  | JArr "json list"
  | JObj "(string \<times> json) list"

fun json_get :: "json \<Rightarrow> string \<Rightarrow> json option" where
  "json_get (JObj ms) k = map_of ms k"
| "json_get _ _ = None"

fun as_str :: "json \<Rightarrow> string option" where
  "as_str (JStr s) = Some s"
| "as_str _ = None"

fun as_array :: "json \<Rightarrow> json list option" where
  "as_array (JArr xs) = Some xs"
| "as_array _ = None"

fun as_u64 :: "json \<Rightarrow> nat option" where
  "as_u64 (JInt i) = (if 0 \<le> i \<and> i < 2 ^ 64 then Some (nat i) else None)"
| "as_u64 _ = None"

section \<open>Strings\<close>

definition ascii_lower :: "char \<Rightarrow> char" where
  "ascii_lower c = (let n = (of_char c :: nat) in if 65 \<le> n \<and> n \<le> 90 then char_of (n + 32) else c)"

definition to_ascii_lowercase :: "string \<Rightarrow> string" where
  "to_ascii_lowercase s = map ascii_lower s"

definition eq_ignore_ascii_case :: "string \<Rightarrow> string \<Rightarrow> bool" where
  "eq_ignore_ascii_case a b = (to_ascii_lowercase a = to_ascii_lowercase b)"

definition starts_with :: "string \<Rightarrow> string \<Rightarrow> bool" where
  "starts_with s p = (take (length p) s = p)"

definition ends_with :: "string \<Rightarrow> string \<Rightarrow> bool" where
  "ends_with s p = starts_with (rev s) (rev p)"

lemma starts_with_prefix: "starts_with s p \<longleftrightarrow> prefix p s"
  by (auto simp: starts_with_def prefix_def) (metis append_take_drop_id)

lemma ends_with_suffix: "ends_with s p \<longleftrightarrow> suffix p s"
  by (simp add: ends_with_def starts_with_prefix suffix_to_prefix)

fun str_contains :: "string \<Rightarrow> string \<Rightarrow> bool" where
  "str_contains [] p = (p = [])"
| "str_contains (c # cs) p = (starts_with (c # cs) p \<or> str_contains cs p)"

lemma str_contains_sublist: "str_contains s p \<longleftrightarrow> sublist p s"
  by (induction s) (auto simp: sublist_Cons_right starts_with_prefix)

text \<open>\<open>str::replace\<close>: non-overlapping matches from the left; the patterns used are not empty.\<close>

function str_replace :: "string \<Rightarrow> string \<Rightarrow> string \<Rightarrow> string" where
  "str_replace s p r =
     (if s = [] \<or> p = [] then s
      else if starts_with s p then r @ str_replace (drop (length p) s) p r
      else hd s # str_replace (tl s) p r)"
  by pat_completeness auto
termination
  by (relation "measure (\<lambda>(s, p, r). length s)") auto

declare str_replace.simps [simp del]

fun split_on :: "char \<Rightarrow> string \<Rightarrow> string list" where
  "split_on d [] = [[]]"
| "split_on d (c # cs) =
     (if c = d then [] # split_on d cs
      else (case split_on d cs of [] \<Rightarrow> [[c]] | w # ws \<Rightarrow> (c # w) # ws))"

lemma split_on_ne [simp]: "split_on d s \<noteq> []"
  by (induction s) (auto split: list.splits)

fun str_join :: "string \<Rightarrow> string list \<Rightarrow> string" where
  "str_join sep [] = []"
| "str_join sep [w] = w"
| "str_join sep (w # ws) = w @ sep @ str_join sep ws"

lemma split_on_no_sep: "d \<notin> set w \<Longrightarrow> split_on d w = [w]"
  by (induction w) auto

lemma split_on_append_sep: "d \<notin> set w \<Longrightarrow> split_on d (w @ d # s) = w # split_on d s"
  by (induction w) auto

lemma split_on_join:
  "ws \<noteq> [] \<Longrightarrow> (\<And>w. w \<in> set ws \<Longrightarrow> d \<notin> set w) \<Longrightarrow> split_on d (str_join [d] ws) = ws"
proof (induction ws rule: list_nonempty_induct)
  case (single w)
  then show ?case by (simp add: split_on_no_sep)
next
  case (cons w ws)
  then obtain v vs where "ws = v # vs" by (cases ws) auto
  with cons show ?case by (simp add: split_on_append_sep)
qed

text \<open>\<open>str::trim\<close> removes the characters of Unicode \<open>White_Space\<close>, here by their UTF-8 bytes.\<close>

definition white_space :: "string list" where
  "white_space =
     [[CHR 0x09], [CHR 0x0A], [CHR 0x0B], [CHR 0x0C], [CHR 0x0D], [CHR 0x20],
      [CHR 0xC2, CHR 0x85], [CHR 0xC2, CHR 0xA0], [CHR 0xE1, CHR 0x9A, CHR 0x80],
      [CHR 0xE2, CHR 0x80, CHR 0xA8], [CHR 0xE2, CHR 0x80, CHR 0xA9],
      [CHR 0xE2, CHR 0x80, CHR 0xAF], [CHR 0xE2, CHR 0x81, CHR 0x9F],
      [CHR 0xE3, CHR 0x80, CHR 0x80]] @
     map (\<lambda>b. [CHR 0xE2, CHR 0x80, char_of (b :: nat)]) [0x80 ..< 0x8B]"

fun trim_with :: "nat \<Rightarrow> string list \<Rightarrow> string \<Rightarrow> string" where
  "trim_with 0 ws s = s"
| "trim_with (Suc n) ws s =
     (case find (starts_with s) ws of None \<Rightarrow> s | Some w \<Rightarrow> trim_with n ws (drop (length w) s))"

definition trim_start :: "string \<Rightarrow> string" where
  "trim_start s = trim_with (length s) white_space s"

definition trim_end :: "string \<Rightarrow> string" where
  "trim_end s = rev (trim_with (length s) (map rev white_space) (rev s))"

definition str_trim :: "string \<Rightarrow> string" where
  "str_trim s = trim_end (trim_start s)"

definition hex_digits :: "char set" where
  "hex_digits = set ''0123456789abcdef''"

lemma white_space_head:
  "list_all (\<lambda>w. w \<noteq> [] \<and> hd w \<notin> hex_digits \<and> last w \<notin> hex_digits) white_space"
  by code_simp

lemma trim_with_other:
  assumes "\<And>w. w \<in> set ws \<Longrightarrow> w \<noteq> [] \<and> (s \<noteq> [] \<longrightarrow> hd w \<noteq> hd s)"
  shows "trim_with n ws s = s"
proof (cases n)
  case (Suc m)
  have "find (starts_with s) ws = None"
    unfolding find_None_iff
  proof
    assume "\<exists>w. w \<in> set ws \<and> starts_with s w"
    then obtain w where w: "w \<in> set ws" "starts_with s w" by blast
    with assms [OF w(1)] show False
      by (cases w; cases s) (auto simp: starts_with_def)
  qed
  with Suc show ?thesis by simp
qed simp

lemma str_trim_hex:
  assumes "set s \<subseteq> hex_digits"
  shows "str_trim s = s"
proof -
  note ws = white_space_head [unfolded list_all_iff, rule_format]
  have start: "trim_start s = s"
    unfolding trim_start_def
  proof (rule trim_with_other)
    fix w assume "w \<in> set white_space"
    from ws [OF this] assms show "w \<noteq> [] \<and> (s \<noteq> [] \<longrightarrow> hd w \<noteq> hd s)"
      by (cases s) auto
  qed
  have "trim_with (length s) (map rev white_space) (rev s) = rev s"
  proof (rule trim_with_other)
    fix w assume "w \<in> set (map rev white_space)"
    then obtain v where v: "v \<in> set white_space" "w = rev v" by auto
    from ws [OF v(1)] assms v(2) show "w \<noteq> [] \<and> (rev s \<noteq> [] \<longrightarrow> hd w \<noteq> hd (rev s))"
      by (cases s rule: rev_cases) (auto simp: hd_rev)
  qed
  then show ?thesis by (simp add: str_trim_def start trim_end_def)
qed

text \<open>Characters of a valid UTF-8 string: a byte starts one unless it is a continuation byte.\<close>

definition is_cont_byte :: "char \<Rightarrow> bool" where
  "is_cont_byte c = (let n = (of_char c :: nat) in 128 \<le> n \<and> n < 192)"

definition char_count :: "string \<Rightarrow> nat" where
  "char_count s = length (filter (\<lambda>c. \<not> is_cont_byte c) s)"

text \<open>\<open>s.chars().take(n).collect()\<close>: the bytes before the \<open>n+1\<close>-th character start.\<close>

fun take_chars :: "nat \<Rightarrow> string \<Rightarrow> string" where
  "take_chars n [] = []"
| "take_chars n (c # cs) =
     (if is_cont_byte c then c # take_chars n cs
      else (case n of 0 \<Rightarrow> [] | Suc m \<Rightarrow> c # take_chars m cs))"

lemma take_chars_all: "char_count s \<le> n \<Longrightarrow> take_chars n s = s"
  by (induction s arbitrary: n) (auto simp: char_count_def split: nat.splits if_splits)

lemma char_count_take_chars: "char_count (take_chars n s) \<le> n"
  by (induction s arbitrary: n) (auto simp: char_count_def split: nat.splits)

lemma take_chars_prefix: "prefix (take_chars n s) s"
  by (induction s arbitrary: n) (auto split: nat.splits)

lemma take_chars_idem [simp]: "take_chars n (take_chars n s) = take_chars n s"
  by (rule take_chars_all) (rule char_count_take_chars)

text \<open>\<open>s.chars().skip(n).collect()\<close>.\<close>

definition drop_chars :: "nat \<Rightarrow> string \<Rightarrow> string" where
  "drop_chars n s = drop (length (take_chars n s)) s"

text \<open>\<open>trim_start_matches(p)\<close> for a string pattern: every leading occurrence is removed.\<close>

function trim_start_matches :: "string \<Rightarrow> string \<Rightarrow> string" where
  "trim_start_matches p s =
     (if p \<noteq> [] \<and> starts_with s p then trim_start_matches p (drop (length p) s) else s)"
  by pat_completeness auto
termination
proof (relation "measure (\<lambda>(p, s). length s)", goal_cases)
  case (2 p s)
  then show ?case by (cases s; cases p) (auto simp: starts_with_def)
qed simp

declare trim_start_matches.simps [simp del]

text \<open>The characters of the daemon's messages outside ASCII, in UTF-8.\<close>

definition em_dash :: string where "em_dash = [CHR 0xE2, CHR 0x80, CHR 0x94]"
definition ellipsis :: string where "ellipsis = [CHR 0xE2, CHR 0x80, CHR 0xA6]"
definition middle_dot :: string where "middle_dot = [CHR 0xC2, CHR 0xB7]"
definition inverted_question :: string where "inverted_question = [CHR 0xC2, CHR 0xBF]"

text \<open>Decimal rendering of an unsigned integer (\<open>{}\<close> of a \<open>u64\<close> or \<open>usize\<close>).\<close>

fun nat_to_string :: "nat \<Rightarrow> string" where
  "nat_to_string n =
     (if n < 10 then [char_of (48 + n)] else nat_to_string (n div 10) @ [char_of (48 + n mod 10)])"

declare nat_to_string.simps [simp del]

definition digits_value :: "string \<Rightarrow> nat" where
  "digits_value = foldl (\<lambda>n c. 10 * n + (of_char c - 48)) 0"

lemma digits_value_string [simp]: "digits_value (nat_to_string n) = n"
proof (induction n rule: nat_to_string.induct)
  case (1 n)
  show ?case
  proof (cases "n < 10")
    case True
    then show ?thesis by (simp add: nat_to_string.simps [of n] digits_value_def)
  next
    case False
    have "of_char (char_of (48 + n mod 10) :: char) - 48 = n mod 10" by simp
    with 1 False show ?thesis
      by (simp add: nat_to_string.simps [of n] digits_value_def)
  qed
qed

lemma nat_to_string_inject [simp]: "nat_to_string a = nat_to_string b \<longleftrightarrow> a = b"
  by (metis digits_value_string)

section \<open>Association lists as hash maps\<close>

text \<open>
  \<open>HashMap::insert\<close> and \<open>remove\<close> where the code iterates over the map: an association
  list with distinct keys. Iteration order is that of the list.
\<close>

definition assoc_remove :: "'k \<Rightarrow> ('k \<times> 'v) list \<Rightarrow> ('k \<times> 'v) list" where
  "assoc_remove k m = filter (\<lambda>kv. fst kv \<noteq> k) m"

definition assoc_insert :: "'k \<Rightarrow> 'v \<Rightarrow> ('k \<times> 'v) list \<Rightarrow> ('k \<times> 'v) list" where
  "assoc_insert k v m = (k, v) # assoc_remove k m"

lemma map_of_assoc_remove [simp]: "map_of (assoc_remove k m) = (map_of m)(k := None)"
  by (induction m) (auto simp: assoc_remove_def fun_eq_iff)

lemma map_of_assoc_insert [simp]: "map_of (assoc_insert k v m) = (map_of m)(k \<mapsto> v)"
  by (simp add: assoc_insert_def)

lemma fst_assoc_remove [simp]: "fst ` set (assoc_remove k m) = fst ` set m - {k}"
  by (auto simp: assoc_remove_def)

lemma fst_assoc_insert [simp]: "fst ` set (assoc_insert k v m) = insert k (fst ` set m)"
  by (auto simp: assoc_insert_def)

lemma distinct_assoc_remove: "distinct (map fst m) \<Longrightarrow> distinct (map fst (assoc_remove k m))"
  by (induction m) (auto simp: assoc_remove_def)

lemma distinct_assoc_insert: "distinct (map fst m) \<Longrightarrow> distinct (map fst (assoc_insert k v m))"
  using distinct_assoc_remove [of m k] by (auto simp: assoc_insert_def assoc_remove_def)

end
