(* ===== verification/Protocol.thy ===== *)
theory Protocol
  imports Bridge_Prelude
begin

text \<open>
  The wire protocol (\<open>daemon-protocol/src/lib.rs\<close>): one record per frame struct, the
  \<open>BridgeFrame\<close> enum over them, the payloads of the chat synchronisation with their two
  parse helpers, and the Crockford base-32 encoder of the pairing codes.

  The JSON decoding of a struct is the derive macro of \<open>serde\<close>, code outside the repository:
  the parse helpers take the decoder \<open>from_value\<close> of the element type as an argument.
\<close>

section \<open>Frames\<close>

definition PROTOCOL_VERSION :: u32 where "PROTOCOL_VERSION = 1"

datatype tools_probe_kind = ProbeShell | ProbeVcs | ProbeLsp | ProbeDap

record tool_probe =
  tp_name :: string
  tp_version :: "string option"
  tp_kind :: tools_probe_kind

datatype device_kind = Desktop | Mobile

record scopes =
  sc_capabilities :: "string list"
  sc_always_allow_paths :: "string list"

record hello_frame =
  he_v :: u32
  he_token_hash :: string
  he_fingerprint :: string
  he_device_kind :: device_kind
  he_device_name :: string
  he_client_version :: string
  he_os :: string
  he_arch :: string
  he_features :: "string list"
  he_consent_timeout_ms :: nat
  he_tools :: "tool_probe list"

record hello_ack_frame =
  ha_v :: u32
  ha_device_id :: string
  ha_scopes :: scopes
  ha_heartbeat_interval_ms :: nat

record heartbeat_frame =
  hb_v :: u32
  hb_t :: nat

record heartbeat_ack_frame =
  hk_v :: u32
  hk_t :: nat

record action_request_frame =
  ar_v :: u32
  ar_id :: string
  ar_capability :: string
  ar_params :: json
  ar_conversation_id :: "string option"
  ar_skip_consent_prompt :: bool

record action_cancel_frame =
  ac_v :: u32
  ac_id :: string
  ac_reason :: string

record action_error =
  ae_code :: string
  ae_message :: string

record action_result_frame =
  rs_v :: u32
  rs_id :: string
  rs_ok :: bool
  rs_output :: "json option"
  rs_error :: "action_error option"
  rs_duration_ms :: nat

datatype stream_channel = Stdout | Stderr | LogChannel

record action_stream_frame =
  st_v :: u32
  st_id :: string
  st_seq :: nat
  st_channel :: stream_channel
  st_data :: string
  st_eof :: bool

record consent_prompt_frame =
  cp_v :: u32
  cp_id :: string
  cp_capability :: string
  cp_summary :: string
  cp_params_hash :: string
  cp_path :: "string option"

record consent_response_frame =
  cr_v :: u32
  cr_id :: string
  cr_approved :: bool
  cr_remember :: bool

record scope_update_frame =
  su_v :: u32
  su_scopes :: scopes
  su_reason :: "string option"

record resume_frame =
  re_v :: u32
  re_device_id :: string

record revoke_frame =
  rv_v :: u32
  rv_reason :: string

record error_frame =
  er_v :: u32
  er_code :: string
  er_message :: string
  er_close :: "u16 option"

datatype bridge_frame =
    Hello hello_frame
  | HelloAck hello_ack_frame
  | Heartbeat heartbeat_frame
  | HeartbeatAck heartbeat_ack_frame
  | ActionRequest action_request_frame
  | ActionCancel action_cancel_frame
  | ActionResult action_result_frame
  | ActionStream action_stream_frame
  | ConsentPrompt consent_prompt_frame
  | ConsentResponse consent_response_frame
  | ScopeUpdate scope_update_frame
  | Resume resume_frame
  | Revoke revoke_frame
  | ErrorFrame error_frame

definition close_AUTH_FAILED :: u16 where "close_AUTH_FAILED = 4001"
definition close_REVOKED :: u16 where "close_REVOKED = 4401"

section \<open>Chat synchronisation payloads\<close>

record chat_message =
  cm_id :: string
  cm_role :: string
  cm_content :: string
  cm_created_at :: "u64 option"

record chat_conversation =
  cc_id :: string
  cc_title :: "string option"
  cc_workspace_ref :: "json option"
  cc_model :: "string option"
  cc_provider :: "string option"
  cc_is_pinned :: "bool option"
  cc_updated_at :: "u64 option"
  cc_messages :: "chat_message list"

record chat_artifact =
  ca_id :: string
  ca_conversation_id :: "string option"
  ca_title :: "string option"
  ca_kind :: "string option"
  ca_content :: string
  ca_updated_at :: "u64 option"

record chat_project =
  cj_id :: string
  cj_name :: "string option"
  cj_description :: "string option"
  cj_updated_at :: "u64 option"

record chat_extra =
  ce_artifacts :: "chat_artifact list"
  ce_projects :: "chat_project list"

text \<open>The loop shared by the helpers: decode the elements in order, stop at the first error.\<close>

fun decode_entries :: "string \<Rightarrow> (json \<Rightarrow> (string, 'a) res) \<Rightarrow> json list \<Rightarrow> 'a list \<Rightarrow> (string, 'a list) res" where
  "decode_entries what from_value [] out = Ok out"
| "decode_entries what from_value (c # cs) out =
     (case from_value c of
        Inr conv \<Rightarrow> decode_entries what from_value cs (out @ [conv])
      | Inl e \<Rightarrow> Err (''invalid '' @ what @ '' entry: '' @ e))"

definition parse_chat_push_params ::
    "(json \<Rightarrow> (string, chat_conversation) res) \<Rightarrow> json \<Rightarrow> (string, chat_conversation list) res" where
  "parse_chat_push_params from_value params =
     (case Option.bind (json_get params ''conversations'') as_array of
        None \<Rightarrow> Err ''sync.chat.push params.conversations must be an array''
      | Some convs \<Rightarrow> decode_entries ''conversation'' from_value convs [])"

definition parse_chat_push_extra ::
    "(json \<Rightarrow> (string, chat_artifact) res) \<Rightarrow> (json \<Rightarrow> (string, chat_project) res) \<Rightarrow> json \<Rightarrow>
     (string, chat_extra) res" where
  "parse_chat_push_extra from_artifact from_project params =
     try_bind (case Option.bind (json_get params ''artifacts'') as_array of
                 Some arr \<Rightarrow> decode_entries ''artifact'' from_artifact arr []
               | None \<Rightarrow> Ok []) (\<lambda>artifacts.
     try_bind (case Option.bind (json_get params ''projects'') as_array of
                 Some arr \<Rightarrow> decode_entries ''project'' from_project arr []
               | None \<Rightarrow> Ok []) (\<lambda>projects.
       Ok \<lparr>ce_artifacts = artifacts, ce_projects = projects\<rparr>))"

lemma decode_entries_Ok:
  "decode_entries what f cs out = Inr r \<longleftrightarrow>
     (\<exists>vs. r = out @ vs \<and> list_all2 (\<lambda>c v. f c = Inr v) cs vs)"
proof (induction cs arbitrary: out)
  case (Cons c cs)
  show ?case
  proof (cases "f c")
    case (Inr v)
    with Cons show ?thesis by (auto simp: list_all2_Cons1)
  qed (auto simp: list_all2_Cons1)
qed auto

lemma decode_entries_Err:
  "decode_entries what f cs out = Inl m \<longleftrightarrow>
     (\<exists>ys c zs e. cs = ys @ c # zs \<and> (\<forall>y \<in> set ys. is_ok (f y)) \<and> f c = Inl e \<and>
        m = ''invalid '' @ what @ '' entry: '' @ e)"
proof (induction cs arbitrary: out)
  case (Cons c cs)
  show ?case
  proof (cases "f c")
    case (Inl e)
    then have "(\<exists>ys x zs e'. c # cs = ys @ x # zs \<and> (\<forall>y \<in> set ys. is_ok (f y)) \<and> f x = Inl e' \<and> Q e') \<longleftrightarrow> Q e" for Q
      by (auto simp: Cons_eq_append_conv intro: exI [of _ "[]"])
    with Inl show ?thesis by auto
  next
    case (Inr v)
    have "(\<exists>ys x zs e. c # cs = ys @ x # zs \<and> (\<forall>y \<in> set ys. is_ok (f y)) \<and> f x = Inl e \<and> Q e) \<longleftrightarrow>
        (\<exists>ys x zs e. cs = ys @ x # zs \<and> (\<forall>y \<in> set ys. is_ok (f y)) \<and> f x = Inl e \<and> Q e)"
      (is "?L \<longleftrightarrow> ?R") for Q
    proof
      assume ?L
      then obtain ys x zs e where "c # cs = ys @ x # zs" "\<forall>y \<in> set ys. is_ok (f y)" "f x = Inl e" "Q e" by blast
      with Inr show ?R by (cases ys) auto
    next
      assume ?R
      then obtain ys x zs e where "cs = ys @ x # zs" "\<forall>y \<in> set ys. is_ok (f y)" "f x = Inl e" "Q e" by blast
      with Inr show ?L by (intro exI [of _ "c # ys"] exI [of _ x] exI [of _ zs] exI [of _ e]) auto
    qed
    with Inr Cons.IH show ?thesis by simp
  qed
qed simp

section \<open>Pairing codes\<close>

definition CROCKFORD :: string where "CROCKFORD = ''0123456789ABCDEFGHJKMNPQRSTVWXYZ''"

definition crockford_digit :: "u32 \<Rightarrow> char" where
  "crockford_digit w = CROCKFORD ! unat (w AND 0x1f)"

text \<open>
  The inner loop of \<open>to_crockford\<close>: while at least five bits are pending, push a digit; the
  last component is \<open>true\<close> when the requested length was reached and the function returned.
  The bit counter stays below 13, so its \<open>u32\<close> arithmetic is that of \<^typ>\<open>nat\<close>.
\<close>

fun crockford_emit :: "nat \<Rightarrow> u32 \<Rightarrow> nat \<Rightarrow> string \<Rightarrow> nat \<times> string \<times> bool" where
  "crockford_emit chars buffer bits out =
     (if 5 \<le> bits then
        let bits' = bits - 5; out' = out @ [crockford_digit (drop_bit bits' buffer)] in
        if length out' = chars then (bits', out', True) else crockford_emit chars buffer bits' out'
      else (bits, out, False))"

declare crockford_emit.simps [simp del]

fun crockford_bytes :: "nat \<Rightarrow> u8 list \<Rightarrow> u32 \<Rightarrow> nat \<Rightarrow> string \<Rightarrow> string" where
  "crockford_bytes chars [] buffer bits out =
     (if 0 < bits \<and> length out < chars then out @ [crockford_digit (push_bit (5 - bits) buffer)] else out)"
| "crockford_bytes chars (byte # bytes) buffer bits out =
     (let buffer' = push_bit 8 buffer OR ucast byte in
      case crockford_emit chars buffer' (bits + 8) out of
        (bits', out', done) \<Rightarrow> if done then out' else crockford_bytes chars bytes buffer' bits' out')"

definition to_crockford :: "u8 list \<Rightarrow> nat \<Rightarrow> string" where
  "to_crockford bytes chars = crockford_bytes chars bytes 0 0 []"

text \<open>The five bytes are those the operating system's random source delivered.\<close>

definition generate_pairing_code :: "u8 list \<Rightarrow> string" where
  "generate_pairing_code bytes = to_crockford bytes 6"

subsection \<open>The reference: digits of the bit string\<close>

definition byte_bits :: "u8 \<Rightarrow> bool list" where
  "byte_bits b = map (bit b) (rev [0..<8])"

definition bits_of_bytes :: "u8 list \<Rightarrow> bool list" where
  "bits_of_bytes bs = concat (map byte_bits bs)"

definition digit_of_bits :: "bool list \<Rightarrow> char" where
  "digit_of_bits bs = CROCKFORD ! foldl (\<lambda>n b. 2 * n + of_bool b) 0 bs"

text \<open>Groups of five bits, the last one filled up with zeros.\<close>

function crockford_ref :: "bool list \<Rightarrow> string" where
  "crockford_ref bs =
     (if bs = [] then [] else digit_of_bits (take 5 (bs @ replicate 4 False)) # crockford_ref (drop 5 bs))"
  by pat_completeness auto
termination by (relation "measure length") auto

declare crockford_ref.simps [simp del]

text \<open>The pending bits of the loop are the low bits of the buffer.\<close>

definition pending :: "u32 \<Rightarrow> bool list \<Rightarrow> bool" where
  "pending buffer p = (length p \<le> 12 \<and> (\<forall>i < length p. bit buffer i = rev p ! i))"

lemma crockford_ref_simps [simp]:
  "crockford_ref [] = []"
  "bs \<noteq> [] \<Longrightarrow> crockford_ref bs = digit_of_bits (take 5 (bs @ replicate 4 False)) # crockford_ref (drop 5 bs)"
  by (simp_all add: crockford_ref.simps [of bs] crockford_ref.simps [of "[]"])

lemma list5:
  "length p = 5 \<Longrightarrow> p = [p ! 0, p ! 1, p ! 2, p ! 3, p ! 4]"
  by (auto simp: list_eq_iff_nth_eq numeral_eq_Suc less_Suc_eq)

lemma and_31_bits:
  "unat (w AND (0x1f :: u32)) =
     foldl (\<lambda>n b. 2 * n + of_bool b) 0 [bit w 4, bit w 3, bit w 2, bit w 1, bit w 0]"
proof -
  have "w AND 0x1f = take_bit 5 w"
    by (simp add: take_bit_eq_mask mask_eq_exp_minus_1)
  then have "unat (w AND 0x1f) = take_bit 5 (unat w)"
    by (simp add: unsigned_take_bit_eq)
  also have "\<dots> = horner_sum of_bool 2 (map (bit (unat w)) [0..<5])"
    by (simp add: horner_sum_bit_eq_take_bit)
  also have "\<dots> = foldl (\<lambda>n b. 2 * n + of_bool b) 0 [bit w 4, bit w 3, bit w 2, bit w 1, bit w 0]"
    by (simp add: upt_rec bit_unsigned_iff numeral_eq_Suc)
  finally show ?thesis .
qed

lemma crockford_digit_bits:
  "crockford_digit w = digit_of_bits [bit w 4, bit w 3, bit w 2, bit w 1, bit w 0]"
  unfolding crockford_digit_def digit_of_bits_def and_31_bits ..

lemma pending_prefix: "pending buffer (p @ q) \<Longrightarrow> pending buffer q"
  by (auto simp: pending_def nth_append)

lemma pending_digit:
  assumes "pending buffer (p @ q)" "length p = 5"
  shows "crockford_digit (drop_bit (length q) buffer) = digit_of_bits p"
proof -
  have b: "bit buffer (length q + i) = p ! (4 - i)" if "i < 5" for i
    using assms that by (simp add: pending_def nth_append rev_nth)
  have "[p ! 0, p ! 1, p ! 2, p ! 3, p ! 4] = p" using list5 [OF assms(2)] by simp
  then show ?thesis
    using b [of 0] b [of 1] b [of 2] b [of 3] b [of 4]
    by (simp add: crockford_digit_bits bit_drop_bit_eq)
qed

lemma pending_byte:
  assumes "pending buffer p" "length p < 5"
  shows "pending (push_bit 8 buffer OR ucast byte) (p @ byte_bits byte)"
proof -
  have len: "length (byte_bits byte) = 8" by (simp add: byte_bits_def)
  have low: "rev (byte_bits byte) ! i = bit byte i" if "i < 8" for i
    using that by (simp add: byte_bits_def rev_map)
  have "bit (push_bit 8 buffer OR ucast byte) i = rev (p @ byte_bits byte) ! i"
    if i: "i < length (p @ byte_bits byte)" for i
  proof (cases "i < 8")
    case True
    then show ?thesis using low [of i] len by (simp add: bit_simps nth_append)
  next
    case False
    moreover from False i assms(2) len have "i < 13" "i - 8 < length p" by auto
    ultimately show ?thesis
      using assms(1) len by (auto simp: bit_simps nth_append pending_def dest: bit_imp_le_length)
  qed
  with assms(2) len show ?thesis by (simp add: pending_def)
qed

lemma pending_last:
  assumes "pending buffer p" "p \<noteq> []" "length p < 5"
  shows "[crockford_digit (push_bit (5 - length p) buffer)] = crockford_ref p"
proof -
  let ?k = "5 - length p"
  have "pending (push_bit ?k buffer) (p @ replicate ?k False)"
    using assms(1,3) by (auto simp: pending_def bit_simps nth_append)
  from pending_digit [of _ _ "[]", simplified, OF this]
  have "crockford_digit (push_bit ?k buffer) = digit_of_bits (p @ replicate ?k False)"
    using assms(3) by simp
  moreover have "take 5 (p @ replicate 4 False) = p @ replicate ?k False"
    using assms(2,3) by (cases p) auto
  ultimately show ?thesis using assms(2,3) by simp
qed

lemma crockford_ref_group:
  "length g = 5 \<Longrightarrow> crockford_ref (g @ bs) = digit_of_bits g # crockford_ref bs"
  by (cases g) auto

lemma crockford_emit_ref:
  assumes "pending buffer p" "length out < chars"
    and "crockford_emit chars buffer (length p) out = (b, out', fin)"
  shows "if fin then out' = out @ take (chars - length out) (crockford_ref (p @ bs))
    else \<exists>q. b = length q \<and> length q < 5 \<and> pending buffer q \<and> length out' < chars \<and>
      out' @ take (chars - length out') (crockford_ref (q @ bs)) =
      out @ take (chars - length out) (crockford_ref (p @ bs))"
  using assms
proof (induction "length p" arbitrary: p out rule: less_induct)
  case less
  show ?case
  proof (cases "length p < 5")
    case True
    with less.prems show ?thesis by (subst (asm) crockford_emit.simps) auto
  next
    case False
    define g q where "g = take 5 p" and "q = drop 5 p"
    have p: "p = g @ q" "length g = 5" using False by (auto simp: g_def q_def)
    let ?out = "out @ [digit_of_bits g]"
    have digit: "crockford_digit (drop_bit (length q) buffer) = digit_of_bits g"
      using less.prems(1) p pending_digit by blast
    have q: "pending buffer q" using less.prems(1) p pending_prefix by blast
    have ref: "out @ take (chars - length out) (crockford_ref (p @ bs)) =
        ?out @ take (chars - length ?out) (crockford_ref (q @ bs))"
      using less.prems(2) p by (simp add: crockford_ref_group Suc_diff_Suc [symmetric])
    show ?thesis
    proof (cases "length ?out = chars")
      case True
      with less.prems(3) p digit have "out' = ?out" "fin"
        by (subst (asm) crockford_emit.simps; simp)+
      with ref True show ?thesis by simp
    next
      case False
      with less.prems(3) p digit have "crockford_emit chars buffer (length q) ?out = (b, out', fin)"
        by (subst (asm) crockford_emit.simps) simp
      from less.hyps [OF _ q _ this] p False less.prems(2) show ?thesis unfolding ref by simp
    qed
  qed
qed

lemma crockford_bytes_ref:
  assumes "pending buffer p" "length p < 5" "length out < chars"
  shows "crockford_bytes chars bytes buffer (length p) out =
    out @ take (chars - length out) (crockford_ref (p @ bits_of_bytes bytes))"
  using assms
proof (induction bytes arbitrary: buffer p out)
  case Nil
  then show ?case using pending_last [OF Nil(1)] by (cases p) (auto simp: bits_of_bytes_def)
next
  case (Cons byte bytes)
  let ?buffer = "push_bit 8 buffer OR ucast byte"
  have p: "pending ?buffer (p @ byte_bits byte)" by (rule pending_byte [OF Cons.prems(1,2)])
  have len: "length (p @ byte_bits byte) = length p + 8" by (simp add: byte_bits_def)
  obtain b out' fin where e: "crockford_emit chars ?buffer (length p + 8) out = (b, out', fin)"
    by (metis prod_cases3)
  from crockford_emit_ref [OF p Cons.prems(3) e [folded len], of "bits_of_bytes bytes"]
  show ?case
    by (cases fin) (use e Cons.IH in \<open>auto simp: bits_of_bytes_def\<close>)
qed

lemma to_crockford_ref:
  "to_crockford bytes (Suc n) = take (Suc n) (crockford_ref (bits_of_bytes bytes))"
  using crockford_bytes_ref [of 0 "[]" "[]" "Suc n"] by (simp add: to_crockford_def pending_def)

text \<open>
  The bit-buffer encoder computes Crockford base 32. For every byte string and every
  positive length, \<open>to_crockford\<close>, with its 32-bit shift buffer, its two nested loops and its
  early return, yields the first \<open>chars\<close> digits of the bit string, read in groups of five
  from the most significant bit and filled up with zeros at the end.
\<close>

lemma to_crockford_is_base32:
  "to_crockford bytes (Suc n) = take (Suc n) (crockford_ref (bits_of_bytes bytes))"
  by (rule to_crockford_ref)

lemma digit_of_bits_inject:
  assumes "length a = 5" "length b = 5" "digit_of_bits a = digit_of_bits b"
  shows "a = b"
proof -
  have all: "list_all (\<lambda>x. list_all (\<lambda>y. digit_of_bits x = digit_of_bits y \<longrightarrow> x = y)
      (List.n_lists 5 [False, True])) (List.n_lists 5 [False, True])"
    by code_simp
  have "a \<in> set (List.n_lists 5 [False, True])" "b \<in> set (List.n_lists 5 [False, True])"
    using assms(1,2) by (auto simp: set_n_lists)
  with all assms(3) show ?thesis by (simp add: list_all_iff)
qed

lemma digit_of_bits_alphabet: "length a = 5 \<Longrightarrow> digit_of_bits a \<in> set CROCKFORD"
proof -
  have all: "list_all (\<lambda>x. List.member CROCKFORD (digit_of_bits x)) (List.n_lists 5 [False, True])"
    by code_simp
  assume "length a = 5"
  then have "a \<in> set (List.n_lists 5 [False, True])" by (auto simp: set_n_lists)
  with all show ?thesis by (simp add: list_all_iff)
qed

text \<open>The five-bit groups of a whole number of groups.\<close>

lemma crockford_ref_groups:
  "length bs = 5 * n \<Longrightarrow> length (crockford_ref bs) = n \<and> set (crockford_ref bs) \<subseteq> set CROCKFORD"
proof (induction n arbitrary: bs)
  case (Suc n)
  then obtain g r where b: "bs = g @ r" "length g = 5" "length r = 5 * n"
    by (metis append_take_drop_id length_drop length_take min.absorb2 le_add1 mult_Suc_right add_diff_cancel_left')
  with Suc.IH [of r] digit_of_bits_alphabet [of g] show ?case by (simp add: crockford_ref_group)
qed simp

lemma crockford_ref_inject:
  "length a = 5 * n \<Longrightarrow> length b = 5 * n \<Longrightarrow> crockford_ref a = crockford_ref b \<Longrightarrow> a = b"
proof (induction n arbitrary: a b)
  case (Suc n)
  obtain g r where a: "a = g @ r" "length g = 5" "length r = 5 * n"
    by (metis Suc.prems(1) append_take_drop_id length_drop length_take min.absorb2 le_add1 mult_Suc_right add_diff_cancel_left')
  obtain h t where b: "b = h @ t" "length h = 5" "length t = 5 * n"
    by (metis Suc.prems(2) append_take_drop_id length_drop length_take min.absorb2 le_add1 mult_Suc_right add_diff_cancel_left')
  from Suc.prems(3) a b have "digit_of_bits g = digit_of_bits h" "crockford_ref r = crockford_ref t"
    by (simp_all add: crockford_ref_group)
  with Suc.IH [OF a(3) b(3)] digit_of_bits_inject [OF a(2) b(2)] a b show ?case by simp
qed simp

lemma take_crockford_ref: "take n (crockford_ref bs) = take n (crockford_ref (take (5 * n) bs))"
proof (induction n arbitrary: bs)
  case (Suc n)
  have "take 5 (take (5 + 5 * n) bs @ replicate 4 False) = take 5 (bs @ replicate 4 False)"
    by (cases "length bs < 5") auto
  moreover have "drop 5 (take (5 + 5 * n) bs) = take (5 * n) (drop 5 bs)"
    by (simp add: drop_take)
  ultimately show ?case
    using Suc [of "drop 5 bs"] by (cases "bs = []") simp_all
qed simp

text \<open>
  A pairing code has 30 bits of entropy. The code made of the five random bytes has six
  characters, all of the Crockford alphabet, and two random draws give the same code exactly
  when their first 30 bits are the same: no bit of them is lost.
\<close>

lemma pairing_code_30_bits:
  assumes "length b1 = 5" "length b2 = 5"
  shows "length (generate_pairing_code b1) = 6 \<and> set (generate_pairing_code b1) \<subseteq> set CROCKFORD \<and>
    (generate_pairing_code b1 = generate_pairing_code b2 \<longleftrightarrow>
       take 30 (bits_of_bytes b1) = take 30 (bits_of_bytes b2))"
proof -
  have code: "generate_pairing_code b = crockford_ref (take 30 (bits_of_bytes b))"
    and len: "length (take 30 (bits_of_bytes b)) = 5 * 6" if "length b = 5" for b
  proof -
    have "length (bits_of_bytes b) = 40"
      using that by (simp add: bits_of_bytes_def length_concat comp_def byte_bits_def sum_list_triv)
    then show l: "length (take 30 (bits_of_bytes b)) = 5 * 6" by simp
    have "generate_pairing_code b = take 6 (crockford_ref (bits_of_bytes b))"
      using to_crockford_ref [of b 5] by (simp add: generate_pairing_code_def)
    also have "\<dots> = take 6 (crockford_ref (take 30 (bits_of_bytes b)))"
      by (subst take_crockford_ref) simp
    also have "\<dots> = crockford_ref (take 30 (bits_of_bytes b))"
      using crockford_ref_groups [OF l] by simp
    finally show "generate_pairing_code b = crockford_ref (take 30 (bits_of_bytes b))" .
  qed
  from crockford_ref_groups [OF len [OF assms(1)]] crockford_ref_inject [OF len len]
  show ?thesis by (auto simp: code assms)
qed

lemma pairing_code_30_bits_witness:
  "length (generate_pairing_code [1, 2, 3, 4, 5]) = 6 \<and>
   (generate_pairing_code [1, 2, 3, 4, 5] = generate_pairing_code [1, 2, 3, 4, 255] \<longleftrightarrow>
     take 30 (bits_of_bytes [1, 2, 3, 4, 5]) = take 30 (bits_of_bytes [1, 2, 3, 4, 255]))"
  using pairing_code_30_bits [of "[1, 2, 3, 4, 5]" "[1, 2, 3, 4, 255]"]
  unfolding list.size by simp

text \<open>
  A chat push is parsed as a whole or not at all. The parse succeeds exactly when
  \<open>conversations\<close> is an array all of whose elements decode, and then gives their decodings in
  order; otherwise it fails, and with the decoder's error on the first bad element when there
  is an array.
\<close>

lemma chat_push_all_or_nothing:
  "(parse_chat_push_params f params = Ok convs \<longleftrightarrow>
     (\<exists>cs. json_get params ''conversations'' = Some (JArr cs) \<and> map f cs = map Ok convs)) \<and>
   (parse_chat_push_params f params = Err m \<longleftrightarrow>
     (case json_get params ''conversations'' of
        Some (JArr cs) \<Rightarrow> (\<exists>ys c zs e. cs = ys @ c # zs \<and> list_all (\<lambda>y. is_ok (f y)) ys \<and> f c = Err e \<and>
          m = ''invalid conversation entry: '' @ e)
      | _ \<Rightarrow> m = ''sync.chat.push params.conversations must be an array''))"
proof -
  have arr: "as_array j = Some cs \<longleftrightarrow> j = JArr cs" for j cs by (cases j) auto
  have all2: "list_all2 (\<lambda>c v. f c = Inr v) cs vs \<longleftrightarrow> map f cs = map Inr vs" for cs vs
    by (simp add: list_all2_conv_all_nth list_eq_iff_nth_eq) (metis nth_map)
  have "parse_chat_push_params f params = Ok convs \<longleftrightarrow>
     (\<exists>cs. json_get params ''conversations'' = Some (JArr cs) \<and> map f cs = map Ok convs)"
    by (auto simp: parse_chat_push_params_def decode_entries_Ok all2 arr bind_eq_Some_conv split: option.splits)
  moreover have "parse_chat_push_params f params = Err m \<longleftrightarrow>
     (case json_get params ''conversations'' of
        Some (JArr cs) \<Rightarrow> (\<exists>ys c zs e. cs = ys @ c # zs \<and> list_all (\<lambda>y. is_ok (f y)) ys \<and> f c = Err e \<and>
          m = ''invalid conversation entry: '' @ e)
      | _ \<Rightarrow> m = ''sync.chat.push params.conversations must be an array'')"
    by (auto simp: parse_chat_push_params_def decode_entries_Err list_all_iff split: option.splits json.splits)
  ultimately show ?thesis by blast
qed

end
