(* ===== verification/Tasks.thy ===== *)
theory Tasks
  imports Bridge_Prelude
begin

text \<open>
  \<open>daemon-core/src/task_registry.rs\<close>: the process-wide task list and cancellation table, and
  the registry of the native UI. A \<open>CancellationToken\<close> and a child process are numbers;
  \<open>cancelled\<close> and \<open>killed\<close> record which have been signalled. Instants are the clock value
  read by the operation.
\<close>

type_synonym uuid = string

datatype task_kind = ShellExec | FileRead | FileWrite | DbProxy | OtherKind string

datatype task_status = Running | Cancelling | Completed "int option" | Failed string | Killed

record task_state =
  task_id :: uuid
  task_kind_of :: task_kind
  task_description :: string
  task_status_of :: task_status
  started_at :: nat
  finished_at :: "nat option"

datatype task_handle = ChildProcess nat | CancellableFuture nat

record task_globals =
  shared_tasks :: "task_state list"
  shared_cancellations :: "(uuid \<times> nat) list"
  cancelled :: "nat list"
  killed :: "nat list"

definition globals_init :: task_globals where
  "globals_init = \<lparr>shared_tasks = [], shared_cancellations = [], cancelled = [], killed = []\<rparr>"

fun is_terminal :: "task_status \<Rightarrow> bool" where
  "is_terminal (Completed _) = True"
| "is_terminal (Failed _) = True"
| "is_terminal Killed = True"
| "is_terminal _ = False"

section \<open>The shared table\<close>

definition register_global_cancellation :: "uuid \<Rightarrow> nat \<Rightarrow> task_globals \<Rightarrow> task_globals" where
  "register_global_cancellation i tok g =
     g\<lparr>shared_cancellations := assoc_insert i tok (shared_cancellations g)\<rparr>"

definition cancel_global_task :: "uuid \<Rightarrow> task_globals \<Rightarrow> task_globals \<times> bool" where
  "cancel_global_task i g =
     (case map_of (shared_cancellations g) i of
        Some tok \<Rightarrow> (g\<lparr>cancelled := tok # cancelled g\<rparr>, True)
      | None \<Rightarrow> (g, False))"

definition unregister_global_cancellation :: "uuid \<Rightarrow> task_globals \<Rightarrow> task_globals" where
  "unregister_global_cancellation i g =
     g\<lparr>shared_cancellations := assoc_remove i (shared_cancellations g)\<rparr>"

fun replace_task :: "task_state \<Rightarrow> task_state list \<Rightarrow> task_state list option" where
  "replace_task s [] = None"
| "replace_task s (t # ts) =
     (if task_id t = task_id s then Some (s # ts) else map_option ((#) t) (replace_task s ts))"

definition MAX_SHARED_TASKS :: nat where
  "MAX_SHARED_TASKS = 200"

definition record_global_task :: "task_state \<Rightarrow> task_globals \<Rightarrow> task_globals" where
  "record_global_task s g =
     (let ts = (case replace_task s (shared_tasks g) of
                  Some ts' \<Rightarrow> ts'
                | None \<Rightarrow> shared_tasks g @ [s])
      in g\<lparr>shared_tasks := (if length ts > MAX_SHARED_TASKS then drop (length ts - MAX_SHARED_TASKS) ts else ts)\<rparr>)"

fun set_status :: "nat \<Rightarrow> uuid \<Rightarrow> task_status \<Rightarrow> task_state list \<Rightarrow> task_state list" where
  "set_status now i st [] = []"
| "set_status now i st (t # ts) =
     (if task_id t = i
      then t\<lparr>task_status_of := st, finished_at := (if is_terminal st then Some now else None)\<rparr> # ts
      else t # set_status now i st ts)"

definition update_global_task :: "nat \<Rightarrow> uuid \<Rightarrow> task_status \<Rightarrow> task_globals \<Rightarrow> task_globals" where
  "update_global_task now i st g =
     (let g1 = g\<lparr>shared_tasks := set_status now i st (shared_tasks g)\<rparr>
      in if is_terminal st then unregister_global_cancellation i g1 else g1)"

definition finish_global_task :: "nat \<Rightarrow> uuid \<Rightarrow> task_status \<Rightarrow> task_globals \<Rightarrow> task_globals" where
  "finish_global_task now i st g = update_global_task now i st g"

section \<open>The UI registry\<close>

record task_registry =
  max_capacity :: nat
  reg_states :: "task_state list"
  reg_handles :: "(uuid \<times> task_handle) list"

definition registry_new :: "nat \<Rightarrow> task_registry" where
  "registry_new cap = \<lparr>max_capacity = cap, reg_states = [], reg_handles = []\<rparr>"

definition spawn_task ::
    "task_state \<Rightarrow> task_handle \<Rightarrow> task_registry \<times> task_globals \<Rightarrow> task_registry \<times> task_globals" where
  "spawn_task s h rg =
     (case rg of (r, g) \<Rightarrow>
        let sts = (if length (reg_states r) \<ge> max_capacity r then tl (reg_states r) else reg_states r)
        in (r\<lparr>reg_states := sts @ [s], reg_handles := assoc_insert (task_id s) h (reg_handles r)\<rparr>,
            record_global_task s g))"

definition registry_states :: "task_registry \<times> task_globals \<Rightarrow> task_registry \<times> task_globals" where
  "registry_states rg = (case rg of (r, g) \<Rightarrow> (r\<lparr>reg_states := shared_tasks g\<rparr>, g))"

definition mark_status ::
    "nat \<Rightarrow> uuid \<Rightarrow> task_status \<Rightarrow> task_registry \<times> task_globals \<Rightarrow> task_registry \<times> task_globals" where
  "mark_status now i st rg =
     (case rg of (r, g) \<Rightarrow>
        let r1 = r\<lparr>reg_states := set_status now i st (reg_states r)\<rparr>;
            r2 = (if is_terminal st then r1\<lparr>reg_handles := assoc_remove i (reg_handles r1)\<rparr> else r1)
        in (r2, update_global_task now i st g))"

definition kill_task ::
    "nat \<Rightarrow> uuid \<Rightarrow> task_registry \<times> task_globals \<Rightarrow> (task_registry \<times> task_globals) \<times> bool" where
  "kill_task now i rg =
     (case rg of (r, g) \<Rightarrow>
        (case map_of (reg_handles r) i of
           Some h \<Rightarrow>
             (let r1 = r\<lparr>reg_handles := assoc_remove i (reg_handles r)\<rparr> in
              (case h of
                 ChildProcess c \<Rightarrow> (mark_status now i Killed (r1, g\<lparr>killed := c # killed g\<rparr>), True)
               | CancellableFuture tok \<Rightarrow>
                   (mark_status now i Cancelling (r1, g\<lparr>cancelled := tok # cancelled g\<rparr>), True)))
         | None \<Rightarrow>
             (case cancel_global_task i g of
                (g', True) \<Rightarrow> (mark_status now i Cancelling (r, g'), True)
              | (g', False) \<Rightarrow> ((r, g'), False))))"

definition still_fresh :: "nat \<Rightarrow> nat \<Rightarrow> task_state \<Rightarrow> bool" where
  "still_fresh now ttl t = (case finished_at t of Some f \<Rightarrow> now - f < ttl | None \<Rightarrow> True)"

definition cleanup_stale_tasks ::
    "nat \<Rightarrow> nat \<Rightarrow> task_registry \<times> task_globals \<Rightarrow> task_registry \<times> task_globals" where
  "cleanup_stale_tasks now ttl rg =
     (case rg of (r, g) \<Rightarrow>
        (r\<lparr>reg_states := filter (still_fresh now ttl) (reg_states r)\<rparr>,
         g\<lparr>shared_tasks := filter (still_fresh now ttl) (shared_tasks g)\<rparr>))"

section \<open>Lemmas\<close>

definition task_inv :: "task_globals \<Rightarrow> bool" where
  "task_inv g \<longleftrightarrow> distinct (map task_id (shared_tasks g)) \<and> length (shared_tasks g) \<le> MAX_SHARED_TASKS"

lemma replace_task_None: "replace_task s ts = None \<longleftrightarrow> task_id s \<notin> task_id ` set ts"
  by (induction ts) auto

lemma replace_task_Some: "replace_task s ts = Some ts' \<Longrightarrow> map task_id ts' = map task_id ts \<and> s \<in> set ts'"
  by (induction ts arbitrary: ts') (auto split: if_splits)

lemma map_task_id_set_status [simp]: "map task_id (set_status now i st ts) = map task_id ts"
  by (induction ts) auto

lemma length_set_status [simp]: "length (set_status now i st ts) = length ts"
  by (induction ts) auto

lemma record_global_task_inv: "task_inv g \<Longrightarrow> task_inv (record_global_task s g)"
proof -
  assume inv: "task_inv g"
  show ?thesis
  proof (cases "replace_task s (shared_tasks g)")
    case None
    then have "distinct (map task_id (shared_tasks g @ [s]))"
      using inv by (auto simp: replace_task_None task_inv_def)
    then have "distinct (map task_id (drop n (shared_tasks g @ [s])))" for n
      using distinct_drop [of "map task_id (shared_tasks g @ [s])" n] by (simp only: drop_map)
    from this [of 0] this show ?thesis using None inv
      by (simp add: task_inv_def record_global_task_def Let_def del: drop_append)
  next
    case (Some ts')
    from replace_task_Some [OF Some] have ids: "map task_id ts' = map task_id (shared_tasks g)" by simp
    then have "length ts' = length (shared_tasks g)" by (metis length_map)
    then show ?thesis using Some inv ids
      by (simp add: task_inv_def record_global_task_def Let_def)
  qed
qed

lemma update_global_task_inv: "task_inv g \<Longrightarrow> task_inv (update_global_task now i st g)"
  by (simp add: task_inv_def update_global_task_def unregister_global_cancellation_def Let_def)

lemma recorded_present: "task_inv g \<Longrightarrow> s \<in> set (shared_tasks (record_global_task s g))"
proof (cases "replace_task s (shared_tasks g)")
  case (Some ts')
  assume "task_inv g"
  moreover have "length ts' = length (shared_tasks g)" "s \<in> set ts'"
    using replace_task_Some [OF Some] by (metis length_map)+
  ultimately show ?thesis using Some
    by (simp add: record_global_task_def task_inv_def Let_def)
qed (auto simp: record_global_task_def Let_def MAX_SHARED_TASKS_def)

section \<open>Properties\<close>

text \<open>
  The shared task list stays bounded and free of duplicates: recording a task and every
  status change keep at most 200 entries with pairwise different ids, and the recorded task
  is always among them, however full the list was.
\<close>

lemma task_list_invariant:
  assumes "task_inv g"
  shows "task_inv (record_global_task s g) \<and> s \<in> set (shared_tasks (record_global_task s g)) \<and>
    task_inv (update_global_task now i st g)"
  using assms by (simp add: record_global_task_inv update_global_task_inv recorded_present)

definition demo_task :: task_state where
  "demo_task = \<lparr>task_id = ''t'', task_kind_of = FileRead, task_description = '''',
     task_status_of = Running, started_at = 0, finished_at = None\<rparr>"

lemma task_list_invariant_witness:
  "task_inv globals_init \<and> task_inv (record_global_task demo_task globals_init)"
proof -
  have h: "task_inv globals_init" by (simp add: task_inv_def globals_init_def)
  from task_list_invariant [OF h] h show ?thesis by blast
qed

text \<open>
  Killing a cancellable task only signals it. The call reports success, the task's token
  is cancelled, no process is killed, and the shared entry reads \<open>Cancelling\<close> without a
  finish time; once the executor reports a terminal status the cancellation entry is gone,
  so a second kill of the finished task reports failure and signals nothing.
\<close>

lemma kill_cancellable_then_finish:
  assumes "map_of (reg_handles r) i = None" and "map_of (shared_cancellations g) i = Some tok"
    and "is_terminal st"
    and k: "k = kill_task now i (r, g)"
    and f: "f = finish_global_task now' i st (snd (fst k))"
  shows "snd k \<and> tok \<in> set (cancelled (snd (fst k))) \<and> killed (snd (fst k)) = killed g \<and>
    shared_tasks (snd (fst k)) = set_status now i Cancelling (shared_tasks g) \<and>
    kill_task now'' i (fst (fst k), f) = ((fst (fst k), f), False)"
  using assms(1-3)
  by (simp add: k f kill_task_def cancel_global_task_def mark_status_def
      update_global_task_def finish_global_task_def unregister_global_cancellation_def Let_def)

lemma kill_cancellable_then_finish_witness:
  "snd (kill_task 5 ''t'' (registry_new 10, register_global_cancellation ''t'' 7 globals_init))"
proof -
  have a: "map_of (reg_handles (registry_new 10)) ''t'' = None" by (simp add: registry_new_def)
  have b: "map_of (shared_cancellations (register_global_cancellation ''t'' 7 globals_init)) ''t'' = Some 7"
    by (simp add: register_global_cancellation_def globals_init_def)
  have c: "is_terminal Killed" by simp
  from kill_cancellable_then_finish [OF a b c refl refl] show ?thesis by blast
qed

end
