(* ===== verification/Ws_Support.thy ===== *)
theory Ws_Support
  imports Protocol Tasks
begin

text \<open>
  The pure decisions of the WebSocket client (\<open>daemon-core/src/ws_client.rs\<close>): the scope an
  action needs, the task kind it is shown as, the redaction of the audit line, the shell
  tripwire, the zombie verdict and the reconnect backoff.
\<close>

section \<open>Scopes and task kinds\<close>

definition op_param :: "json \<Rightarrow> string option" where
  "op_param params = Option.bind (json_get params ''op'') as_str"

definition required_scope :: "action_request_frame \<Rightarrow> string" where
  "required_scope r =
     (let cap = ar_capability r; op = op_param (ar_params r); is = (\<lambda>names. list_ex (\<lambda>n. n = cap) names) in
      if is [''desktop.fs.patch'', ''desktop.code.ast_edit''] then ''desktop.fs.write''
      else if is [''desktop.code.ast_grep''] then ''desktop.fs.read''
      else if is [''desktop.code.eval'', ''desktop.lsp.rename''] then ''desktop.shell.execute''
      else if is [''desktop.lsp.diagnostics'', ''desktop.lsp.hover'', ''desktop.lsp.definition''] then ''desktop.fs.read''
      else if is [''desktop.memory.recall'', ''desktop.memory.stats''] then ''desktop.fs.read''
      else if is [''desktop.git.overview'', ''desktop.git.diff''] then ''desktop.fs.read''
      else if is [''desktop.tools.manifest''] then ''desktop.fs.read''
      else if is [''desktop.memory.remember'', ''desktop.memory.forget'', ''desktop.memory.reflect''] then ''desktop.fs.write''
      else if is [''desktop.proc.op''] then
        (if op = Some ''signal'' then ''desktop.process.kill''
         else if op = Some ''probe'' then ''desktop.network.fetch''
         else if op = Some ''start'' then ''desktop.shell.execute''
         else ''desktop.fs.read'')
      else if is [''desktop.pty.op''] then ''desktop.shell.execute''
      else if is [''desktop.browser.launch'', ''desktop.browser.nav''] then ''desktop.network.fetch''
      else if is [''desktop.browser.act''] then ''desktop.shell.execute''
      else if is [''desktop.browser.snapshot'', ''desktop.browser.shot'', ''desktop.browser.wait'',
                  ''desktop.browser.close'', ''desktop.browser.eval''] then ''desktop.fs.read''
      else if is [''desktop.browser.tab_open'', ''desktop.browser.tab_select'', ''desktop.browser.tab_close'',
                  ''desktop.browser.mock_set''] then ''desktop.network.fetch''
      else if is [''desktop.browser.tab_list''] then ''desktop.fs.read''
      else if is [''desktop.os.snapshot'', ''desktop.os.apps'', ''desktop.os.available''] then ''desktop.fs.read''
      else if is [''desktop.os.act''] then ''desktop.shell.execute''
      else if is [''desktop.mcp.op''] then
        (if op = Some ''status'' then ''desktop.fs.read''
         else if op = Some ''stop'' then ''desktop.process.kill''
         else ''desktop.shell.execute'')
      else if is [''desktop.debug.op''] then
        (if list_ex (\<lambda>o'. op = Some o') [''start'', ''eval'', ''continue'', ''step'', ''pause'']
         then ''desktop.shell.execute'' else ''desktop.fs.read'')
      else if is [''desktop.checkpoint.list''] then ''desktop.fs.read''
      else if is [''desktop.fs.restore''] then ''self''
      else cap)"

definition task_kind_of_capability :: "string \<Rightarrow> task_kind" where
  "task_kind_of_capability cap =
     (let is = (\<lambda>names. list_ex (\<lambda>n. n = cap) names) in
      if is [''desktop.shell.execute''] then ShellExec
      else if is [''desktop.fs.read''] then FileRead
      else if is [''desktop.fs.write'', ''desktop.fs.delete'', ''desktop.fs.patch'', ''desktop.code.ast_edit'',
                  ''desktop.fs.restore''] then FileWrite
      else if is [''desktop.code.ast_grep''] then FileRead
      else if is [''desktop.code.eval'', ''desktop.lsp.rename''] then ShellExec
      else if is [''desktop.lsp.diagnostics'', ''desktop.lsp.hover'', ''desktop.lsp.definition''] then FileRead
      else if is [''desktop.memory.remember'', ''desktop.memory.recall'', ''desktop.memory.forget'',
                  ''desktop.memory.reflect'', ''desktop.memory.stats''] then DbProxy
      else if is [''desktop.git.overview'', ''desktop.git.diff''] then FileRead
      else if is [''sync.chat.push''] then DbProxy
      else OtherKind cap)"

section \<open>Redaction of the audit line\<close>

definition SENSITIVE :: "string list" where
  "SENSITIVE = [''content'', ''content_base64'', ''replacement'', ''replacementcontent'', ''targetcontent'',
     ''code'', ''command'', ''token'', ''password'', ''secret'', ''apikey'', ''api_key'', ''authorization'',
     ''cookie'', ''body'', ''headers'', ''stdout'', ''stderr'', ''output'', ''diff'']"

definition sensitive_key :: "string \<Rightarrow> bool" where
  "sensitive_key k =
     (let kl = filter (\<lambda>c. c \<noteq> CHR ''_'' \<and> c \<noteq> CHR ''-'') (to_ascii_lowercase k)
      in list_ex (\<lambda>s. kl = s \<or> ends_with kl s) SENSITIVE)"

text \<open>The cut is after the last character that starts before byte 500.\<close>

definition redact_string :: "string \<Rightarrow> string" where
  "redact_string s =
     (if length s > 500
      then take_chars (char_count (take 500 s)) s @ ellipsis @ ''[truncated '' @ nat_to_string (char_count s) @ '' chars]''
      else s)"

fun redact :: "json \<Rightarrow> json" and redact_members :: "(string \<times> json) list \<Rightarrow> (string \<times> json) list"
  and redact_items :: "json list \<Rightarrow> json list" where
  "redact (JObj ms) = JObj (redact_members ms)"
| "redact (JArr xs) = JArr (redact_items xs)"
| "redact (JStr s) = JStr (redact_string s)"
| "redact JNull = JNull"
| "redact (JBool b) = JBool b"
| "redact (JInt i) = JInt i"
| "redact (JFloat t) = JFloat t"
| "redact_members [] = []"
| "redact_members ((k, v) # ms) =
     (k, if sensitive_key k then JStr ''[redacted]'' else redact v) # redact_members ms"
| "redact_items [] = []"
| "redact_items (x # xs) = redact x # redact_items xs"

definition redact_audit_params :: "(json \<Rightarrow> string) \<Rightarrow> json \<Rightarrow> string" where
  "redact_audit_params json_text params = json_text (redact params)"

section \<open>The shell tripwire\<close>

definition DANGEROUS_PATTERNS :: "string list" where
  "DANGEROUS_PATTERNS = [''sudo '', ''sudo'' @ [CHR 0x09], ''rm -rf'', ''rm -fr'', ''rm --no-preserve-root'', ''del /f'',
     ''del /s'', ''remove-item'', ''mkfs'', ''mkfs.'', ''dd '', ''of=/dev/'', '':(){'', ''chmod -r'', ''chmod 777'',
     ''chown -r'', ''format c:'', ''diskpart'', ''shutdown '', ''powershell -enc'', ''powershell -encodedcommand'']"

definition normalise_command :: "string \<Rightarrow> string" where
  "normalise_command command =
     (let lower = to_ascii_lowercase command
      in str_replace (str_replace (str_replace lower ''${ifs}'' '' '') ''$ifs'' '' '') [CHR 0x09] '' '')"

definition contains_dangerous_shell :: "string \<Rightarrow> bool" where
  "contains_dangerous_shell command =
     (let normalised = normalise_command command
      in list_ex (\<lambda>pattern. str_contains normalised pattern) DANGEROUS_PATTERNS)"

section \<open>Watchdog and backoff\<close>

record zombie_verdict =
  z_connected :: bool
  z_consecutive_misses :: u32
  z_kill :: bool

definition zombie_decision :: "bool \<Rightarrow> u32 \<Rightarrow> zombie_verdict" where
  "zombie_decision connected misses =
     \<lparr>z_connected = connected, z_consecutive_misses = misses, z_kill = (connected \<and> 2 \<le> misses)\<rparr>"

fun frame_heartbeat_t :: "bridge_frame \<Rightarrow> nat" where
  "frame_heartbeat_t (Heartbeat h) = hb_t h"
| "frame_heartbeat_t _ = 0"

section \<open>Properties\<close>

text \<open>Two parameter trees that differ at most in the values of members whose key is in \<open>S\<close>.\<close>

fun same_outside :: "(string \<Rightarrow> bool) \<Rightarrow> json \<Rightarrow> json \<Rightarrow> bool"
  and same_members :: "(string \<Rightarrow> bool) \<Rightarrow> (string \<times> json) list \<Rightarrow> (string \<times> json) list \<Rightarrow> bool"
  and same_items :: "(string \<Rightarrow> bool) \<Rightarrow> json list \<Rightarrow> json list \<Rightarrow> bool" where
  "same_outside S (JObj a) j = (case j of JObj b \<Rightarrow> same_members S a b | _ \<Rightarrow> False)"
| "same_outside S (JArr a) j = (case j of JArr b \<Rightarrow> same_items S a b | _ \<Rightarrow> False)"
| "same_outside S (JStr s) j = (j = JStr s)"
| "same_outside S JNull j = (j = JNull)"
| "same_outside S (JBool b) j = (j = JBool b)"
| "same_outside S (JInt i) j = (j = JInt i)"
| "same_outside S (JFloat t) j = (j = JFloat t)"
| "same_members S [] b = (b = [])"
| "same_members S ((k, v) # a) b =
     (case b of [] \<Rightarrow> False
      | (k', v') # b' \<Rightarrow> k = k' \<and> (S k \<or> same_outside S v v') \<and> same_members S a b')"
| "same_items S [] b = (b = [])"
| "same_items S (x # a) b = (case b of [] \<Rightarrow> False | y # b' \<Rightarrow> same_outside S x y \<and> same_items S a b')"

lemma redact_same:
  assumes "\<And>k. S k \<Longrightarrow> sensitive_key k"
  shows "same_outside S a b \<Longrightarrow> redact a = redact b"
  "same_members S ms ns \<Longrightarrow> redact_members ms = redact_members ns"
  "same_items S xs ys \<Longrightarrow> redact_items xs = redact_items ys"
  using assms
proof (induction S a b and S ms ns and S xs ys rule: same_outside_same_members_same_items.induct)
  case (9 S k v a b)
  then show ?case by (cases b) (auto split: prod.splits)
next
  case (11 S x a b)
  then show ?case by (cases b) auto
qed (auto split: json.splits)

text \<open>A key as it is meant: letter case and the separators do not count.\<close>

definition plain_name :: "string \<Rightarrow> string" where
  "plain_name k = [c. c \<leftarrow> to_ascii_lowercase k, c \<notin> {CHR ''_'', CHR ''-''}]"

lemma plain_name_suffix_sensitive:
  assumes "suffix e (plain_name k)" and "e \<in> set SENSITIVE"
  shows "sensitive_key k"
proof -
  have "concat (map (\<lambda>c. if c \<notin> {CHR ''_'', CHR ''-''} then [c] else []) cs) = filter (\<lambda>c. c \<noteq> CHR ''_'' \<and> c \<noteq> CHR ''-'') cs"
    for cs by (induction cs) auto
  then have "plain_name k = filter (\<lambda>c. c \<noteq> CHR ''_'' \<and> c \<noteq> CHR ''-'') (to_ascii_lowercase k)"
    unfolding plain_name_def by blast
  with assms show ?thesis
    by (auto simp: sensitive_key_def Let_def list_ex_iff ends_with_suffix)
qed

text \<open>
  C23. Audit redaction is non-interfering. Let two requests differ only in the values of members
  whose key, letter case and the separators \<open>_\<close> and \<open>-\<close> aside, ends in one of: content,
  replacement, code, command, token, password, secret, apikey, authorization, cookie, body,
  headers, stdout, stderr, output, diff; at any depth, and whatever the values are. Then they are
  written to the audit log as the same line: it carries no information on what those values were.
  The code's own list also names \<open>content_base64\<close>, and that entry protects nothing:
  \<open>content_base64_not_redacted\<close>.
\<close>

theorem redaction_noninterference:
  assumes "same_outside (\<lambda>k. list_ex (\<lambda>e. suffix e (plain_name k))
      [''content'', ''replacement'', ''code'', ''command'', ''token'', ''password'', ''secret'', ''apikey'',
       ''authorization'', ''cookie'', ''body'', ''headers'', ''stdout'', ''stderr'', ''output'', ''diff'']) p q"
  shows "redact_audit_params json_text p = redact_audit_params json_text q"
proof -
  have "sensitive_key k" if "list_ex (\<lambda>e. suffix e (plain_name k))
      [''content'', ''replacement'', ''code'', ''command'', ''token'', ''password'', ''secret'', ''apikey'',
       ''authorization'', ''cookie'', ''body'', ''headers'', ''stdout'', ''stderr'', ''output'', ''diff'']" for k
    using that unfolding list_ex_iff
    by (elim bexE, intro plain_name_suffix_sensitive) (auto simp: SENSITIVE_def)
  from redact_same(1) [OF this assms] show ?thesis by (simp add: redact_audit_params_def)
qed

text \<open>A printer that shows every value, for the demonstration.\<close>

fun show_json :: "json \<Rightarrow> string" and show_members :: "(string \<times> json) list \<Rightarrow> string"
  and show_items :: "json list \<Rightarrow> string" where
  "show_json (JObj ms) = ''{'' @ show_members ms @ ''}''"
| "show_json (JArr xs) = ''['' @ show_items xs @ '']''"
| "show_json (JStr s) = s"
| "show_json JNull = ''null''"
| "show_json (JBool b) = (if b then ''true'' else ''false'')"
| "show_json (JInt i) = nat_to_string (nat i)"
| "show_json (JFloat t) = ''0.0''"
| "show_members [] = []"
| "show_members ((k, v) # ms) = k @ '':'' @ show_json v @ '';'' @ show_members ms"
| "show_items [] = []"
| "show_items (x # xs) = show_json x @ '';'' @ show_items xs"

theorem redaction_noninterference_witness:
  "let request = (\<lambda>key. JObj [(''path'', JStr ''/w''), (''opts'', JArr [JObj [(''api_key'', key)]])]) in
   redact_audit_params show_json (request (JStr ''k1'')) = redact_audit_params show_json (request (JInt 7)) \<and>
   redact_audit_params show_json (request (JInt 7)) = ''{path:/w;opts:[{api_key:[redacted];};];}'' \<and>
   show_json (request (JInt 7)) = ''{path:/w;opts:[{api_key:7;};];}''"
proof -
  let ?request = "\<lambda>key. JObj [(''path'', JStr ''/w''), (''opts'', JArr [JObj [(''api_key'', key)]])]"
  have "redact_audit_params show_json (?request (JStr ''k1'')) = redact_audit_params show_json (?request (JInt 7))"
    by (rule redaction_noninterference) code_simp
  moreover have "redact_audit_params show_json (?request (JInt 7)) = ''{path:/w;opts:[{api_key:[redacted];};];}''"
    "show_json (?request (JInt 7)) = ''{path:/w;opts:[{api_key:7;};];}''"
    by code_simp+
  ultimately show ?thesis unfolding Let_def by blast
qed

text \<open>
  A listed key that is never redacted. The list of sensitive keys names
  \<open>content_base64\<close>, but keys are compared after their underscores are removed, so this entry
  matches no key and the value of \<open>content_base64\<close> is logged.
\<close>

lemma content_base64_not_redacted:
  assumes "length s \<le> 500"
  shows "''content_base64'' \<in> set SENSITIVE \<and>
    redact (JObj [(''content_base64'', JStr s)]) = JObj [(''content_base64'', JStr s)]"
proof -
  have "\<not> sensitive_key ''content_base64''" by code_simp
  then show ?thesis using assms by (simp add: SENSITIVE_def redact_string_def)
qed

lemma content_base64_not_redacted_witness:
  "redact (JObj [(''content_base64'', JStr ''c2VjcmV0'')]) = JObj [(''content_base64'', JStr ''c2VjcmV0'')]"
  using content_base64_not_redacted [of "''c2VjcmV0''"] by simp

end
