(* ===== verification/Consent.thy ===== *)
theory Consent
  imports Bridge_Prelude
begin

text \<open>
  \<open>daemon-core/src/consent.rs\<close>: the consent broker shared by the WebSocket loop and the
  local dialog. A one-shot channel is a number; \<open>delivered\<close> lists what was sent on each. The
  notifier is the queue of the installed decision channel (\<open>None\<close> until one is installed),
  from which the loop receives in order. Every operation holds the mutex for its whole
  body, so operations are atomic; a poisoned mutex is not modelled.
\<close>

definition CONSENT_TIMEOUT_MS :: nat where
  "CONSENT_TIMEOUT_MS = 180000"

record consent_prompt =
  prompt_action_id :: string
  prompt_capability :: string
  prompt_summary :: string
  prompt_path :: "string option"

record consent_answer =
  approved :: bool
  remember :: bool

type_synonym decision_msg = "string \<times> consent_answer"

record consent_broker =
  pending :: "(string \<times> consent_prompt \<times> nat) list"
  next_rx :: nat
  delivered :: "(nat \<times> consent_answer) list"
  notifier :: "decision_msg list option"

definition broker_new :: consent_broker where
  "broker_new = \<lparr>pending = [], next_rx = 0, delivered = [], notifier = None\<rparr>"

definition set_notifier :: "consent_broker \<Rightarrow> consent_broker" where
  "set_notifier b = b\<lparr>notifier := Some []\<rparr>"

definition ask :: "consent_broker \<Rightarrow> consent_prompt \<Rightarrow> consent_broker \<times> nat" where
  "ask b p =
     (let rx = next_rx b in
      (b\<lparr>pending := assoc_insert (prompt_action_id p) (p, rx) (pending b), next_rx := Suc rx\<rparr>, rx))"

definition pending_prompts :: "consent_broker \<Rightarrow> consent_prompt list" where
  "pending_prompts b = map (\<lambda>e. fst (snd e)) (pending b)"

definition answer :: "consent_broker \<Rightarrow> string \<Rightarrow> consent_answer \<Rightarrow> consent_broker \<times> bool" where
  "answer b aid ans =
     (case map_of (pending b) aid of
        Some (p, tx) \<Rightarrow>
          (let b1 = b\<lparr>pending := assoc_remove aid (pending b), delivered := delivered b @ [(tx, ans)]\<rparr>;
               b2 = (case notifier b1 of
                       Some q \<Rightarrow> b1\<lparr>notifier := Some (q @ [(aid, ans)])\<rparr>
                     | None \<Rightarrow> b1)
           in (b2, True))
      | None \<Rightarrow> (b, False))"

text \<open>The receiving end, used by the connection loop.\<close>

definition recv_decision :: "consent_broker \<Rightarrow> (decision_msg \<times> consent_broker) option" where
  "recv_decision b =
     (case notifier b of
        Some (m # q) \<Rightarrow> Some (m, b\<lparr>notifier := Some q\<rparr>)
      | _ \<Rightarrow> None)"

section \<open>The broker's contract\<close>

text \<open>
  What the connection loop relies on: raising a prompt opens it, settling closes it and
  queues its decision exactly once, and neither touches the other prompts.
\<close>

locale consent_desk =
  fixes ready :: "'b \<Rightarrow> bool"
    and is_open :: "'b \<Rightarrow> string \<Rightarrow> bool"
    and raise_prompt :: "'b \<Rightarrow> consent_prompt \<Rightarrow> 'b"
    and settle :: "'b \<Rightarrow> string \<Rightarrow> consent_answer \<Rightarrow> 'b"
    and decisions :: "'b \<Rightarrow> decision_msg list"
  assumes ready_raise: "ready b \<Longrightarrow> ready (raise_prompt b p)"
    and ready_settle: "ready b \<Longrightarrow> ready (settle b i a)"
    and open_raise: "is_open (raise_prompt b p) k = (k = prompt_action_id p \<or> is_open b k)"
    and open_settle: "is_open (settle b i a) k = (k \<noteq> i \<and> is_open b k)"
    and decisions_raise: "decisions (raise_prompt b p) = decisions b"
    and decisions_settle: "ready b \<Longrightarrow>
      decisions (settle b i a) = (if is_open b i then decisions b @ [(i, a)] else decisions b)"
begin

text \<open>A prompt is covered while it waits for an answer or its decision waits in the queue.\<close>

lemma covered_raise:
  "is_open b k \<or> k \<in> fst ` set (decisions b) \<Longrightarrow>
   is_open (raise_prompt b p) k \<or> k \<in> fst ` set (decisions (raise_prompt b p))"
  by (auto simp: open_raise decisions_raise)

lemma covered_settle:
  assumes "ready b" and "is_open b k \<or> k \<in> fst ` set (decisions b)"
  shows "is_open (settle b i a) k \<or> k \<in> fst ` set (decisions (settle b i a))"
  using assms by (auto simp: open_settle decisions_settle)

lemma settle_closed_decisions: "ready b \<Longrightarrow> \<not> is_open b i \<Longrightarrow> decisions (settle b i a) = decisions b"
  by (simp add: decisions_settle)

lemma settle_repeated:
  assumes "ready b"
  shows "decisions (fold (\<lambda>a b. settle b i a) as (settle b i a0)) = decisions (settle b i a0)"
proof -
  have "ready c \<Longrightarrow> \<not> is_open c i \<Longrightarrow> decisions (fold (\<lambda>a b. settle b i a) as c) = decisions c" for c
  proof (induction as arbitrary: c)
    case (Cons a as)
    then show ?case
      by (simp add: ready_settle open_settle settle_closed_decisions)
  qed simp
  then show ?thesis using assms by (simp add: ready_settle open_settle)
qed

lemma ready_settle_all: "ready b \<Longrightarrow> ready (fold (\<lambda>i b. settle b i (f i)) ids b)"
  by (induction ids arbitrary: b) (simp_all add: ready_settle)

lemma open_settle_all:
  "is_open (fold (\<lambda>i b. settle b i (f i)) ids b) k \<longleftrightarrow> k \<notin> set ids \<and> is_open b k"
  by (induction ids arbitrary: b) (auto simp: open_settle)

lemma covered_settle_all:
  "ready b \<Longrightarrow> is_open b k \<or> k \<in> fst ` set (decisions b) \<Longrightarrow>
   is_open (fold (\<lambda>i b. settle b i (f i)) ids b) k \<or>
   k \<in> fst ` set (decisions (fold (\<lambda>i b. settle b i (f i)) ids b))"
proof (induction ids arbitrary: b)
  case (Cons i ids)
  have "is_open (settle b i (f i)) k \<or> k \<in> fst ` set (decisions (settle b i (f i)))"
    by (rule covered_settle) (use Cons.prems in auto)
  then show ?case using Cons.IH ready_settle Cons.prems(1) by auto
qed simp

end

definition broker_ready :: "consent_broker \<Rightarrow> bool" where
  "broker_ready b = (notifier b \<noteq> None)"

definition broker_open :: "consent_broker \<Rightarrow> string \<Rightarrow> bool" where
  "broker_open b k = (map_of (pending b) k \<noteq> None)"

definition broker_decisions :: "consent_broker \<Rightarrow> decision_msg list" where
  "broker_decisions b = (case notifier b of Some q \<Rightarrow> q | None \<Rightarrow> [])"

lemmas broker_view_defs = broker_ready_def broker_open_def broker_decisions_def

interpretation desk: consent_desk broker_ready broker_open "\<lambda>b p. fst (ask b p)"
    "\<lambda>b i a. fst (answer b i a)" broker_decisions
proof (unfold_locales, goal_cases)
  case (1 b p)
  then show ?case by (simp add: broker_view_defs ask_def Let_def)
next
  case (2 b i a)
  then show ?case
    by (auto simp: broker_view_defs answer_def Let_def split: option.splits)
next
  case (3 b p k)
  then show ?case by (simp add: broker_view_defs ask_def Let_def)
next
  case (4 b i a k)
  then show ?case
    by (auto simp: broker_view_defs answer_def Let_def split: option.splits)
next
  case (5 b p)
  then show ?case by (simp add: broker_view_defs ask_def Let_def)
next
  case (6 b i a)
  then show ?case
    by (auto simp: broker_view_defs answer_def Let_def split: option.splits)
qed

lemma answer_result: "snd (answer b i a) = broker_open b i"
  by (auto simp: answer_def broker_open_def Let_def split: option.splits)

lemma answer_closed: "\<not> broker_open b i \<Longrightarrow> answer b i a = (b, False)"
  by (cases "map_of (pending b) i") (auto simp: answer_def broker_open_def)

lemma answer_then_closed: "\<not> broker_open (fst (answer b i a)) i"
  by (simp add: desk.open_settle)

lemma delivered_answer:
  "map_of (pending b) i = Some (p, tx) \<Longrightarrow> delivered (fst (answer b i a)) = delivered b @ [(tx, a)]"
  by (auto simp: answer_def Let_def split: option.splits)

text \<open>Answering the same prompt any number of times.\<close>

definition answer_all :: "consent_broker \<Rightarrow> string \<Rightarrow> consent_answer list \<Rightarrow> consent_broker" where
  "answer_all b i as = fold (\<lambda>a b. fst (answer b i a)) as b"

lemma answer_all_closed: "\<not> broker_open b i \<Longrightarrow> answer_all b i as = b"
  by (induction as) (simp_all add: answer_all_def answer_closed)

section \<open>Properties\<close>

text \<open>
  First answer wins. When a prompt is pending and the loop's channel is installed, any
  sequence of answers to it, from the web or the local dialog, leaves the broker exactly as
  the first one did: one message with the first answer is queued and sent on the prompt's
  one-shot channel, the prompt is gone, and each later call returns False.
\<close>

lemma first_answer_wins:
  assumes "map_of (pending b) i = Some (p, tx)" and "notifier b = Some q"
  shows "answer_all b i (a # as) = fst (answer b i a) \<and>
    notifier (answer_all b i (a # as)) = Some (q @ [(i, a)]) \<and>
    delivered (answer_all b i (a # as)) = delivered b @ [(tx, a)] \<and>
    (\<forall>a'. snd (answer (answer_all b i (a # as)) i a') = False)"
proof -
  have eq: "answer_all b i (a # as) = fst (answer b i a)"
    using answer_all_closed [OF answer_then_closed, of b i a as] by (simp add: answer_all_def)
  show ?thesis
    unfolding eq using assms
    by (auto simp: answer_result answer_then_closed delivered_answer)
      (simp add: answer_def)
qed

definition demo_prompt :: "string \<Rightarrow> consent_prompt" where
  "demo_prompt i = \<lparr>prompt_action_id = i, prompt_capability = ''desktop.fs.write'',
     prompt_summary = ''s'', prompt_path = None\<rparr>"

lemma first_answer_wins_witness:
  "notifier (answer_all (fst (ask (set_notifier broker_new) (demo_prompt ''a''))) ''a''
     [\<lparr>approved = False, remember = False\<rparr>, \<lparr>approved = True, remember = True\<rparr>])
   = Some [(''a'', \<lparr>approved = False, remember = False\<rparr>)]"
proof -
  let ?b = "fst (ask (set_notifier broker_new) (demo_prompt ''a''))"
  have a: "map_of (pending ?b) ''a'' = Some (demo_prompt ''a'', 0)"
    by (simp add: ask_def set_notifier_def broker_new_def demo_prompt_def)
  have b: "notifier ?b = Some []"
    by (simp add: ask_def set_notifier_def broker_new_def)
  show ?thesis
    using first_answer_wins [OF a b, of "\<lparr>approved = False, remember = False\<rparr>"
        "[\<lparr>approved = True, remember = True\<rparr>]"]
    unfolding append_Nil by blast
qed

end
