(* ===== verification/Health.thy ===== *)
theory Health
  imports Bridge_Prelude
begin

text \<open>
  \<open>daemon-core/src/health.rs\<close>: the connection health counters. The counters are atomics of
  width 64, so \<open>fetch_add\<close> wraps; \<open>now\<close> is the clock read by the operation.
\<close>

record ws_health =
  h_connected :: bool
  h_last_connected_at :: nat
  h_last_disconnected_at :: nat
  h_last_heartbeat_ack_at :: nat
  h_last_rtt_ms :: nat
  h_reconnects :: u64
  h_heartbeat_acks :: u64
  h_stale_heartbeats :: u64
  h_last_error :: string

record ws_health_snapshot =
  hs_connected :: bool
  hs_last_connected_at_ms :: nat
  hs_last_disconnected_at_ms :: nat
  hs_last_heartbeat_ack_at_ms :: nat
  hs_last_rtt_ms :: nat
  hs_reconnects :: u64
  hs_heartbeat_acks :: u64
  hs_stale_heartbeats :: u64
  hs_last_error :: string

definition health_new :: ws_health where
  "health_new =
     \<lparr>h_connected = False, h_last_connected_at = 0, h_last_disconnected_at = 0,
      h_last_heartbeat_ack_at = 0, h_last_rtt_ms = 0, h_reconnects = 0, h_heartbeat_acks = 0,
      h_stale_heartbeats = 0, h_last_error = []\<rparr>"

definition mark_connected :: "nat \<Rightarrow> ws_health \<Rightarrow> ws_health" where
  "mark_connected now h = h\<lparr>h_connected := True, h_last_connected_at := now\<rparr>"

definition mark_disconnected :: "nat \<Rightarrow> ws_health \<Rightarrow> ws_health" where
  "mark_disconnected now h =
     (let was = h_connected h; h1 = h\<lparr>h_connected := False\<rparr> in
      if was then h1\<lparr>h_last_disconnected_at := now, h_reconnects := h_reconnects h1 + 1\<rparr> else h1)"

definition mark_heartbeat_ack :: "nat \<Rightarrow> nat \<Rightarrow> ws_health \<Rightarrow> ws_health" where
  "mark_heartbeat_ack now sent_at h =
     h\<lparr>h_heartbeat_acks := h_heartbeat_acks h + 1, h_last_heartbeat_ack_at := now,
       h_last_rtt_ms := now - sent_at\<rparr>"

definition mark_heartbeat_stale :: "ws_health \<Rightarrow> ws_health" where
  "mark_heartbeat_stale h = h\<lparr>h_stale_heartbeats := h_stale_heartbeats h + 1\<rparr>"

definition set_error :: "string \<Rightarrow> ws_health \<Rightarrow> ws_health" where
  "set_error msg h = h\<lparr>h_last_error := msg\<rparr>"

definition health_snapshot :: "ws_health \<Rightarrow> ws_health_snapshot" where
  "health_snapshot h =
     \<lparr>hs_connected = h_connected h, hs_last_connected_at_ms = h_last_connected_at h,
      hs_last_disconnected_at_ms = h_last_disconnected_at h,
      hs_last_heartbeat_ack_at_ms = h_last_heartbeat_ack_at h,
      hs_last_rtt_ms = h_last_rtt_ms h, hs_reconnects = h_reconnects h,
      hs_heartbeat_acks = h_heartbeat_acks h, hs_stale_heartbeats = h_stale_heartbeats h,
      hs_last_error = h_last_error h\<rparr>"

text \<open>A drop is counted once: repeated disconnects of a closed connection change nothing.\<close>

lemma mark_disconnected_idem:
  "mark_disconnected t' (mark_disconnected t h) = mark_disconnected t h"
  by (simp add: mark_disconnected_def Let_def)

lemma mark_disconnected_reconnects:
  "h_reconnects (mark_disconnected t h) = h_reconnects h + (if h_connected h then 1 else 0)"
  by (simp add: mark_disconnected_def Let_def)

lemma health_connected_simps [simp]:
  "h_connected (mark_connected t h)"
  "\<not> h_connected (mark_disconnected t h)"
  "h_connected (mark_heartbeat_ack t s h) = h_connected h"
  "h_connected (mark_heartbeat_stale h) = h_connected h"
  "h_connected (set_error m h) = h_connected h"
  by (simp_all add: mark_connected_def mark_disconnected_def mark_heartbeat_ack_def
      mark_heartbeat_stale_def set_error_def Let_def)

end
