(* ===== verification/Paths.thy ===== *)
theory Paths
  imports Bridge_Prelude
begin

text \<open>
  \<open>std::path\<close> on Unix, as far as the daemon uses it. A \<open>Path\<close> is the sequence of its
  \<open>components()\<close>: equality, \<open>starts_with\<close>, \<open>parent\<close> and \<open>join\<close> of the standard library are
  all defined on that sequence, so redundant separators and inner \<open>.\<close> segments, which
  \<open>components()\<close> drops, do not exist in the model.
\<close>

datatype pcomp = RootDir | CurDir | ParentDir | Normal string

type_synonym path = "pcomp list"

fun segment_components :: "string \<Rightarrow> pcomp list" where
  "segment_components s =
     (if s = [] \<or> s = ''.'' then [] else if s = ''..'' then [ParentDir] else [Normal s])"

definition path_components :: "string \<Rightarrow> path" where
  "path_components s =
     (let segs = split_on (CHR ''/'') s in
      (if starts_with s ''/'' then [RootDir] else if hd segs = ''.'' then [CurDir] else []) @
      concat (map segment_components segs))"

fun component_str :: "pcomp \<Rightarrow> string" where
  "component_str RootDir = ''/''"
| "component_str CurDir = ''.''"
| "component_str ParentDir = ''..''"
| "component_str (Normal s) = s"

definition path_display :: "path \<Rightarrow> string" where
  "path_display p =
     (case p of RootDir # cs \<Rightarrow> ''/'' @ str_join ''/'' (map component_str cs)
      | cs \<Rightarrow> str_join ''/'' (map component_str cs))"

definition path_parent :: "path \<Rightarrow> path option" where
  "path_parent p = (if p = [] \<or> last p = RootDir then None else Some (butlast p))"

definition has_prefix :: "path \<Rightarrow> path \<Rightarrow> bool" where
  "has_prefix p pre = (take (length pre) p = pre)"

definition has_parent_dir :: "path \<Rightarrow> bool" where
  "has_parent_dir p = list_ex (\<lambda>c. c = ParentDir) p"

text \<open>\<open>Path::join\<close>: an absolute argument replaces the base.\<close>

definition path_join :: "path \<Rightarrow> path \<Rightarrow> path" where
  "path_join p q = (case q of RootDir # _ \<Rightarrow> q | _ \<Rightarrow> p @ filter (\<lambda>c. c \<noteq> CurDir) q)"

lemma has_prefix_iff: "has_prefix p pre \<longleftrightarrow> prefix pre p"
  by (auto simp: has_prefix_def prefix_def) (metis append_take_drop_id)

lemma has_parent_dir_iff: "has_parent_dir p \<longleftrightarrow> ParentDir \<in> set p"
  by (auto simp: has_parent_dir_def list_ex_iff)

lemma has_prefix_Nil [simp]: "has_prefix p []"
  by (simp add: has_prefix_def)

lemma has_prefix_append: "has_prefix p pre \<Longrightarrow> has_prefix (p @ q) pre"
  by (auto simp: has_prefix_iff)

lemma path_parent_SomeD:
  "path_parent p = Some q \<Longrightarrow> \<exists>c. p = q @ [c] \<and> c \<noteq> RootDir"
  by (cases p rule: rev_cases) (auto simp: path_parent_def split: if_splits)

lemma path_parent_length: "path_parent p = Some q \<Longrightarrow> length q < length p"
  by (auto dest: path_parent_SomeD)

lemma path_parent_None: "path_parent p = None \<longleftrightarrow> p = [] \<or> last p = RootDir"
  by (simp add: path_parent_def)

subsection \<open>File name extensions\<close>

text \<open>
  \<open>Path::with_extension\<close>: the part of the last component after its last dot is replaced.
  A name whose only dot is its first character has no extension; a path that does not end
  in a normal component is returned as it is.
\<close>

definition file_stem_of :: "string \<Rightarrow> string" where
  "file_stem_of name =
     (let r = dropWhile (\<lambda>c. c \<noteq> CHR ''.'') (rev name)
      in if r = [] \<or> tl r = [] then name else rev (tl r))"

definition with_extension :: "path \<Rightarrow> string \<Rightarrow> path" where
  "with_extension p ext =
     (if p = [] then p
      else (case last p of
              Normal name \<Rightarrow> butlast p @ [Normal (file_stem_of name @ ''.'' @ ext)]
            | _ \<Rightarrow> p))"

subsection \<open>Display and parsing\<close>

lemma split_on_chars: "w \<in> set (split_on d s) \<Longrightarrow> d \<notin> set w"
  by (induction s arbitrary: w) (auto split: if_splits list.splits)

lemma segment_components_str:
  assumes "c \<in> set (segment_components s)" "CHR ''/'' \<notin> set s"
  shows "segment_components (component_str c) = [c] \<and> CHR ''/'' \<notin> set (component_str c)"
  using assms by (auto split: if_splits)

lemma concat_segments_of_display:
  assumes "\<And>c. c \<in> set cs \<Longrightarrow> segment_components (component_str c) = [c] \<and> CHR ''/'' \<notin> set (component_str c)"
  shows "concat (map segment_components (split_on (CHR ''/'') (str_join ''/'' (map component_str cs)))) = cs"
proof (cases "cs = []")
  case False
  then have "split_on (CHR ''/'') (str_join ''/'' (map component_str cs)) = map component_str cs"
    using assms by (intro split_on_join) auto
  moreover have "concat (map segment_components (map component_str cs)) = cs"
    using assms by (induction cs) auto
  ultimately show ?thesis by simp
qed simp

lemma str_join_head:
  assumes "cs \<noteq> []" "\<And>c. c \<in> set cs \<Longrightarrow> CHR ''/'' \<notin> set (component_str c) \<and> component_str c \<noteq> []"
  shows "hd (split_on (CHR ''/'') (str_join ''/'' (map component_str cs))) = component_str (hd cs)"
    and "\<not> starts_with (str_join ''/'' (map component_str cs)) ''/''"
proof -
  have "split_on (CHR ''/'') (str_join ''/'' (map component_str cs)) = map component_str cs"
    using assms by (intro split_on_join) auto
  then show "hd (split_on (CHR ''/'') (str_join ''/'' (map component_str cs))) = component_str (hd cs)"
    using assms(1) by (simp add: hd_map)
  obtain c ds where cs: "cs = c # ds" using assms(1) by (cases cs) auto
  obtain x xs where "component_str c = x # xs" "x \<noteq> CHR ''/''"
    using assms(2) [of c] cs by (cases "component_str c") auto
  then show "\<not> starts_with (str_join ''/'' (map component_str cs)) ''/''"
    using cs by (cases ds) (auto simp: starts_with_def)
qed

text \<open>A path that was parsed from a string is parsed back from its display form.\<close>

lemma path_components_display:
  "path_components (path_display (path_components s)) = path_components s"
proof -
  define cs where "cs = concat (map segment_components (split_on (CHR ''/'') s))"
  have seg: "segment_components (component_str c) = [c] \<and> CHR ''/'' \<notin> set (component_str c) \<and>
      component_str c \<noteq> [] \<and> c \<noteq> RootDir \<and> c \<noteq> CurDir \<and> component_str c \<noteq> ''.''"
    if "c \<in> set cs" for c
    using that split_on_chars unfolding cs_def by (fastforce split: if_splits)
  have parse: "concat (map segment_components (split_on (CHR ''/'') (str_join ''/'' (map component_str cs)))) = cs"
    using seg by (intro concat_segments_of_display) blast
  consider (root) "path_components s = RootDir # cs" | (cur) "path_components s = CurDir # cs"
    | (rel) "path_components s = cs"
    by (cases "starts_with s ''/''"; cases "hd (split_on (CHR ''/'') s) = ''.''")
      (auto simp: path_components_def cs_def Let_def)
  then show ?thesis
  proof cases
    case root
    have "path_components (''/'' @ str_join ''/'' (map component_str cs)) = RootDir # cs"
      using parse by (simp add: path_components_def starts_with_def)
    with root show ?thesis by (simp add: path_display_def)
  next
    case cur
    have "path_components (str_join ''/'' (map component_str (CurDir # cs))) = CurDir # cs"
      using parse by (cases cs) (simp_all add: path_components_def starts_with_def)
    with cur show ?thesis by (simp add: path_display_def)
  next
    case rel
    show ?thesis
    proof (cases "cs = []")
      case True
      with rel show ?thesis by (simp add: path_display_def path_components_def starts_with_def)
    next
      case False
      have "path_display cs = str_join ''/'' (map component_str cs)"
        using seg False by (cases cs) (auto simp: path_display_def split: pcomp.splits)
      moreover have "path_components (str_join ''/'' (map component_str cs)) = cs"
        using parse seg False str_join_head [OF False] hd_in_set [OF False]
        by (simp add: path_components_def)
      ultimately show ?thesis using rel by simp
    qed
  qed
qed

end
