(* ===== verification/Capability.thy ===== *)
theory Capability
  imports Paths Protocol
begin

text \<open>
  \<open>daemon-core/src/capability.rs\<close>: the local capability gate. \<open>check_path\<close> is the lexical
  decision, \<open>check_path_real\<close> resolves symbolic links first. The operating system's
  \<open>canonicalize\<close> is the parameter \<open>canon\<close>; the Unix build is modelled (\<open>cfg(not(windows))\<close>),
  and the case-insensitive comparison, which the code exports on every platform, beside it.
\<close>

section \<open>State\<close>

record scope_snapshot =
  capabilities :: "string list"
  always_allow_paths :: "path list"
  one_shot_paths :: "path list"

record capability_gate =
  snapshot :: scope_snapshot

definition snapshot_from :: "scopes \<Rightarrow> scope_snapshot" where
  "snapshot_from s =
     \<lparr>capabilities = sc_capabilities s,
      always_allow_paths = map path_components (sc_always_allow_paths s),
      one_shot_paths = []\<rparr>"

datatype gate_decision = Allow | RequireConsent | Deny

text \<open>Decisions are ordered by what they permit: \<open>Deny < RequireConsent < Allow\<close>.\<close>

instantiation gate_decision :: linorder
begin

fun permission_rank :: "gate_decision \<Rightarrow> nat" where
  "permission_rank Deny = 0"
| "permission_rank RequireConsent = 1"
| "permission_rank Allow = 2"

definition less_eq_gate_decision :: "gate_decision \<Rightarrow> gate_decision \<Rightarrow> bool" where
  "less_eq_gate_decision a b = (permission_rank a \<le> permission_rank b)"

definition less_gate_decision :: "gate_decision \<Rightarrow> gate_decision \<Rightarrow> bool" where
  "less_gate_decision a b = (permission_rank a < permission_rank b)"

instance
proof
  fix x y z :: gate_decision
  show "(x < y) = (x \<le> y \<and> \<not> y \<le> x)"
    by (auto simp: less_eq_gate_decision_def less_gate_decision_def)
  show "x \<le> x"
    by (simp add: less_eq_gate_decision_def)
  show "x \<le> y \<Longrightarrow> y \<le> z \<Longrightarrow> x \<le> z"
    by (simp add: less_eq_gate_decision_def)
  show "x \<le> y \<Longrightarrow> y \<le> x \<Longrightarrow> x = y"
    by (cases x; cases y) (auto simp: less_eq_gate_decision_def)
  show "x \<le> y \<or> y \<le> x"
    by (auto simp: less_eq_gate_decision_def)
qed

end

lemma gate_decision_le_simps [simp]:
  "Deny \<le> (d :: gate_decision)"
  "d \<le> Allow"
  by (cases d; simp add: less_eq_gate_decision_def)+

section \<open>Path comparison\<close>

definition path_starts_with :: "path \<Rightarrow> path \<Rightarrow> bool" where
  "path_starts_with p pre = has_prefix p pre"

fun path_starts_with_ignoring_case :: "path \<Rightarrow> path \<Rightarrow> bool" where
  "path_starts_with_ignoring_case [] pre = (pre = [])"
| "path_starts_with_ignoring_case (c # cs) pre =
     (case pre of
        [] \<Rightarrow> True
      | e # es \<Rightarrow>
          if \<not> eq_ignore_ascii_case (component_str c) (component_str e) then False
          else path_starts_with_ignoring_case cs es)"

definition paths_equal :: "path \<Rightarrow> path \<Rightarrow> bool" where
  "paths_equal p q = (p = q)"

lemmas path_compare_defs = path_starts_with_def paths_equal_def

section \<open>The gate\<close>

definition gate_new :: "scope_snapshot \<Rightarrow> capability_gate" where
  "gate_new s = \<lparr>snapshot = s\<rparr>"

definition with_additional_path :: "capability_gate \<Rightarrow> path \<Rightarrow> capability_gate" where
  "with_additional_path g p =
     g\<lparr>snapshot := (snapshot g)\<lparr>always_allow_paths := always_allow_paths (snapshot g) @ [p]\<rparr>\<rparr>"

definition with_one_shot_path :: "capability_gate \<Rightarrow> path \<Rightarrow> capability_gate" where
  "with_one_shot_path g p =
     g\<lparr>snapshot := (snapshot g)\<lparr>one_shot_paths := one_shot_paths (snapshot g) @ [p]\<rparr>\<rparr>"

definition allows :: "capability_gate \<Rightarrow> string \<Rightarrow> bool" where
  "allows g cap = list_ex (\<lambda>c. c = cap) (capabilities (snapshot g))"

fun path_matches_prefixes :: "path \<Rightarrow> path list \<Rightarrow> bool" where
  "path_matches_prefixes p [] = False"
| "path_matches_prefixes p (pre # ps) =
     (if path_starts_with p pre then True else path_matches_prefixes p ps)"

definition path_matches_any :: "capability_gate \<Rightarrow> path \<Rightarrow> bool" where
  "path_matches_any g p =
     (if has_parent_dir p then False
      else path_matches_prefixes p (always_allow_paths (snapshot g)))"

definition one_shot_covers :: "capability_gate \<Rightarrow> path \<Rightarrow> bool" where
  "one_shot_covers g p = list_ex (\<lambda>q. paths_equal q p) (one_shot_paths (snapshot g))"

definition check_path :: "capability_gate \<Rightarrow> string \<Rightarrow> path \<Rightarrow> gate_decision" where
  "check_path g cap p =
     (if \<not> allows g cap then Deny
      else if has_parent_dir p then Deny
      else if one_shot_covers g p then Allow
      else if path_matches_any g p then Allow
      else RequireConsent)"

text \<open>The deepest existing ancestor of the target, resolved (the \<open>probe\<close> loop).\<close>

function resolve_existing :: "(path \<Rightarrow> path option) \<Rightarrow> path \<Rightarrow> path option" where
  "resolve_existing canon probe =
     (case canon probe of
        Some r \<Rightarrow> Some r
      | None \<Rightarrow> (case path_parent probe of
                   Some q \<Rightarrow> resolve_existing canon q
                 | None \<Rightarrow> None))"
  by pat_completeness auto
termination
  by (relation "measure (\<lambda>(canon, p). length p)") (auto dest: path_parent_length)

declare resolve_existing.simps [simp del]

definition canonically_allowed :: "(path \<Rightarrow> path option) \<Rightarrow> capability_gate \<Rightarrow> path \<Rightarrow> bool" where
  "canonically_allowed canon g real =
     list_ex (\<lambda>cp. path_starts_with real cp) (List.map_filter canon (always_allow_paths (snapshot g)))"

definition check_path_real ::
    "(path \<Rightarrow> path option) \<Rightarrow> capability_gate \<Rightarrow> string \<Rightarrow> path \<Rightarrow> (string, gate_decision) res" where
  "check_path_real canon g cap p =
     (case check_path g cap p of
        Allow \<Rightarrow>
          (case resolve_existing canon p of
             None \<Rightarrow> Ok RequireConsent
           | Some real \<Rightarrow>
               if one_shot_covers g p then Ok Allow
               else if path_matches_any g real \<or> canonically_allowed canon g real then Ok Allow
               else Ok RequireConsent)
      | other \<Rightarrow> Ok other)"

section \<open>The contract of a gate decision\<close>

text \<open>
  What every client of the gate relies on, whichever of the two checks it calls: an
  ungranted capability and a path with a parent component are denied, whatever the grants.
\<close>

locale gate_policy =
  fixes decide :: "capability_gate \<Rightarrow> string \<Rightarrow> path \<Rightarrow> gate_decision"
  assumes ungranted_denied: "\<not> allows g cap \<Longrightarrow> decide g cap p = Deny"
    and traversal_denied: "has_parent_dir p \<Longrightarrow> decide g cap p = Deny"
begin

lemma not_denied_granted: "decide g cap p \<noteq> Deny \<Longrightarrow> allows g cap \<and> \<not> has_parent_dir p"
  using ungranted_denied traversal_denied by blast

lemma allow_granted: "decide g cap p = Allow \<Longrightarrow> allows g cap \<and> \<not> has_parent_dir p"
  by (rule not_denied_granted) simp

end

lemma allows_iff: "allows g cap \<longleftrightarrow> cap \<in> set (capabilities (snapshot g))"
  by (auto simp: allows_def list_ex_iff)

lemma one_shot_covers_iff: "one_shot_covers g p \<longleftrightarrow> p \<in> set (one_shot_paths (snapshot g))"
  by (auto simp: one_shot_covers_def list_ex_iff path_compare_defs)

lemma path_matches_prefixes_iff:
  "path_matches_prefixes p ps \<longleftrightarrow> (\<exists>r \<in> set ps. prefix r p)"
  by (induction ps) (auto simp: path_compare_defs has_prefix_iff)

lemma path_matches_any_iff:
  "path_matches_any g p \<longleftrightarrow>
     ParentDir \<notin> set p \<and> (\<exists>r \<in> set (always_allow_paths (snapshot g)). prefix r p)"
  by (simp add: path_matches_any_def path_matches_prefixes_iff has_parent_dir_iff)

lemma canonically_allowed_iff:
  "canonically_allowed canon g real \<longleftrightarrow>
     (\<exists>r \<in> set (always_allow_paths (snapshot g)). \<exists>cr. canon r = Some cr \<and> prefix cr real)"
  by (fastforce simp: canonically_allowed_def list_ex_iff path_compare_defs has_prefix_iff
      List.map_filter_def)

lemma allows_with_paths [simp, frame_simps]:
  "allows (with_additional_path g p) cap = allows g cap"
  "allows (with_one_shot_path g p) cap = allows g cap"
  by (simp_all add: allows_def with_additional_path_def with_one_shot_path_def)

lemma check_path_real_simps:
  "check_path g cap p = Deny \<Longrightarrow> check_path_real canon g cap p = Inr Deny"
  "check_path g cap p = RequireConsent \<Longrightarrow> check_path_real canon g cap p = Inr RequireConsent"
  by (simp_all add: check_path_real_def)

definition real_decision ::
    "(path \<Rightarrow> path option) \<Rightarrow> capability_gate \<Rightarrow> string \<Rightarrow> path \<Rightarrow> gate_decision" where
  "real_decision canon g cap p = (case check_path_real canon g cap p of Inr d \<Rightarrow> d | Inl _ \<Rightarrow> Deny)"

lemma check_path_real_ok: "check_path_real canon g cap p = Inr (real_decision canon g cap p)"
  by (auto simp: real_decision_def check_path_real_def split: gate_decision.splits option.splits)

interpretation lexical: gate_policy check_path
  by unfold_locales (simp_all add: check_path_def)

interpretation real: gate_policy "real_decision canon"
  by unfold_locales (simp_all add: real_decision_def check_path_real_def check_path_def)

text \<open>The deepest ancestor that resolves: no longer prefix of the path does.\<close>

definition deepest_resolved :: "(path \<Rightarrow> path option) \<Rightarrow> path \<Rightarrow> path \<Rightarrow> bool" where
  "deepest_resolved canon p probe \<longleftrightarrow>
     prefix probe p \<and> canon probe \<noteq> None \<and> (\<forall>q. prefix q p \<longrightarrow> canon q \<noteq> None \<longrightarrow> prefix q probe)"

lemma resolve_existing_SomeD:
  "resolve_existing canon p = Some real \<Longrightarrow>
     \<exists>probe rest. p = probe @ rest \<and> canon probe = Some real \<and> deepest_resolved canon p probe \<and> RootDir \<notin> set rest"
proof (induction canon p rule: resolve_existing.induct)
  case (1 canon p)
  show ?case
  proof (cases "canon p")
    case (Some r)
    with 1(2) have "p = p @ [] \<and> canon p = Some real \<and> deepest_resolved canon p p \<and> RootDir \<notin> set []"
      by (simp add: resolve_existing.simps deepest_resolved_def)
    then show ?thesis by blast
  next
    case None
    with 1(2) obtain q where q: "path_parent p = Some q" "resolve_existing canon q = Some real"
      by (auto simp: resolve_existing.simps [of canon p] split: option.splits)
    with 1(1) [OF None q(1)] obtain probe rest
      where r: "q = probe @ rest" "canon probe = Some real" "deepest_resolved canon q probe" "RootDir \<notin> set rest" by blast
    from path_parent_SomeD [OF q(1)] obtain c where c: "p = q @ [c]" "c \<noteq> RootDir" by blast
    have "deepest_resolved canon p probe"
      using r(3) None unfolding deepest_resolved_def c(1) by (metis prefix_snoc)
    then have "p = probe @ (rest @ [c]) \<and> canon probe = Some real \<and> deepest_resolved canon p probe \<and> RootDir \<notin> set (rest @ [c])"
      using c r by simp
    then show ?thesis by blast
  qed
qed

lemma with_one_shot_path_simps [simp]:
  "capabilities (snapshot (with_one_shot_path g p)) = capabilities (snapshot g)"
  "always_allow_paths (snapshot (with_one_shot_path g p)) = always_allow_paths (snapshot g)"
  "one_shot_paths (snapshot (with_one_shot_path g p)) = one_shot_paths (snapshot g) @ [p]"
  by (simp_all add: with_one_shot_path_def)

lemma with_additional_path_simps [simp]:
  "capabilities (snapshot (with_additional_path g p)) = capabilities (snapshot g)"
  "always_allow_paths (snapshot (with_additional_path g p)) = always_allow_paths (snapshot g) @ [p]"
  "one_shot_paths (snapshot (with_additional_path g p)) = one_shot_paths (snapshot g)"
  by (simp_all add: with_additional_path_def)

lemma matches_with_one_shot [simp]:
  "path_matches_any (with_one_shot_path g p) q = path_matches_any g q"
  "canonically_allowed canon (with_one_shot_path g p) q = canonically_allowed canon g q"
  by (simp_all add: path_matches_any_def canonically_allowed_def)

lemma check_path_one_shot_other:
  "q \<noteq> p \<Longrightarrow> check_path (with_one_shot_path g p) cap q = check_path g cap q"
  by (simp add: check_path_def one_shot_covers_iff path_matches_any_iff)

lemma real_decision_one_shot_other:
  "q \<noteq> p \<Longrightarrow> real_decision canon (with_one_shot_path g p) cap q = real_decision canon g cap q"
  by (auto simp: real_decision_def check_path_real_def check_path_one_shot_other one_shot_covers_iff
      split: gate_decision.splits option.splits)

lemma real_decision_one_shot_self:
  assumes "allows g cap" and "\<not> has_parent_dir p" and "resolve_existing canon p \<noteq> None"
  shows "real_decision canon (with_one_shot_path g p) cap p = Allow"
  using assms
  by (auto simp: real_decision_def check_path_real_def check_path_def one_shot_covers_iff)

text \<open>The absolute target always has an existing ancestor when the root directory resolves.\<close>

lemma resolve_existing_absolute:
  assumes "canon [RootDir] \<noteq> None"
  shows "RootDir \<notin> set cs \<Longrightarrow> resolve_existing canon (RootDir # cs) \<noteq> None"
proof (induction cs rule: rev_induct)
  case Nil
  with assms show ?case by (auto simp: resolve_existing.simps [of canon "[RootDir]"])
next
  case (snoc c cs)
  then have "path_parent (RootDir # cs @ [c]) = Some (RootDir # cs)"
    by (auto simp: path_parent_def butlast_append)
  with snoc show ?case
    by (auto simp: resolve_existing.simps [of canon "RootDir # cs @ [c]"] split: option.splits)
qed

text \<open>The empty path is a prefix of every path.\<close>

lemma empty_path_allows_all:
  assumes "allows g cap" and "\<not> has_parent_dir p"
    and "resolve_existing canon p = Some real" and "\<not> has_parent_dir real"
  shows "check_path_real canon (with_additional_path g []) cap p = Ok Allow"
  using assms
  by (simp add: check_path_real_def check_path_def path_matches_any_iff has_parent_dir_iff)

section \<open>Properties\<close>

text \<open>
  The link-resolving check never permits more than the lexical one: for every file
  system and every grant its decision is at most that of \<open>check_path\<close>, and it always
  returns a decision (the \<open>io::Result\<close> is never an error).
\<close>

lemma check_path_real_narrows:
  "\<exists>d. check_path_real canon g cap p = Ok d \<and> d \<le> check_path g cap p"
  by (cases "check_path g cap p") (auto simp: check_path_real_def split: option.splits)

text \<open>
  C1. Confinement. When the link-resolving check answers Allow without a one-shot
  approval of that very path, the file the path denotes lies below a granted root: the
  longest prefix of the path that resolves at all resolves to a place under a granted root or
  under what a granted root resolves to, and the components after it are none of them \<open>..\<close>.
  A link in the path that leads out of the granted roots is part of that prefix.
\<close>

theorem allow_confined:
  assumes "check_path_real canon g cap p = Ok Allow"
    and "p \<notin> set (one_shot_paths (snapshot g))"
  shows "cap \<in> set (capabilities (snapshot g)) \<and>
    (\<exists>probe rest real root.
        p = probe @ rest \<and> canon probe = Some real \<and>
        (\<forall>q. prefix q p \<longrightarrow> canon q \<noteq> None \<longrightarrow> prefix q probe) \<and>
        ParentDir \<notin> set rest \<and> prefix root real \<and>
        (root \<in> set (always_allow_paths (snapshot g)) \<or>
         (\<exists>r \<in> set (always_allow_paths (snapshot g)). canon r = Some root)))"
proof -
  have dec: "real_decision canon g cap p = Allow"
    using assms(1) by (simp add: check_path_real_ok)
  have granted: "cap \<in> set (capabilities (snapshot g))" "ParentDir \<notin> set p"
    using real.allow_granted [OF dec] by (simp_all add: allows_iff has_parent_dir_iff)
  from assms have "check_path g cap p = Allow"
    by (auto simp: check_path_real_def split: gate_decision.splits)
  with assms obtain real where r: "resolve_existing canon p = Some real"
    "path_matches_any g real \<or> canonically_allowed canon g real"
    by (auto simp: check_path_real_def one_shot_covers_iff split: option.splits if_splits)
  from resolve_existing_SomeD [OF r(1)] obtain probe rest
    where p: "p = probe @ rest" "canon probe = Some real" "\<forall>q. prefix q p \<longrightarrow> canon q \<noteq> None \<longrightarrow> prefix q probe"
    unfolding deepest_resolved_def by blast
  from r(2) obtain root where "prefix root real"
    and "root \<in> set (always_allow_paths (snapshot g)) \<or>
       (\<exists>r \<in> set (always_allow_paths (snapshot g)). canon r = Some root)"
    unfolding path_matches_any_iff canonically_allowed_iff by blast
  moreover have "ParentDir \<notin> set rest" using granted(2) p(1) by simp
  ultimately show ?thesis using granted(1) p by blast
qed

text \<open>A workspace with a link out of it: lexically allowed, refused once resolved.\<close>

definition demo_gate :: capability_gate where
  "demo_gate = gate_new (snapshot_from
     \<lparr>sc_capabilities = [''desktop.fs.write''], sc_always_allow_paths = [''/w'']\<rparr>)"

fun demo_canon :: "path \<Rightarrow> path option" where
  "demo_canon p =
     (if p = path_components ''/w/link'' then Some (path_components ''/etc'')
      else if p = path_components ''/w'' \<or> p = path_components ''/'' \<or> p = path_components ''/etc''
      then Some p else None)"

theorem allow_confined_witness:
  "check_path_real demo_canon demo_gate ''desktop.fs.write'' (path_components ''/w/a.txt'') = Ok Allow \<and>
   ''desktop.fs.write'' \<in> set (capabilities (snapshot demo_gate)) \<and>
   check_path_real demo_canon demo_gate ''desktop.fs.write'' (path_components ''/w/link/passwd'') \<noteq> Ok Allow"
proof -
  have a: "check_path_real demo_canon demo_gate ''desktop.fs.write'' (path_components ''/w/a.txt'') = Ok Allow"
    by code_simp
  have b: "path_components ''/w/a.txt'' \<notin> set (one_shot_paths (snapshot demo_gate))"
    by code_simp
  have out: "check_path_real demo_canon demo_gate ''desktop.fs.write'' (path_components ''/w/link/passwd'') \<noteq> Ok Allow"
    by code_simp
  from allow_confined [OF a b] a out show ?thesis by blast
qed

text \<open>
  A one-shot approval authorises exactly one path. Under the augmented gate the
  approved path is allowed when its capability is granted, it has no parent component and
  some ancestor of it exists; the decision on every other path is the one the gate made
  before.
\<close>

lemma one_shot_exact:
  "(allows g cap \<and> \<not> has_parent_dir p \<and> resolve_existing canon p \<noteq> None \<longrightarrow>
      check_path_real canon (with_one_shot_path g p) cap p = Ok Allow) \<and>
   (\<forall>q. q \<noteq> p \<longrightarrow>
      check_path_real canon (with_one_shot_path g p) cap q = check_path_real canon g cap q)"
  by (simp add: check_path_real_ok real_decision_one_shot_self real_decision_one_shot_other)

lemma one_shot_exact_witness:
  "check_path_real demo_canon (with_one_shot_path demo_gate (path_components ''/etc/hosts''))
     ''desktop.fs.write'' (path_components ''/etc/hosts'') = Ok Allow \<and>
   check_path_real demo_canon (with_one_shot_path demo_gate (path_components ''/etc/hosts''))
     ''desktop.fs.write'' (path_components ''/etc/passwd'') = Ok RequireConsent"
proof -
  have h: "allows demo_gate ''desktop.fs.write'' \<and>
      \<not> has_parent_dir (path_components ''/etc/hosts'') \<and>
      resolve_existing demo_canon (path_components ''/etc/hosts'') \<noteq> None"
    by code_simp
  have ne: "path_components ''/etc/passwd'' \<noteq> path_components ''/etc/hosts''"
    by code_simp
  have c: "check_path_real demo_canon demo_gate ''desktop.fs.write''
      (path_components ''/etc/passwd'') = Ok RequireConsent"
    by code_simp
  show ?thesis
    using one_shot_exact [of demo_gate "''desktop.fs.write''" "path_components ''/etc/hosts''" demo_canon]
      h ne c by metis
qed

end
