(* ===== verification/Base64.thy ===== *)
theory Base64
  imports Bridge_Prelude
begin

text \<open>
  The base64 codec of \<open>daemon-core/src/fs_ops.rs\<close>, with which file contents travel. Bytes
  are chars, the accumulators keep the widths of the code (\<open>u32\<close> when encoding, \<open>u8\<close> when
  decoding), so bits shifted out are lost as they are there.
\<close>

definition BASE64_ALPHABET :: string where
  "BASE64_ALPHABET = ''ABCDEFGHIJKLMNOPQRSTUVWXYZabcdefghijklmnopqrstuvwxyz0123456789+/''"

definition sextet_char :: "u32 \<Rightarrow> char" where
  "sextet_char n = BASE64_ALPHABET ! unat (n AND 0x3f)"

fun base64_encode :: "string \<Rightarrow> string" where
  "base64_encode (a # b # c # rest) =
     (let n = push_bit 16 (of_char a :: u32) OR push_bit 8 (of_char b) OR of_char c in
      [sextet_char (drop_bit 18 n), sextet_char (drop_bit 12 n), sextet_char (drop_bit 6 n), sextet_char n] @
      base64_encode rest)"
| "base64_encode [a, b] =
     (let n = push_bit 16 (of_char a :: u32) OR push_bit 8 (of_char b) in
      [sextet_char (drop_bit 18 n), sextet_char (drop_bit 12 n), sextet_char (drop_bit 6 n), CHR ''=''])"
| "base64_encode [a] =
     (let n = push_bit 16 (of_char a :: u32) in
      [sextet_char (drop_bit 18 n), sextet_char (drop_bit 12 n), CHR ''='', CHR ''=''])"
| "base64_encode [] = []"

fun index_of :: "char \<Rightarrow> string \<Rightarrow> nat option" where
  "index_of x [] = None"
| "index_of x (y # ys) = (if x = y then Some 0 else map_option Suc (index_of x ys))"

text \<open>The table: 255 marks a byte outside the alphabet.\<close>

definition base64_table :: "char \<Rightarrow> u8" where
  "base64_table c = (case index_of c BASE64_ALPHABET of Some i \<Rightarrow> of_nat i | None \<Rightarrow> 255)"

definition byte_char :: "u8 \<Rightarrow> char" where
  "byte_char w = char_of (unat w)"

fun base64_flush :: "u8 list \<Rightarrow> string option" where
  "base64_flush [] = Some []"
| "base64_flush [c0, c1] = Some [byte_char (push_bit 2 c0 OR drop_bit 4 c1)]"
| "base64_flush [c0, c1, c2] =
     Some [byte_char (push_bit 2 c0 OR drop_bit 4 c1), byte_char (push_bit 4 c1 OR drop_bit 2 c2)]"
| "base64_flush _ = None"

fun base64_loop :: "string \<Rightarrow> u8 list \<Rightarrow> string option" where
  "base64_loop [] chunk = base64_flush chunk"
| "base64_loop (b # bs) chunk =
     (if b = CHR ''='' then base64_flush chunk
      else
        let v = base64_table b in
        if v = 255 then None
        else (case chunk of
                [c0, c1, c2] \<Rightarrow>
                  map_option (\<lambda>out.
                    byte_char (push_bit 2 c0 OR drop_bit 4 c1) #
                    byte_char (push_bit 4 c1 OR drop_bit 2 c2) #
                    byte_char (push_bit 6 c2 OR v) # out) (base64_loop bs [])
              | _ \<Rightarrow> base64_loop bs (chunk @ [v])))"

definition base64_decode :: "string \<Rightarrow> string option" where
  "base64_decode input =
     base64_loop (filter (\<lambda>b. b \<notin> {CHR 0x20, CHR 0x09, CHR 0x0D, CHR 0x0A}) input) []"

section \<open>Lemmas\<close>

text \<open>Every sextet has its own character, which is neither padding nor white space.\<close>

lemma alphabet_table:
  "list_all (\<lambda>i. base64_table (BASE64_ALPHABET ! i) = of_nat i \<and> BASE64_ALPHABET ! i \<noteq> CHR ''='' \<and>
     BASE64_ALPHABET ! i \<notin> {CHR 0x20, CHR 0x09, CHR 0x0D, CHR 0x0A}) [0 ..< 64]"
  by code_simp

lemma low6: "(n :: u32) AND 0x3f = take_bit 6 n"
  by (simp add: take_bit_eq_mask mask_eq_exp_minus_1)

lemma unat_of_char: "unat (of_char a :: u8) = of_char a"
proof -
  have "unat (of_nat (of_char a) :: u8) = of_char a"
    by (subst unat_of_nat) simp
  then show ?thesis by (simp add: of_nat_of_char)
qed

lemma of_char_u32: "(of_char a :: u32) = ucast (of_char a :: u8)"
proof -
  have "(of_nat (unat (of_char a :: u8)) :: u32) = of_char a"
    by (simp only: unat_of_char of_nat_of_char)
  then show ?thesis by simp
qed

lemma byte_char_of_char [simp]: "byte_char (of_char a) = a"
  by (simp add: byte_char_def unat_of_char)

lemma sextet_lt: "unat (take_bit 6 n :: u32) < 64"
  by (simp add: unsigned_take_bit_eq take_bit_nat_less_exp [of 6, simplified])

lemma sextet_facts:
  "base64_table (sextet_char n) = ucast (take_bit 6 n)"
  "sextet_char n \<noteq> CHR ''=''"
  "sextet_char n \<notin> {CHR 0x20, CHR 0x09, CHR 0x0D, CHR 0x0A}"
proof -
  have i: "unat (take_bit 6 n) \<in> set [0 ..< 64]" using sextet_lt [of n] by simp
  note f = alphabet_table [unfolded list_all_iff, rule_format, OF i]
  show "base64_table (sextet_char n) = ucast (take_bit 6 n)"
    using f by (simp add: sextet_char_def low6)
  show "sextet_char n \<noteq> CHR ''=''" using f by (simp add: sextet_char_def low6)
  show "sextet_char n \<notin> {CHR 0x20, CHR 0x09, CHR 0x0D, CHR 0x0A}"
    using f by (simp add: sextet_char_def low6)
qed

lemma sextet_not_255: "(ucast (take_bit 6 n :: u32) :: u8) \<noteq> 255"
proof
  assume "(ucast (take_bit 6 n :: u32) :: u8) = 255"
  then have "bit (ucast (take_bit 6 n :: u32) :: u8) 7 = bit (255 :: u8) 7" by simp
  then show False by (simp add: bit_simps)
qed

lemma no_high_bit [simp]: "8 \<le> k \<Longrightarrow> \<not> bit (w :: u8) k"
  using bit_imp_le_length [of w k] by auto

lemma byte_eqI:
  assumes "bit x 0 = bit y 0" "bit x 1 = bit y 1" "bit x 2 = bit y 2" "bit x 3 = bit y 3"
    "bit x 4 = bit y 4" "bit x 5 = bit y 5" "bit x 6 = bit y 6" "bit x 7 = bit (y :: u8) 7"
  shows "x = y"
proof (rule bit_word_eqI)
  fix i assume "i < LENGTH(8)"
  then have "i = 0 \<or> i = 1 \<or> i = 2 \<or> i = 3 \<or> i = 4 \<or> i = 5 \<or> i = 6 \<or> i = 7" by auto
  then show "bit x i = bit y i" using assms by blast
qed

text \<open>The bytes of a group come back from its sextets.\<close>

lemma group_bytes:
  assumes "n = push_bit 16 (ucast (x :: u8) :: u32) OR push_bit 8 (ucast (y :: u8)) OR ucast (z :: u8)"
  shows "push_bit 2 (ucast (take_bit 6 (drop_bit 18 n))) OR drop_bit 4 (ucast (take_bit 6 (drop_bit 12 n))) = x"
    and "push_bit 4 (ucast (take_bit 6 (drop_bit 12 n))) OR drop_bit 2 (ucast (take_bit 6 (drop_bit 6 n))) = y"
    and "push_bit 6 (ucast (take_bit 6 (drop_bit 6 n))) OR ucast (take_bit 6 n) = z"
  unfolding assms by (rule byte_eqI; simp add: bit_simps)+

lemma loop_sextet:
  "base64_loop (sextet_char n # bs) chunk =
     (case chunk of
        [c0, c1, c2] \<Rightarrow>
          map_option (\<lambda>out.
            byte_char (push_bit 2 c0 OR drop_bit 4 c1) #
            byte_char (push_bit 4 c1 OR drop_bit 2 c2) #
            byte_char (push_bit 6 c2 OR ucast (take_bit 6 n)) # out) (base64_loop bs [])
      | _ \<Rightarrow> base64_loop bs (chunk @ [ucast (take_bit 6 n)]))"
  by (simp add: sextet_facts sextet_not_255 Let_def split: list.splits)

lemma loop_pad: "base64_loop (CHR ''='' # bs) chunk = base64_flush chunk"
  by simp

lemma loop_encode: "base64_loop (base64_encode bs) [] = Some bs"
proof (induction bs rule: base64_encode.induct)
  case (1 a b c rest)
  define n where "n = push_bit 16 (of_char a :: u32) OR push_bit 8 (of_char b) OR of_char c"
  have "base64_encode (a # b # c # rest) =
      sextet_char (drop_bit 18 n) # sextet_char (drop_bit 12 n) # sextet_char (drop_bit 6 n) #
      sextet_char n # base64_encode rest"
    by (simp add: n_def Let_def)
  with 1 group_bytes [OF n_def [unfolded of_char_u32]] show ?case
    by (simp add: loop_sextet del: base64_loop.simps)
next
  case (2 a b)
  define n where "n = push_bit 16 (of_char a :: u32) OR push_bit 8 (of_char b)"
  then have n: "n = push_bit 16 (ucast (of_char a :: u8)) OR push_bit 8 (ucast (of_char b :: u8)) OR ucast (0 :: u8)"
    by (simp add: of_char_u32)
  have "base64_encode [a, b] =
      [sextet_char (drop_bit 18 n), sextet_char (drop_bit 12 n), sextet_char (drop_bit 6 n), CHR ''='']"
    by (simp add: n_def Let_def)
  with group_bytes [OF n] show ?case
    by (simp add: loop_sextet loop_pad del: base64_loop.simps)
next
  case (3 a)
  define n where "n = push_bit 16 (of_char a :: u32)"
  then have n: "n = push_bit 16 (ucast (of_char a :: u8)) OR push_bit 8 (ucast (0 :: u8)) OR ucast (0 :: u8)"
    by (simp add: of_char_u32)
  have "base64_encode [a] = [sextet_char (drop_bit 18 n), sextet_char (drop_bit 12 n), CHR ''='', CHR ''='']"
    by (simp add: n_def Let_def)
  with group_bytes [OF n] show ?case
    by (simp add: loop_sextet loop_pad del: base64_loop.simps)
qed simp

lemma encode_chars: "list_all (\<lambda>c. c = CHR ''='' \<or> (\<exists>m. c = sextet_char m)) (base64_encode bs)"
  by (induction bs rule: base64_encode.induct) (simp_all add: Let_def, blast+)

lemma encode_no_space:
  assumes "c \<in> set (base64_encode bs)"
  shows "c \<notin> {CHR 0x20, CHR 0x09, CHR 0x0D, CHR 0x0A}"
proof -
  from encode_chars [of bs] assms consider "c = CHR ''=''" | m where "c = sextet_char m"
    by (auto simp: list_all_iff)
  then show ?thesis by cases (simp, metis sextet_facts(3))
qed

section \<open>The codec contract\<close>

text \<open>What a transport needs of a codec: decoding gives back what was encoded.\<close>

locale byte_codec =
  fixes encode :: "string \<Rightarrow> string" and decode :: "string \<Rightarrow> string option"
  assumes decode_encode: "decode (encode bs) = Some bs"
begin

lemma encode_inj: "encode a = encode b \<longleftrightarrow> a = b"
  by (metis decode_encode option.inject)

lemma transport: "map_option f (decode (encode bs)) = Some (f bs)"
  by (simp add: decode_encode)

end

interpretation base64: byte_codec base64_encode base64_decode
proof
  fix bs
  have "filter (\<lambda>b. b \<notin> {CHR 0x20, CHR 0x09, CHR 0x0D, CHR 0x0A}) (base64_encode bs) = base64_encode bs"
    by (rule filter_True) (intro ballI, erule encode_no_space)
  then show "base64_decode (base64_encode bs) = Some bs"
    by (simp only: base64_decode_def loop_encode)
qed

lemma base64_length: "length (base64_encode bs) = 4 * ((length bs + 2) div 3)"
proof (induction bs rule: base64_encode.induct)
  case (1 a b c rest)
  have "(length (a # b # c # rest) + 2) div 3 = Suc ((length rest + 2) div 3)"
    by (simp add: div_add_self1 [of 3 "length rest + 2", simplified])
  with 1 show ?case by (simp add: Let_def)
qed (simp_all add: Let_def)

section \<open>Properties\<close>

text \<open>
  The hand-written base64 codec is faithful: decoding the encoding of any byte string
  gives back exactly those bytes, the encoding is injective, and its length is
  \<open>4 * ceil(n / 3)\<close>, the capacity the encoder reserves.
\<close>

lemma base64_roundtrip:
  "base64_decode (base64_encode bs) = Some bs \<and>
   (base64_encode bs = base64_encode bs' \<longleftrightarrow> bs = bs') \<and>
   length (base64_encode bs) = 4 * ((length bs + 2) div 3)"
  by (simp add: base64.decode_encode base64.encode_inj base64_length)

end
