(* ===== verification/Host_Fs.thy ===== *)
theory Host_Fs
  imports Paths
begin

text \<open>
  The host's file system as \<open>std::fs\<close> shows it. Nodes are kept by their real location, a
  path without links. \<open>locate\<close> is the kernel's path walk: it follows symbolic links, at
  most 40 of them, and the last component may be missing. \<open>deny_read\<close> and \<open>deny_write\<close>
  name the locations where the user lacks permission; \<open>disk_fault\<close> names those where the device
  gives out, and after how many bytes. A byte is a \<^typ>\<open>char\<close>, so file
  contents and strings share a type.
\<close>

type_synonym bytes = string

datatype fs_node = FileNode bytes | DirNode | LinkNode path

record host_fs =
  nodes :: "(path \<times> fs_node) list"
  cwd :: path
  deny_read :: "path \<Rightarrow> bool"
  deny_write :: "path \<Rightarrow> bool"
  disk_fault :: "path \<Rightarrow> nat option"

datatype io_error =
    NotFound | NotADirectory | IsADirectory | AlreadyExists | PermissionDenied | OtherIo string

fun io_display :: "io_error \<Rightarrow> string" where
  "io_display NotFound = ''No such file or directory (os error 2)''"
| "io_display NotADirectory = ''Not a directory (os error 20)''"
| "io_display IsADirectory = ''Is a directory (os error 21)''"
| "io_display AlreadyExists = ''File exists (os error 17)''"
| "io_display PermissionDenied = ''Permission denied (os error 13)''"
| "io_display (OtherIo m) = m"

definition node_at :: "host_fs \<Rightarrow> path \<Rightarrow> fs_node option" where
  "node_at fs p = (if p = [RootDir] then Some DirNode else map_of (nodes fs) p)"

section \<open>Path walk\<close>

function walk :: "nat \<Rightarrow> host_fs \<Rightarrow> path \<Rightarrow> path \<Rightarrow> path option" where
  "walk links fs done [] = Some done"
| "walk links fs done (RootDir # cs) = walk links fs [RootDir] cs"
| "walk links fs done (CurDir # cs) = walk links fs done cs"
| "walk links fs done (ParentDir # cs) =
     walk links fs (if length done \<le> 1 then done else butlast done) cs"
| "walk links fs done (Normal s # cs) =
     (case node_at fs (done @ [Normal s]) of
        None \<Rightarrow> (if cs = [] then Some (done @ [Normal s]) else None)
      | Some (FileNode _) \<Rightarrow> (if cs = [] then Some (done @ [Normal s]) else None)
      | Some DirNode \<Rightarrow> walk links fs (done @ [Normal s]) cs
      | Some (LinkNode t) \<Rightarrow> (if links = 0 then None else walk (links - 1) fs done (t @ cs)))"
  by pat_completeness auto
termination
  by (relation "measures [\<lambda>(n, _, _, _). n, \<lambda>(_, _, _, t). length t]") auto

definition MAX_SYMLINKS :: nat where
  "MAX_SYMLINKS = 40"

definition locate :: "host_fs \<Rightarrow> path \<Rightarrow> path option" where
  "locate fs p = (if p = [] then None else walk MAX_SYMLINKS fs (cwd fs) p)"

text \<open>\<open>std::fs::canonicalize\<close>: the location, if something is there.\<close>

definition canonicalize :: "host_fs \<Rightarrow> path \<Rightarrow> path option" where
  "canonicalize fs p =
     (case locate fs p of
        Some r \<Rightarrow> (if node_at fs r \<noteq> None then Some r else None)
      | None \<Rightarrow> None)"

text \<open>The location of a path's last component itself, not what a link there points to.\<close>

definition locate_entry :: "host_fs \<Rightarrow> path \<Rightarrow> path option" where
  "locate_entry fs p =
     (if p = [] then None
      else (case last p of
              Normal s \<Rightarrow>
                (case (if butlast p = [] then Some (cwd fs) else canonicalize fs (butlast p)) of
                   Some d \<Rightarrow> (if node_at fs d = Some DirNode then Some (d @ [Normal s]) else None)
                 | None \<Rightarrow> None)
            | _ \<Rightarrow> canonicalize fs p))"

section \<open>Queries\<close>

definition fs_exists :: "host_fs \<Rightarrow> path \<Rightarrow> bool" where
  "fs_exists fs p = (canonicalize fs p \<noteq> None)"

definition fs_is_dir :: "host_fs \<Rightarrow> path \<Rightarrow> bool" where
  "fs_is_dir fs p = (case canonicalize fs p of Some r \<Rightarrow> node_at fs r = Some DirNode | None \<Rightarrow> False)"

text \<open>\<open>metadata\<close>: whether it is a directory, and the length (that of a directory is system-defined).\<close>

definition fs_metadata :: "host_fs \<Rightarrow> path \<Rightarrow> (io_error, bool \<times> nat) res" where
  "fs_metadata fs p =
     (case canonicalize fs p of
        None \<Rightarrow> Err NotFound
      | Some r \<Rightarrow> (case node_at fs r of
                     Some (FileNode b) \<Rightarrow> Ok (False, length b)
                   | _ \<Rightarrow> Ok (True, 4096)))"

definition fs_is_symlink :: "host_fs \<Rightarrow> path \<Rightarrow> (io_error, bool) res" where
  "fs_is_symlink fs p =
     (case locate_entry fs p of
        None \<Rightarrow> Err NotFound
      | Some r \<Rightarrow> (case node_at fs r of
                     None \<Rightarrow> Err NotFound
                   | Some (LinkNode _) \<Rightarrow> Ok True
                   | Some _ \<Rightarrow> Ok False))"

definition fs_read :: "host_fs \<Rightarrow> path \<Rightarrow> (io_error, bytes) res" where
  "fs_read fs p =
     (case canonicalize fs p of
        None \<Rightarrow> Err NotFound
      | Some r \<Rightarrow>
          if deny_read fs r then Err PermissionDenied
          else (case node_at fs r of
                  Some (FileNode b) \<Rightarrow> Ok b
                | _ \<Rightarrow> Err IsADirectory))"

fun entry_name :: "path \<Rightarrow> path \<Rightarrow> string option" where
  "entry_name d p = (if p \<noteq> [] \<and> butlast p = d then (case last p of Normal s \<Rightarrow> Some s | _ \<Rightarrow> None) else None)"

definition fs_read_dir :: "host_fs \<Rightarrow> path \<Rightarrow> (io_error, (string \<times> fs_node) list) res" where
  "fs_read_dir fs p =
     (case canonicalize fs p of
        None \<Rightarrow> Err NotFound
      | Some r \<Rightarrow>
          if deny_read fs r then Err PermissionDenied
          else if node_at fs r = Some DirNode
          then Ok (List.map_filter
                 (\<lambda>(q, n). map_option (\<lambda>s. (s, n)) (entry_name r q)) (nodes fs))
          else Err NotADirectory)"

section \<open>Mutations\<close>

definition put_node :: "host_fs \<Rightarrow> path \<Rightarrow> fs_node \<Rightarrow> host_fs" where
  "put_node fs p n = fs\<lparr>nodes := assoc_insert p n (nodes fs)\<rparr>"

definition drop_node :: "host_fs \<Rightarrow> path \<Rightarrow> host_fs" where
  "drop_node fs p = fs\<lparr>nodes := assoc_remove p (nodes fs)\<rparr>"

definition drop_tree :: "host_fs \<Rightarrow> path \<Rightarrow> host_fs" where
  "drop_tree fs p = fs\<lparr>nodes := filter (\<lambda>e. \<not> has_prefix (fst e) p) (nodes fs)\<rparr>"

text \<open>
  \<open>std::fs::write\<close>: create or truncate, following links, then write all. The bytes before a
  fault are on the disk when it fails, in place of what was there: \<open>fs_write\<close> is the disk after a
  success, \<open>fs_write_left\<close> the disk after a failure.
\<close>

definition NO_SPACE :: io_error where
  "NO_SPACE = OtherIo ''No space left on device (os error 28)''"

definition write_open :: "host_fs \<Rightarrow> path \<Rightarrow> (io_error, path) res" where
  "write_open fs p =
     (case locate fs p of
        None \<Rightarrow> Err NotFound
      | Some r \<Rightarrow>
          if deny_write fs r then Err PermissionDenied
          else (case node_at fs r of
                  Some DirNode \<Rightarrow> Err IsADirectory
                | _ \<Rightarrow> if node_at fs (butlast r) = Some DirNode then Ok r else Err NotFound))"

definition fault_in :: "host_fs \<Rightarrow> path \<Rightarrow> bytes \<Rightarrow> nat option" where
  "fault_in fs r b = (case disk_fault fs r of Some n \<Rightarrow> (if n < length b then Some n else None) | None \<Rightarrow> None)"

definition fs_write :: "host_fs \<Rightarrow> path \<Rightarrow> bytes \<Rightarrow> (io_error, host_fs) res" where
  "fs_write fs p b =
     (case write_open fs p of
        Inl e \<Rightarrow> Err e
      | Inr r \<Rightarrow> if fault_in fs r b = None then Ok (put_node fs r (FileNode b)) else Err NO_SPACE)"

definition fs_write_left :: "host_fs \<Rightarrow> path \<Rightarrow> bytes \<Rightarrow> host_fs" where
  "fs_write_left fs p b =
     (case write_open fs p of
        Inl e \<Rightarrow> fs
      | Inr r \<Rightarrow> (case fault_in fs r b of Some n \<Rightarrow> put_node fs r (FileNode (take n b)) | None \<Rightarrow> put_node fs r (FileNode b)))"

text \<open>\<open>File::create\<close>, \<open>write_all\<close> and \<open>sync_all\<close>: a fault behind the last byte is met by the flush.\<close>

definition fs_save :: "host_fs \<Rightarrow> path \<Rightarrow> bytes \<Rightarrow> (io_error, host_fs) res" where
  "fs_save fs p b =
     (case write_open fs p of
        Inl e \<Rightarrow> Err e
      | Inr r \<Rightarrow> if disk_fault fs r = None then Ok (put_node fs r (FileNode b)) else Err NO_SPACE)"

definition fs_save_left :: "host_fs \<Rightarrow> path \<Rightarrow> bytes \<Rightarrow> host_fs" where
  "fs_save_left fs p b =
     (case write_open fs p of
        Inl e \<Rightarrow> fs
      | Inr r \<Rightarrow> (case disk_fault fs r of Some n \<Rightarrow> put_node fs r (FileNode (take n b)) | None \<Rightarrow> put_node fs r (FileNode b)))"

text \<open>
  \<open>OpenOptions::create_new\<close>, \<open>write_all\<close> and \<open>sync_all\<close>: the entry must not exist, not even as a
  link; a fault is met by the write, or, when it lies behind the last byte, by the flush.
\<close>

definition create_open :: "host_fs \<Rightarrow> path \<Rightarrow> (io_error, path) res" where
  "create_open fs p =
     (case locate_entry fs p of
        None \<Rightarrow> Err NotFound
      | Some r \<Rightarrow>
          if node_at fs r \<noteq> None then Err AlreadyExists
          else if deny_write fs r then Err PermissionDenied
          else Ok r)"

definition fs_create_new :: "host_fs \<Rightarrow> path \<Rightarrow> bytes \<Rightarrow> (io_error, host_fs) res" where
  "fs_create_new fs p b =
     (case create_open fs p of
        Inl e \<Rightarrow> Err e
      | Inr r \<Rightarrow> if disk_fault fs r = None then Ok (put_node fs r (FileNode b)) else Err NO_SPACE)"

definition fs_create_left :: "host_fs \<Rightarrow> path \<Rightarrow> bytes \<Rightarrow> host_fs" where
  "fs_create_left fs p b =
     (case create_open fs p of
        Inl e \<Rightarrow> fs
      | Inr r \<Rightarrow> (case disk_fault fs r of Some n \<Rightarrow> put_node fs r (FileNode (take n b)) | None \<Rightarrow> put_node fs r (FileNode b)))"

definition fs_remove_file :: "host_fs \<Rightarrow> path \<Rightarrow> (io_error, host_fs) res" where
  "fs_remove_file fs p =
     (case locate_entry fs p of
        None \<Rightarrow> Err NotFound
      | Some r \<Rightarrow>
          (case node_at fs r of
             None \<Rightarrow> Err NotFound
           | Some DirNode \<Rightarrow> Err IsADirectory
           | Some _ \<Rightarrow> if deny_write fs r then Err PermissionDenied else Ok (drop_node fs r)))"

text \<open>
  \<open>remove_dir_all\<close>: a link is unlinked, a directory is removed with everything below it. Where
  an entry below cannot be removed the call fails; which of the others are gone by then is up to
  the directory order, and the model removes none.
\<close>

definition fs_remove_dir_all :: "host_fs \<Rightarrow> path \<Rightarrow> (io_error, host_fs) res" where
  "fs_remove_dir_all fs p =
     (case locate_entry fs p of
        None \<Rightarrow> Err NotFound
      | Some r \<Rightarrow>
          (case node_at fs r of
             None \<Rightarrow> Err NotFound
           | Some (FileNode _) \<Rightarrow> Err NotADirectory
           | Some (LinkNode _) \<Rightarrow> if deny_write fs r then Err PermissionDenied else Ok (drop_node fs r)
           | Some DirNode \<Rightarrow>
               if deny_write fs r \<or> list_ex (\<lambda>e. has_prefix (fst e) r \<and> deny_write fs (fst e)) (nodes fs)
               then Err PermissionDenied else Ok (drop_tree fs r)))"

text \<open>\<open>rename\<close> of a file: replaces a file or a link at the destination, never a directory.\<close>

definition fs_rename :: "host_fs \<Rightarrow> path \<Rightarrow> path \<Rightarrow> (io_error, host_fs) res" where
  "fs_rename fs a b =
     (case (locate_entry fs a, locate_entry fs b) of
        (Some ra, Some rb) \<Rightarrow>
          (case node_at fs ra of
             None \<Rightarrow> Err NotFound
           | Some n \<Rightarrow>
               if node_at fs rb = Some DirNode then Err IsADirectory
               else if deny_write fs ra \<or> deny_write fs rb then Err PermissionDenied
               else Ok (put_node (drop_node fs ra) rb n))
      | _ \<Rightarrow> Err NotFound)"

text \<open>
  \<open>create_dir_all\<close>: the missing directories of the path, from the top. Those made before a
  failure stay: \<open>fs_dirs_left\<close>.
\<close>

fun make_dirs :: "host_fs \<Rightarrow> path \<Rightarrow> path \<Rightarrow> (io_error, host_fs) res" where
  "make_dirs fs pre [] = Ok fs"
| "make_dirs fs pre (c # cs) =
     (let p = pre @ [c] in
      if fs_is_dir fs p then make_dirs fs p cs
      else (case locate_entry fs p of
              None \<Rightarrow> Err NotADirectory
            | Some r \<Rightarrow>
                if node_at fs r \<noteq> None then Err AlreadyExists
                else if deny_write fs r then Err PermissionDenied
                else make_dirs (put_node fs r DirNode) p cs))"

definition fs_create_dir_all :: "host_fs \<Rightarrow> path \<Rightarrow> (io_error, host_fs) res" where
  "fs_create_dir_all fs p = (if p = [] then Ok fs else make_dirs fs [] p)"

fun make_dirs_left :: "host_fs \<Rightarrow> path \<Rightarrow> path \<Rightarrow> host_fs" where
  "make_dirs_left fs pre [] = fs"
| "make_dirs_left fs pre (c # cs) =
     (let p = pre @ [c] in
      if fs_is_dir fs p then make_dirs_left fs p cs
      else (case locate_entry fs p of
              None \<Rightarrow> fs
            | Some r \<Rightarrow>
                if node_at fs r \<noteq> None \<or> deny_write fs r then fs
                else make_dirs_left (put_node fs r DirNode) p cs))"

definition fs_dirs_left :: "host_fs \<Rightarrow> path \<Rightarrow> host_fs" where
  "fs_dirs_left fs p = (if p = [] then fs else make_dirs_left fs [] p)"

section \<open>Lemmas\<close>

lemma node_at_put [simp]:
  "p \<noteq> [RootDir] \<Longrightarrow> node_at (put_node fs p n) q = (if q = p then Some n else node_at fs q)"
  by (auto simp: node_at_def put_node_def)

lemma node_at_drop [simp]:
  "p \<noteq> [RootDir] \<Longrightarrow> node_at (drop_node fs p) q = (if q = p then None else node_at fs q)"
  by (auto simp: node_at_def drop_node_def)

lemma host_fs_frame [simp, frame_simps]:
  "cwd (put_node fs p n) = cwd fs" "deny_read (put_node fs p n) = deny_read fs"
  "deny_write (put_node fs p n) = deny_write fs" "disk_fault (put_node fs p n) = disk_fault fs"
  "cwd (drop_node fs p) = cwd fs" "deny_read (drop_node fs p) = deny_read fs"
  "deny_write (drop_node fs p) = deny_write fs" "disk_fault (drop_node fs p) = disk_fault fs"
  by (simp_all add: put_node_def drop_node_def)

lemma no_fault [simp]: "disk_fault fs r = None \<Longrightarrow> fault_in fs r b = None"
  by (simp add: fault_in_def)

lemma fault_in_frame [simp, frame_simps]:
  "fault_in (put_node fs p n) r b = fault_in fs r b" "fault_in (drop_node fs p) r b = fault_in fs r b"
  by (simp_all add: fault_in_def)

lemma not_root_node: "node_at fs r \<noteq> Some DirNode \<Longrightarrow> r \<noteq> [RootDir]"
  by (auto simp: node_at_def)

text \<open>
  A walk cannot tell a missing last component from a regular file: putting a file where
  nothing or a file was, or removing one, changes no walk.
\<close>

definition leaf_at :: "host_fs \<Rightarrow> path \<Rightarrow> bool" where
  "leaf_at fs r \<longleftrightarrow> node_at fs r = None \<or> (\<exists>b. node_at fs r = Some (FileNode b))"

lemma leaf_not_root: "leaf_at fs r \<Longrightarrow> r \<noteq> [RootDir]"
  by (auto simp: leaf_at_def node_at_def)

lemma walk_put_file [simp]:
  "leaf_at fs r \<Longrightarrow> walk n (put_node fs r (FileNode c)) d t = walk n fs d t"
  by (induction n fs d t rule: walk.induct)
    (auto simp: leaf_not_root, auto simp: leaf_at_def split: option.splits fs_node.splits)

lemma walk_drop_leaf [simp]:
  "leaf_at fs r \<Longrightarrow> walk n (drop_node fs r) d t = walk n fs d t"
  by (induction n fs d t rule: walk.induct)
    (auto simp: leaf_not_root, auto simp: leaf_at_def split: option.splits fs_node.splits)

lemma locate_leaf_simps [simp]:
  "leaf_at fs r \<Longrightarrow> locate (put_node fs r (FileNode c)) p = locate fs p"
  "leaf_at fs r \<Longrightarrow> locate (drop_node fs r) p = locate fs p"
  by (simp_all add: locate_def)

lemma leaf_at_put [simp]:
  "leaf_at fs r \<Longrightarrow> leaf_at (put_node fs r (FileNode c)) q = (q = r \<or> leaf_at fs q)"
  by (auto simp: leaf_at_def leaf_not_root)

lemma walk_snoc:
  "walk n fs d (t @ [Normal s]) = Some r \<Longrightarrow>
   \<exists>m d'. walk n fs d t = Some d' \<and> walk m fs d' [Normal s] = Some r"
proof (induction n fs d t rule: walk.induct)
  case (1 links fs d)
  then show ?case by (metis append_Nil walk.simps(1))
next
  case (5 links fs d x cs)
  show ?case
  proof (cases "node_at fs (d @ [Normal x])")
    case None
    with 5 show ?thesis by simp
  next
    case (Some nd)
    show ?thesis
    proof (cases nd)
      case (FileNode b)
      with Some 5 show ?thesis by simp
    next
      case DirNode
      with Some 5 have "walk links fs (d @ [Normal x]) (cs @ [Normal s]) = Some r"
        by (simp del: walk.simps(5) add: walk.simps(5) [of links fs d x "cs @ [Normal s]"])
      from "5.IH"(1) [OF Some DirNode this] Some DirNode show ?thesis
        by (simp del: walk.simps(5) add: walk.simps(5) [of links fs d x cs])
    next
      case (LinkNode l)
      with Some 5 have "links \<noteq> 0" "walk (links - 1) fs d ((l @ cs) @ [Normal s]) = Some r"
        by (simp_all del: walk.simps(5) add: walk.simps(5) [of links fs d x "cs @ [Normal s]"] split: if_splits)
      from "5.IH"(2) [OF Some LinkNode this] \<open>links \<noteq> 0\<close> Some LinkNode show ?thesis
        by (simp del: walk.simps(5) add: walk.simps(5) [of links fs d x cs])
    qed
  qed
qed simp_all

text \<open>The location of a path whose entry is missing or a plain file is that entry.\<close>

lemma canonicalize_dir_put:
  assumes "leaf_at fs r" and "canonicalize fs p = Some d"
  shows "canonicalize (put_node fs r (FileNode c)) p = Some d"
  using assms leaf_not_root [OF assms(1)]
  by (auto simp: canonicalize_def split: option.splits if_splits)

lemma canonicalize_dir_drop:
  assumes "leaf_at fs r" and "canonicalize fs p = Some d" and "node_at fs d = Some DirNode"
  shows "canonicalize (drop_node fs r) p = Some d"
proof -
  have "d \<noteq> r" using assms(1,3) by (auto simp: leaf_at_def)
  with assms leaf_not_root [OF assms(1)] show ?thesis
    by (auto simp: canonicalize_def split: option.splits if_splits)
qed

lemma locate_entry_put:
  assumes "leaf_at fs r" and "locate_entry fs p = Some e"
  shows "locate_entry (put_node fs r (FileNode c)) p = Some e"
proof -
  have dir: "node_at (put_node fs r (FileNode c)) d = Some DirNode" if "node_at fs d = Some DirNode" for d
    using that assms(1) leaf_not_root [OF assms(1)] by (auto simp: leaf_at_def)
  show ?thesis
    using assms dir canonicalize_dir_put [OF assms(1)]
    by (auto simp: locate_entry_def split: pcomp.splits option.splits if_splits)
qed

lemma locate_entry_normal:
  "locate_entry fs (p @ [Normal s]) = Some e \<longleftrightarrow>
   (\<exists>d. (if p = [] then Some (cwd fs) else canonicalize fs p) = Some d \<and>
        node_at fs d = Some DirNode \<and> e = d @ [Normal s])"
  by (auto simp: locate_entry_def split: option.splits)

lemma locate_entry_put_iff:
  assumes "leaf_at fs r"
  shows "locate_entry (put_node fs r (FileNode c)) (p @ [Normal s]) = Some e \<longleftrightarrow>
    locate_entry fs (p @ [Normal s]) = Some e"
proof
  note rr = leaf_not_root [OF assms]
  assume "locate_entry (put_node fs r (FileNode c)) (p @ [Normal s]) = Some e"
  then obtain d where d: "(if p = [] then Some (cwd fs) else canonicalize (put_node fs r (FileNode c)) p) = Some d"
    "node_at (put_node fs r (FileNode c)) d = Some DirNode" "e = d @ [Normal s]"
    unfolding locate_entry_normal host_fs_frame by blast
  from d(2) rr have n: "d \<noteq> r" "node_at fs d = Some DirNode" by (auto split: if_splits)
  with d(1) rr assms have "(if p = [] then Some (cwd fs) else canonicalize fs p) = Some d"
    by (auto simp: canonicalize_def split: option.splits if_splits)
  with n d(3) show "locate_entry fs (p @ [Normal s]) = Some e"
    unfolding locate_entry_normal by blast
qed (rule locate_entry_put [OF assms])

text \<open>Resolving a path whose parent resolves to \<open>d\<close> and whose entry there is a file.\<close>

lemma walk_append_dir:
  "walk n fs d t = Some d' \<Longrightarrow> node_at fs d' = Some DirNode \<Longrightarrow>
   leaf_at fs (d' @ [Normal s]) \<Longrightarrow> walk n fs d (t @ [Normal s]) = Some (d' @ [Normal s])"
proof (induction n fs d t rule: walk.induct)
  case (1 links fs d)
  then show ?case by (auto simp: leaf_at_def split: option.splits fs_node.splits)
next
  case (5 links fs d x cs)
  then show ?case
    by (auto split: option.splits fs_node.splits if_splits)
qed auto

lemma canonicalize_entry_file:
  assumes "locate_entry fs (p @ [Normal s]) = Some e" and "node_at fs e = Some (FileNode b)"
  shows "canonicalize fs (p @ [Normal s]) = Some e"
proof -
  from assms(1) obtain d where d: "(if p = [] then Some (cwd fs) else canonicalize fs p) = Some d"
    "node_at fs d = Some DirNode" "e = d @ [Normal s]"
    unfolding locate_entry_normal by blast
  then have w: "walk MAX_SYMLINKS fs (cwd fs) p = Some d"
    by (auto simp: canonicalize_def locate_def split: if_splits option.splits)
  have "leaf_at fs (d @ [Normal s])" using assms(2) d(3) by (simp add: leaf_at_def)
  from walk_append_dir [OF w d(2) this] have "locate fs (p @ [Normal s]) = Some e"
    using d(3) by (simp add: locate_def)
  then show ?thesis using assms(2) by (simp add: canonicalize_def)
qed

text \<open>Resolution depends on the nodes and the working directory only.\<close>

lemma walk_cong:
  assumes "\<And>x. node_at a x = node_at b x"
  shows "walk n a d t = walk n b d t"
  using assms
  by (induction n a d t rule: walk.induct) (auto split: option.splits fs_node.splits)

lemma locate_entry_cong:
  assumes "\<And>x. node_at a x = node_at b x" and "cwd a = cwd b"
  shows "locate_entry a p = locate_entry b p"
proof -
  have "canonicalize a q = canonicalize b q" for q
    using assms by (simp add: canonicalize_def locate_def walk_cong [of a b] split: option.split)
  then show ?thesis using assms by (simp add: locate_entry_def split: option.split pcomp.split)
qed

text \<open>Directories made on the way are new nodes; nothing that existed changes.\<close>

definition only_adds_dirs :: "host_fs \<Rightarrow> host_fs \<Rightarrow> bool" where
  "only_adds_dirs fs fs' \<longleftrightarrow>
     (\<forall>q. node_at fs' q = node_at fs q \<or> (node_at fs q = None \<and> node_at fs' q = Some DirNode))"

lemma only_adds_dirs_refl [simp]: "only_adds_dirs fs fs"
  by (simp add: only_adds_dirs_def)

lemma only_adds_dirs_trans: "only_adds_dirs a b \<Longrightarrow> only_adds_dirs b c \<Longrightarrow> only_adds_dirs a c"
  unfolding only_adds_dirs_def by (metis option.distinct(1))

lemma make_dirs_left_Ok: "make_dirs fs pre cs = Ok fs' \<Longrightarrow> make_dirs_left fs pre cs = fs'"
  by (induction fs pre cs rule: make_dirs.induct) (auto simp: Let_def split: option.splits if_splits)

lemma make_dirs_left_adds: "only_adds_dirs fs (make_dirs_left fs pre cs)"
proof (induction fs pre cs rule: make_dirs_left.induct)
  case (2 fs pre c cs)
  show ?case
  proof (cases "fs_is_dir fs (pre @ [c])")
    case True
    with 2 show ?thesis by simp
  next
    case False
    show ?thesis
    proof (cases "\<exists>r. locate_entry fs (pre @ [c]) = Some r \<and> node_at fs r = None \<and> \<not> deny_write fs r")
      case True
      then obtain r where r: "locate_entry fs (pre @ [c]) = Some r" "node_at fs r = None" "\<not> deny_write fs r" by blast
      have "r \<noteq> [RootDir]" using r(2) by (auto simp: node_at_def)
      then have "only_adds_dirs fs (put_node fs r DirNode)"
        using r(2) by (simp add: only_adds_dirs_def)
      moreover have "only_adds_dirs (put_node fs r DirNode) (make_dirs_left (put_node fs r DirNode) (pre @ [c]) cs)"
        using "2.IH"(2) [OF refl False r(1)] r by simp
      ultimately have "only_adds_dirs fs (make_dirs_left (put_node fs r DirNode) (pre @ [c]) cs)"
        by (rule only_adds_dirs_trans)
      with False r show ?thesis by simp
    qed (use False in \<open>auto simp: Let_def split: option.split\<close>)
  qed
qed simp

lemma make_dirs_left_env:
  "cwd (make_dirs_left fs pre cs) = cwd fs \<and> deny_read (make_dirs_left fs pre cs) = deny_read fs \<and>
   deny_write (make_dirs_left fs pre cs) = deny_write fs \<and> disk_fault (make_dirs_left fs pre cs) = disk_fault fs"
  by (induction fs pre cs rule: make_dirs_left.induct) (auto simp: Let_def split: option.splits)

lemma make_dirs_adds: "make_dirs fs pre cs = Ok fs' \<Longrightarrow> only_adds_dirs fs fs'"
  using make_dirs_left_Ok make_dirs_left_adds by metis

lemma create_dirs_left_Ok: "fs_create_dir_all fs p = Ok fs' \<Longrightarrow> fs_dirs_left fs p = fs'"
  by (auto simp: fs_create_dir_all_def fs_dirs_left_def make_dirs_left_Ok split: if_splits)

lemma dirs_left_adds: "only_adds_dirs fs (fs_dirs_left fs p)"
  by (simp add: fs_dirs_left_def make_dirs_left_adds)

lemma make_dirs_env:
  "make_dirs fs pre cs = Ok fs' \<Longrightarrow>
   cwd fs' = cwd fs \<and> deny_read fs' = deny_read fs \<and> deny_write fs' = deny_write fs \<and> disk_fault fs' = disk_fault fs"
  using make_dirs_left_Ok make_dirs_left_env by metis

end
