(* ===== verification/Daemon_Error.thy ===== *)
theory Daemon_Error
  imports Host_Fs
begin

text \<open>
  \<open>DaemonError\<close> of \<open>daemon-core/src/lib.rs\<close> and its \<open>Display\<close> text. The payloads of the
  JSON and transport errors are the texts those libraries print.
\<close>

datatype daemon_error =
    CapabilityDenied string
  | PathDenied string
  | Io io_error
  | Json string
  | Keyring string
  | Ws string
  | Protocol string
  | UserDenied
  | Cancelled
  | Timeout nat
  | AwaitingConsent
  | EvalFailed string bool string string string

fun error_to_string :: "daemon_error \<Rightarrow> string" where
  "error_to_string (CapabilityDenied m) = ''capability not granted: '' @ m"
| "error_to_string (PathDenied m) = ''path outside alwaysAllow: '' @ m"
| "error_to_string (Io e) = ''io error: '' @ io_display e"
| "error_to_string (Json m) = ''json error: '' @ m"
| "error_to_string (Keyring m) = ''keyring error: '' @ m"
| "error_to_string (Ws m) = ''websocket error: '' @ m"
| "error_to_string (Protocol m) = ''protocol error: '' @ m"
| "error_to_string UserDenied = ''user denied consent''"
| "error_to_string Cancelled = ''action cancelled''"
| "error_to_string (Timeout ms) = ''timed out after '' @ nat_to_string ms @ ''ms''"
| "error_to_string AwaitingConsent = ''waiting for owner consent''"
| "error_to_string (EvalFailed sid created m out err) = ''eval failed: '' @ m"

text \<open>\<open>map_err(DaemonError::Io)?\<close>.\<close>

definition io_try :: "(io_error, 'a) res \<Rightarrow> ('a \<Rightarrow> (daemon_error, 'b) res) \<Rightarrow> (daemon_error, 'b) res" where
  "io_try r f = (case r of Inl e \<Rightarrow> Err (Io e) | Inr a \<Rightarrow> f a)"

lemma io_try_simps [simp, result_simps]:
  "io_try (Inl e) f = Inl (Io e)"
  "io_try (Inr a) f = f a"
  by (simp_all add: io_try_def)

lemma io_try_OkD: "io_try r f = Inr b \<Longrightarrow> \<exists>a. r = Inr a \<and> f a = Inr b"
  by (cases r) auto

end
