(* ===== verification/Hashline.thy ===== *)
theory Hashline
  imports Daemon_Error
begin

text \<open>
  Hashline patching of \<open>daemon-core/src/fs_ops.rs\<close>: the annotated read and the batch of
  anchored edits. The SHA-256 of the \<open>sha2\<close> crate, printed by \<open>hex\<close>, is the parameter
  \<open>sha\<close>; the standard library's line splitting and lossy UTF-8 decoding are written out.
\<close>

section \<open>Lossy UTF-8 decoding\<close>

abbreviation byte_val :: "char \<Rightarrow> nat" where "byte_val c \<equiv> of_char c"

definition in_range :: "nat \<Rightarrow> nat \<Rightarrow> nat \<Rightarrow> bool" where
  "in_range lo hi n = (lo \<le> n \<and> n \<le> hi)"

fun is_cont :: "char option \<Rightarrow> bool" where
  "is_cont None = False"
| "is_cont (Some c) = in_range 0x80 0xBF (byte_val c)"

definition nth_opt :: "'a list \<Rightarrow> nat \<Rightarrow> 'a option" where
  "nth_opt xs i = (if i < length xs then Some (xs ! i) else None)"

definition second_ok :: "nat \<Rightarrow> char option \<Rightarrow> bool" where
  "second_ok b0 c =
     (case c of None \<Rightarrow> False
      | Some c \<Rightarrow>
          let b = byte_val c in
          if b0 = 0xE0 then in_range 0xA0 0xBF b
          else if b0 = 0xED then in_range 0x80 0x9F b
          else if b0 = 0xF0 then in_range 0x90 0xBF b
          else if b0 = 0xF4 then in_range 0x80 0x8F b
          else in_range 0x80 0xBF b)"

text \<open>The next chunk: how many bytes it takes and whether they are one character.\<close>

definition utf8_chunk :: "bytes \<Rightarrow> nat \<times> bool" where
  "utf8_chunk s =
     (let b0 = byte_val (hd s) in
      if b0 < 0x80 then (1, True)
      else if in_range 0xC2 0xDF b0 then (if is_cont (nth_opt s 1) then (2, True) else (1, False))
      else if in_range 0xE0 0xEF b0 then
        (if \<not> second_ok b0 (nth_opt s 1) then (1, False)
         else if \<not> is_cont (nth_opt s 2) then (2, False) else (3, True))
      else if in_range 0xF0 0xF4 b0 then
        (if \<not> second_ok b0 (nth_opt s 1) then (1, False)
         else if \<not> is_cont (nth_opt s 2) then (2, False)
         else if \<not> is_cont (nth_opt s 3) then (3, False) else (4, True))
      else (1, False))"

lemma utf8_chunk_pos: "0 < fst (utf8_chunk s)"
  by (simp add: utf8_chunk_def Let_def)

definition replacement_char :: string where
  "replacement_char = [CHR 0xEF, CHR 0xBF, CHR 0xBD]"

function from_utf8_lossy :: "bytes \<Rightarrow> string" where
  "from_utf8_lossy s =
     (if s = [] then []
      else (case utf8_chunk s of (n, ok) \<Rightarrow>
              (if ok then take n s else replacement_char) @ from_utf8_lossy (drop n s)))"
  by pat_completeness auto
termination
proof (relation "measure length", goal_cases)
  case (2 s n ok)
  then have "0 < n" using utf8_chunk_pos [of s] by (metis fst_conv)
  with 2 show ?case by (cases s) auto
qed simp

declare from_utf8_lossy.simps [simp del]

text \<open>
  \<open>from_utf8\<close> and \<open>read_to_string\<close> fail when the bytes are not UTF-8: the lossy decoding would
  change them.
\<close>

definition valid_utf8 :: "bytes \<Rightarrow> bool" where
  "valid_utf8 s = (from_utf8_lossy s = s)"

section \<open>Lines\<close>

fun split_inclusive :: "string \<Rightarrow> string list" where
  "split_inclusive [] = []"
| "split_inclusive (c # cs) =
     (if c = CHR 0x0A then [c] # split_inclusive cs
      else (case split_inclusive cs of [] \<Rightarrow> [[c]] | w # ws \<Rightarrow> (c # w) # ws))"

definition strip_suffix_char :: "char \<Rightarrow> string \<Rightarrow> string" where
  "strip_suffix_char d s = (if s \<noteq> [] \<and> last s = d then butlast s else s)"

definition strip_newline :: "string \<Rightarrow> string" where
  "strip_newline l =
     (if l \<noteq> [] \<and> last l = CHR 0x0A then strip_suffix_char (CHR 0x0D) (butlast l) else l)"

definition str_lines :: "string \<Rightarrow> string list" where
  "str_lines s = map strip_newline (split_inclusive s)"

section \<open>Anchors\<close>

definition HASHLINE_PREFIX :: string where
  "HASHLINE_PREFIX = '' | ''"

definition short_hash :: "(bytes \<Rightarrow> string) \<Rightarrow> string \<Rightarrow> string" where
  "short_hash sha line = take 6 (sha (strip_suffix_char (CHR 0x0D) line))"

record hashline_edit =
  edit_start_line :: nat
  edit_end_line :: "nat option"
  edit_hashes :: "string option"
  edit_replacement :: "string list"

record patch_applied =
  applied_start_line :: nat
  applied_end_line :: nat
  applied_lines_added :: nat

definition anchor_matches :: "string list \<Rightarrow> string option \<Rightarrow> bool" where
  "anchor_matches actual expected =
     (case expected of
        None \<Rightarrow> True
      | Some e \<Rightarrow>
          list_all (\<lambda>h. list_ex (\<lambda>a. a = h) actual)
            (filter (\<lambda>s. s \<noteq> []) (map str_trim (split_on (CHR '','') e))))"

fun annotate_lines :: "(bytes \<Rightarrow> string) \<Rightarrow> nat \<Rightarrow> string list \<Rightarrow> string" where
  "annotate_lines sha idx [] = []"
| "annotate_lines sha idx (l # ls) =
     nat_to_string (idx + 1) @ HASHLINE_PREFIX @ short_hash sha l @ HASHLINE_PREFIX @ l @ [CHR 0x0A] @
     annotate_lines sha (idx + 1) ls"

definition annotate_content :: "(bytes \<Rightarrow> string) \<Rightarrow> string \<Rightarrow> string" where
  "annotate_content sha content = annotate_lines sha 0 (str_lines content)"

text \<open>The Display text of a stale anchor; the debug rendering of the hashes is left to \<open>dbg\<close>.\<close>

definition patch_anchor_error ::
    "(string option \<Rightarrow> string list \<Rightarrow> string \<times> string) \<Rightarrow> nat \<Rightarrow> nat \<Rightarrow> string option \<Rightarrow> string list \<Rightarrow> string" where
  "patch_anchor_error dbg start_line end_line expected actual =
     ''stale_anchor: lines '' @ nat_to_string start_line @ ''-'' @ nat_to_string end_line @
     '' changed since read (expected '' @ fst (dbg expected actual) @ '', now '' @ snd (dbg expected actual) @
     ''). Re-read the file and re-emit the patch.''"

section \<open>The patch\<close>

type_synonym planned_edit = "nat \<times> nat \<times> string list"

type_synonym dbg = "string option \<Rightarrow> string list \<Rightarrow> string \<times> string"

fun plan_edits ::
    "dbg \<Rightarrow> (bytes \<Rightarrow> string) \<Rightarrow> string list \<Rightarrow> hashline_edit list \<Rightarrow> (daemon_error, planned_edit list) res" where
  "plan_edits dbg sha lines [] = Ok []"
| "plan_edits dbg sha lines (e # es) =
     (let start = max (edit_start_line e) 1;
          stop = max (case edit_end_line e of Some l \<Rightarrow> l | None \<Rightarrow> edit_start_line e) start in
      if stop > length lines
      then Err (Protocol (''stale_anchor: end_line '' @ nat_to_string stop @ '' beyond EOF ('' @
             nat_to_string (length lines) @ '' lines). Re-read the file.''))
      else
        let actual = map (short_hash sha) (take (stop - (start - 1)) (drop (start - 1) lines)) in
        if \<not> anchor_matches actual (edit_hashes e)
        then Err (Protocol (patch_anchor_error dbg start stop (edit_hashes e) actual))
        else try_bind (plan_edits dbg sha lines es)
               (\<lambda>ps. Ok ((start - 1, stop, edit_replacement e) # ps)))"

definition splice :: "nat \<Rightarrow> nat \<Rightarrow> 'a list \<Rightarrow> 'a list \<Rightarrow> 'a list" where
  "splice i j rep xs = take i xs @ rep @ drop j xs"

fun apply_edits ::
    "nat option \<Rightarrow> string list \<Rightarrow> planned_edit list \<Rightarrow> (daemon_error, string list \<times> patch_applied list) res" where
  "apply_edits last_start lines [] = Ok (lines, [])"
| "apply_edits last_start lines ((idx, stop, rep) # ps) =
     (if (case last_start of Some prev \<Rightarrow> stop > prev | None \<Rightarrow> False)
      then Err (Protocol ''fs.patch: overlapping edit ranges'')
      else try_bind (apply_edits (Some idx) (splice idx stop rep lines) ps)
             (\<lambda>(ls, ap). Ok (ls, \<lparr>applied_start_line = idx + 1, applied_end_line = stop,
                                  applied_lines_added = length rep\<rparr> # ap)))"

definition sort_edits :: "planned_edit list \<Rightarrow> planned_edit list" where
  "sort_edits ps = sort_key (\<lambda>p. - int (fst p)) ps"

definition patch_text ::
    "dbg \<Rightarrow> (bytes \<Rightarrow> string) \<Rightarrow> bytes \<Rightarrow> hashline_edit list \<Rightarrow> (daemon_error, bytes \<times> patch_applied list) res" where
  "patch_text dbg sha original_bytes edits =
     (let lines = str_lines (from_utf8_lossy original_bytes) in
      try_bind (plan_edits dbg sha lines edits) (\<lambda>planned.
      try_bind (apply_edits None lines (sort_edits planned)) (\<lambda>(lines', applied).
        let content = str_join [CHR 0x0A] lines' in
        Ok (if original_bytes \<noteq> [] \<and> last original_bytes = CHR 0x0A then content @ [CHR 0x0A] else content,
            rev applied))))"

section \<open>Lemmas: planning\<close>

definition planned_ok :: "nat \<Rightarrow> planned_edit \<Rightarrow> bool" where
  "planned_ok n p \<longleftrightarrow> fst p < fst (snd p) \<and> fst (snd p) \<le> n"

lemma plan_edits_ok: "plan_edits dbg sha lines es = Ok ps \<Longrightarrow> list_all (planned_ok (length lines)) ps"
  by (induction es arbitrary: ps)
    (auto simp: planned_ok_def Let_def try_bind_Inr split: if_splits)

lemma set_sort_edits [simp]: "set (sort_edits ps) = set ps"
  by (simp add: sort_edits_def)

section \<open>Lemmas: applying\<close>

text \<open>
  The reference: with edits in ascending order, copy the original up to the next edit, put
  the replacement, and go on after the replaced range.
\<close>

fun weave :: "nat \<Rightarrow> 'a list \<Rightarrow> (nat \<times> nat \<times> 'a list) list \<Rightarrow> 'a list" where
  "weave k xs [] = drop k xs"
| "weave k xs ((i, j, rep) # es) = take (i - k) (drop k xs) @ rep @ weave j xs es"

text \<open>Ascending and disjoint ranges from position \<open>k\<close> on.\<close>

fun disjoint_from :: "nat \<Rightarrow> (nat \<times> nat \<times> 'a list) list \<Rightarrow> bool" where
  "disjoint_from k [] = True"
| "disjoint_from k ((i, j, rep) # es) = (k \<le> i \<and> disjoint_from j es)"

lemma disjoint_from_mono: "disjoint_from p es \<Longrightarrow> j \<le> p \<Longrightarrow> disjoint_from j es"
  by (cases es) auto

lemma weave_shift:
  assumes "j \<le> p" "p \<le> length xs" "disjoint_from p es"
  shows "weave j xs es = take (p - j) (drop j xs) @ weave p xs es"
proof (cases es)
  case Nil
  then show ?thesis
    using assms by (simp add: drop_drop [symmetric] del: drop_drop) (metis append_take_drop_id drop_drop le_add_diff_inverse2)
next
  case (Cons e es')
  obtain i k r where e: "e = (i, k, r)" by (cases e)
  with Cons assms have "p \<le> i" by simp
  with assms have "take (i - j) (drop j xs) = take (p - j) (drop j xs) @ take (i - p) (drop p xs)"
    using take_add [of "p - j" "i - p" "drop j xs"] by simp
  with Cons e show ?thesis by simp
qed

lemma splice_step:
  assumes "i \<le> j" "j \<le> p" "p \<le> length xs" "disjoint_from p done"
  shows "splice i j rep (take p xs @ weave p xs done) = take i xs @ weave i xs ((i, j, rep) # done)"
proof -
  have "weave j xs done = take (p - j) (drop j xs) @ weave p xs done"
    using assms by (intro weave_shift) auto
  moreover have "drop j (take p xs) = take (p - j) (drop j xs)"
    by (simp add: drop_take)
  ultimately show ?thesis using assms by (simp add: splice_def min_def)
qed

lemma apply_edits_weave:
  assumes "apply_edits (Some p) (take p xs @ weave p xs done) ps = Ok (res, ap)"
    and "list_all (planned_ok (length xs)) ps" and "p \<le> length xs" and "disjoint_from p done"
  shows "res = weave 0 xs (rev ps @ done) \<and> disjoint_from 0 (rev ps @ done)"
  using assms
proof (induction ps arbitrary: p "done" res ap)
  case Nil
  then show ?case
    using weave_shift [of 0 p xs "done"] disjoint_from_mono by fastforce
next
  case (Cons e ps)
  obtain i j rep where e: "e = (i, j, rep)" by (cases e)
  from Cons.prems(1) e have jp: "j \<le> p" by (auto split: if_splits)
  from Cons.prems(2) e have ij: "i < j" "j \<le> length xs" by (simp_all add: planned_ok_def)
  note step = splice_step [OF less_imp_le [OF ij(1)] jp Cons.prems(3,4)]
  from Cons.prems(1) e jp obtain ap' where
    "apply_edits (Some i) (take i xs @ weave i xs ((i, j, rep) # done)) ps = Ok (res, ap')"
    by (auto simp: step try_bind_Inr split: if_splits)
  moreover have "disjoint_from i ((i, j, rep) # done)"
    using disjoint_from_mono [OF Cons.prems(4) jp] by simp
  ultimately show ?case
    using Cons.IH [of i "(i, j, rep) # done" res ap'] Cons.prems(2) ij e by auto
qed

lemma apply_edits_None:
  assumes "list_all (planned_ok (length xs)) ps"
  shows "apply_edits None xs ps = apply_edits (Some (length xs)) xs ps"
  using assms by (cases ps) (auto simp: planned_ok_def)

lemma apply_edits_reference:
  assumes "apply_edits None xs ps = Ok (res, ap)" and "list_all (planned_ok (length xs)) ps"
  shows "res = weave 0 xs (rev ps) \<and> disjoint_from 0 (rev ps)"
  using apply_edits_weave [of "length xs" xs "[]" ps res ap] assms by (simp add: apply_edits_None)

text \<open>The loop fails exactly on ranges that are not disjoint in descending order.\<close>

fun descending_disjoint :: "nat \<Rightarrow> planned_edit list \<Rightarrow> bool" where
  "descending_disjoint p [] = True"
| "descending_disjoint p ((i, j, rep) # ps) = (j \<le> p \<and> descending_disjoint i ps)"

lemma apply_edits_succeeds:
  "is_ok (apply_edits (Some p) xs ps) = descending_disjoint p ps"
proof (induction ps arbitrary: p xs)
  case (Cons e ps)
  obtain i j rep where e: "e = (i, j, rep)" by (cases e)
  show ?case
    using Cons.IH [of i "splice i j rep xs"] e
    by (auto simp: is_ok_def try_bind_def split: sum.splits)
qed simp

section \<open>Lemmas: anchors\<close>

lemma plan_edits_edit:
  assumes "plan_edits dbg sha lines es = Ok ps" and "e \<in> set es"
  shows "let start = max (edit_start_line e) 1;
             stop = max (case edit_end_line e of Some l \<Rightarrow> l | None \<Rightarrow> edit_start_line e) start in
    stop \<le> length lines \<and> (start - 1, stop, edit_replacement e) \<in> set ps \<and>
    anchor_matches (map (short_hash sha) (take (stop - (start - 1)) (drop (start - 1) lines))) (edit_hashes e)"
  using assms
proof (induction es arbitrary: ps)
  case (Cons x es)
  from Cons.prems(1) obtain ps' q where ps': "plan_edits dbg sha lines es = Ok ps'" "ps = q # ps'"
    by (auto simp: Let_def try_bind_Inr split: if_splits)
  show ?case
  proof (cases "e = x")
    case True
    with Cons.prems(1) ps' show ?thesis by (auto simp: Let_def split: if_splits)
  next
    case False
    with Cons.prems(2) have "e \<in> set es" by simp
    from Cons.IH [OF ps'(1) this] ps'(2) show ?thesis by (auto simp: Let_def)
  qed
qed simp

lemma apply_edits_report:
  "apply_edits last_start xs ps = Ok (res, ap) \<Longrightarrow>
   ap = map (\<lambda>(i, j, rep). \<lparr>applied_start_line = i + 1, applied_end_line = j,
                              applied_lines_added = length rep\<rparr>) ps"
  by (induction last_start xs ps arbitrary: res ap rule: apply_edits.induct)
    (auto simp: try_bind_Inr split: if_splits)

section \<open>Lemmas: lines of ASCII text\<close>

lemma lossy_ascii: "list_all (\<lambda>c. byte_val c < 128) s \<Longrightarrow> from_utf8_lossy s = s"
proof (induction s)
  case (Cons c s)
  then have "utf8_chunk (c # s) = (1, True)" by (simp add: utf8_chunk_def)
  with Cons show ?case by (subst from_utf8_lossy.simps) simp
qed (simp add: from_utf8_lossy.simps)

lemma split_inclusive_line:
  "CHR 0x0A \<notin> set l \<Longrightarrow> split_inclusive (l @ CHR 0x0A # s) = (l @ [CHR 0x0A]) # split_inclusive s"
  by (induction l) auto

definition terminated_by :: "string \<Rightarrow> string list \<Rightarrow> string" where
  "terminated_by eol ls = concat (map (\<lambda>l. l @ eol) ls)"

lemma str_lines_terminated:
  assumes "\<And>l. l \<in> set ls \<Longrightarrow> CHR 0x0A \<notin> set l \<and> CHR 0x0D \<notin> set l"
    and "eol = [CHR 0x0A] \<or> eol = [CHR 0x0D, CHR 0x0A]"
  shows "str_lines (terminated_by eol ls) = ls"
  using assms(1)
proof (induction ls)
  case Nil
  then show ?case by (simp add: terminated_by_def str_lines_def)
next
  case (Cons l ls)
  from Cons.prems have l: "CHR 0x0A \<notin> set l" "CHR 0x0D \<notin> set l" by auto
  have "strip_suffix_char (CHR 0x0D) l = l"
    using l by (cases l rule: rev_cases) (auto simp: strip_suffix_char_def)
  then have strip: "strip_newline (l @ eol) = l"
    using assms(2) l by (auto simp: strip_newline_def strip_suffix_char_def butlast_append)
  have "split_inclusive (l @ eol @ s) = (l @ eol) # split_inclusive s" for s
    using assms(2) l split_inclusive_line [of l s] split_inclusive_line [of "l @ [CHR 0x0D]" s] by auto
  with Cons strip show ?case by (simp add: terminated_by_def str_lines_def)
qed

section \<open>Properties\<close>

text \<open>
  C10. The bottom-up patch loop computes simultaneous replacement. When a patch succeeds, its
  edits name pairwise disjoint line ranges of the original, the new text is the original
  with every range replaced at once (copied left to right by \<open>weave\<close>, so lines outside the
  ranges keep their place and content), a final newline is kept exactly when there was one,
  and the report lists the edits in ascending order.
\<close>

theorem patch_is_simultaneous_replacement:
  assumes "patch_text dbg sha original edits = Ok (out, applied)"
    and lines: "lines = str_lines (from_utf8_lossy original)"
  shows "\<exists>planned. plan_edits dbg sha lines edits = Ok planned \<and>
    disjoint_from 0 (rev (sort_edits planned)) \<and>
    out = str_join [CHR 0x0A] (weave 0 lines (rev (sort_edits planned))) @
      (if original \<noteq> [] \<and> last original = CHR 0x0A then [CHR 0x0A] else []) \<and>
    applied = map (\<lambda>(i, j, rep). \<lparr>applied_start_line = i + 1, applied_end_line = j,
      applied_lines_added = length rep\<rparr>) (rev (sort_edits planned))"
proof -
  from assms obtain planned res ap where
    plan: "plan_edits dbg sha lines edits = Ok planned"
    and run: "apply_edits None lines (sort_edits planned) = Ok (res, ap)"
    and out: "out = (if original \<noteq> [] \<and> last original = CHR 0x0A
      then str_join [CHR 0x0A] res @ [CHR 0x0A] else str_join [CHR 0x0A] res)"
    and applied: "applied = rev ap"
    by (auto simp: patch_text_def Let_def try_bind_Inr)
  have "list_all (planned_ok (length lines)) (sort_edits planned)"
    using plan_edits_ok [OF plan] by (simp add: list_all_iff)
  from apply_edits_reference [OF run this]
  have "res = weave 0 lines (rev (sort_edits planned))" "disjoint_from 0 (rev (sort_edits planned))"
    by simp_all
  then show ?thesis
    using plan out applied apply_edits_report [OF run] by (auto simp: rev_map)
qed

definition demo_sha :: "bytes \<Rightarrow> string" where
  "demo_sha b = replicate 64 (CHR ''0'')"

definition demo_dbg :: dbg where
  "demo_dbg e a = ([], [])"

definition demo_edit :: hashline_edit where
  "demo_edit = \<lparr>edit_start_line = 2, edit_end_line = None, edit_hashes = None, edit_replacement = [''X'']\<rparr>"

definition lf3 :: bytes where
  "lf3 = terminated_by [CHR 0x0A] [''a'', ''b'', ''c'']"

definition crlf3 :: bytes where
  "crlf3 = terminated_by [CHR 0x0D, CHR 0x0A] [''a'', ''b'', ''c'']"

theorem patch_is_simultaneous_replacement_witness:
  "patch_text demo_dbg demo_sha lf3 [demo_edit] =
     Ok (terminated_by [CHR 0x0A] [''a'', ''X'', ''c''],
         [\<lparr>applied_start_line = 2, applied_end_line = 2, applied_lines_added = 1\<rparr>]) \<and>
   (\<exists>planned. plan_edits demo_dbg demo_sha (str_lines (from_utf8_lossy lf3)) [demo_edit] = Ok planned)"
proof -
  have h: "patch_text demo_dbg demo_sha lf3 [demo_edit] =
     Ok (terminated_by [CHR 0x0A] [''a'', ''X'', ''c''],
         [\<lparr>applied_start_line = 2, applied_end_line = 2, applied_lines_added = 1\<rparr>])"
    by code_simp
  from patch_is_simultaneous_replacement [OF h refl] h show ?thesis by blast
qed

text \<open>
  C11. A stale anchor rejects the whole batch: if any edit of the batch lists a hash that none of
  the lines it targets has now, or reaches past the end of the file, the patch is an error
  and no text is produced, whatever the other edits are.
\<close>

theorem stale_anchor_rejects_batch:
  assumes "e \<in> set edits" and "lines = str_lines (from_utf8_lossy original)"
    and "start = max (edit_start_line e) 1"
    and "stop = max (case edit_end_line e of Some l \<Rightarrow> l | None \<Rightarrow> edit_start_line e) start"
    and "length lines < stop \<or>
      (\<exists>hs h. edit_hashes e = Some hs \<and> h \<in> set (map str_trim (split_on (CHR '','') hs)) \<and> h \<noteq> [] \<and>
         h \<notin> set (map (short_hash sha) (take (stop - (start - 1)) (drop (start - 1) lines))))"
  shows "\<exists>err. patch_text dbg sha original edits = Err err"
proof (cases "plan_edits dbg sha lines edits")
  case (Inl err)
  with assms(2) show ?thesis by (auto simp: patch_text_def Let_def)
next
  case (Inr ps)
  have "\<not> (stop > length lines)" and
    "anchor_matches (map (short_hash sha) (take (stop - (start - 1)) (drop (start - 1) lines))) (edit_hashes e)"
    using plan_edits_edit [OF Inr assms(1)] assms(3,4) by (auto simp: Let_def)
  with assms(5) have False
    by (auto simp: anchor_matches_def list_all_iff list_ex_iff)
  then show ?thesis ..
qed

theorem stale_anchor_rejects_batch_witness:
  "\<exists>err. patch_text demo_dbg demo_sha lf3 [demo_edit, demo_edit\<lparr>edit_hashes := Some ''ffffff''\<rparr>] = Err err"
proof (rule stale_anchor_rejects_batch [OF _ refl refl refl])
  show "demo_edit\<lparr>edit_hashes := Some ''ffffff''\<rparr> \<in> set [demo_edit, demo_edit\<lparr>edit_hashes := Some ''ffffff''\<rparr>]"
    by simp
  have "''ffffff'' \<in> set (map str_trim (split_on (CHR '','') ''ffffff''))"
    by code_simp
  moreover have "''ffffff'' \<notin> set (map (short_hash demo_sha) (take 1 (drop 1 (str_lines (from_utf8_lossy lf3)))))"
    by code_simp
  ultimately show "length (str_lines (from_utf8_lossy lf3)) <
      max (case edit_end_line (demo_edit\<lparr>edit_hashes := Some ''ffffff''\<rparr>) of Some l \<Rightarrow> l
           | None \<Rightarrow> edit_start_line (demo_edit\<lparr>edit_hashes := Some ''ffffff''\<rparr>))
        (max (edit_start_line (demo_edit\<lparr>edit_hashes := Some ''ffffff''\<rparr>)) 1) \<or>
    (\<exists>hs h. edit_hashes (demo_edit\<lparr>edit_hashes := Some ''ffffff''\<rparr>) = Some hs \<and>
      h \<in> set (map str_trim (split_on (CHR '','') hs)) \<and> h \<noteq> [] \<and>
      h \<notin> set (map (short_hash demo_sha)
        (take (max (case edit_end_line (demo_edit\<lparr>edit_hashes := Some ''ffffff''\<rparr>) of Some l \<Rightarrow> l
             | None \<Rightarrow> edit_start_line (demo_edit\<lparr>edit_hashes := Some ''ffffff''\<rparr>))
          (max (edit_start_line (demo_edit\<lparr>edit_hashes := Some ''ffffff''\<rparr>)) 1) -
          (max (edit_start_line (demo_edit\<lparr>edit_hashes := Some ''ffffff''\<rparr>)) 1 - 1))
        (drop (max (edit_start_line (demo_edit\<lparr>edit_hashes := Some ''ffffff''\<rparr>)) 1 - 1)
          (str_lines (from_utf8_lossy lf3))))))"
    by (simp add: demo_edit_def)
qed

text \<open>
  An anchor copied from the annotated read is never stale while the file is unchanged: the
  comma-separated hashes the read printed for a line range match that range. The hash
  function is assumed to print a non-empty string of hexadecimal digits.
\<close>

lemma fresh_anchor_accepted:
  assumes "\<And>b. set (sha b) \<subseteq> hex_digits" and "\<And>b. sha b \<noteq> []" and "ls \<noteq> []"
  shows "anchor_matches (map (short_hash sha) ls) (Some (str_join '','' (map (short_hash sha) ls)))"
proof -
  have hex: "set (short_hash sha l) \<subseteq> hex_digits" for l
    using assms(1) set_take_subset unfolding short_hash_def by fast
  have "CHR '','' \<notin> hex_digits" by (simp add: hex_digits_def)
  then have "split_on (CHR '','') (str_join '','' (map (short_hash sha) ls)) = map (short_hash sha) ls"
    using assms(3) hex by (intro split_on_join) auto
  then show ?thesis
    using str_trim_hex [OF hex] by (auto simp: anchor_matches_def list_all_iff list_ex_iff)
qed

lemma fresh_anchor_accepted_witness:
  "anchor_matches (map (short_hash demo_sha) [''a'', ''b'']) (Some ''000000,000000'')"
proof -
  have a: "\<And>b. set (demo_sha b) \<subseteq> hex_digits"
    by (auto simp: demo_sha_def hex_digits_def)
  have b: "\<And>b. demo_sha b \<noteq> []"
    by (simp add: demo_sha_def)
  have c: "str_join '','' (map (short_hash demo_sha) [''a'', ''b'']) = ''000000,000000''"
    by code_simp
  have "[''a'', ''b''] \<noteq> []" by simp
  from fresh_anchor_accepted [of demo_sha, OF a b this] show ?thesis unfolding c .
qed

text \<open>
  A patch rewrites the line endings of the whole file. For ASCII lines, patching the file
  with \<open>CR LF\<close> endings gives, byte for byte, what patching the \<open>LF\<close> file gives: every line
  the edits do not touch loses its carriage return, although the hashes treat it as a
  terminator to be preserved.
\<close>

lemma patch_drops_carriage_returns:
  assumes "\<And>l. l \<in> set ls \<Longrightarrow> CHR 0x0A \<notin> set l \<and> CHR 0x0D \<notin> set l \<and> list_all (\<lambda>c. byte_val c < 128) l"
  shows "patch_text dbg sha (terminated_by [CHR 0x0D, CHR 0x0A] ls) edits =
    patch_text dbg sha (terminated_by [CHR 0x0A] ls) edits"
proof -
  have lossy: "from_utf8_lossy (terminated_by eol ls) = terminated_by eol ls"
    if "list_all (\<lambda>c. byte_val c < 128) eol" for eol
    using assms that by (intro lossy_ascii) (auto simp: terminated_by_def list_all_iff)
  have "str_lines (terminated_by eol ls) = ls" if "eol = [CHR 0x0A] \<or> eol = [CHR 0x0D, CHR 0x0A]" for eol
    using assms that by (intro str_lines_terminated) auto
  moreover have "last (terminated_by eol ls) = CHR 0x0A \<and> terminated_by eol ls \<noteq> []"
    if "ls \<noteq> []" "eol = [CHR 0x0A] \<or> eol = [CHR 0x0D, CHR 0x0A]" for eol
    using that by (cases ls rule: rev_cases) (auto simp: terminated_by_def)
  ultimately show ?thesis
    by (cases "ls = []") (simp_all add: patch_text_def lossy terminated_by_def [of _ "[]"])
qed

lemma patch_drops_carriage_returns_witness:
  "map_option fst (case patch_text demo_dbg demo_sha crlf3 [demo_edit] of Inr r \<Rightarrow> Some r | Inl _ \<Rightarrow> None) =
     Some (terminated_by [CHR 0x0A] [''a'', ''X'', ''c''])"
proof -
  have "patch_text demo_dbg demo_sha crlf3 [demo_edit] = patch_text demo_dbg demo_sha lf3 [demo_edit]"
    unfolding crlf3_def lf3_def by (rule patch_drops_carriage_returns) auto
  moreover have "patch_text demo_dbg demo_sha lf3 [demo_edit] =
     Ok (terminated_by [CHR 0x0A] [''a'', ''X'', ''c''],
         [\<lparr>applied_start_line = 2, applied_end_line = 2, applied_lines_added = 1\<rparr>])"
    by code_simp
  ultimately show ?thesis by simp
qed

end
