(* ===== verification/Fs_Ops.thy ===== *)
theory Fs_Ops
  imports Capability Base64 Hashline "HOL-Library.Char_ord" "HOL-Library.List_Lexorder"
    "HOL-Library.Product_Lexorder"
begin

text \<open>
  \<open>daemon-core/src/fs_ops.rs\<close>: the gated file operations over the file system of
  \<open>Host_Fs\<close>. An operation returns its result and the new file system, also when it fails, since
  some steps may already have happened. The fresh UUIDs of temporary and probe names, the
  Unicode lower-casing of the listing order and \<open>$HOME\<close> are parameters.
\<close>

section \<open>Requests and results\<close>

record fs_read_request =
  rd_path :: path
  rd_max_bytes :: "nat option"
  rd_annotate :: "bool option"

record fs_read_result =
  rr_content_base64 :: string
  rr_size :: nat
  rr_truncated :: bool

record fs_write_request =
  wr_path :: path
  wr_content :: string

record fs_write_result =
  ww_bytes_written :: nat
  ww_verified :: bool

record fs_delete_request =
  del_path :: path

record fs_verify_request =
  vf_path :: path

record fs_verify_result =
  vf_exists :: bool
  vf_is_dir :: bool
  vf_readable :: bool
  vf_writable :: bool
  vf_error :: "string option"

record fs_list_request =
  ls_path :: "string option"

record fs_entry =
  entry_name_of :: string
  entry_path :: string
  entry_is_dir :: bool

record fs_list_result =
  ls_parent :: "string option"
  ls_entries :: "fs_entry list"

record fs_patch_request =
  pt_path :: path
  pt_edits :: "hashline_edit list"

record fs_patch_result =
  pr_bytes_written :: nat
  pr_verified :: bool
  pr_applied :: "patch_applied list"

type_synonym 'a fs_res = "(daemon_error, 'a) res \<times> host_fs"

text \<open>Sequencing of steps that change the file system; a failed step keeps the state it reached.\<close>

definition fs_step :: "host_fs \<Rightarrow> (io_error, host_fs) res \<Rightarrow> (host_fs \<Rightarrow> 'a fs_res) \<Rightarrow> 'a fs_res" where
  "fs_step fs r k = (case r of Inl e \<Rightarrow> (Err (Io e), fs) | Inr fs' \<Rightarrow> k fs')"

definition fs_then :: "'a fs_res \<Rightarrow> ('a \<Rightarrow> host_fs \<Rightarrow> 'b fs_res) \<Rightarrow> 'b fs_res" where
  "fs_then r k = (case r of (Inl e, fs) \<Rightarrow> (Err e, fs) | (Inr a, fs) \<Rightarrow> k a fs)"

lemma fs_then_simps [simp, result_simps]:
  "fs_then (Inl e, fs) k = (Inl e, fs)"
  "fs_then (Inr a, fs) k = k a fs"
  "fs_step fs (Inl x) k' = (Inl (Io x), fs)"
  "fs_step fs (Inr fs') k' = k' fs'"
  by (simp_all add: fs_then_def fs_step_def)

section \<open>The gate in front of every operation\<close>

definition gate_for_path :: "host_fs \<Rightarrow> capability_gate \<Rightarrow> string \<Rightarrow> path \<Rightarrow> (daemon_error, unit) res" where
  "gate_for_path fs g cap p =
     (let real_check = (cap \<noteq> ''desktop.fs.read'');
          decision = (if real_check
            then (case check_path_real (canonicalize fs) g cap p of
                    Inl e \<Rightarrow> Err (CapabilityDenied (path_display p @ '': no se pudo resolver la ruta real: '' @ e))
                  | Inr d \<Rightarrow> Ok d)
            else Ok (check_path g cap p))
      in try_bind decision (\<lambda>d.
           case d of
             Allow \<Rightarrow> Ok ()
           | RequireConsent \<Rightarrow> Err (CapabilityDenied (cap @ '' requires consent for '' @ path_display p))
           | Deny \<Rightarrow> Err (CapabilityDenied cap)))"

text \<open>The decision behind \<open>gate_for_path\<close> obeys the gate's contract as well.\<close>

definition op_decision :: "host_fs \<Rightarrow> capability_gate \<Rightarrow> string \<Rightarrow> path \<Rightarrow> gate_decision" where
  "op_decision fs g cap p =
     (if cap \<noteq> ''desktop.fs.read'' then real_decision (canonicalize fs) g cap p else check_path g cap p)"

interpretation op_gate: gate_policy "op_decision fs"
  by unfold_locales
    (auto simp: op_decision_def lexical.ungranted_denied lexical.traversal_denied
      real.ungranted_denied real.traversal_denied)

lemma gate_for_path_ok: "gate_for_path fs g cap p = Ok () \<longleftrightarrow> op_decision fs g cap p = Allow"
  by (auto simp: gate_for_path_def op_decision_def check_path_real_ok Let_def split: gate_decision.splits)

lemma gate_for_path_cases:
  obtains "gate_for_path fs g cap p = Ok ()" "op_decision fs g cap p = Allow"
  | e where "gate_for_path fs g cap p = Err e" "op_decision fs g cap p \<noteq> Allow"
  using gate_for_path_ok [of fs g cap p] by (cases "gate_for_path fs g cap p") auto

section \<open>Operations\<close>

definition READ_DEFAULT :: nat where "READ_DEFAULT = 1048576"
definition READ_LIMIT :: nat where "READ_LIMIT = 10485760"
definition MAX_WRITE_BYTES :: nat where "MAX_WRITE_BYTES = 64 * 1024 * 1024"

definition fs_ops_read :: "host_fs \<Rightarrow> capability_gate \<Rightarrow> fs_read_request \<Rightarrow> (daemon_error, fs_read_result) res" where
  "fs_ops_read fs g req =
     try_bind (gate_for_path fs g ''desktop.fs.read'' (rd_path req)) (\<lambda>_.
     let max_bytes = min (case rd_max_bytes req of Some m \<Rightarrow> m | None \<Rightarrow> READ_DEFAULT) READ_LIMIT in
     io_try (fs_metadata fs (rd_path req)) (\<lambda>(_, total).
     io_try (fs_read fs (rd_path req)) (\<lambda>content.
       let bytes = take max_bytes content in
       Ok \<lparr>rr_content_base64 = base64_encode bytes, rr_size = length bytes,
           rr_truncated = (total > length bytes)\<rparr>)))"

definition tmp_sibling :: "string \<Rightarrow> path \<Rightarrow> path" where
  "tmp_sibling uuid p = with_extension p (''synthhires-tmp-'' @ uuid)"

definition write_via_unique_tmp :: "host_fs \<Rightarrow> string \<Rightarrow> path \<Rightarrow> bytes \<Rightarrow> unit fs_res" where
  "write_via_unique_tmp fs uuid p b =
     (let tmp = tmp_sibling uuid p in
      fs_step (fs_create_left fs tmp b) (fs_create_new fs tmp b) (\<lambda>fs1.
        case fs_is_symlink fs1 tmp of
          Inl e \<Rightarrow> (Err (Io e), fs1)
        | Inr True \<Rightarrow>
            (Err (PathDenied (path_display p @ '': tmp path is a symlink '' @ em_dash @ '' refusing atomic write'')),
             (case fs_remove_file fs1 tmp of Inr fs2 \<Rightarrow> fs2 | Inl _ \<Rightarrow> fs1))
        | Inr False \<Rightarrow> fs_step fs1 (fs_rename fs1 tmp p) (\<lambda>fs2. (Ok (), fs2))))"

definition fs_ops_write :: "host_fs \<Rightarrow> capability_gate \<Rightarrow> string \<Rightarrow> fs_write_request \<Rightarrow> fs_write_result fs_res" where
  "fs_ops_write fs g uuid req =
     (case gate_for_path fs g ''desktop.fs.write'' (wr_path req) of
        Inl e \<Rightarrow> (Err e, fs)
      | Inr _ \<Rightarrow>
          if length (wr_content req) > MAX_WRITE_BYTES
          then (Err (PathDenied (''write rejected: '' @ nat_to_string (length (wr_content req)) @
                  '' bytes exceeds the '' @ nat_to_string (MAX_WRITE_BYTES div (1024 * 1024)) @
                  '' MiB per-write limit'')), fs)
          else
            case path_parent (wr_path req) of
              None \<Rightarrow> (Err (PathDenied (path_display (wr_path req) @ '': no parent'')), fs)
            | Some parent \<Rightarrow>
                fs_step (fs_dirs_left fs parent) (fs_create_dir_all fs parent) (\<lambda>fs1.
                fs_then (write_via_unique_tmp fs1 uuid (wr_path req) (wr_content req)) (\<lambda>_ fs2.
                  case fs_read fs2 (wr_path req) of
                    Inl e \<Rightarrow> (Err (Io e), fs2)
                  | Inr written \<Rightarrow>
                      (Ok \<lparr>ww_bytes_written = length written,
                           ww_verified = (written = wr_content req)\<rparr>, fs2))))"

definition fs_ops_delete :: "host_fs \<Rightarrow> capability_gate \<Rightarrow> fs_delete_request \<Rightarrow> unit fs_res" where
  "fs_ops_delete fs g req =
     (case gate_for_path fs g ''desktop.fs.delete'' (del_path req) of
        Inl e \<Rightarrow> (Err e, fs)
      | Inr _ \<Rightarrow>
          (case fs_metadata fs (del_path req) of
             Inl e \<Rightarrow> (Err (Io e), fs)
           | Inr (is_dir, _) \<Rightarrow>
               if is_dir then fs_step fs (fs_remove_dir_all fs (del_path req)) (\<lambda>fs1. (Ok (), fs1))
               else fs_step fs (fs_remove_file fs (del_path req)) (\<lambda>fs1. (Ok (), fs1))))"

definition probe_name :: "string \<Rightarrow> pcomp" where
  "probe_name uuid = Normal (''.synthhires-verify-'' @ uuid @ ''.tmp'')"

definition probe_write :: "host_fs \<Rightarrow> string \<Rightarrow> string \<Rightarrow> path \<Rightarrow> bool \<times> host_fs" where
  "probe_write fs uuid1 uuid2 dir =
     (let probe = dir @ [probe_name uuid1];
          payload = ''synthhires-verify:'' @ uuid2 in
      case fs_write fs probe payload of
        Inl _ \<Rightarrow> (False, fs_write_left fs probe payload)
      | Inr fs1 \<Rightarrow>
          let read_back = (case fs_read fs1 probe of Inr b \<Rightarrow> b = payload | Inl _ \<Rightarrow> False);
              fs2 = (case fs_remove_file fs1 probe of Inr fs' \<Rightarrow> fs' | Inl _ \<Rightarrow> fs1)
          in (read_back, fs2))"

definition fs_ops_verify :: "host_fs \<Rightarrow> string \<Rightarrow> string \<Rightarrow> fs_verify_request \<Rightarrow> fs_verify_result \<times> host_fs" where
  "fs_ops_verify fs uuid1 uuid2 req =
     (case fs_metadata fs (vf_path req) of
        Inl e \<Rightarrow>
          (\<lparr>vf_exists = False, vf_is_dir = False, vf_readable = False, vf_writable = False,
            vf_error = Some (''no existe o no es accesible: '' @ io_display e)\<rparr>, fs)
      | Inr (is_dir, _) \<Rightarrow>
          let readable = (if is_dir then is_ok (fs_read_dir fs (vf_path req)) else is_ok (fs_read fs (vf_path req)));
              dir = (if is_dir then vf_path req
                     else (case path_parent (vf_path req) of Some p \<Rightarrow> p | None \<Rightarrow> [CurDir]))
          in (case probe_write fs uuid1 uuid2 dir of (writable, fs1) \<Rightarrow>
               (\<lparr>vf_exists = True, vf_is_dir = is_dir, vf_readable = readable, vf_writable = writable,
                 vf_error = (if readable \<and> writable then None
                   else Some (''lectura: '' @ (if readable then ''ok'' else ''FALLA'') @ '', escritura: '' @
                          (if writable then ''ok'' else ''FALLA'')))\<rparr>, fs1)))"

definition fs_roots :: "string option \<Rightarrow> fs_entry list" where
  "fs_roots home =
     \<lparr>entry_name_of = ''/'', entry_path = ''/'', entry_is_dir = True\<rparr> #
     (case home of
        Some h \<Rightarrow> (if h \<noteq> [] then [\<lparr>entry_name_of = h, entry_path = h, entry_is_dir = True\<rparr>] else [])
      | None \<Rightarrow> [])"

text \<open>Directories first, then by lower-cased name; the sort is stable.\<close>

definition sort_entries :: "(string \<Rightarrow> string) \<Rightarrow> fs_entry list \<Rightarrow> fs_entry list" where
  "sort_entries lower es = sort_key (\<lambda>e. (\<not> entry_is_dir e, lower (entry_name_of e))) es"

definition fs_ops_list ::
    "host_fs \<Rightarrow> (string \<Rightarrow> string) \<Rightarrow> string option \<Rightarrow> fs_list_request \<Rightarrow> (daemon_error, fs_list_result) res" where
  "fs_ops_list fs lower home req =
     (let target = str_trim (case ls_path req of Some s \<Rightarrow> s | None \<Rightarrow> []) in
      if target = [] then Ok \<lparr>ls_parent = None, ls_entries = fs_roots home\<rparr>
      else
        let dir = path_components target in
        io_try (fs_read_dir fs dir) (\<lambda>children.
          let entries = map (\<lambda>(name, n). \<lparr>entry_name_of = name,
                entry_path = path_display (dir @ [Normal name]), entry_is_dir = (n = DirNode)\<rparr>) children;
              parent = (case path_parent dir of
                          Some p \<Rightarrow> (let s = path_display p in if s = [] then None else Some s)
                        | None \<Rightarrow> None)
          in Ok \<lparr>ls_parent = parent, ls_entries = sort_entries lower entries\<rparr>))"

definition fs_ops_read_annotated ::
    "(bytes \<Rightarrow> string) \<Rightarrow> host_fs \<Rightarrow> capability_gate \<Rightarrow> fs_read_request \<Rightarrow> bool \<Rightarrow> (daemon_error, fs_read_result) res" where
  "fs_ops_read_annotated sha fs g req annotate =
     try_bind (fs_ops_read fs g req) (\<lambda>result.
       if annotate then
         (case base64_decode (rr_content_base64 result) of
            None \<Rightarrow> Err (Protocol ''fs.read: base64 roundtrip failed'')
          | Some plain \<Rightarrow>
              let text = from_utf8_lossy plain in
              Ok (result\<lparr>rr_content_base64 := base64_encode (annotate_content sha text)\<rparr>))
       else Ok result)"

definition fs_ops_patch ::
    "dbg \<Rightarrow> (bytes \<Rightarrow> string) \<Rightarrow> host_fs \<Rightarrow> capability_gate \<Rightarrow> string \<Rightarrow> fs_patch_request \<Rightarrow> fs_patch_result fs_res" where
  "fs_ops_patch dbg sha fs g uuid req =
     (case gate_for_path fs g ''desktop.fs.write'' (pt_path req) of
        Inl e \<Rightarrow> (Err e, fs)
      | Inr _ \<Rightarrow>
          if pt_edits req = [] then (Err (Protocol ''fs.patch: no edits''), fs)
          else
            (case fs_read fs (pt_path req) of
               Inl e \<Rightarrow> (Err (Io e), fs)
             | Inr original_bytes \<Rightarrow>
                 (case patch_text dbg sha original_bytes (pt_edits req) of
                    Inl e \<Rightarrow> (Err e, fs)
                  | Inr (content, applied) \<Rightarrow>
                      fs_then (write_via_unique_tmp fs uuid (pt_path req) content) (\<lambda>_ fs1.
                        case fs_read fs1 (pt_path req) of
                          Inl e \<Rightarrow> (Err (Io e), fs1)
                        | Inr written \<Rightarrow>
                            (Ok \<lparr>pr_bytes_written = length written, pr_verified = (written = content),
                                 pr_applied = applied\<rparr>, fs1)))))"

section \<open>Lemmas: the atomic write\<close>

text \<open>
  What any outcome of a write to \<open>p\<close> through the sibling \<open>t\<close> may have done to the nodes: nothing,
  except that the entry of \<open>p\<close> may hold the complete new content, and that \<open>t\<close>, where nothing was,
  may be a file with a first part of it.
\<close>

definition atomic_at :: "path \<Rightarrow> path \<Rightarrow> bytes \<Rightarrow> host_fs \<Rightarrow> host_fs \<Rightarrow> bool" where
  "atomic_at p t b fs fs' \<longleftrightarrow>
     (\<forall>x. node_at fs' x = node_at fs x \<or>
        locate_entry fs p = Some x \<and> node_at fs' x = Some (FileNode b) \<or>
        locate_entry fs t = Some x \<and> node_at fs x = None \<and> (\<exists>n. node_at fs' x = Some (FileNode (take n b))))"

text \<open>What a completed one did: the entry of \<open>p\<close> holds the content, nothing else changed.\<close>

definition replaced_at :: "path \<Rightarrow> bytes \<Rightarrow> host_fs \<Rightarrow> host_fs \<Rightarrow> bool" where
  "replaced_at p b fs fs' \<longleftrightarrow>
     (\<exists>e. locate_entry fs p = Some e \<and> node_at fs' e = Some (FileNode b) \<and>
        (\<forall>x. x \<noteq> e \<longrightarrow> node_at fs' x = node_at fs x))"

lemma atomic_at_refl [simp]: "atomic_at p t b fs fs"
  by (simp add: atomic_at_def)

lemma replaced_atomic: "replaced_at p b fs fs' \<Longrightarrow> atomic_at p t b fs fs'"
  unfolding replaced_at_def atomic_at_def by metis

lemma locate_entry_not_root:
  assumes "locate_entry fs (q @ [Normal s]) = Some e"
  shows "e \<noteq> [RootDir]"
  using assms by (auto simp: locate_entry_normal)

lemma locate_entry_drop_leaf:
  assumes "leaf_at fs r" and "locate_entry fs p = Some e" and "e \<noteq> r"
  shows "locate_entry (drop_node fs r) p = Some e"
proof (cases "p \<noteq> [] \<and> (\<exists>s. last p = Normal s)")
  case True
  then obtain q s where p: "p = q @ [Normal s]" by (metis append_butlast_last_id)
  from assms(2) obtain d where d: "(if q = [] then Some (cwd fs) else canonicalize fs q) = Some d"
    "node_at fs d = Some DirNode" "e = d @ [Normal s]"
    unfolding p locate_entry_normal by blast
  have "d \<noteq> r" using assms(1) d(2) by (auto simp: leaf_at_def)
  then have "node_at (drop_node fs r) d = Some DirNode" using d(2) leaf_not_root [OF assms(1)] by simp
  moreover have "(if q = [] then Some (cwd (drop_node fs r)) else canonicalize (drop_node fs r) q) = Some d"
    using d canonicalize_dir_drop [OF assms(1)] by (auto split: if_splits)
  ultimately show ?thesis unfolding p locate_entry_normal using d(3) by blast
next
  case False
  with assms show ?thesis
    using leaf_not_root [OF assms(1)]
    by (auto simp: locate_entry_def canonicalize_def split: pcomp.splits option.splits if_splits)
qed

lemma with_extension_Normal:
  "with_extension (q @ [Normal s]) ext = q @ [Normal (file_stem_of s @ ''.'' @ ext)]"
  by (simp add: with_extension_def)

lemma create_new_cases:
  obtains e where "fs_create_new fs p b = Err e" "fs_create_left fs p b = fs"
  | r n where "locate_entry fs p = Some r" "node_at fs r = None" "\<not> deny_write fs r"
      "fs_create_new fs p b = Err NO_SPACE" "fs_create_left fs p b = put_node fs r (FileNode (take n b))"
  | r where "locate_entry fs p = Some r" "node_at fs r = None" "\<not> deny_write fs r"
      "fs_create_new fs p b = Ok (put_node fs r (FileNode b))"
proof (cases "create_open fs p")
  case (Inl e)
  with that(1) show ?thesis by (simp add: fs_create_new_def fs_create_left_def)
next
  case (Inr r)
  then have r: "locate_entry fs p = Some r" "node_at fs r = None" "\<not> deny_write fs r"
    by (auto simp: create_open_def split: option.splits if_splits)
  show ?thesis
  proof (cases "disk_fault fs r")
    case None
    with that(3) r Inr show ?thesis by (simp add: fs_create_new_def)
  next
    case (Some n)
    with that(2) r Inr show ?thesis by (simp add: fs_create_new_def fs_create_left_def)
  qed
qed

lemma create_new_OkD:
  assumes "fs_create_new fs p b = Ok fs1"
  shows "\<exists>r. locate_entry fs p = Some r \<and> node_at fs r = None \<and> \<not> deny_write fs r \<and>
    fs1 = put_node fs r (FileNode b)"
  using assms by (cases rule: create_new_cases [of fs p b]) auto

lemma create_new_needs_name:
  assumes "fs_create_new fs (with_extension p ext) b = Ok fs1"
  shows "\<exists>q s. p = q @ [Normal s]"
proof (rule ccontr)
  assume no: "\<not> ?thesis"
  then have p: "with_extension p ext = p"
    by (cases p rule: rev_cases) (auto simp: with_extension_def split: pcomp.splits)
  from create_new_OkD [OF assms] obtain r where r: "locate_entry fs p = Some r" "node_at fs r = None"
    unfolding p by blast
  from r(1) no have "canonicalize fs p = Some r"
    by (cases p rule: rev_cases) (auto simp: locate_entry_def split: pcomp.splits)
  with r(2) show False by (auto simp: canonicalize_def split: option.splits if_splits)
qed

lemma rename_OkD:
  "fs_rename fs a b = Ok fs' \<Longrightarrow>
   \<exists>ra rb n. locate_entry fs a = Some ra \<and> locate_entry fs b = Some rb \<and> node_at fs ra = Some n \<and>
     node_at fs rb \<noteq> Some DirNode \<and> fs' = put_node (drop_node fs ra) rb n"
  by (auto simp: fs_rename_def split: option.splits if_splits)

lemma write_tmp_atomic:
  assumes "write_via_unique_tmp fs uuid p b = (res, fs')"
  shows "atomic_at p (tmp_sibling uuid p) b fs fs' \<and>
    (res = Ok () \<longrightarrow> replaced_at p b fs fs')"
proof -
  let ?tmp = "tmp_sibling uuid p"
  show ?thesis
  proof (cases rule: create_new_cases [of fs ?tmp b])
    case (1 er)
    with assms show ?thesis by (auto simp: write_via_unique_tmp_def Let_def)
  next
    case (2 t n)
    then have "t \<noteq> [RootDir]" by (auto simp: node_at_def)
    moreover have "res = Err (Io NO_SPACE)" "fs' = put_node fs t (FileNode (take n b))"
      using assms by (simp_all add: write_via_unique_tmp_def Let_def 2(4,5))
    ultimately show ?thesis using 2(1,2) by (auto simp: atomic_at_def)
  next
    case (3 t)
    define fs1 where "fs1 = put_node fs t (FileNode b)"
    from create_new_needs_name [OF 3(4) [unfolded tmp_sibling_def]] obtain q s where p: "p = q @ [Normal s]" by blast
    have leaf: "leaf_at fs t" using 3(2) by (simp add: leaf_at_def)
    have tr: "t \<noteq> [RootDir]" by (rule leaf_not_root [OF leaf])
    have t1: "locate_entry fs1 ?tmp = Some t" unfolding fs1_def by (rule locate_entry_put [OF leaf 3(1)])
    have n1: "node_at fs1 t = Some (FileNode b)" using tr by (simp add: fs1_def)
    have nolink: "fs_is_symlink fs1 ?tmp = Ok False" using t1 n1 by (simp add: fs_is_symlink_def)
    have at1: "atomic_at p ?tmp b fs fs1"
      using 3 tr by (auto simp: atomic_at_def fs1_def intro: exI [of _ "length b"])
    have w: "write_via_unique_tmp fs uuid p b = fs_step fs1 (fs_rename fs1 ?tmp p) (\<lambda>fs2. (Ok (), fs2))"
      using 3(4) nolink by (simp add: write_via_unique_tmp_def Let_def fs1_def)
    show ?thesis
    proof (cases "fs_rename fs1 ?tmp p")
      case (Inl er)
      with assms w at1 show ?thesis by auto
    next
      case (Inr fs2)
      then obtain e where e: "locate_entry fs1 p = Some e" "fs2 = put_node (drop_node fs1 t) e (FileNode b)"
        using rename_OkD [OF Inr] t1 n1 by auto
      have er: "e \<noteq> [RootDir]" using e(1) p locate_entry_not_root by blast
      have "locate_entry fs p = Some e" using e(1) locate_entry_put_iff [OF leaf] by (simp add: fs1_def p)
      then have "replaced_at p b fs fs2"
        using 3(2) tr er e(2) by (auto simp: replaced_at_def fs1_def)
      with assms w Inr show ?thesis by (auto intro: replaced_atomic)
    qed
  qed
qed

lemma write_tmp_succeeds:
  assumes p: "p = q @ [Normal s]"
    and e: "locate_entry fs p = Some e" "leaf_at fs e" "\<not> deny_write fs e"
    and t: "locate_entry fs (tmp_sibling uuid p) = Some t"
      "node_at fs t = None" "\<not> deny_write fs t" "disk_fault fs t = None"
  shows "\<exists>fs'. write_via_unique_tmp fs uuid p b = (Ok (), fs') \<and>
    canonicalize fs' p = Some e \<and> node_at fs' e = Some (FileNode b) \<and>
    (\<forall>x. x \<noteq> e \<longrightarrow> node_at fs' x = node_at fs x) \<and> deny_read fs' = deny_read fs"
proof -
  let ?tmp = "tmp_sibling uuid p"
  define fs1 where "fs1 = put_node fs t (FileNode b)"
  define fs2 where "fs2 = put_node (drop_node fs1 t) e (FileNode b)"
  have lt: "leaf_at fs t" using t(2) by (simp add: leaf_at_def)
  have tr: "t \<noteq> [RootDir]" by (rule leaf_not_root [OF lt])
  have er: "e \<noteq> [RootDir]" by (rule leaf_not_root [OF e(2)])
  have c: "fs_create_new fs ?tmp b = Ok fs1" using t by (simp add: fs_create_new_def create_open_def fs1_def)
  have t1: "locate_entry fs1 ?tmp = Some t" "locate_entry fs1 p = Some e"
    unfolding fs1_def by (rule locate_entry_put [OF lt t(1)], rule locate_entry_put [OF lt e(1)])
  have n1: "node_at fs1 t = Some (FileNode b)" using tr by (simp add: fs1_def)
  have l1: "leaf_at fs1 t" "leaf_at fs1 e" using lt e(2) by (simp_all add: fs1_def)
  have nolink: "fs_is_symlink fs1 ?tmp = Ok False" using t1 n1 by (simp add: fs_is_symlink_def)
  have r: "fs_rename fs1 ?tmp p = Ok fs2"
    using t1 n1 l1 e(3) t(3) by (auto simp: fs_rename_def fs2_def leaf_at_def) (auto simp: fs1_def)
  have l2: "leaf_at (drop_node fs1 t) e"
    using l1 tr by (auto simp: leaf_at_def)
  have "locate_entry fs2 p = Some e"
  proof (cases "e = t")
    case True
    have "node_at fs2 x = node_at fs1 x" for x
      using True n1 tr by (auto simp: fs2_def)
    then have "locate_entry fs2 p = locate_entry fs1 p"
      by (rule locate_entry_cong) (simp add: fs2_def)
    then show ?thesis using t1 by simp
  next
    case False
    then have "locate_entry (drop_node fs1 t) p = Some e"
      by (intro locate_entry_drop_leaf [OF l1(1) t1(2)])
    then show ?thesis unfolding fs2_def by (rule locate_entry_put [OF l2])
  qed
  then have "canonicalize fs2 p = Some e"
    using canonicalize_entry_file [of fs2 q s e b] er p by (simp add: fs2_def)
  moreover have "write_via_unique_tmp fs uuid p b = (Ok (), fs2)"
    using c nolink r by (simp add: write_via_unique_tmp_def Let_def)
  ultimately show ?thesis
    using tr er t(2) by (auto simp: fs2_def fs1_def)
qed

section \<open>Lemmas: the write probe\<close>

lemma write_fresh:
  assumes "fs_write fs (dir @ [Normal s]) b = Ok fs1" and "\<And>x. node_at fs (x @ [Normal s]) = None"
  shows "\<exists>r. fs1 = put_node fs r (FileNode b) \<and> node_at fs r = None \<and> \<not> deny_write fs r \<and>
    locate_entry fs (dir @ [Normal s]) = Some r"
proof -
  from assms(1) obtain r where r: "locate fs (dir @ [Normal s]) = Some r" "\<not> deny_write fs r"
    "node_at fs (butlast r) = Some DirNode" "fs1 = put_node fs r (FileNode b)"
    by (auto simp: fs_write_def write_open_def split: option.splits fs_node.splits if_splits)
  then have "walk MAX_SYMLINKS fs (cwd fs) (dir @ [Normal s]) = Some r"
    by (simp add: locate_def)
  from walk_snoc [OF this] obtain m d where d: "walk MAX_SYMLINKS fs (cwd fs) dir = Some d"
    "walk m fs d [Normal s] = Some r" by blast
  from d(2) assms(2) have rd: "r = d @ [Normal s]" by simp
  with r(3) have dd: "node_at fs d = Some DirNode" by simp
  have "(if dir = [] then Some (cwd fs) else canonicalize fs dir) = Some d"
    using d(1) dd by (auto simp: canonicalize_def locate_def)
  then have "locate_entry fs (dir @ [Normal s]) = Some r"
    unfolding locate_entry_normal using dd rd by blast
  then show ?thesis using r assms(2) rd by blast
qed

lemma write_left_unfaulted:
  assumes "fs_write fs p b = Err e" and "\<And>x. disk_fault fs x = None"
  shows "fs_write_left fs p b = fs"
  using assms by (auto simp: fs_write_def fs_write_left_def split: sum.splits)

lemma probe_write_restores:
  assumes "\<And>x. node_at fs (x @ [probe_name u1]) = None" and "\<And>x. disk_fault fs x = None"
  shows "node_at (snd (probe_write fs u1 u2 dir)) x = node_at fs x"
proof (cases "fs_write fs (dir @ [probe_name u1]) (''synthhires-verify:'' @ u2)")
  case (Inl e)
  then show ?thesis using write_left_unfaulted [OF Inl assms(2)] by (simp add: probe_write_def Let_def)
next
  case (Inr fs1)
  from write_fresh [OF Inr [unfolded probe_name_def]] assms(1) obtain r where
    r: "fs1 = put_node fs r (FileNode (''synthhires-verify:'' @ u2))" "node_at fs r = None"
      "\<not> deny_write fs r" "locate_entry fs (dir @ [probe_name u1]) = Some r"
    by (auto simp: probe_name_def)
  have leaf: "leaf_at fs r" using r(2) by (simp add: leaf_at_def)
  have rr: "r \<noteq> [RootDir]" by (rule leaf_not_root [OF leaf])
  have "fs_remove_file fs1 (dir @ [probe_name u1]) = Ok (drop_node fs1 r)"
    using locate_entry_put [OF leaf r(4)] rr r by (simp add: fs_remove_file_def)
  then show ?thesis
    using Inr rr r(1,2) by (simp add: probe_write_def Let_def)
qed

text \<open>
  A probe that cannot be written in full stays behind: the report comes before the removal,
  against \<open>fs_ops.rs\<close>'s comment that no failing step leaves it.
\<close>

lemma failed_probe_stays:
  assumes "write_open fs (dir @ [probe_name u1]) = Ok r" "r \<noteq> [RootDir]"
    "disk_fault fs r = Some n" "n < length (''synthhires-verify:'' @ u2)"
  shows "fst (probe_write fs u1 u2 dir) = False"
    "node_at (snd (probe_write fs u1 u2 dir)) r = Some (FileNode (take n (''synthhires-verify:'' @ u2)))"
proof -
  define b where "b = ''synthhires-verify:'' @ u2"
  have "fs_write fs (dir @ [probe_name u1]) b = Err NO_SPACE"
    "fs_write_left fs (dir @ [probe_name u1]) b = put_node fs r (FileNode (take n b))"
    using assms by (simp_all add: fs_write_def fs_write_left_def fault_in_def b_def)
  then show "fst (probe_write fs u1 u2 dir) = False"
    "node_at (snd (probe_write fs u1 u2 dir)) r = Some (FileNode (take n (''synthhires-verify:'' @ u2)))"
    unfolding probe_write_def Let_def b_def [symmetric] using assms(2) by simp_all
qed

section \<open>Properties\<close>

text \<open>
  C8. Write, patch, delete and read do nothing without the gate's Allow. Unless the decision for
  the operation's own capability and path is Allow (link-resolving for every capability but
  reading), write, patch and delete return an error and the very file system they were
  given, and a read returns an error. Listing a directory and verifying a path, which writes and
  removes a probe file, consult no gate here: \<open>ungated_verify_writes\<close>.
\<close>

theorem gate_blocks_operations:
  "(op_decision fs g ''desktop.fs.write'' p \<noteq> Allow \<longrightarrow>
      (\<exists>e. fs_ops_write fs g u \<lparr>wr_path = p, wr_content = c\<rparr> = (Err e, fs)) \<and>
      (\<exists>e. fs_ops_patch dbg sha fs g u \<lparr>pt_path = p, pt_edits = es\<rparr> = (Err e, fs))) \<and>
   (op_decision fs g ''desktop.fs.delete'' p \<noteq> Allow \<longrightarrow>
      (\<exists>e. fs_ops_delete fs g \<lparr>del_path = p\<rparr> = (Err e, fs))) \<and>
   (op_decision fs g ''desktop.fs.read'' p \<noteq> Allow \<longrightarrow>
      (\<exists>e. fs_ops_read fs g \<lparr>rd_path = p, rd_max_bytes = m, rd_annotate = a\<rparr> = Err e))"
proof (intro conjI impI)
  assume "op_decision fs g ''desktop.fs.write'' p \<noteq> Allow"
  then obtain e where "gate_for_path fs g ''desktop.fs.write'' p = Err e"
    by (metis gate_for_path_cases)
  then show "\<exists>e. fs_ops_write fs g u \<lparr>wr_path = p, wr_content = c\<rparr> = (Err e, fs)"
    and "\<exists>e. fs_ops_patch dbg sha fs g u \<lparr>pt_path = p, pt_edits = es\<rparr> = (Err e, fs)"
    by (simp_all add: fs_ops_write_def fs_ops_patch_def)
next
  assume "op_decision fs g ''desktop.fs.delete'' p \<noteq> Allow"
  then obtain e where "gate_for_path fs g ''desktop.fs.delete'' p = Err e"
    by (metis gate_for_path_cases)
  then show "\<exists>e. fs_ops_delete fs g \<lparr>del_path = p\<rparr> = (Err e, fs)"
    by (simp add: fs_ops_delete_def)
next
  assume "op_decision fs g ''desktop.fs.read'' p \<noteq> Allow"
  then obtain e where "gate_for_path fs g ''desktop.fs.read'' p = Err e"
    by (metis gate_for_path_cases)
  then show "\<exists>e. fs_ops_read fs g \<lparr>rd_path = p, rd_max_bytes = m, rd_annotate = a\<rparr> = Err e"
    by (simp add: fs_ops_read_def)
qed

text \<open>A host with a workspace \<open>/w\<close>, a file in it, and a link out of it to \<open>/etc\<close>.\<close>

definition demo_fs :: host_fs where
  "demo_fs = \<lparr>nodes =
      [(path_components ''/w'', DirNode), (path_components ''/w/a.txt'', FileNode ''old''),
       (path_components ''/w/link'', LinkNode (path_components ''/etc'')),
       (path_components ''/etc'', DirNode), (path_components ''/etc/passwd'', FileNode ''root'')],
     cwd = path_components ''/w'', deny_read = (\<lambda>_. False), deny_write = (\<lambda>_. False),
     disk_fault = (\<lambda>_. None)\<rparr>"

definition demo_fs_gate :: capability_gate where
  "demo_fs_gate = gate_new (snapshot_from
     \<lparr>sc_capabilities = [''desktop.fs.read'', ''desktop.fs.write'', ''desktop.fs.delete''],
      sc_always_allow_paths = [''/w'']\<rparr>)"

theorem gate_blocks_operations_witness:
  "\<exists>e. fs_ops_write demo_fs demo_fs_gate ''u'' \<lparr>wr_path = path_components ''/w/link/passwd'', wr_content = ''x''\<rparr> =
     (Err e, demo_fs)"
proof -
  have "op_decision demo_fs demo_fs_gate ''desktop.fs.write'' (path_components ''/w/link/passwd'') \<noteq> Allow"
    by code_simp
  then show ?thesis using gate_blocks_operations by blast
qed

text \<open>
  \<open>verify\<close> and \<open>list\<close> take no gate: with nothing granted, the report on a directory outside every
  root still comes from a file created there, and a listing outside every root is answered.
\<close>

lemma ungated_verify_writes:
  "op_decision demo_fs demo_fs_gate ''desktop.fs.write'' (path_components ''/etc'') \<noteq> Allow \<and>
   vf_writable (fst (fs_ops_verify demo_fs ''1'' ''2'' \<lparr>vf_path = path_components ''/etc''\<rparr>)) \<and>
   is_ok (fs_write demo_fs (path_components ''/etc'' @ [probe_name ''1'']) (''synthhires-verify:'' @ ''2'')) \<and>
   is_ok (fs_ops_list demo_fs (\<lambda>s. s) None \<lparr>ls_path = Some ''/etc''\<rparr>)"
  by (intro conjI; code_simp)

text \<open>
  C9. Writes are atomic whatever happens. Let a write end in any way, with success or with an
  error on the way: a refused path, a directory that cannot be made, a device that is full
  after any number of bytes, a rename that fails, a result that cannot be read back. Apart
  from missing parent directories that were made, each node is the one it was; except that the
  entry the requested path names, links above it followed, may hold the complete new content,
  and that the temporary sibling, where nothing was before, may be left with a first part of it.
  The entry is never truncated or partly written. On success it holds the new content and
  nothing else changed, and the verdict is honest: the reported length is that of what the path
  reads as now, and \<open>verified\<close> says whether it is the requested content.
\<close>

theorem write_atomic_and_honest:
  assumes "fs_ops_write fs g u req = (res, fs')"
  shows "\<exists>fs1. (fs1 = fs \<or> (\<exists>d. path_parent (wr_path req) = Some d \<and> fs1 = fs_dirs_left fs d)) \<and>
    (\<forall>x. node_at fs1 x = node_at fs x \<or> (node_at fs x = None \<and> node_at fs1 x = Some DirNode)) \<and>
    (\<forall>x. node_at fs' x = node_at fs1 x \<or>
       locate_entry fs1 (wr_path req) = Some x \<and> node_at fs' x = Some (FileNode (wr_content req)) \<or>
       locate_entry fs1 (tmp_sibling u (wr_path req)) = Some x \<and> node_at fs1 x = None \<and>
         (\<exists>n. node_at fs' x = Some (FileNode (take n (wr_content req))))) \<and>
    (\<forall>r. res = Ok r \<longrightarrow>
       (\<exists>e. locate_entry fs1 (wr_path req) = Some e \<and> node_at fs' e = Some (FileNode (wr_content req)) \<and>
          (\<forall>x. x \<noteq> e \<longrightarrow> node_at fs' x = node_at fs1 x)) \<and>
       (\<exists>w. fs_read fs' (wr_path req) = Ok w \<and> ww_bytes_written r = length w \<and>
          (ww_verified r \<longleftrightarrow> w = wr_content req)))"
proof -
  consider (refused) "fs' = fs" "\<not> is_ok res"
    | (dirs) d where "path_parent (wr_path req) = Some d" "fs' = fs_dirs_left fs d" "\<not> is_ok res"
    | (wrote) d fs1 where "path_parent (wr_path req) = Some d" "fs_create_dir_all fs d = Ok fs1"
        "fs_then (write_via_unique_tmp fs1 u (wr_path req) (wr_content req)) (\<lambda>_ fs2.
           case fs_read fs2 (wr_path req) of
             Inl e \<Rightarrow> (Err (Io e), fs2)
           | Inr written \<Rightarrow> (Ok \<lparr>ww_bytes_written = length written, ww_verified = (written = wr_content req)\<rparr>, fs2)) =
         (res, fs')"
    using assms by (auto simp: fs_ops_write_def fs_step_def split: sum.splits if_splits option.splits)
  then show ?thesis
  proof cases
    case refused
    then show ?thesis by (intro exI [of _ fs]) auto
  next
    case dirs
    with dirs_left_adds [of fs d] show ?thesis
      by (intro exI [of _ fs']) (auto simp: only_adds_dirs_def)
  next
    case wrote
    obtain wres fs2 where w: "write_via_unique_tmp fs1 u (wr_path req) (wr_content req) = (wres, fs2)"
      by fastforce
    note at = write_tmp_atomic [OF w, unfolded atomic_at_def replaced_at_def]
    from wrote(3) w have res: "fs' = fs2" "\<And>r. res = Ok r \<Longrightarrow> wres = Ok () \<and>
      (\<exists>w. fs_read fs2 (wr_path req) = Ok w \<and> ww_bytes_written r = length w \<and> (ww_verified r \<longleftrightarrow> w = wr_content req))"
      by (auto simp: fs_then_def split: sum.splits)
    have "fs1 = fs_dirs_left fs d" using create_dirs_left_Ok [OF wrote(2)] by simp
    with dirs_left_adds [of fs d] wrote(1) at res show ?thesis
      by (intro exI [of _ fs1]) (simp add: only_adds_dirs_def)
  qed
qed

text \<open>
  A permitted write succeeds and is verified. If the gate allows it, the content is within
  the limit, the parent directories can be made, and the target and its temporary sibling
  are writable entries, neither a directory nor a link at the target and nothing at the
  sibling, then the result is Ok with the full length and \<open>verified\<close>, reading the path gives
  the content, and no other node differs from the state after making the directories: the
  temporary file is gone.
\<close>

lemma permitted_write_succeeds:
  assumes gate: "op_decision fs g ''desktop.fs.write'' (q @ [Normal s]) = Allow"
    and small: "length c \<le> MAX_WRITE_BYTES"
    and dirs: "fs_create_dir_all fs q = Ok fs1"
    and target: "locate_entry fs1 (q @ [Normal s]) = Some e" "leaf_at fs1 e" "\<not> deny_write fs1 e" "\<not> deny_read fs1 e"
    and tmp: "locate_entry fs1 (tmp_sibling u (q @ [Normal s])) = Some t"
      "node_at fs1 t = None" "\<not> deny_write fs1 t" "disk_fault fs1 t = None"
  shows "\<exists>fs'. fs_ops_write fs g u \<lparr>wr_path = q @ [Normal s], wr_content = c\<rparr> =
      (Ok \<lparr>ww_bytes_written = length c, ww_verified = True\<rparr>, fs') \<and>
    fs_read fs' (q @ [Normal s]) = Ok c \<and> (\<forall>x. x \<noteq> e \<longrightarrow> node_at fs' x = node_at fs1 x)"
proof -
  from write_tmp_succeeds [OF refl target(1-3) tmp, of c] obtain fs' where
    w: "write_via_unique_tmp fs1 u (q @ [Normal s]) c = (Ok (), fs')"
      "canonicalize fs' (q @ [Normal s]) = Some e" "node_at fs' e = Some (FileNode c)"
      "\<forall>x. x \<noteq> e \<longrightarrow> node_at fs' x = node_at fs1 x" "deny_read fs' = deny_read fs1" by blast
  have read: "fs_read fs' (q @ [Normal s]) = Ok c"
    using w target(4) by (simp add: fs_read_def)
  have "path_parent (q @ [Normal s]) = Some q" by (simp add: path_parent_def)
  moreover have "gate_for_path fs g ''desktop.fs.write'' (q @ [Normal s]) = Ok ()"
    using gate by (simp add: gate_for_path_ok)
  ultimately show ?thesis
    using small dirs w(1,4) read by (auto simp: fs_ops_write_def)
qed

lemma permitted_write_succeeds_witness:
  "\<exists>fs'. fs_ops_write demo_fs demo_fs_gate ''u'' \<lparr>wr_path = path_components ''/w/a.txt'', wr_content = ''new''\<rparr> =
      (Ok \<lparr>ww_bytes_written = 3, ww_verified = True\<rparr>, fs') \<and>
    fs_read fs' (path_components ''/w/a.txt'') = Ok ''new''"
proof -
  have p: "path_components ''/w/a.txt'' = [RootDir, Normal ''w''] @ [Normal ''a.txt'']"
    by code_simp
  have gate: "op_decision demo_fs demo_fs_gate ''desktop.fs.write'' ([RootDir, Normal ''w''] @ [Normal ''a.txt'']) = Allow"
    by code_simp
  have small: "length ''new'' \<le> MAX_WRITE_BYTES" by (simp add: MAX_WRITE_BYTES_def)
  have isdir: "fs_is_dir demo_fs [RootDir]" "fs_is_dir demo_fs [RootDir, Normal ''w'']"
    by code_simp+
  have dirs: "fs_create_dir_all demo_fs [RootDir, Normal ''w''] = Ok demo_fs"
    using isdir by (simp add: fs_create_dir_all_def Let_def)
  have e: "locate_entry demo_fs ([RootDir, Normal ''w''] @ [Normal ''a.txt'']) = Some [RootDir, Normal ''w'', Normal ''a.txt'']"
    by code_simp
  have ne: "node_at demo_fs [RootDir, Normal ''w'', Normal ''a.txt''] = Some (FileNode ''old'')"
    by code_simp
  have t: "locate_entry demo_fs (tmp_sibling ''u'' ([RootDir, Normal ''w''] @ [Normal ''a.txt''])) =
      Some [RootDir, Normal ''w'', Normal ''a.synthhires-tmp-u'']"
    by code_simp
  have nt: "node_at demo_fs [RootDir, Normal ''w'', Normal ''a.synthhires-tmp-u''] = None"
    by code_simp
  have deny: "\<not> deny_write demo_fs x" "\<not> deny_read demo_fs x" "disk_fault demo_fs x = None" for x
    by (simp_all add: demo_fs_def)
  have leaf: "leaf_at demo_fs [RootDir, Normal ''w'', Normal ''a.txt'']" using ne by (simp add: leaf_at_def)
  from permitted_write_succeeds [OF gate small dirs e leaf deny(1,2) t nt deny(1,3)]
  show ?thesis unfolding p by auto
qed

text \<open>The file is replaced; on a device that is full after two bytes it is kept, the sibling holds them.\<close>

definition demo_full_device :: host_fs where
  "demo_full_device = demo_fs\<lparr>disk_fault := (\<lambda>_. Some 2)\<rparr>"

lemma full_device_write:
  "\<exists>fs2. fs_ops_write demo_full_device demo_fs_gate ''u''
       \<lparr>wr_path = path_components ''/w/a.txt'', wr_content = ''new''\<rparr> = (Err (Io NO_SPACE), fs2) \<and>
     node_at fs2 (path_components ''/w/a.txt'') = Some (FileNode ''old'') \<and>
     node_at fs2 (path_components ''/w/a.synthhires-tmp-u'') = Some (FileNode ''ne'')"
proof -
  let ?p = "path_components ''/w/a.txt''"
  let ?run = "write_via_unique_tmp demo_full_device ''u'' ?p ''new''"
  have gate: "gate_for_path demo_full_device demo_fs_gate ''desktop.fs.write'' ?p = Ok ()" by code_simp
  have parent: "path_parent ?p = Some [RootDir, Normal ''w'']" by code_simp
  have isdir: "fs_is_dir demo_full_device [RootDir]" "fs_is_dir demo_full_device [RootDir, Normal ''w'']"
    by code_simp+
  have dirs: "fs_create_dir_all demo_full_device [RootDir, Normal ''w''] = Ok demo_full_device"
    using isdir by (simp add: fs_create_dir_all_def Let_def)
  have small: "length ''new'' \<le> MAX_WRITE_BYTES" by (simp add: MAX_WRITE_BYTES_def)
  have failed: "fst ?run = Err (Io NO_SPACE)" by code_simp
  then obtain fs2 where run: "?run = (Err (Io NO_SPACE), fs2)" by (metis prod.collapse)
  then have "fs_ops_write demo_full_device demo_fs_gate ''u'' \<lparr>wr_path = ?p, wr_content = ''new''\<rparr> = (Err (Io NO_SPACE), fs2)"
    using small by (simp add: fs_ops_write_def gate parent dirs)
  moreover have "node_at (snd ?run) ?p = Some (FileNode ''old'')"
    "node_at (snd ?run) (path_components ''/w/a.synthhires-tmp-u'') = Some (FileNode ''ne'')" by code_simp+
  ultimately show ?thesis using run by auto
qed

theorem write_atomic_and_honest_witness:
  "(\<exists>fs1. fs_ops_write demo_fs demo_fs_gate ''u'' \<lparr>wr_path = path_components ''/w/a.txt'', wr_content = ''new''\<rparr> =
       (Ok \<lparr>ww_bytes_written = 3, ww_verified = True\<rparr>, fs1) \<and>
     node_at fs1 (path_components ''/w/a.txt'') = Some (FileNode ''new'')) \<and>
   (\<exists>fs2. fs_ops_write demo_full_device demo_fs_gate ''u''
       \<lparr>wr_path = path_components ''/w/a.txt'', wr_content = ''new''\<rparr> = (Err (Io NO_SPACE), fs2) \<and>
     node_at fs2 (path_components ''/w/a.txt'') = Some (FileNode ''old'') \<and>
     node_at fs2 (path_components ''/w/a.synthhires-tmp-u'') = Some (FileNode ''ne''))"
proof -
  let ?p = "path_components ''/w/a.txt''"
  let ?req = "\<lparr>wr_path = ?p, wr_content = ''new''\<rparr>"
  obtain fs1 where w: "fs_ops_write demo_fs demo_fs_gate ''u'' ?req =
      (Ok \<lparr>ww_bytes_written = 3, ww_verified = True\<rparr>, fs1)"
    using permitted_write_succeeds_witness by blast
  have parent: "path_parent (wr_path ?req) = Some [RootDir, Normal ''w'']" by code_simp
  have isdir: "fs_is_dir demo_fs [RootDir]" "fs_is_dir demo_fs [RootDir, Normal ''w'']"
    by code_simp+
  have dirs: "fs_dirs_left demo_fs [RootDir, Normal ''w''] = demo_fs"
    using isdir by (simp add: fs_dirs_left_def Let_def)
  have entry: "locate_entry demo_fs ?p = Some ?p" by code_simp
  from write_atomic_and_honest [OF w] have "node_at fs1 ?p = Some (FileNode ''new'')"
    unfolding parent by (auto simp: dirs entry)
  with w show ?thesis using full_device_write by blast
qed

text \<open>
  Verifying a path leaves no trace. If no entry has the fresh probe name and no write meets a full
  device, the file system
  after \<open>verify\<close> has at every location the node it had before, whether the probe could be
  written, read back or not.
\<close>

lemma verify_leaves_no_trace:
  assumes "\<And>x. node_at fs (x @ [probe_name u1]) = None" and "\<And>x. disk_fault fs x = None"
  shows "node_at (snd (fs_ops_verify fs u1 u2 req)) x = node_at fs x"
  using probe_write_restores [OF assms]
  by (auto simp: fs_ops_verify_def Let_def split: sum.splits prod.splits) (metis snd_conv)+

lemma verify_leaves_no_trace_witness:
  "(\<forall>x. node_at (snd (fs_ops_verify demo_fs ''1'' ''2'' \<lparr>vf_path = path_components ''/w''\<rparr>)) x = node_at demo_fs x) \<and>
   vf_writable (fst (fs_ops_verify demo_fs ''1'' ''2'' \<lparr>vf_path = path_components ''/w''\<rparr>))"
proof -
  have dom: "list_all (\<lambda>e. last (fst e) \<noteq> probe_name ''1'') (nodes demo_fs)" by code_simp
  have "probe_name ''1'' \<noteq> RootDir" by (simp add: probe_name_def)
  then have "node_at demo_fs (x @ [probe_name ''1'']) = None" for x
    using dom by (auto simp: node_at_def list_all_iff map_of_eq_None_iff dest!: bspec)
  moreover have "disk_fault demo_fs x = None" for x by (simp add: demo_fs_def)
  ultimately have
    "\<forall>x. node_at (snd (fs_ops_verify demo_fs ''1'' ''2'' \<lparr>vf_path = path_components ''/w''\<rparr>)) x = node_at demo_fs x"
    using verify_leaves_no_trace by blast
  moreover have "vf_writable (fst (fs_ops_verify demo_fs ''1'' ''2'' \<lparr>vf_path = path_components ''/w''\<rparr>))"
    by code_simp
  ultimately show ?thesis by blast
qed

text \<open>
  Reads are bounded and honest. A successful read returns, base64-encoded, a prefix of the
  file of at most 10 MiB (and at most the requested count), and \<open>truncated\<close> is set exactly
  when the file is longer than what was returned.
\<close>

lemma read_bounded_and_honest:
  assumes "fs_ops_read fs g req = Ok r"
  shows "\<exists>content m. fs_read fs (rd_path req) = Ok content \<and> m \<le> READ_LIMIT \<and>
    (\<forall>k. rd_max_bytes req = Some k \<longrightarrow> m \<le> k) \<and>
    base64_decode (rr_content_base64 r) = Some (take m content) \<and>
    rr_size r = length (take m content) \<and> (rr_truncated r \<longleftrightarrow> take m content \<noteq> content)"
proof -
  let ?m = "min (case rd_max_bytes req of Some k \<Rightarrow> k | None \<Rightarrow> READ_DEFAULT) READ_LIMIT"
  from assms obtain total d content where h: "fs_metadata fs (rd_path req) = Ok (d, total)"
    "fs_read fs (rd_path req) = Ok content"
    "r = \<lparr>rr_content_base64 = base64_encode (take ?m content), rr_size = length (take ?m content),
          rr_truncated = (total > length (take ?m content))\<rparr>"
    by (auto simp: fs_ops_read_def try_bind_Inr Let_def dest!: io_try_OkD)
  have "total = length content"
    using h(1,2) by (auto simp: fs_metadata_def fs_read_def split: option.splits fs_node.splits if_splits)
  then have "rr_truncated r \<longleftrightarrow> take ?m content \<noteq> content"
    using h(3) by auto
  moreover have "?m \<le> READ_LIMIT" "\<forall>k. rd_max_bytes req = Some k \<longrightarrow> ?m \<le> k" by auto
  ultimately show ?thesis
    using h base64.decode_encode by (intro exI [of _ content] exI [of _ ?m]) simp
qed

lemma read_bounded_and_honest_witness:
  "\<exists>r m. fs_ops_read demo_fs demo_fs_gate
       \<lparr>rd_path = path_components ''/w/a.txt'', rd_max_bytes = Some 2, rd_annotate = None\<rparr> = Ok r \<and>
     base64_decode (rr_content_base64 r) = Some (take m ''old'')"
proof -
  let ?p = "path_components ''/w/a.txt''"
  let ?req = "\<lparr>rd_path = ?p, rd_max_bytes = Some 2, rd_annotate = None\<rparr>"
  have gate: "gate_for_path demo_fs demo_fs_gate ''desktop.fs.read'' ?p = Ok ()" by code_simp
  have meta: "fs_metadata demo_fs ?p = Ok (False, 3)" by code_simp
  have old: "fs_read demo_fs ?p = Ok ''old''" by code_simp
  obtain r where r: "fs_ops_read demo_fs demo_fs_gate ?req = Ok r"
    by (simp add: fs_ops_read_def gate meta old Let_def)
  from read_bounded_and_honest [OF r] obtain content m where
    new: "fs_read demo_fs ?p = Ok content" and
    dec: "base64_decode (rr_content_base64 r) = Some (take m content)"
    unfolding fs_read_request.select_convs by blast
  from new have "content = ''old''" unfolding old sum.inject by (rule sym)
  with dec r show ?thesis by blast
qed

end
