(* ===== verification/Private_Dir.thy ===== *)
theory Private_Dir
  imports Host_Fs
begin

text \<open>
  A directory the daemon keeps for itself, as the checkpoint store and its index do: the
  path resolves to a directory whose entries are plain files or missing. The section gives
  what the file operations do to an entry of such a directory, and that they keep it one.
\<close>

definition file_dir :: "host_fs \<Rightarrow> path \<Rightarrow> path \<Rightarrow> bool" where
  "file_dir fs root R \<longleftrightarrow>
     root \<noteq> [] \<and> canonicalize fs root = Some R \<and> node_at fs R = Some DirNode \<and>
     (\<forall>n. leaf_at fs (R @ [Normal n]))"

lemma entry_not_dir [simp]: "R @ [Normal n] \<noteq> [RootDir]"
  by (cases R) auto

lemma file_dir_entry:
  assumes "file_dir fs root R"
  shows "locate_entry fs (root @ [Normal n]) = Some (R @ [Normal n])"
  using assms unfolding file_dir_def locate_entry_normal by simp

lemma file_dir_locate:
  assumes "file_dir fs root R"
  shows "locate fs (root @ [Normal n]) = Some (R @ [Normal n])"
proof -
  from assms have "walk MAX_SYMLINKS fs (cwd fs) root = Some R"
    by (auto simp: file_dir_def canonicalize_def locate_def split: option.splits if_splits)
  with assms show ?thesis
    using walk_append_dir [of MAX_SYMLINKS fs "cwd fs" root R n]
    by (simp add: file_dir_def locate_def)
qed

lemma file_dir_read:
  assumes "file_dir fs root R"
  shows "fs_read fs (root @ [Normal n]) =
    (case node_at fs (R @ [Normal n]) of
       Some (FileNode b) \<Rightarrow> (if deny_read fs (R @ [Normal n]) then Err PermissionDenied else Ok b)
     | _ \<Rightarrow> Err NotFound)"
proof -
  from assms have "leaf_at fs (R @ [Normal n])" by (simp add: file_dir_def)
  with file_dir_locate [OF assms, of n] show ?thesis
    by (auto simp: fs_read_def canonicalize_def leaf_at_def)
qed

lemma file_dir_open:
  assumes "file_dir fs root R"
  shows "write_open fs (root @ [Normal n]) = (if deny_write fs (R @ [Normal n]) then Err PermissionDenied else Ok (R @ [Normal n]))"
proof -
  from assms have "leaf_at fs (R @ [Normal n])" "node_at fs R = Some DirNode"
    by (simp_all add: file_dir_def)
  with file_dir_locate [OF assms, of n] show ?thesis
    by (auto simp: write_open_def leaf_at_def)
qed

lemma file_dir_write:
  assumes "file_dir fs root R"
  shows "fs_write fs (root @ [Normal n]) b =
    (if deny_write fs (R @ [Normal n]) then Err PermissionDenied
     else if fault_in fs (R @ [Normal n]) b = None then Ok (put_node fs (R @ [Normal n]) (FileNode b))
     else Err NO_SPACE)"
  by (simp add: fs_write_def file_dir_open [OF assms])

lemma file_dir_write_left:
  assumes "file_dir fs root R"
  shows "fs_write_left fs (root @ [Normal n]) b =
    (if deny_write fs (R @ [Normal n]) then fs
     else put_node fs (R @ [Normal n]) (FileNode (case fault_in fs (R @ [Normal n]) b of Some m \<Rightarrow> take m b | None \<Rightarrow> b)))"
  by (simp add: fs_write_left_def file_dir_open [OF assms] split: option.split)

lemma file_dir_save:
  assumes "file_dir fs root R"
  shows "fs_save fs (root @ [Normal n]) b =
    (if deny_write fs (R @ [Normal n]) then Err PermissionDenied
     else if disk_fault fs (R @ [Normal n]) = None then Ok (put_node fs (R @ [Normal n]) (FileNode b))
     else Err NO_SPACE)"
  by (simp add: fs_save_def file_dir_open [OF assms])

lemma file_dir_save_left:
  assumes "file_dir fs root R"
  shows "fs_save_left fs (root @ [Normal n]) b =
    (if deny_write fs (R @ [Normal n]) then fs
     else put_node fs (R @ [Normal n]) (FileNode (case disk_fault fs (R @ [Normal n]) of Some m \<Rightarrow> take m b | None \<Rightarrow> b)))"
  by (simp add: fs_save_left_def file_dir_open [OF assms] split: option.split)

lemma file_dir_remove:
  assumes "file_dir fs root R"
  shows "fs_remove_file fs (root @ [Normal n]) =
    (if node_at fs (R @ [Normal n]) = None then Err NotFound
     else if deny_write fs (R @ [Normal n]) then Err PermissionDenied
     else Ok (drop_node fs (R @ [Normal n])))"
proof -
  from assms have "leaf_at fs (R @ [Normal n])" by (simp add: file_dir_def)
  with file_dir_entry [OF assms, of n] show ?thesis
    by (auto simp: fs_remove_file_def leaf_at_def)
qed

lemma file_dir_rename:
  assumes "file_dir fs root R"
  shows "fs_rename fs (root @ [Normal a]) (root @ [Normal b]) =
    (case node_at fs (R @ [Normal a]) of
       None \<Rightarrow> Err NotFound
     | Some n \<Rightarrow>
         if deny_write fs (R @ [Normal a]) \<or> deny_write fs (R @ [Normal b]) then Err PermissionDenied
         else Ok (put_node (drop_node fs (R @ [Normal a])) (R @ [Normal b]) n))"
proof -
  from assms have "leaf_at fs (R @ [Normal b])" by (simp add: file_dir_def)
  with file_dir_entry [OF assms] show ?thesis
    by (auto simp: fs_rename_def leaf_at_def split: option.split)
qed

text \<open>A file written or removed anywhere keeps the directory one of plain files.\<close>

lemma file_dir_put:
  assumes "file_dir fs root R" and "leaf_at fs r"
  shows "file_dir (put_node fs r (FileNode b)) root R"
proof -
  from assms have "node_at fs R = Some DirNode" by (simp add: file_dir_def)
  with assms(2) have "r \<noteq> R" by (auto simp: leaf_at_def)
  with assms canonicalize_dir_put [OF assms(2)] leaf_not_root [OF assms(2)] show ?thesis
    by (auto simp: file_dir_def)
qed

lemma file_dir_drop:
  assumes "file_dir fs root R" and "leaf_at fs r"
  shows "file_dir (drop_node fs r) root R"
proof -
  from assms have R: "node_at fs R = Some DirNode" by (simp add: file_dir_def)
  with assms(2) have "r \<noteq> R" by (auto simp: leaf_at_def)
  with assms canonicalize_dir_drop [OF assms(2) _ R] leaf_not_root [OF assms(2)] show ?thesis
    by (auto simp: file_dir_def leaf_at_def)
qed

lemma file_dir_leaf [simp]: "file_dir fs root R \<Longrightarrow> leaf_at fs (R @ [Normal n])"
  by (simp add: file_dir_def)

section \<open>Well-formed trees\<close>

text \<open>Every node but the root sits in a directory, and the working directory is one.\<close>

definition tree_ok :: "host_fs \<Rightarrow> bool" where
  "tree_ok fs \<longleftrightarrow> node_at fs (cwd fs) = Some DirNode \<and>
     (\<forall>p c. p \<noteq> [] \<and> node_at fs (p @ [c]) \<noteq> None \<longrightarrow> node_at fs p = Some DirNode)"

definition not_link :: "host_fs \<Rightarrow> path \<Rightarrow> bool" where
  "not_link fs r \<longleftrightarrow> (\<forall>t. node_at fs r \<noteq> Some (LinkNode t))"

lemma tree_ok_parent:
  assumes "tree_ok fs" "node_at fs d = Some DirNode" "1 < length d"
  shows "node_at fs (butlast d) = Some DirNode"
proof -
  from assms(3) have d: "d = butlast d @ [last d]" "butlast d \<noteq> []"
    by (cases d rule: rev_cases; simp)+
  with assms(1,2) show ?thesis unfolding tree_ok_def by (metis option.distinct(1))
qed

lemma walk_not_link:
  "tree_ok fs \<Longrightarrow> node_at fs d = Some DirNode \<Longrightarrow> walk n fs d t = Some r \<Longrightarrow> not_link fs r"
proof (induction n fs d t rule: walk.induct)
  case (2 links fs d cs)
  then show ?case by (simp add: node_at_def)
next
  case (4 links fs d cs)
  then show ?case using tree_ok_parent [of fs d] by (auto split: if_splits)
next
  case (5 links fs d s cs)
  then show ?case by (auto simp: not_link_def split: option.splits fs_node.splits if_splits)
qed (auto simp: not_link_def)

lemma locate_not_link: "tree_ok fs \<Longrightarrow> locate fs p = Some r \<Longrightarrow> not_link fs r"
  using walk_not_link [of fs "cwd fs"] by (auto simp: locate_def tree_ok_def split: if_splits)

text \<open>What was written is what is read.\<close>

lemma write_OkD:
  assumes "fs_write fs p b = Ok fs'" "tree_ok fs"
  shows "\<exists>r. locate fs p = Some r \<and> leaf_at fs r \<and> node_at fs (butlast r) = Some DirNode \<and>
    \<not> deny_write fs r \<and> fs' = put_node fs r (FileNode b)"
proof -
  from assms(1) obtain r where r: "locate fs p = Some r" "node_at fs r \<noteq> Some DirNode"
    "node_at fs (butlast r) = Some DirNode" "\<not> deny_write fs r" "fs' = put_node fs r (FileNode b)"
    by (auto simp: fs_write_def write_open_def split: option.splits fs_node.splits if_splits)
  moreover have "leaf_at fs r"
    using locate_not_link [OF assms(2) r(1)] r(2) unfolding leaf_at_def not_link_def
    by (metis fs_node.exhaust option.exhaust)
  ultimately show ?thesis by blast
qed

lemma read_after_write:
  assumes "fs_write fs p b = Ok fs'" "tree_ok fs" "\<And>x. \<not> deny_read fs x"
  shows "fs_read fs' p = Ok b"
proof -
  from write_OkD [OF assms(1,2)] obtain r where r: "locate fs p = Some r" "leaf_at fs r"
    "fs' = put_node fs r (FileNode b)" by blast
  then have "locate fs' p = Some r" "node_at fs' r = Some (FileNode b)"
    using leaf_not_root [OF r(2)] by simp_all
  with assms(3) r(3) show ?thesis by (simp add: fs_read_def canonicalize_def)
qed

lemma tree_ok_put:
  assumes "tree_ok fs" "leaf_at fs r" "node_at fs (butlast r) = Some DirNode"
  shows "tree_ok (put_node fs r (FileNode b))"
proof -
  have rr: "r \<noteq> [RootDir]" by (rule leaf_not_root [OF assms(2)])
  have nd: "node_at fs r \<noteq> Some DirNode" using assms(2) by (auto simp: leaf_at_def)
  show ?thesis
    unfolding tree_ok_def
  proof (intro conjI allI impI)
    show "node_at (put_node fs r (FileNode b)) (cwd (put_node fs r (FileNode b))) = Some DirNode"
      using assms(1) nd rr by (auto simp: tree_ok_def)
    fix p c assume pc: "p \<noteq> [] \<and> node_at (put_node fs r (FileNode b)) (p @ [c]) \<noteq> None"
    have "node_at fs p = Some DirNode"
    proof (cases "p @ [c] = r")
      case True
      then show ?thesis using assms(3) by auto
    next
      case False
      then show ?thesis using pc rr assms(1) unfolding tree_ok_def by auto
    qed
    then show "node_at (put_node fs r (FileNode b)) p = Some DirNode" using nd rr by auto
  qed
qed

lemma tree_ok_drop:
  assumes "tree_ok fs" "leaf_at fs r"
  shows "tree_ok (drop_node fs r)"
proof -
  have rr: "r \<noteq> [RootDir]" by (rule leaf_not_root [OF assms(2)])
  have nd: "node_at fs r \<noteq> Some DirNode" using assms(2) by (auto simp: leaf_at_def)
  have "node_at fs (r @ [c]) = None" if "r \<noteq> []" for c
    using assms(1) nd that unfolding tree_ok_def by blast
  with assms(1) rr nd show ?thesis unfolding tree_ok_def by auto blast
qed

lemma tree_ok_mkdir:
  assumes "tree_ok fs" "node_at fs (d @ [Normal s]) = None" "node_at fs d = Some DirNode"
  shows "tree_ok (put_node fs (d @ [Normal s]) DirNode)"
  using assms unfolding tree_ok_def by auto

lemma locate_entry_missing:
  assumes "locate_entry fs p = Some r" "node_at fs r = None"
  shows "\<exists>d s. r = d @ [Normal s] \<and> node_at fs d = Some DirNode"
  using assms
  by (auto simp: locate_entry_def canonicalize_def split: pcomp.splits option.splits if_splits)

lemma make_dirs_tree_ok: "make_dirs fs pre cs = Ok fs' \<Longrightarrow> tree_ok fs \<Longrightarrow> tree_ok fs'"
proof (induction fs pre cs rule: make_dirs.induct)
  case (2 fs pre c cs)
  show ?case
  proof (cases "fs_is_dir fs (pre @ [c])")
    case True
    with 2 show ?thesis by simp
  next
    case False
    with "2.prems" obtain r where r: "locate_entry fs (pre @ [c]) = Some r" "node_at fs r = None"
      "\<not> deny_write fs r" "make_dirs (put_node fs r DirNode) (pre @ [c]) cs = Ok fs'"
      by (auto simp: Let_def split: option.splits if_splits)
    from locate_entry_missing [OF r(1,2)] obtain d s where ds: "r = d @ [Normal s]" "node_at fs d = Some DirNode" by blast
    have "tree_ok (put_node fs r DirNode)"
      using tree_ok_mkdir [OF "2.prems"(2) _ ds(2)] r(2) ds(1) by simp
    with "2.IH"(2) [OF refl False r(1)] r show ?thesis by simp
  qed
qed simp

lemma create_dir_all_tree_ok: "fs_create_dir_all fs p = Ok fs' \<Longrightarrow> tree_ok fs \<Longrightarrow> tree_ok fs'"
  by (auto simp: fs_create_dir_all_def split: if_splits intro: make_dirs_tree_ok)

end
