(* ===== verification/Checkpoint.thy ===== *)
theory Checkpoint
  imports Private_Dir Hashline "HOL-Library.Code_Target_Nat"
begin

text \<open>
  The checkpoint store (\<open>daemon-core/src/checkpoint.rs\<close>): pre-images of files the agent is
  about to change, kept as \<open><ts>.blob\<close> files beside an \<open>index.jsonl\<close>. The store lives in the
  host file system; every operation takes the file system and returns it.

  Outside the repository are the JSON codec of an index line and SHA-256: both are in
  \<open>store_lib\<close>, with the law of the codec as \<open>codec_law\<close>. The clock is the argument \<open>now\<close>.
  Byte totals are added as natural numbers: the sizes are those of files on the disk.
\<close>

section \<open>Store\<close>

definition MAX_CHECKPOINTS :: nat where "MAX_CHECKPOINTS = 200"
definition MAX_TOTAL_BYTES :: nat where "MAX_TOTAL_BYTES = 512 * 1024 * 1024"
definition MAX_FILE_BYTES :: nat where "MAX_FILE_BYTES = 32 * 1024 * 1024"

record checkpoint_entry =
  ck_action_id :: string
  ck_capability :: string
  ck_path :: string
  ck_ts :: nat
  ck_existed :: bool
  ck_size :: nat
  ck_hash :: string
  ck_truncated :: bool

record store_lib =
  to_line :: "checkpoint_entry \<Rightarrow> string"
  from_line :: "string \<Rightarrow> checkpoint_entry option"
  sha256_hex :: "bytes \<Rightarrow> string"

datatype checkpoint_error = CkIo io_error | CkJson string

fun checkpoint_error_to_string :: "checkpoint_error \<Rightarrow> string" where
  "checkpoint_error_to_string (CkIo e) = ''io error: '' @ io_display e"
| "checkpoint_error_to_string (CkJson m) = ''json error: '' @ m"

record checkpoint_store =
  store_root :: path

type_synonym 'a ck_res = "(checkpoint_error, 'a) res \<times> host_fs"

definition ck_step :: "host_fs \<Rightarrow> (io_error, host_fs) res \<Rightarrow> (host_fs \<Rightarrow> 'a ck_res) \<Rightarrow> 'a ck_res" where
  "ck_step fs r k = (case r of Inl e \<Rightarrow> (Err (CkIo e), fs) | Inr fs' \<Rightarrow> k fs')"

definition ck_query :: "host_fs \<Rightarrow> (io_error, 'b) res \<Rightarrow> ('b \<Rightarrow> 'a ck_res) \<Rightarrow> 'a ck_res" where
  "ck_query fs r k = (case r of Inl e \<Rightarrow> (Err (CkIo e), fs) | Inr a \<Rightarrow> k a)"

definition ck_then :: "'a ck_res \<Rightarrow> ('a \<Rightarrow> host_fs \<Rightarrow> 'b ck_res) \<Rightarrow> 'b ck_res" where
  "ck_then r k = (case r of (Inl e, fs) \<Rightarrow> (Err e, fs) | (Inr a, fs) \<Rightarrow> k a fs)"

lemma ck_simps [simp, result_simps]:
  "ck_step fs (Inl e) k1 = (Inl (CkIo e), fs)" "ck_step fs (Inr fs') k1 = k1 fs'"
  "ck_query fs (Inl e) k2 = (Inl (CkIo e), fs)" "ck_query fs (Inr a) k2 = k2 a"
  "ck_then (Inl x, fs) k3 = (Inl x, fs)" "ck_then (Inr a, fs) k3 = k3 a fs"
  by (simp_all add: ck_step_def ck_query_def ck_then_def)

definition blob_name :: "nat \<Rightarrow> string" where
  "blob_name ts = nat_to_string ts @ ''.blob''"

definition blob_path :: "checkpoint_entry \<Rightarrow> path \<Rightarrow> path" where
  "blob_path e root = root @ [Normal (blob_name (ck_ts e))]"

definition store_open :: "host_fs \<Rightarrow> path \<Rightarrow> checkpoint_store ck_res" where
  "store_open fs root = ck_step (fs_dirs_left fs root) (fs_create_dir_all fs root) (\<lambda>fs1. (Ok \<lparr>store_root = root\<rparr>, fs1))"

definition index_path :: "checkpoint_store \<Rightarrow> path" where
  "index_path st = store_root st @ [Normal ''index.jsonl'']"

definition read_index :: "store_lib \<Rightarrow> host_fs \<Rightarrow> checkpoint_store \<Rightarrow> checkpoint_entry list" where
  "read_index lib fs st =
     (case fs_read fs (index_path st) of
        Inl _ \<Rightarrow> []
      | Inr s \<Rightarrow> if valid_utf8 s then List.map_filter (from_line lib) (str_lines s) else [])"

definition index_text :: "store_lib \<Rightarrow> checkpoint_entry list \<Rightarrow> bytes" where
  "index_text lib entries = terminated_by [CHR 0x0A] (map (to_line lib) entries)"

definition write_index :: "store_lib \<Rightarrow> host_fs \<Rightarrow> checkpoint_store \<Rightarrow> checkpoint_entry list \<Rightarrow> unit ck_res" where
  "write_index lib fs st entries =
     (let tmp = store_root st @ [Normal ''.index.tmp''] in
      ck_step (fs_save_left fs tmp (index_text lib entries)) (fs_save fs tmp (index_text lib entries)) (\<lambda>fs1.
      ck_step fs1 (fs_rename fs1 tmp (index_path st)) (\<lambda>fs2. (Ok (), fs2))))"

text \<open>\<open>min_by_key\<close>: the first of the entries with the least timestamp.\<close>

fun min_by_ts :: "checkpoint_entry list \<Rightarrow> checkpoint_entry option" where
  "min_by_ts [] = None"
| "min_by_ts (e # es) =
     (case min_by_ts es of None \<Rightarrow> Some e | Some m \<Rightarrow> Some (if ck_ts e \<le> ck_ts m then e else m))"

lemma min_by_ts_None [simp]: "min_by_ts es = None \<longleftrightarrow> es = []"
  by (cases es) (auto split: option.splits)

lemma min_by_ts_Some:
  "min_by_ts es = Some m \<Longrightarrow> m \<in> set es \<and> (\<forall>e \<in> set es. ck_ts m \<le> ck_ts e)"
proof (induction es arbitrary: m)
  case (Cons a es)
  then show ?case
    by (cases "min_by_ts es") (fastforce split: if_splits simp: min_by_ts_None)+
qed simp

definition total_size :: "checkpoint_entry list \<Rightarrow> nat" where
  "total_size es = sum_list (map ck_size es)"

definition within_limits :: "checkpoint_entry list \<Rightarrow> bool" where
  "within_limits es \<longleftrightarrow> length es \<le> MAX_CHECKPOINTS \<and> total_size es \<le> MAX_TOTAL_BYTES"

text \<open>The loop of \<open>enforce_limits\<close>, with the index entries it works on and the blobs it removes.\<close>

function enforce_loop :: "path \<Rightarrow> nat \<Rightarrow> checkpoint_entry list \<Rightarrow> host_fs \<Rightarrow> checkpoint_entry list \<times> host_fs" where
  "enforce_loop root skip_ts entries fs =
     (if within_limits entries then (entries, fs)
      else
        (case min_by_ts (filter (\<lambda>e. ck_ts e \<noteq> skip_ts) entries) of
           None \<Rightarrow> (entries, fs)
         | Some victim \<Rightarrow>
             let fs' = (case fs_remove_file fs (blob_path victim root) of Inr f \<Rightarrow> f | Inl _ \<Rightarrow> fs)
             in enforce_loop root skip_ts (filter (\<lambda>e. ck_ts e \<noteq> ck_ts victim) entries) fs'))"
  by pat_completeness auto
termination
proof (relation "measure (\<lambda>(_, _, entries, _). length entries)", goal_cases)
  case (2 root skip_ts entries fs victim fs')
  then have "victim \<in> set entries" using min_by_ts_Some by fastforce
  then show ?case by (auto intro: length_filter_less)
qed simp

declare enforce_loop.simps [simp del]

definition enforce_limits :: "store_lib \<Rightarrow> host_fs \<Rightarrow> checkpoint_store \<Rightarrow> nat \<Rightarrow> unit ck_res" where
  "enforce_limits lib fs st skip_ts =
     (case enforce_loop (store_root st) skip_ts (read_index lib fs st) fs of
        (entries, fs1) \<Rightarrow> write_index lib fs1 st entries)"

text \<open>The pre-image part of \<open>capture\<close>: existed, size, truncated and hash.\<close>

definition capture_preimage ::
    "store_lib \<Rightarrow> host_fs \<Rightarrow> checkpoint_store \<Rightarrow> nat \<Rightarrow> path \<Rightarrow> (bool \<times> nat \<times> bool \<times> string) ck_res" where
  "capture_preimage lib fs st ts p =
     (if fs_is_dir fs p then
        (Ok (True, (case fs_read_dir fs p of Inr es \<Rightarrow> length es | Inl _ \<Rightarrow> 0), True, []), fs)
      else if fs_exists fs p then
        ck_query fs (fs_metadata fs p) (\<lambda>(_, len).
          if MAX_FILE_BYTES < len then (Ok (True, len, True, []), fs)
          else
            ck_query fs (fs_read fs p) (\<lambda>bytes.
            let blob = store_root st @ [Normal (blob_name ts)] in
            ck_step (fs_write_left fs blob bytes) (fs_write fs blob bytes) (\<lambda>fs1.
              (Ok (True, length bytes, False, sha256_hex lib bytes), fs1))))
      else (Ok (False, 0, False, []), fs))"

definition capture ::
    "store_lib \<Rightarrow> host_fs \<Rightarrow> checkpoint_store \<Rightarrow> nat \<Rightarrow> string \<Rightarrow> string \<Rightarrow> path \<Rightarrow> checkpoint_entry ck_res" where
  "capture lib fs st now action_id capability p =
     ck_then (capture_preimage lib fs st now p) (\<lambda>(existed, size, truncated, hash) fs1.
       let entry = \<lparr>ck_action_id = action_id, ck_capability = capability, ck_path = path_display p,
                     ck_ts = now, ck_existed = existed, ck_size = size, ck_hash = hash, ck_truncated = truncated\<rparr>
       in ck_then (write_index lib fs1 st (read_index lib fs1 st @ [entry])) (\<lambda>_ fs2.
          ck_then (enforce_limits lib fs2 st now) (\<lambda>_ fs3. (Ok entry, fs3))))"

definition checkpoint_list :: "store_lib \<Rightarrow> host_fs \<Rightarrow> checkpoint_store \<Rightarrow> checkpoint_entry list" where
  "checkpoint_list lib fs st = sort_key (\<lambda>e. - int (ck_ts e)) (read_index lib fs st)"

definition restore_missing :: "nat \<Rightarrow> checkpoint_error" where
  "restore_missing ts =
     CkIo (OtherIo (''checkpoint '' @ nat_to_string ts @ '' no existe ('' @ inverted_question @ ''evicted?)''))"

text \<open>Step 2 of \<open>restore\<close>: put the pre-image in place.\<close>

definition materialize :: "store_lib \<Rightarrow> host_fs \<Rightarrow> checkpoint_store \<Rightarrow> checkpoint_entry \<Rightarrow> path \<Rightarrow> unit ck_res" where
  "materialize lib fs st entry target =
     (if ck_existed entry \<and> \<not> ck_truncated entry then
        ck_query fs (fs_read fs (blob_path entry (store_root st))) (\<lambda>bytes.
          if ck_hash entry \<noteq> [] \<and> sha256_hex lib bytes \<noteq> ck_hash entry
          then (Err (CkIo (OtherIo ''blob corrupto: hash SHA-256 no coincide'')), fs)
          else
            ck_step (case path_parent target of Some parent \<Rightarrow> fs_dirs_left fs parent | None \<Rightarrow> fs)
              (case path_parent target of Some parent \<Rightarrow> fs_create_dir_all fs parent | None \<Rightarrow> Ok fs) (\<lambda>fs1.
            ck_step (fs_write_left fs1 target bytes) (fs_write fs1 target bytes) (\<lambda>fs2. (Ok (), fs2))))
      else if ck_existed entry \<and> ck_truncated entry then
        (Err (CkIo (OtherIo ''pre-imagen demasiado grande para restaurar (content no almacenado)'')), fs)
      else if fs_is_dir fs target then ck_step fs (fs_remove_dir_all fs target) (\<lambda>fs1. (Ok (), fs1))
      else if fs_exists fs target then ck_step fs (fs_remove_file fs target) (\<lambda>fs1. (Ok (), fs1))
      else (Ok (), fs))"

definition restore :: "store_lib \<Rightarrow> host_fs \<Rightarrow> checkpoint_store \<Rightarrow> nat \<Rightarrow> nat \<Rightarrow> checkpoint_entry ck_res" where
  "restore lib fs st now ts =
     (case find (\<lambda>e. ck_ts e = ts) (read_index lib fs st) of
        None \<Rightarrow> (Err (restore_missing ts), fs)
      | Some entry \<Rightarrow>
          let target = path_components (ck_path entry) in
          ck_then (capture lib fs st now ''restore'' ''desktop.fs.restore'' target) (\<lambda>rollback fs1.
          ck_then (materialize lib fs1 st entry target) (\<lambda>_ fs2. (Ok rollback, fs2))))"

definition abbreviate :: "string \<Rightarrow> nat \<Rightarrow> string" where
  "abbreviate s limit =
     (if char_count s \<le> limit then s
      else ellipsis @ drop_chars (char_count s - (limit - 3)) s)"

text \<open>The date formatting of \<open>chrono\<close> is \<open>fmt\<close>, which fails for an instant out of its range.\<close>

definition summary_line :: "(nat \<Rightarrow> string option) \<Rightarrow> checkpoint_entry \<Rightarrow> string" where
  "summary_line fmt e =
     (case fmt (ck_ts e) of Some s \<Rightarrow> s | None \<Rightarrow> nat_to_string (ck_ts e)) @ '' '' @
     trim_start_matches ''desktop.fs.'' (ck_capability e) @ '' '' @
     abbreviate (ck_path e) 34 @ '' '' @
     (if ck_existed e then nat_to_string (ck_size e) @ ''B'' else ''nuevo'') @
     (if ck_truncated e then '' (grande)'' else [])"

definition checkpoint_summary ::
    "(nat \<Rightarrow> string option) \<Rightarrow> store_lib \<Rightarrow> host_fs \<Rightarrow> checkpoint_store \<Rightarrow> nat \<Rightarrow> string list" where
  "checkpoint_summary fmt lib fs st limit =
     map (summary_line fmt) (take limit (checkpoint_list lib fs st))"

section \<open>Lemmas: eviction\<close>

definition kept_from :: "nat \<Rightarrow> nat \<Rightarrow> checkpoint_entry list \<Rightarrow> checkpoint_entry list" where
  "kept_from skip_ts start es = filter (\<lambda>e. ck_ts e = skip_ts \<or> start \<le> ck_ts e) es"

lemma set_kept_from: "set (kept_from skip_ts start es) = {e \<in> set es. ck_ts e = skip_ts \<or> start \<le> ck_ts e}"
  by (auto simp: kept_from_def)

lemma min_by_ts_filter:
  assumes "min_by_ts (filter (\<lambda>e. ck_ts e \<noteq> skip) es) = Some v"
  shows "v \<in> set es" "ck_ts v \<noteq> skip" "\<And>e. e \<in> set es \<Longrightarrow> ck_ts e \<noteq> skip \<Longrightarrow> ck_ts v \<le> ck_ts e"
  using min_by_ts_Some [OF assms] by auto

lemma enforce_loop_kept:
  "\<exists>start. fst (enforce_loop root skip_ts es fs) = kept_from skip_ts start es \<and>
     (within_limits (kept_from skip_ts start es) \<or> (\<forall>e \<in> set (kept_from skip_ts start es). ck_ts e = skip_ts)) \<and>
     (\<forall>e \<in> set es. e \<notin> set (kept_from skip_ts start es) \<longrightarrow> \<not> within_limits (kept_from skip_ts (ck_ts e) es))"
proof (induction root skip_ts es fs rule: enforce_loop.induct)
  case (1 root skip_ts es fs)
  have all: "kept_from skip_ts 0 es = es" by (simp add: kept_from_def)
  show ?case
  proof (cases "within_limits es")
    case True
    then show ?thesis
      by (intro exI [of _ 0]) (simp add: enforce_loop.simps [of root skip_ts es fs] all)
  next
    case big: False
    show ?thesis
    proof (cases "min_by_ts (filter (\<lambda>e. ck_ts e \<noteq> skip_ts) es)")
      case None
      then show ?thesis
        using big by (intro exI [of _ 0])
          (simp add: enforce_loop.simps [of root skip_ts es fs] all filter_empty_conv)
    next
      case (Some v)
      note v = min_by_ts_filter [OF Some]
      let ?rest = "filter (\<lambda>e. ck_ts e \<noteq> ck_ts v) es"
      obtain fs' where fs': "enforce_loop root skip_ts es fs = enforce_loop root skip_ts ?rest fs'"
        "fs' = (case fs_remove_file fs (blob_path v root) of Inr f \<Rightarrow> f | Inl _ \<Rightarrow> fs)"
        using big Some by (simp add: enforce_loop.simps [of root skip_ts es fs] Let_def)
      from "1.IH" [OF big Some fs'(2)] obtain start where kept:
        "fst (enforce_loop root skip_ts ?rest fs') = kept_from skip_ts start ?rest"
        "within_limits (kept_from skip_ts start ?rest) \<or> (\<forall>e \<in> set (kept_from skip_ts start ?rest). ck_ts e = skip_ts)"
        "\<forall>e \<in> set ?rest. e \<notin> set (kept_from skip_ts start ?rest) \<longrightarrow> \<not> within_limits (kept_from skip_ts (ck_ts e) ?rest)"
        by blast
      define c where "c = max start (Suc (ck_ts v))"
      have rest: "kept_from skip_ts k ?rest = kept_from skip_ts (max k (Suc (ck_ts v))) es" for k
        unfolding kept_from_def filter_filter using v by (intro filter_cong) force+
      have "\<not> within_limits (kept_from skip_ts (ck_ts e) es)"
        if e: "e \<in> set es" "e \<notin> set (kept_from skip_ts c es)" for e
      proof (cases "ck_ts e = ck_ts v")
        case True
        have "kept_from skip_ts (ck_ts v) es = es"
          unfolding kept_from_def by (rule filter_True) (use v in blast)
        with big True show ?thesis by simp
      next
        case False
        with e(1) have er: "e \<in> set ?rest" by simp
        have es: "ck_ts e \<noteq> skip_ts" using e by (auto simp: kept_from_def)
        have "Suc (ck_ts v) \<le> ck_ts e" using v(3) [OF e(1) es] False by simp
        with kept(3) er e(2) rest show ?thesis by (auto simp: c_def max_def)
      qed
      with kept(1,2) rest [of start] fs'(1) show ?thesis
        by (intro exI [of _ c]) (simp add: c_def)
    qed
  qed
qed

section \<open>Lemmas: what the store's operations touch\<close>

lemma blob_name_inject [simp]: "blob_name a = blob_name b \<longleftrightarrow> a = b"
  by (simp add: blob_name_def)

lemma blob_name_other [simp]:
  "blob_name a \<noteq> ''index.jsonl''" "blob_name a \<noteq> ''.index.tmp''"
  "''index.jsonl'' \<noteq> blob_name a" "''.index.tmp'' \<noteq> blob_name a"
proof -
  have "last (blob_name a) = CHR ''b''" by (simp add: blob_name_def)
  then have "blob_name a \<noteq> ''index.jsonl''" "blob_name a \<noteq> ''.index.tmp''" by auto
  then show "blob_name a \<noteq> ''index.jsonl''" "blob_name a \<noteq> ''.index.tmp''"
    "''index.jsonl'' \<noteq> blob_name a" "''.index.tmp'' \<noteq> blob_name a"
    by metis+
qed

text \<open>
  \<open>store_keeps fs fs' root R X\<close>: the store's directory is still one of plain files, the tree
  is well-formed if it was, permissions and faults are the same, and a node outside the names \<open>X\<close> of the
  directory is unchanged, or is the blob of an evicted entry and gone.
\<close>

definition store_keeps :: "host_fs \<Rightarrow> host_fs \<Rightarrow> path \<Rightarrow> path \<Rightarrow> string set \<Rightarrow> nat set \<Rightarrow> bool" where
  "store_keeps fs fs' root R X V \<longleftrightarrow>
     file_dir fs' root R \<and> (tree_ok fs \<longrightarrow> tree_ok fs') \<and>
     deny_read fs' = deny_read fs \<and> deny_write fs' = deny_write fs \<and>
     disk_fault fs' = disk_fault fs \<and>
     (\<forall>x. node_at fs' x = node_at fs x \<or> (\<exists>n \<in> X. x = R @ [Normal n]) \<or>
          (node_at fs' x = None \<and> (\<exists>t \<in> V. x = R @ [Normal (blob_name t)])))"

lemma store_keeps_refl: "file_dir fs root R \<Longrightarrow> store_keeps fs fs root R X V"
  by (simp add: store_keeps_def)

lemma store_keeps_trans:
  assumes "store_keeps a b root R X V" "store_keeps b c root R X V"
  shows "store_keeps a c root R X V"
  using assms unfolding store_keeps_def by metis

lemma store_keeps_mono:
  "store_keeps a b root R X V \<Longrightarrow> X \<subseteq> Y \<Longrightarrow> V \<subseteq> W \<Longrightarrow> store_keeps a b root R Y W"
  unfolding store_keeps_def by blast

lemma store_keeps_put:
  assumes "file_dir fs root R" "n \<in> X"
  shows "store_keeps fs (put_node fs (R @ [Normal n]) (FileNode b)) root R X V"
  using assms file_dir_put [OF assms(1)] tree_ok_put [of fs "R @ [Normal n]"]
  by (auto simp: store_keeps_def file_dir_def)

lemma store_keeps_drop:
  assumes "file_dir fs root R" "t \<in> V"
  shows "store_keeps fs (drop_node fs (R @ [Normal (blob_name t)])) root R X V"
  using assms file_dir_drop [OF assms(1)] tree_ok_drop [of fs "R @ [Normal (blob_name t)]"]
  by (auto simp: store_keeps_def file_dir_def)

lemma store_keeps_dir: "store_keeps a b root R X V \<Longrightarrow> file_dir b root R"
  by (simp add: store_keeps_def)

lemma store_keeps_node:
  assumes "store_keeps a b root R X V" "n \<notin> X" "node_at b (R @ [Normal n]) = Some y"
  shows "node_at a (R @ [Normal n]) = Some y"
proof -
  note all = assms(1) [unfolded store_keeps_def, THEN conjunct2, THEN conjunct2, THEN conjunct2, THEN conjunct2, THEN conjunct2]
  from all [rule_format, of "R @ [Normal n]"] assms(2,3) show ?thesis by auto
qed

lemma write_index_keeps:
  assumes "file_dir fs (store_root st) R" "write_index lib fs st es = (res, fs')"
    "{''.index.tmp'', ''index.jsonl''} \<subseteq> X"
  shows "store_keeps fs fs' (store_root st) R X V \<and>
    (res = Ok () \<longrightarrow> node_at fs' (R @ [Normal ''index.jsonl'']) = Some (FileNode (index_text lib es)))"
proof (cases "deny_write fs (R @ [Normal ''.index.tmp'']) \<or> disk_fault fs (R @ [Normal ''.index.tmp'']) \<noteq> None")
  case True
  with assms show ?thesis
    by (auto simp: write_index_def Let_def file_dir_save [OF assms(1)] file_dir_save_left [OF assms(1)]
      store_keeps_refl intro!: store_keeps_put split: if_splits)
next
  case False
  define fs1 where "fs1 = put_node fs (R @ [Normal ''.index.tmp'']) (FileNode (index_text lib es))"
  have k1: "store_keeps fs fs1 (store_root st) R X V"
    unfolding fs1_def by (rule store_keeps_put [OF assms(1)]) (use assms(3) in auto)
  have d1: "file_dir fs1 (store_root st) R" by (rule store_keeps_dir [OF k1])
  have n1: "node_at fs1 (R @ [Normal ''.index.tmp'']) = Some (FileNode (index_text lib es))"
    by (simp add: fs1_def)
  have w: "write_index lib fs st es =
      ck_step fs1 (fs_rename fs1 (store_root st @ [Normal ''.index.tmp'']) (index_path st)) (\<lambda>fs2. (Ok (), fs2))"
    using False by (simp add: write_index_def Let_def file_dir_save [OF assms(1)] fs1_def)
  show ?thesis
  proof (cases "deny_write fs1 (R @ [Normal ''.index.tmp'']) \<or> deny_write fs1 (R @ [Normal ''index.jsonl''])")
    case True
    with w assms(2) k1 show ?thesis
      by (auto simp: index_path_def file_dir_rename [OF d1] n1)
  next
    case False
    let ?t = "R @ [Normal ''.index.tmp'']" and ?i = "R @ [Normal ''index.jsonl'']"
    have fs': "res = Ok ()" "fs' = put_node (drop_node fs1 ?t) ?i (FileNode (index_text lib es))"
      using w assms(2) False by (auto simp: index_path_def file_dir_rename [OF d1] n1)
    have d2: "file_dir (drop_node fs1 ?t) (store_root st) R"
      by (rule file_dir_drop [OF d1]) (simp add: file_dir_leaf [OF d1])
    have "store_keeps fs1 (drop_node fs1 ?t) (store_root st) R X V"
      using d2 d1 tree_ok_drop [of fs1 ?t] assms(3) by (auto simp: store_keeps_def)
    moreover have "store_keeps (drop_node fs1 ?t) fs' (store_root st) R X V"
      unfolding fs'(2) by (rule store_keeps_put [OF d2]) (use assms(3) in auto)
    ultimately have "store_keeps fs fs' (store_root st) R X V"
      using k1 store_keeps_trans by blast
    then show ?thesis by (simp add: fs'(2))
  qed
qed

lemma enforce_loop_keeps:
  assumes "enforce_loop root skip_ts es fs = (es', fs')" "file_dir fs root R"
    "{e. e \<in> ck_ts ` set es \<and> e \<noteq> skip_ts} \<subseteq> V"
  shows "store_keeps fs fs' root R X V"
  using assms
proof (induction root skip_ts es fs arbitrary: es' fs' rule: enforce_loop.induct)
  case (1 root skip_ts es fs)
  show ?case
  proof (cases "within_limits es \<or> min_by_ts (filter (\<lambda>e. ck_ts e \<noteq> skip_ts) es) = None")
    case True
    then have "enforce_loop root skip_ts es fs = (es, fs)"
      by (auto simp: enforce_loop.simps [of root skip_ts es fs])
    with "1.prems" show ?thesis by (auto simp: store_keeps_refl)
  next
    case False
    then obtain v where big: "\<not> within_limits es"
      and v: "min_by_ts (filter (\<lambda>e. ck_ts e \<noteq> skip_ts) es) = Some v"
      by (auto simp del: min_by_ts_None)
    define fs1 where "fs1 = (case fs_remove_file fs (blob_path v root) of Inr f \<Rightarrow> f | Inl _ \<Rightarrow> fs)"
    have "store_keeps fs fs1 root R X V"
      using "1.prems"(2,3) min_by_ts_filter [OF v] store_keeps_drop [of fs root R "ck_ts v" V X]
      by (auto simp: fs1_def blob_path_def file_dir_remove store_keeps_refl)
    moreover have "enforce_loop root skip_ts (filter (\<lambda>e. ck_ts e \<noteq> ck_ts v) es) fs1 = (es', fs')"
      using "1.prems"(1) big v by (simp add: enforce_loop.simps [of root skip_ts es fs] Let_def fs1_def)
    from "1.IH" [OF big v fs1_def this store_keeps_dir [OF \<open>store_keeps fs fs1 root R X V\<close>]]
    have "store_keeps fs1 fs' root R X V" using "1.prems"(3) by auto
    ultimately show ?thesis by (rule store_keeps_trans)
  qed
qed

section \<open>Lemmas: the index\<close>

text \<open>
  The law of the line codec on the entries in play: a line decodes to the entry it encodes,
  holds no line break (JSON escapes them), and the text of an index is valid UTF-8.
\<close>

definition codec_law :: "store_lib \<Rightarrow> checkpoint_entry set \<Rightarrow> bool" where
  "codec_law lib S \<longleftrightarrow>
     (\<forall>e \<in> S. from_line lib (to_line lib e) = Some e \<and>
        CHR 0x0A \<notin> set (to_line lib e) \<and> CHR 0x0D \<notin> set (to_line lib e)) \<and>
     (\<forall>es. set es \<subseteq> S \<longrightarrow> valid_utf8 (index_text lib es))"

lemma map_filter_decode:
  "(\<And>e. e \<in> set es \<Longrightarrow> f (g e) = Some e) \<Longrightarrow> List.map_filter f (map g es) = es"
  by (induction es) (simp_all add: List.map_filter_simps)

lemma read_index_text:
  assumes "file_dir fs (store_root st) R" "codec_law lib S" "set es \<subseteq> S"
    "node_at fs (R @ [Normal ''index.jsonl'']) = Some (FileNode (index_text lib es))"
    "\<not> deny_read fs (R @ [Normal ''index.jsonl''])"
  shows "read_index lib fs st = es"
proof -
  have law: "from_line lib (to_line lib e) = Some e" "CHR 0x0A \<notin> set (to_line lib e)"
    "CHR 0x0D \<notin> set (to_line lib e)" if "e \<in> set es" for e
    using assms(2,3) that unfolding codec_law_def by blast+
  have "valid_utf8 (index_text lib es)" using assms(2,3) unfolding codec_law_def by blast
  moreover have "str_lines (index_text lib es) = map (to_line lib) es"
    unfolding index_text_def by (rule str_lines_terminated) (auto dest: law)
  ultimately show ?thesis
    using assms(4,5) law(1)
    by (simp add: read_index_def index_path_def file_dir_read [OF assms(1)] map_filter_decode)
qed

lemma read_index_same:
  assumes "file_dir fs (store_root st) R" "file_dir fs' (store_root st) R"
    "node_at fs' (R @ [Normal ''index.jsonl'']) = node_at fs (R @ [Normal ''index.jsonl''])"
    "deny_read fs' = deny_read fs"
  shows "read_index lib fs' st = read_index lib fs st"
  unfolding read_index_def index_path_def file_dir_read [OF assms(1)] file_dir_read [OF assms(2)] assms(3,4) ..

section \<open>Lemmas: capture and restore\<close>

lemma read_file_facts:
  assumes "fs_read fs p = Ok content"
  shows "\<not> fs_is_dir fs p" "fs_exists fs p" "fs_metadata fs p = Ok (False, length content)"
  using assms
  by (auto simp: fs_read_def fs_is_dir_def fs_exists_def fs_metadata_def
      split: option.splits fs_node.splits if_splits)

lemma capture_preimage_keeps:
  assumes "capture_preimage lib fs st ts p = (res, fs')" "file_dir fs (store_root st) R" "blob_name ts \<in> X"
  shows "store_keeps fs fs' (store_root st) R X V"
proof -
  have fs': "fs' = fs \<or> (\<exists>b. fs' = put_node fs (R @ [Normal (blob_name ts)]) (FileNode b))"
    using assms(1)
    unfolding capture_preimage_def ck_query_def ck_step_def Let_def file_dir_write [OF assms(2)] file_dir_write_left [OF assms(2)]
    by (auto split: if_splits sum.splits)
  with assms(2,3) show ?thesis
    by (auto intro: store_keeps_refl store_keeps_put)
qed

lemma capture_cases:
  assumes "capture lib fs st now a c p = (Ok e, fs')"
  obtains pre fs1 fs2 es es' fs3 where
    "capture_preimage lib fs st now p = (Ok pre, fs1)"
    "e = \<lparr>ck_action_id = a, ck_capability = c, ck_path = path_display p, ck_ts = now,
      ck_existed = fst pre, ck_size = fst (snd pre), ck_hash = snd (snd (snd pre)),
      ck_truncated = fst (snd (snd pre))\<rparr>"
    "write_index lib fs1 st (read_index lib fs1 st @ [e]) = (Ok (), fs2)"
    "enforce_loop (store_root st) now (read_index lib fs2 st) fs2 = (es', fs3)"
    "write_index lib fs3 st es' = (Ok (), fs')"
  using assms unfolding capture_def ck_then_def enforce_limits_def
  by (auto simp: Let_def split: sum.splits prod.splits)

definition store_names :: "nat \<Rightarrow> string set" where
  "store_names now = {''.index.tmp'', ''index.jsonl'', blob_name now}"

lemma capture_keeps:
  assumes "capture lib fs st now a c p = (Ok e, fs')" "file_dir fs (store_root st) R"
  shows "store_keeps fs fs' (store_root st) R (store_names now) (- {now})"
  using assms(1)
proof (rule capture_cases)
  fix pre fs1 fs2 es es' fs3
  assume h: "capture_preimage lib fs st now p = (Ok pre, fs1)"
    "write_index lib fs1 st (read_index lib fs1 st @ [e]) = (Ok (), fs2)"
    "enforce_loop (store_root st) now (read_index lib fs2 st) fs2 = (es', fs3)"
    "write_index lib fs3 st es' = (Ok (), fs')"
  have k1: "store_keeps fs fs1 (store_root st) R (store_names now) (- {now})"
    by (rule capture_preimage_keeps [OF h(1) assms(2)]) (simp add: store_names_def)
  have k2: "store_keeps fs1 fs2 (store_root st) R (store_names now) (- {now})"
    using write_index_keeps [OF store_keeps_dir [OF k1] h(2)] by (auto simp: store_names_def)
  have k3: "store_keeps fs2 fs3 (store_root st) R (store_names now) (- {now})"
    by (rule enforce_loop_keeps [OF h(3) store_keeps_dir [OF k2]]) auto
  have k4: "store_keeps fs3 fs' (store_root st) R (store_names now) (- {now})"
    using write_index_keeps [OF store_keeps_dir [OF k3] h(4)] by (auto simp: store_names_def)
  from k1 k2 k3 k4 show ?thesis by (meson store_keeps_trans)
qed

text \<open>The blob of a captured file holds its content, also after the eviction.\<close>

lemma capture_blob:
  assumes cap: "capture lib fs st now a c p = (Ok e, fs')" and dir: "file_dir fs (store_root st) R"
    and content: "fs_read fs p = Ok content" "length content \<le> MAX_FILE_BYTES"
  shows "e = \<lparr>ck_action_id = a, ck_capability = c, ck_path = path_display p, ck_ts = now,
      ck_existed = True, ck_size = length content, ck_hash = sha256_hex lib content, ck_truncated = False\<rparr> \<and>
    node_at fs' (R @ [Normal (blob_name now)]) = Some (FileNode content)"
  using cap
proof (rule capture_cases)
  fix pre fs1 fs2 es es' fs3
  let ?blob = "R @ [Normal (blob_name now)]"
  assume h: "capture_preimage lib fs st now p = (Ok pre, fs1)"
    "e = \<lparr>ck_action_id = a, ck_capability = c, ck_path = path_display p, ck_ts = now,
      ck_existed = fst pre, ck_size = fst (snd pre), ck_hash = snd (snd (snd pre)),
      ck_truncated = fst (snd (snd pre))\<rparr>"
    "write_index lib fs1 st (read_index lib fs1 st @ [e]) = (Ok (), fs2)"
    "enforce_loop (store_root st) now (read_index lib fs2 st) fs2 = (es', fs3)"
    "write_index lib fs3 st es' = (Ok (), fs')"
  from h(1) content have pre: "pre = (True, length content, False, sha256_hex lib content)"
    and fs1: "fs1 = put_node fs ?blob (FileNode content)"
    by (auto simp: capture_preimage_def read_file_facts [OF content(1)] file_dir_write [OF dir] ck_step_def
        split: if_splits)
  have k1: "store_keeps fs fs1 (store_root st) R (store_names now) {}"
    by (rule capture_preimage_keeps [OF h(1) dir]) (simp add: store_names_def)
  let ?X = "{''.index.tmp'', ''index.jsonl''}" and ?V = "- {now}"
  have k2: "store_keeps fs1 fs2 (store_root st) R ?X ?V"
    using write_index_keeps [OF store_keeps_dir [OF k1] h(3)] by auto
  have k3: "store_keeps fs2 fs3 (store_root st) R ?X ?V"
    by (rule enforce_loop_keeps [OF h(4) store_keeps_dir [OF k2]]) auto
  have k4: "store_keeps fs3 fs' (store_root st) R ?X ?V"
    using write_index_keeps [OF store_keeps_dir [OF k3] h(5)] by auto
  from k2 k3 k4 have "store_keeps fs1 fs' (store_root st) R ?X ?V" by (meson store_keeps_trans)
  then have "node_at fs' ?blob = node_at fs1 ?blob" unfolding store_keeps_def by auto
  with fs1 pre h(2) show ?thesis by simp
qed

lemma find_SomeD: "find Q xs = Some x \<Longrightarrow> x \<in> set xs \<and> Q x"
  by (induction xs) (auto split: if_splits)

text \<open>After a capture the index holds the old entries and the new one, less the evicted.\<close>

lemma capture_index:
  assumes cap: "capture lib fs st now a c p = (Ok e, fs')" and dir: "file_dir fs (store_root st) R"
    and law: "codec_law lib S" "set (read_index lib fs st) \<subseteq> S" "e \<in> S"
    and readable: "\<And>x. \<not> deny_read fs x"
  shows "\<exists>start. read_index lib fs' st = kept_from now start (read_index lib fs st @ [e])"
  using cap
proof (rule capture_cases)
  fix pre fs1 fs2 es es' fs3
  let ?I = "R @ [Normal ''index.jsonl'']" and ?old = "read_index lib fs st"
  let ?X = "{''.index.tmp'', ''index.jsonl''}"
  assume h: "capture_preimage lib fs st now p = (Ok pre, fs1)"
    "write_index lib fs1 st (read_index lib fs1 st @ [e]) = (Ok (), fs2)"
    "enforce_loop (store_root st) now (read_index lib fs2 st) fs2 = (es', fs3)"
    "write_index lib fs3 st es' = (Ok (), fs')"
  have k1: "store_keeps fs fs1 (store_root st) R {blob_name now} {}"
    by (rule capture_preimage_keeps [OF h(1) dir]) simp
  have old: "read_index lib fs1 st = ?old"
    using k1 by (intro read_index_same [OF dir store_keeps_dir [OF k1]]) (auto simp: store_keeps_def)
  have k2: "store_keeps fs1 fs2 (store_root st) R ?X {}"
    and i2: "node_at fs2 ?I = Some (FileNode (index_text lib (?old @ [e])))"
    using write_index_keeps [OF store_keeps_dir [OF k1] h(2)] old by auto
  have r2: "read_index lib fs2 st = ?old @ [e]"
    using k1 k2 law readable
    by (intro read_index_text [OF store_keeps_dir [OF k2] law(1) _ i2]) (auto simp: store_keeps_def)
  have k3: "store_keeps fs2 fs3 (store_root st) R ?X UNIV"
    by (rule enforce_loop_keeps [OF h(3) store_keeps_dir [OF k2]]) auto
  obtain start where es': "es' = kept_from now start (?old @ [e])"
    using enforce_loop_kept [of "store_root st" now "?old @ [e]" fs2] h(3) r2 by auto
  have sub: "set es' \<subseteq> S" using es' law by (auto simp: kept_from_def)
  have k4: "store_keeps fs3 fs' (store_root st) R ?X UNIV"
    and i4: "node_at fs' ?I = Some (FileNode (index_text lib es'))"
    using write_index_keeps [OF store_keeps_dir [OF k3] h(4)] by auto
  have "read_index lib fs' st = es'"
    using k1 k2 k3 k4 readable
    by (intro read_index_text [OF store_keeps_dir [OF k4] law(1) sub i4]) (auto simp: store_keeps_def)
  with es' show ?thesis by blast
qed

lemma materialize_OkD:
  assumes "materialize lib fs st e target = (Ok (), fs')" "ck_existed e" "\<not> ck_truncated e"
  shows "\<exists>bytes fs1. fs_read fs (blob_path e (store_root st)) = Ok bytes \<and>
    (ck_hash e \<noteq> [] \<longrightarrow> sha256_hex lib bytes = ck_hash e) \<and>
    (fs1 = fs \<or> (\<exists>q. fs_create_dir_all fs q = Ok fs1)) \<and> fs_write fs1 target bytes = Ok fs'"
  using assms
  by (auto simp: materialize_def ck_query_def ck_step_def split: sum.splits if_splits option.splits)

lemma restore_cases:
  assumes "restore lib fs st now ts = (Ok r, fs')"
  obtains e fs1 where "find (\<lambda>e. ck_ts e = ts) (read_index lib fs st) = Some e"
    "capture lib fs st now ''restore'' ''desktop.fs.restore'' (path_components (ck_path e)) = (Ok r, fs1)"
    "materialize lib fs1 st e (path_components (ck_path e)) = (Ok (), fs')"
  using assms
  by (auto simp: restore_def ck_then_def Let_def split: option.splits sum.splits prod.splits)

lemma create_dirs_env:
  "fs_create_dir_all fs q = Ok fs' \<Longrightarrow>
     cwd fs' = cwd fs \<and> deny_read fs' = deny_read fs \<and> deny_write fs' = deny_write fs"
  using make_dirs_env by (auto simp: fs_create_dir_all_def split: if_splits)

lemma materialize_read:
  assumes "materialize lib fs st e target = (Ok (), fs')" "ck_existed e" "\<not> ck_truncated e"
    "tree_ok fs" "\<And>x. \<not> deny_read fs x"
  shows "\<exists>bytes. fs_read fs (blob_path e (store_root st)) = Ok bytes \<and> fs_read fs' target = Ok bytes \<and>
    (ck_hash e \<noteq> [] \<longrightarrow> sha256_hex lib bytes = ck_hash e)"
proof -
  from materialize_OkD [OF assms(1-3)] obtain bytes fs1 where
    h: "fs_read fs (blob_path e (store_root st)) = Ok bytes"
    "ck_hash e \<noteq> [] \<longrightarrow> sha256_hex lib bytes = ck_hash e"
    "fs1 = fs \<or> (\<exists>q. fs_create_dir_all fs q = Ok fs1)" "fs_write fs1 target bytes = Ok fs'" by blast
  from h(3) assms(4,5) have "tree_ok fs1" "\<And>x. \<not> deny_read fs1 x"
    using create_dir_all_tree_ok create_dirs_env by (blast, metis)
  from read_after_write [OF h(4) this] h(1,2) show ?thesis by blast
qed

lemma restore_roundtrip:
  assumes cap: "capture lib fs st t0 a c p = (Ok e, fs1)" and dir: "file_dir fs (store_root st) R"
    and content: "fs_read fs p = Ok content" "length content \<le> MAX_FILE_BYTES"
    and plain: "path_components (path_display p) = p"
    and law: "codec_law lib S" "set (read_index lib fs st) \<subseteq> S" "e \<in> S"
    and fresh: "t0 \<notin> ck_ts ` set (read_index lib fs st)"
    and readable: "\<And>x. \<not> deny_read fs x"
    and later: "file_dir fs2 (store_root st) R" "tree_ok fs2" "deny_read fs2 = deny_read fs1"
      "\<And>n. node_at fs2 (R @ [Normal n]) = node_at fs1 (R @ [Normal n])"
    and res: "restore lib fs2 st now t0 = (Ok rb, fs3)" and now: "now \<noteq> t0"
  shows "fs_read fs3 p = Ok content"
  using res
proof (rule restore_cases)
  fix e2 fs2'
  assume h: "find (\<lambda>e. ck_ts e = t0) (read_index lib fs2 st) = Some e2"
    "capture lib fs2 st now ''restore'' ''desktop.fs.restore'' (path_components (ck_path e2)) = (Ok rb, fs2')"
    "materialize lib fs2' st e2 (path_components (ck_path e2)) = (Ok (), fs3)"
  have k: "store_keeps fs fs1 (store_root st) R (store_names t0) (- {t0})"
    by (rule capture_keeps [OF cap dir])
  note d1 = store_keeps_dir [OF k]
  have e: "ck_path e = path_display p" "ck_ts e = t0" "ck_existed e" "\<not> ck_truncated e"
    and blob: "node_at fs1 (R @ [Normal (blob_name t0)]) = Some (FileNode content)"
    using capture_blob [OF cap dir content] by auto
  obtain start where i1: "read_index lib fs1 st = kept_from t0 start (read_index lib fs st @ [e])"
    using capture_index [OF cap dir law readable] by blast
  have "read_index lib fs2 st = read_index lib fs1 st"
    by (rule read_index_same [OF d1 later(1)]) (simp_all add: later)
  with find_SomeD [OF h(1)] i1 have "e2 \<in> set (read_index lib fs st @ [e])" "ck_ts e2 = t0"
    unfolding kept_from_def by (metis filter_is_subset subsetD)+
  with fresh have e2: "e2 = e" by auto
  have k2: "store_keeps fs2 fs2' (store_root st) R (store_names now) (- {now})"
    by (rule capture_keeps [OF h(2) later(1)])
  have r2: "\<not> deny_read fs2' x" for x
    using k k2 readable later(3) by (auto simp: store_keeps_def)
  have "tree_ok fs2'" using k2 later(2) by (simp add: store_keeps_def)
  from materialize_read [OF h(3) _ _ this r2] e e2 plain obtain bytes where
    b: "fs_read fs2' (blob_path e (store_root st)) = Ok bytes" "fs_read fs3 p = Ok bytes" by auto
  have "node_at fs2' (R @ [Normal (blob_name t0)]) = Some (FileNode bytes)"
    using b(1) e(2) file_dir_read [OF store_keeps_dir [OF k2]]
    by (auto simp: blob_path_def split: option.splits fs_node.splits if_splits)
  from store_keeps_node [OF k2 _ this] now
  have "node_at fs2 (R @ [Normal (blob_name t0)]) = Some (FileNode bytes)"
    by (simp add: store_names_def)
  with blob later(4) b(2) show ?thesis by simp
qed

text \<open>The blob of an evicted entry is gone.\<close>

lemma enforce_loop_removes:
  assumes "enforce_loop root skip_ts es fs = (es', fs')" "file_dir fs root R" "\<And>x. \<not> deny_write fs x"
    "e \<in> set es" "e \<notin> set es'"
  shows "node_at fs' (R @ [Normal (blob_name (ck_ts e))]) = None"
  using assms
proof (induction root skip_ts es fs arbitrary: es' fs' rule: enforce_loop.induct)
  case (1 root skip_ts es fs)
  have "\<not> (within_limits es \<or> min_by_ts (filter (\<lambda>e. ck_ts e \<noteq> skip_ts) es) = None)"
  proof
    assume "within_limits es \<or> min_by_ts (filter (\<lambda>e. ck_ts e \<noteq> skip_ts) es) = None"
    then have "enforce_loop root skip_ts es fs = (es, fs)"
      by (auto simp: enforce_loop.simps [of root skip_ts es fs])
    with "1.prems"(1,4,5) show False by simp
  qed
  then obtain v where big: "\<not> within_limits es"
    and v: "min_by_ts (filter (\<lambda>e. ck_ts e \<noteq> skip_ts) es) = Some v"
    by (auto simp del: min_by_ts_None)
  define fs1 where "fs1 = (case fs_remove_file fs (blob_path v root) of Inr f \<Rightarrow> f | Inl _ \<Rightarrow> fs)"
  have k: "store_keeps fs fs1 root R {} UNIV"
    using "1.prems"(2) store_keeps_drop [of fs root R "ck_ts v" UNIV "{}"]
    by (auto simp: fs1_def blob_path_def file_dir_remove store_keeps_refl)
  have gone: "node_at fs1 (R @ [Normal (blob_name (ck_ts v))]) = None"
    using "1.prems"(2,3) by (auto simp: fs1_def blob_path_def file_dir_remove)
  have w: "\<not> deny_write fs1 x" for x using k "1.prems"(3) by (simp add: store_keeps_def)
  have next_step: "enforce_loop root skip_ts (filter (\<lambda>e. ck_ts e \<noteq> ck_ts v) es) fs1 = (es', fs')"
    using "1.prems"(1) big v by (simp add: enforce_loop.simps [of root skip_ts es fs] Let_def fs1_def)
  have k2: "store_keeps fs1 fs' root R {} UNIV"
    by (rule enforce_loop_keeps [OF next_step store_keeps_dir [OF k]]) auto
  show ?case
  proof (cases "ck_ts e = ck_ts v")
    case True
    with gone store_keeps_node [OF k2, of "blob_name (ck_ts v)"] show ?thesis
      by (metis empty_iff not_Some_eq)
  next
    case False
    with "1.prems"(4) have "e \<in> set (filter (\<lambda>e. ck_ts e \<noteq> ck_ts v) es)" by simp
    from "1.IH" [OF big v fs1_def next_step store_keeps_dir [OF k] w this "1.prems"(5)]
    show ?thesis .
  qed
qed

lemma capture_evicts_oldest:
  assumes cap: "capture lib fs st now a c p = (Ok rb, fs')" and dir: "file_dir fs (store_root st) R"
    and law: "codec_law lib S" "set (read_index lib fs st) \<subseteq> S" "rb \<in> S"
    and free: "\<And>x. \<not> deny_read fs x" "\<And>x. \<not> deny_write fs x"
    and full: "length (read_index lib fs st) = MAX_CHECKPOINTS"
    and oldest: "e \<in> set (read_index lib fs st)" "ck_ts e < now"
      "\<And>x. x \<in> set (read_index lib fs st) \<Longrightarrow> ck_ts e \<le> ck_ts x"
  shows "node_at fs' (R @ [Normal (blob_name (ck_ts e))]) = None"
  using cap
proof (rule capture_cases)
  fix pre fs1 fs2 es es' fs3
  let ?old = "read_index lib fs st" and ?X = "{''.index.tmp'', ''index.jsonl''}"
  assume h: "capture_preimage lib fs st now p = (Ok pre, fs1)"
    "write_index lib fs1 st (read_index lib fs1 st @ [rb]) = (Ok (), fs2)"
    "enforce_loop (store_root st) now (read_index lib fs2 st) fs2 = (es', fs3)"
    "write_index lib fs3 st es' = (Ok (), fs')"
    "rb = \<lparr>ck_action_id = a, ck_capability = c, ck_path = path_display p, ck_ts = now,
      ck_existed = fst pre, ck_size = fst (snd pre), ck_hash = snd (snd (snd pre)),
      ck_truncated = fst (snd (snd pre))\<rparr>"
  have k1: "store_keeps fs fs1 (store_root st) R {blob_name now} {}"
    by (rule capture_preimage_keeps [OF h(1) dir]) simp
  have old: "read_index lib fs1 st = ?old"
    using k1 by (intro read_index_same [OF dir store_keeps_dir [OF k1]]) (auto simp: store_keeps_def)
  have k2: "store_keeps fs1 fs2 (store_root st) R ?X {}"
    and i2: "node_at fs2 (R @ [Normal ''index.jsonl'']) = Some (FileNode (index_text lib (?old @ [rb])))"
    using write_index_keeps [OF store_keeps_dir [OF k1] h(2)] old by auto
  have r2: "read_index lib fs2 st = ?old @ [rb]"
    using k1 k2 law free
    by (intro read_index_text [OF store_keeps_dir [OF k2] law(1) _ i2]) (auto simp: store_keeps_def)
  obtain start where kept: "es' = kept_from now start (?old @ [rb])"
    "within_limits es' \<or> (\<forall>x \<in> set es'. ck_ts x = now)"
    using enforce_loop_kept [of "store_root st" now "?old @ [rb]" fs2] h(3) r2 by auto
  have "e \<notin> set es'"
  proof
    assume e: "e \<in> set es'"
    then have "start \<le> ck_ts e" using oldest(2) unfolding kept(1) set_kept_from by simp
    with oldest(3) h(5) have "kept_from now start (?old @ [rb]) = ?old @ [rb]"
      unfolding kept_from_def by (intro filter_True) (auto intro: order_trans)
    with kept full e oldest(2) show False by (auto simp: within_limits_def)
  qed
  moreover have "\<not> deny_write fs2 x" for x using k1 k2 free(2) by (simp add: store_keeps_def)
  ultimately have gone: "node_at fs3 (R @ [Normal (blob_name (ck_ts e))]) = None"
    using enforce_loop_removes [OF h(3) store_keeps_dir [OF k2], of e] r2 oldest(1) by auto
  have k3: "store_keeps fs2 fs3 (store_root st) R ?X UNIV"
    by (rule enforce_loop_keeps [OF h(3) store_keeps_dir [OF k2]]) auto
  have "store_keeps fs3 fs' (store_root st) R ?X UNIV"
    using write_index_keeps [OF store_keeps_dir [OF k3] h(4)] by auto
  from store_keeps_node [OF this, of "blob_name (ck_ts e)"] gone show ?thesis
    by (cases "node_at fs' (R @ [Normal (blob_name (ck_ts e))])") auto
qed

section \<open>Properties\<close>

text \<open>
  Eviction is oldest-first and minimal. The limit loop keeps, of all entries, exactly the
  freshly written one and those from some time on; it stops only within both limits or when
  nothing but the fresh entry is left; and it evicts an entry only if the store would exceed
  a limit with it and everything newer kept.
\<close>

lemma eviction_fifo_minimal:
  "\<exists>start. fst (enforce_loop root skip_ts es fs) = kept_from skip_ts start es \<and>
     (within_limits (kept_from skip_ts start es) \<or> (\<forall>e \<in> set (kept_from skip_ts start es). ck_ts e = skip_ts)) \<and>
     (\<forall>e \<in> set es. e \<notin> set (kept_from skip_ts start es) \<longrightarrow> \<not> within_limits (kept_from skip_ts (ck_ts e) es))"
  by (rule enforce_loop_kept)

definition demo_store :: checkpoint_store where
  "demo_store = \<lparr>store_root = [RootDir, Normal ''s'']\<rparr>"

definition demo_disk :: host_fs where
  "demo_disk = \<lparr>nodes = [([RootDir, Normal ''s''], DirNode), ([RootDir, Normal ''w''], DirNode),
      ([RootDir, Normal ''w'', Normal ''a.txt''], FileNode ''old'')],
     cwd = [RootDir], deny_read = (\<lambda>_. False), deny_write = (\<lambda>_. False),
     disk_fault = (\<lambda>_. None)\<rparr>"

definition demo_mk :: "nat \<Rightarrow> checkpoint_entry" where
  "demo_mk n = \<lparr>ck_action_id = ''restore'', ck_capability = ''desktop.fs.restore'', ck_path = ''/w/a.txt'',
     ck_ts = n, ck_existed = True, ck_size = 3, ck_hash = ''old'', ck_truncated = False\<rparr>"

definition demo_lib :: store_lib where
  "demo_lib = \<lparr>to_line = (\<lambda>e. nat_to_string (ck_ts e)),
     from_line = (\<lambda>l. Some (demo_mk (digits_value l))), sha256_hex = (\<lambda>b. b)\<rparr>"

lemma nat_to_string_digits: "c \<in> set (nat_to_string n) \<Longrightarrow> 48 \<le> (of_char c :: nat) \<and> of_char c < (58 :: nat)"
proof (induction n rule: nat_to_string.induct)
  case (1 n)
  then show ?case by (subst (asm) nat_to_string.simps) (auto split: if_splits)
qed

lemma demo_codec: "codec_law demo_lib (range demo_mk)"
proof -
  have d: "CHR 0x0A \<notin> set (nat_to_string n)" "CHR 0x0D \<notin> set (nat_to_string n)" for n
    by (auto dest: nat_to_string_digits)
  have "valid_utf8 (index_text demo_lib es)" for es
    unfolding valid_utf8_def
    by (rule lossy_ascii) (auto simp: list_all_iff index_text_def terminated_by_def demo_lib_def
        dest!: nat_to_string_digits)
  then show ?thesis using d by (auto simp: codec_law_def demo_lib_def demo_mk_def)
qed

lemma eviction_fifo_minimal_witness:
  "fst (enforce_loop [RootDir] 3
      [demo_mk 1, (demo_mk 2)\<lparr>ck_size := 536870912\<rparr>, demo_mk 3] demo_disk) = [demo_mk 3] \<and>
   \<not> within_limits (kept_from 3 2 [demo_mk 1, (demo_mk 2)\<lparr>ck_size := 536870912\<rparr>, demo_mk 3])"
proof -
  let ?es = "[demo_mk 1, (demo_mk 2)\<lparr>ck_size := 536870912\<rparr>, demo_mk 3]"
  have r: "fst (enforce_loop [RootDir] 3 ?es demo_disk) = [demo_mk 3]" by code_simp
  from eviction_fifo_minimal [of "[RootDir]" 3 ?es demo_disk] obtain start where
    k: "fst (enforce_loop [RootDir] 3 ?es demo_disk) = kept_from 3 start ?es" and
    m: "\<forall>e \<in> set ?es. e \<notin> set (kept_from 3 start ?es) \<longrightarrow> \<not> within_limits (kept_from 3 (ck_ts e) ?es)"
    by blast
  have "(demo_mk 2)\<lparr>ck_size := 536870912\<rparr> \<notin> set (kept_from 3 start ?es)"
    unfolding k [symmetric] r by (simp add: demo_mk_def)
  with m have "\<not> within_limits (kept_from 3 (ck_ts ((demo_mk 2)\<lparr>ck_size := 536870912\<rparr>)) ?es)"
    by (meson list.set_intros)
  with r show ?thesis by (simp add: demo_mk_def)
qed

lemma write_index_succeeds:
  assumes "file_dir fs (store_root st) R" "\<And>x. \<not> deny_write fs x" "\<And>x. disk_fault fs x = None"
  shows "\<exists>fs'. write_index lib fs st es = (Ok (), fs')"
proof -
  let ?fs1 = "put_node fs (R @ [Normal ''.index.tmp'']) (FileNode (index_text lib es))"
  have "file_dir ?fs1 (store_root st) R"
    by (rule file_dir_put [OF assms(1)]) (simp add: file_dir_leaf [OF assms(1)])
  then show ?thesis
    using assms(2,3) by (simp add: write_index_def Let_def index_path_def file_dir_save [OF assms(1)] file_dir_rename)
qed

lemma capture_succeeds:
  assumes dir: "file_dir fs (store_root st) R"
    and content: "fs_read fs p = Ok content" "length content \<le> MAX_FILE_BYTES"
    and free: "\<And>x. \<not> deny_write fs x" "\<And>x. disk_fault fs x = None"
  shows "\<exists>fs'. capture lib fs st now a c p = (Ok \<lparr>ck_action_id = a, ck_capability = c,
      ck_path = path_display p, ck_ts = now, ck_existed = True, ck_size = length content,
      ck_hash = sha256_hex lib content, ck_truncated = False\<rparr>, fs')"
proof -
  let ?e = "\<lparr>ck_action_id = a, ck_capability = c, ck_path = path_display p, ck_ts = now, ck_existed = True,
      ck_size = length content, ck_hash = sha256_hex lib content, ck_truncated = False\<rparr>"
  obtain fs1 where c1: "capture_preimage lib fs st now p =
      (Ok (True, length content, False, sha256_hex lib content), fs1)"
    using content free by (simp add: capture_preimage_def Let_def read_file_facts [OF content(1)] file_dir_write [OF dir])
  have k1: "store_keeps fs fs1 (store_root st) R {blob_name now} {}"
    by (rule capture_preimage_keeps [OF c1 dir]) simp
  have "\<not> deny_write fs1 x" "disk_fault fs1 x = None" for x using k1 free by (simp_all add: store_keeps_def)
  from write_index_succeeds [OF store_keeps_dir [OF k1] this] obtain fs2 where
    c2: "write_index lib fs1 st (read_index lib fs1 st @ [?e]) = (Ok (), fs2)" by blast
  let ?X = "{''.index.tmp'', ''index.jsonl''}"
  have k2: "store_keeps fs1 fs2 (store_root st) R ?X {}"
    using write_index_keeps [OF store_keeps_dir [OF k1] c2] by auto
  obtain es' fs3 where c3: "enforce_loop (store_root st) now (read_index lib fs2 st) fs2 = (es', fs3)"
    by fastforce
  have k3: "store_keeps fs2 fs3 (store_root st) R ?X UNIV"
    by (rule enforce_loop_keeps [OF c3 store_keeps_dir [OF k2]]) auto
  have "\<not> deny_write fs3 x" "disk_fault fs3 x = None" for x using k1 k2 k3 free by (simp_all add: store_keeps_def)
  from write_index_succeeds [OF store_keeps_dir [OF k3] this] obtain fs4 where
    "write_index lib fs3 st es' = (Ok (), fs4)" by blast
  with c1 c2 c3 show ?thesis by (simp add: capture_def enforce_limits_def)
qed

lemma tree_ok_by_nodes:
  assumes "node_at fs (cwd fs) = Some DirNode"
    "list_all (\<lambda>(q, n). 1 < length q \<longrightarrow> node_at fs (butlast q) = Some DirNode) (nodes fs)"
  shows "tree_ok fs"
  unfolding tree_ok_def
proof (intro conjI allI impI)
  show "node_at fs (cwd fs) = Some DirNode" by (rule assms(1))
  fix p c assume pc: "p \<noteq> [] \<and> node_at fs (p @ [c]) \<noteq> None"
  then obtain n where "map_of (nodes fs) (p @ [c]) = Some n"
    by (auto simp: node_at_def)
  then have "(p @ [c], n) \<in> set (nodes fs)" by (rule map_of_SomeD)
  with assms(2) pc show "node_at fs p = Some DirNode" by (fastforce simp: list_all_iff)
qed

lemma file_dir_by_nodes:
  assumes "root \<noteq> []" "canonicalize fs root = Some R" "node_at fs R = Some DirNode"
    "list_all (\<lambda>(q, n). q \<noteq> [] \<and> butlast q = R \<longrightarrow> (case n of FileNode _ \<Rightarrow> True | _ \<Rightarrow> False)) (nodes fs)"
    "R \<noteq> []"
  shows "file_dir fs root R"
proof -
  have "leaf_at fs (R @ [Normal n])" for n
  proof (cases "node_at fs (R @ [Normal n])")
    case (Some x)
    then have "(R @ [Normal n], x) \<in> set (nodes fs)" by (simp add: node_at_def map_of_SomeD)
    with assms(4) have "case x of FileNode _ \<Rightarrow> True | _ \<Rightarrow> False" by (fastforce simp: list_all_iff)
    with Some show ?thesis by (cases x) (auto simp: leaf_at_def)
  qed (simp add: leaf_at_def)
  with assms show ?thesis by (simp add: file_dir_def)
qed

text \<open>
  C7. Undo gives back the file. Let a file be captured successfully, with a timestamp not yet
  in the index. Whatever happens to the disk afterwards, as long as the store's own files are
  as the capture left them, a successful restore of that checkpoint leaves the path reading
  exactly the captured content.
\<close>

theorem undo_restores_content:
  assumes "capture lib fs st t0 a c p = (Ok e, fs1)" "file_dir fs (store_root st) R"
    "fs_read fs p = Ok content" "length content \<le> MAX_FILE_BYTES"
    "path_components (path_display p) = p"
    "codec_law lib S" "set (read_index lib fs st) \<subseteq> S" "e \<in> S"
    "t0 \<notin> ck_ts ` set (read_index lib fs st)"
    "\<And>x. \<not> deny_read fs x"
    "file_dir fs2 (store_root st) R" "tree_ok fs2" "deny_read fs2 = deny_read fs1"
    "\<And>n. node_at fs2 (R @ [Normal n]) = node_at fs1 (R @ [Normal n])"
    "restore lib fs2 st now t0 = (Ok rb, fs3)" "now \<noteq> t0"
  shows "fs_read fs3 p = Ok content"
  using assms by (rule restore_roundtrip)

text \<open>
  A successful restore is never of the wrong bytes. For every state of the store, however
  corrupted, a restore that reports success found the checkpoint; it was not a metadata-only
  one; and when it has a pre-image, the path now reads the blob, whose SHA-256 is the recorded
  one.
\<close>

lemma restore_integrity:
  assumes "restore lib fs st now ts = (Ok rb, fs')" and "file_dir fs (store_root st) R"
    and "tree_ok fs" and "\<And>x. \<not> deny_read fs x"
  shows "\<exists>e. find (\<lambda>e. ck_ts e = ts) (read_index lib fs st) = Some e \<and>
    \<not> (ck_existed e \<and> ck_truncated e) \<and>
    (ck_existed e \<longrightarrow> (\<exists>bytes. fs_read fs' (path_components (ck_path e)) = Ok bytes \<and>
       (ck_hash e \<noteq> [] \<longrightarrow> sha256_hex lib bytes = ck_hash e)))"
  using assms(1)
proof (rule restore_cases)
  fix e fs1
  assume h: "find (\<lambda>e. ck_ts e = ts) (read_index lib fs st) = Some e"
    "capture lib fs st now ''restore'' ''desktop.fs.restore'' (path_components (ck_path e)) = (Ok rb, fs1)"
    "materialize lib fs1 st e (path_components (ck_path e)) = (Ok (), fs')"
  have k: "store_keeps fs fs1 (store_root st) R (store_names now) (- {now})"
    by (rule capture_keeps [OF h(2) assms(2)])
  have t: "tree_ok fs1" "\<And>x. \<not> deny_read fs1 x" using k assms(3,4) by (simp_all add: store_keeps_def)
  have "\<not> (ck_existed e \<and> ck_truncated e)" using h(3) by (auto simp: materialize_def)
  with h(1) materialize_read [OF h(3) _ _ t] show ?thesis by blast
qed

text \<open>
  Undoing the oldest change of a full store destroys its pre-image. \<open>restore\<close> first
  captures the current content; with 200 checkpoints in the index that capture evicts the
  oldest one, the very entry being restored. The restore then fails, and the blob is deleted.
\<close>

lemma full_store_restore_loses_preimage:
  assumes "file_dir fs (store_root st) R" "codec_law lib S" "set (read_index lib fs st) \<subseteq> S"
    and free: "\<And>x. \<not> deny_read fs x" "\<And>x. \<not> deny_write fs x"
    and full: "length (read_index lib fs st) = MAX_CHECKPOINTS"
    and oldest: "find (\<lambda>e. ck_ts e = ts) (read_index lib fs st) = Some e"
      "ck_existed e" "\<not> ck_truncated e" "ts < now"
      "\<And>x. x \<in> set (read_index lib fs st) \<Longrightarrow> ts \<le> ck_ts x"
    and rollback: "capture lib fs st now ''restore'' ''desktop.fs.restore'' (path_components (ck_path e)) = (Ok rb, fs1)"
      "rb \<in> S"
  shows "restore lib fs st now ts = (Err (CkIo NotFound), fs1) \<and>
    node_at fs1 (R @ [Normal (blob_name ts)]) = None"
proof -
  from find_SomeD [OF oldest(1)] have e: "e \<in> set (read_index lib fs st)" "ck_ts e = ts" by auto
  have gone: "node_at fs1 (R @ [Normal (blob_name ts)]) = None"
    using capture_evicts_oldest [OF rollback(1) assms(1,2,3) rollback(2) free full e(1)] oldest(4,5) e(2) by simp
  have "file_dir fs1 (store_root st) R"
    by (rule store_keeps_dir [OF capture_keeps [OF rollback(1) assms(1)]])
  then have "fs_read fs1 (blob_path e (store_root st)) = Err NotFound"
    using gone e(2) by (simp add: blob_path_def file_dir_read)
  then show ?thesis
    using oldest(1-3) rollback(1) gone by (simp add: restore_def materialize_def)
qed

definition demo_full :: host_fs where
  "demo_full = demo_disk\<lparr>nodes :=
     ([RootDir, Normal ''s'', Normal ''index.jsonl''], FileNode (index_text demo_lib (map demo_mk [0..<200]))) #
     ([RootDir, Normal ''s'', Normal ''0.blob''], FileNode ''old'') # nodes demo_disk\<rparr>"

theorem undo_restores_content_witness:
  "\<exists>fs1 fs2 fs3 rb. capture demo_lib demo_disk demo_store 5 ''restore'' ''desktop.fs.restore'' (path_components ''/w/a.txt'') =
       (Ok (demo_mk 5), fs1) \<and>
     fs_write fs1 (path_components ''/w/a.txt'') ''new'' = Ok fs2 \<and>
     restore demo_lib fs2 demo_store 6 5 = (Ok rb, fs3) \<and>
     fs_read fs3 (path_components ''/w/a.txt'') = Ok ''old''"
proof -
  let ?p = "path_components ''/w/a.txt''" and ?R = "[RootDir, Normal ''s'']"
  let ?cap = "capture demo_lib demo_disk demo_store 5 ''restore'' ''desktop.fs.restore'' ?p"
  have store: "store_root demo_store = ?R" by (simp add: demo_store_def)
  have dir: "file_dir demo_disk ?R ?R"
    by (rule file_dir_by_nodes) code_simp+
  have sdir: "file_dir demo_disk (store_root demo_store) ?R" using dir by (simp add: store)
  have tree: "tree_ok demo_disk" by (rule tree_ok_by_nodes) code_simp+
  have readable: "\<not> deny_read demo_disk x" "\<not> deny_write demo_disk x" for x by (simp_all add: demo_disk_def)
  have content: "fs_read demo_disk ?p = Ok ''old''" by code_simp
  have small: "length ''old'' \<le> MAX_FILE_BYTES" by (simp add: MAX_FILE_BYTES_def)
  have plain: "path_components (path_display ?p) = ?p" by (rule path_components_display)
  define fs1 where "fs1 = snd ?cap"
  define fs2 where "fs2 = (case fs_write fs1 ?p ''new'' of Inr f \<Rightarrow> f | Inl _ \<Rightarrow> fs1)"
  define res where "res = restore demo_lib fs2 demo_store 6 5"
  have "fst ?cap = Ok (demo_mk 5)" by code_simp
  then have cap: "?cap = (Ok (demo_mk 5), fs1)" by (simp add: fs1_def prod_eq_iff)
  have w: "fs_write fs1 ?p ''new'' = Ok fs2"
  proof -
    have "is_ok (fs_write (snd ?cap) ?p ''new'')" by code_simp
    then show ?thesis by (auto simp: fs2_def fs1_def is_ok_def split: sum.splits)
  qed
  have "is_ok (fst (restore demo_lib (case fs_write (snd ?cap) ?p ''new'' of Inr f \<Rightarrow> f | Inl _ \<Rightarrow> snd ?cap) demo_store 6 5))"
    by code_simp
  then obtain rb fs3 where r: "restore demo_lib fs2 demo_store 6 5 = (Ok rb, fs3)"
    unfolding fs1_def [symmetric] fs2_def [symmetric]
    by (auto simp: is_ok_def split: sum.splits) (metis prod.collapse)
  have k: "store_keeps demo_disk fs1 ?R ?R (store_names 5) (- {5})"
    using capture_keeps [OF cap sdir] by (simp add: store)
  have t1: "tree_ok fs1" using k tree by (simp add: store_keeps_def)
  from write_OkD [OF w t1] obtain r where r2: "locate fs1 ?p = Some r" "leaf_at fs1 r"
    "node_at fs1 (butlast r) = Some DirNode" "fs2 = put_node fs1 r (FileNode ''new'')" by blast
  have "locate (snd ?cap) ?p = Some [RootDir, Normal ''w'', Normal ''a.txt'']" by code_simp
  with r2(1) have rw: "r = [RootDir, Normal ''w'', Normal ''a.txt'']" by (simp add: fs1_def)
  have t2: "tree_ok fs2" using tree_ok_put [OF t1 r2(2,3)] r2(4) by simp
  have d2: "file_dir fs2 ?R ?R" using file_dir_put [OF store_keeps_dir [OF k] r2(2)] r2(4) by simp
  have sd2: "file_dir fs2 (store_root demo_store) ?R" using d2 by (simp add: store)
  have same: "node_at fs2 (?R @ [Normal n]) = node_at fs1 (?R @ [Normal n])" "deny_read fs2 = deny_read fs1" for n
    using r2(4) rw by simp_all
  have index: "read_index demo_lib demo_disk demo_store = []" by code_simp
  have "fs_read fs3 ?p = Ok ''old''"
    using undo_restores_content [OF cap sdir content small plain demo_codec _ _ _ readable(1)
        sd2 t2 same(2) same(1) r]
    by (simp add: index)
  with cap w r show ?thesis by blast
qed

lemma demo_full_facts:
  "file_dir demo_full (store_root demo_store) [RootDir, Normal ''s'']" "tree_ok demo_full"
  "read_index demo_lib demo_full demo_store = map demo_mk [0..<200]"
  "\<not> deny_read demo_full x" "\<not> deny_write demo_full x" "disk_fault demo_full x = None"
  "fs_read demo_full (path_components ''/w/a.txt'') = Ok ''old''"
proof -
  have store: "store_root demo_store = [RootDir, Normal ''s'']" by (simp add: demo_store_def)
  show dir: "file_dir demo_full (store_root demo_store) [RootDir, Normal ''s'']"
    unfolding store
  proof (rule file_dir_by_nodes)
    show "canonicalize demo_full [RootDir, Normal ''s''] = Some [RootDir, Normal ''s'']"
      by (simp add: canonicalize_def locate_def demo_full_def demo_disk_def node_at_def)
  qed (simp_all add: demo_full_def demo_disk_def node_at_def)
  show "tree_ok demo_full"
    by (rule tree_ok_by_nodes) (simp_all add: demo_full_def demo_disk_def node_at_def)
  show d: "\<not> deny_read demo_full x" "\<not> deny_write demo_full x" "disk_fault demo_full x = None" for x
    by (simp_all add: demo_full_def demo_disk_def)
  show "read_index demo_lib demo_full demo_store = map demo_mk [0..<200]"
    by (rule read_index_text [OF dir demo_codec _ _ d(1)]) (auto simp: demo_full_def demo_disk_def node_at_def)
  have p: "path_components ''/w/a.txt'' = [RootDir, Normal ''w'', Normal ''a.txt'']" by code_simp
  show "fs_read demo_full (path_components ''/w/a.txt'') = Ok ''old''"
    unfolding p by (simp add: fs_read_def canonicalize_def locate_def demo_full_def demo_disk_def node_at_def)
qed

definition demo_saved :: host_fs where
  "demo_saved = demo_disk\<lparr>nodes :=
     ([RootDir, Normal ''s'', Normal ''index.jsonl''], FileNode [CHR ''5'', CHR 0x0A]) #
     ([RootDir, Normal ''s'', Normal ''5.blob''], FileNode ''old'') #
     ([RootDir, Normal ''w'', Normal ''a.txt''], FileNode ''new'') # nodes demo_disk\<rparr>"

lemma restore_integrity_witness:
  "\<exists>fs1 rb bytes. restore demo_lib demo_saved demo_store 6 5 = (Ok rb, fs1) \<and>
     fs_read fs1 (path_components ''/w/a.txt'') = Ok bytes \<and> sha256_hex demo_lib bytes = ''old''"
proof -
  let ?R = "[RootDir, Normal ''s'']"
  have store: "store_root demo_store = ?R" by (simp add: demo_store_def)
  have dir: "file_dir demo_saved ?R ?R" by (rule file_dir_by_nodes) code_simp+
  have sdir: "file_dir demo_saved (store_root demo_store) ?R" using dir by (simp add: store)
  have tree: "tree_ok demo_saved" by (rule tree_ok_by_nodes) code_simp+
  have readable: "\<not> deny_read demo_saved x" for x by (simp add: demo_saved_def demo_disk_def)
  have "is_ok (fst (restore demo_lib demo_saved demo_store 6 5))" by code_simp
  then obtain rb fs1 where r: "restore demo_lib demo_saved demo_store 6 5 = (Ok rb, fs1)"
    by (auto simp: is_ok_def split: sum.splits) (metis prod.collapse)
  have "find (\<lambda>e. ck_ts e = 5) (read_index demo_lib demo_saved demo_store) = Some (demo_mk 5)" by code_simp
  with restore_integrity [OF r sdir tree readable] obtain bytes where
    "fs_read fs1 (path_components (ck_path (demo_mk 5))) = Ok bytes"
    "ck_hash (demo_mk 5) \<noteq> [] \<longrightarrow> sha256_hex demo_lib bytes = ck_hash (demo_mk 5)"
    by (auto simp: demo_mk_def)
  with r show ?thesis by (simp add: demo_mk_def)
qed

lemma full_store_restore_loses_preimage_witness:
  "\<exists>fs1. restore demo_lib demo_full demo_store 500 0 = (Err (CkIo NotFound), fs1) \<and>
     fs_read demo_full (path_components ''/s/0.blob'') = Ok ''old'' \<and>
     node_at fs1 [RootDir, Normal ''s'', Normal ''0.blob''] = None"
proof -
  let ?p = "path_components ''/w/a.txt''" and ?R = "[RootDir, Normal ''s'']"
  note f = demo_full_facts
  have small: "length ''old'' \<le> MAX_FILE_BYTES" by (simp add: MAX_FILE_BYTES_def)
  have disp: "path_display ?p = ''/w/a.txt''" by code_simp
  obtain fs1 where cap: "capture demo_lib demo_full demo_store 500 ''restore'' ''desktop.fs.restore'' ?p = (Ok (demo_mk 500), fs1)"
    using capture_succeeds [OF f(1,7) small f(5,6), of demo_lib 500 "''restore''" "''desktop.fs.restore''"]
    by (auto simp: demo_mk_def demo_lib_def disp)
  have path: "ck_path (demo_mk 0) = ''/w/a.txt''" by (simp add: demo_mk_def)
  have "restore demo_lib demo_full demo_store 500 0 = (Err (CkIo NotFound), fs1) \<and>
      node_at fs1 (?R @ [Normal (blob_name 0)]) = None"
  proof (rule full_store_restore_loses_preimage [OF f(1) demo_codec _ f(4,5), where e = "demo_mk 0" and rb = "demo_mk 500"])
    show "find (\<lambda>e. ck_ts e = 0) (read_index demo_lib demo_full demo_store) = Some (demo_mk 0)"
      unfolding f(3) by (simp add: upt_conv_Cons demo_mk_def)
    show "capture demo_lib demo_full demo_store 500 ''restore'' ''desktop.fs.restore''
        (path_components (ck_path (demo_mk 0))) = (Ok (demo_mk 500), fs1)"
      unfolding path by (rule cap)
  qed (auto simp: f(3) demo_mk_def MAX_CHECKPOINTS_def)
  moreover have "blob_name 0 = ''0.blob''" by code_simp
  moreover have "fs_read demo_full (path_components ''/s/0.blob'') = Ok ''old''"
  proof -
    have p: "path_components ''/s/0.blob'' = [RootDir, Normal ''s'', Normal ''0.blob'']" by code_simp
    show ?thesis
      unfolding p by (simp add: fs_read_def canonicalize_def locate_def demo_full_def demo_disk_def node_at_def)
  qed
  ultimately show ?thesis by auto
qed

end
