(* ===== verification/Chat_Store.thy ===== *)
theory Chat_Store
  imports Protocol "HOL-Library.Multiset" "HOL-Library.Char_ord" "HOL-Library.List_Lexorder"
    "HOL-Library.Product_Lexorder"
begin

text \<open>
  The local chat archive (\<open>daemon-core/src/chat_store.rs\<close>). The SQLite database is the
  record \<open>chat_db\<close>: a table is the list of its rows in rowid order, the statements of the code
  are functions on it. SQLite may fail any statement: \<open>sql_env\<close> gives the error text of the
  statement with a given label, if it fails. A transaction that is dropped before \<open>commit\<close>
  leaves the database as it was. A timestamp is stored as \<open>i64\<close>, the signed reading of the
  \<open>u64\<close> of the frame. Rows equal under an \<open>ORDER BY\<close> come in rowid order.
\<close>

section \<open>Tables\<close>

record stored_conversation =
  sc_id :: string
  sc_title :: "string option"
  sc_workspace_ref :: "string option"
  sc_model :: "string option"
  sc_provider :: "string option"
  sc_is_pinned :: bool
  sc_updated_at :: int

record stored_message =
  sm_id :: string
  sm_conversation_id :: string
  sm_role :: string
  sm_content :: string
  sm_created_at :: int

record stored_artifact =
  sa_id :: string
  sa_conversation_id :: "string option"
  sa_title :: "string option"
  sa_kind :: "string option"
  sa_content :: string
  sa_updated_at :: int

record stored_project =
  sp_id :: string
  sp_name :: "string option"
  sp_description :: "string option"
  sp_updated_at :: int

record chat_db =
  schema_version :: "int option"
  v1_tables :: bool
  v2_tables :: bool
  conversations :: "stored_conversation list"
  messages :: "stored_message list"
  artifacts :: "stored_artifact list"
  projects :: "stored_project list"

type_synonym sql_env = "string \<Rightarrow> string option"
type_synonym 'a db_res = "(string, 'a) res \<times> chat_db"

text \<open>Run the statement with this label; if it fails, return early and leave \<open>db\<close>.\<close>

definition sql :: "sql_env \<Rightarrow> string \<Rightarrow> chat_db \<Rightarrow> 'a db_res \<Rightarrow> 'a db_res" where
  "sql env label db k = (case env label of Some e \<Rightarrow> (Err (label @ '': '' @ e), db) | None \<Rightarrow> k)"

definition sql_query :: "sql_env \<Rightarrow> string list \<Rightarrow> 'a \<Rightarrow> (string, 'a) res" where
  "sql_query env labels a =
     (case List.find (\<lambda>l. env l \<noteq> None) labels of
        Some l \<Rightarrow> Err (l @ '': '' @ the (env l))
      | None \<Rightarrow> Ok a)"

text \<open>\<open>INSERT ... ON CONFLICT(id) DO UPDATE\<close>: merge into the row with the key, or append.\<close>

fun upsert_row :: "('r \<Rightarrow> string) \<Rightarrow> ('r \<Rightarrow> 'r \<Rightarrow> 'r) \<Rightarrow> 'r \<Rightarrow> 'r list \<Rightarrow> 'r list" where
  "upsert_row key merge r [] = [r]"
| "upsert_row key merge r (x # xs) =
     (if key x = key r then merge x r # xs else x # upsert_row key merge r xs)"

definition row_of :: "('r \<Rightarrow> string) \<Rightarrow> 'r list \<Rightarrow> string \<Rightarrow> 'r option" where
  "row_of key rows k = List.find (\<lambda>r. key r = k) rows"

definition i64_of :: "u64 \<Rightarrow> int" where
  "i64_of w = sint w"

section \<open>Schema\<close>

definition chat_db_empty :: chat_db where
  "chat_db_empty = \<lparr>schema_version = None, v1_tables = False, v2_tables = False,
     conversations = [], messages = [], artifacts = [], projects = []\<rparr>"

definition migrate_v2 :: "chat_db \<Rightarrow> chat_db" where
  "migrate_v2 db = db\<lparr>v2_tables := True,
     schema_version := Some (case schema_version db of None \<Rightarrow> 2 | Some v \<Rightarrow> max v 2)\<rparr>"

definition migrate_v1 :: "chat_db \<Rightarrow> chat_db" where
  "migrate_v1 db = db\<lparr>v1_tables := True, schema_version := Some 1\<rparr>"

definition migrate :: "sql_env \<Rightarrow> chat_db \<Rightarrow> unit db_res" where
  "migrate env db =
     sql env ''lock'' db (sql env ''meta table'' db (sql env ''read version'' db (
       let current = (case schema_version db of None \<Rightarrow> 0 | Some v \<Rightarrow> v);
           v2 = current < 2; v1 = current < 1 in
       if v2 then
         sql env ''v2 migration'' db (
           let db2 = migrate_v2 db in
           if v1 then sql env ''v1 migration'' db2 (Ok (), migrate_v1 db2) else (Ok (), db2))
       else (Ok (), db))))"

definition chat_open :: "sql_env \<Rightarrow> chat_db \<Rightarrow> unit db_res" where
  "chat_open env db =
     sql env ''mkdir'' db (sql env ''open sqlite'' db (sql env ''wal'' db (sql env ''fk'' db (migrate env db))))"

section \<open>Conversations\<close>

definition normalise_content :: "string \<Rightarrow> string" where
  "normalise_content content = take_chars 200000 content"

text \<open>\<open>json_text\<close> is the \<open>Display\<close> of a JSON value, that of \<open>serde_json\<close>.\<close>

definition conversation_row :: "(json \<Rightarrow> string) \<Rightarrow> u64 \<Rightarrow> chat_conversation \<Rightarrow> stored_conversation" where
  "conversation_row json_text now conv =
     (let workspace_ref = (case cc_workspace_ref conv of Some v \<Rightarrow> json_text v | None \<Rightarrow> []) in
      \<lparr>sc_id = cc_id conv,
       sc_title = Some (case cc_title conv of Some t \<Rightarrow> t | None \<Rightarrow> ''New conversation''),
       sc_workspace_ref = (if workspace_ref = [] then None else Some workspace_ref),
       sc_model = Some (case cc_model conv of Some m \<Rightarrow> m | None \<Rightarrow> ''gpt-4o''),
       sc_provider = Some (case cc_provider conv of Some p \<Rightarrow> p | None \<Rightarrow> ''openai''),
       sc_is_pinned = (case cc_is_pinned conv of Some b \<Rightarrow> b | None \<Rightarrow> False),
       sc_updated_at = i64_of (case cc_updated_at conv of Some t \<Rightarrow> t | None \<Rightarrow> now)\<rparr>)"

definition message_row :: "string \<Rightarrow> chat_message \<Rightarrow> stored_message" where
  "message_row conv m = \<lparr>sm_id = cm_id m, sm_conversation_id = conv, sm_role = cm_role m,
     sm_content = normalise_content (cm_content m),
     sm_created_at = i64_of (case cm_created_at m of Some t \<Rightarrow> t | None \<Rightarrow> 0)\<rparr>"

text \<open>On conflict the conversation a message belongs to is not among the updated columns.\<close>

definition merge_message :: "stored_message \<Rightarrow> stored_message \<Rightarrow> stored_message" where
  "merge_message old new = old\<lparr>sm_role := sm_role new, sm_content := sm_content new,
     sm_created_at := sm_created_at new\<rparr>"

fun upsert_messages :: "sql_env \<Rightarrow> string \<Rightarrow> chat_message list \<Rightarrow> stored_message list \<Rightarrow> (string, stored_message list) res" where
  "upsert_messages env conv [] rows = Ok rows"
| "upsert_messages env conv (m # ms) rows =
     (case env (''upsert msg '' @ cm_id m) of
        Some e \<Rightarrow> Err (''upsert msg '' @ cm_id m @ '': '' @ e)
      | None \<Rightarrow> upsert_messages env conv ms (upsert_row sm_id merge_message (message_row conv m) rows))"

definition prune_messages :: "string \<Rightarrow> string list \<Rightarrow> stored_message list \<Rightarrow> stored_message list" where
  "prune_messages conv keep rows = filter (\<lambda>r. \<not> (sm_conversation_id r = conv \<and> sm_id r \<notin> set keep)) rows"

definition upsert_conversation ::
    "(json \<Rightarrow> string) \<Rightarrow> sql_env \<Rightarrow> u64 \<Rightarrow> chat_db \<Rightarrow> chat_conversation \<Rightarrow> nat db_res" where
  "upsert_conversation json_text env now db conv =
     sql env ''lock'' db (sql env ''tx'' db (sql env ''read conv'' db (
       let row = conversation_row json_text now conv;
           existing = map_option sc_updated_at (row_of sc_id (conversations db) (cc_id conv)) in
       if (case existing of Some t \<Rightarrow> sc_updated_at row < t | None \<Rightarrow> False) then (Ok 0, db)
       else sql env ''upsert conv'' db (
         let convs = upsert_row sc_id (\<lambda>_ r. r) row (conversations db) in
         sql env ''prepare msg'' db (
           case upsert_messages env (cc_id conv) (cc_messages conv) (messages db) of
             Inl e \<Rightarrow> (Err e, db)
           | Inr rows \<Rightarrow>
               if cc_messages conv \<noteq> [] then
                 sql env ''prune msgs'' db (
                   let kept = prune_messages (cc_id conv) (map cm_id (cc_messages conv)) rows in
                   sql env ''commit'' db
                     (Ok (length (cc_messages conv)), db\<lparr>conversations := convs, messages := kept\<rparr>))
               else
                 sql env ''commit'' db (Ok 0, db\<lparr>conversations := convs, messages := rows\<rparr>))))))"

definition list_conversations :: "sql_env \<Rightarrow> chat_db \<Rightarrow> nat \<Rightarrow> (string, stored_conversation list) res" where
  "list_conversations env db limit =
     sql_query env [''lock'', ''prepare list'', ''list'', ''collect list'']
       (take limit (sort_key (\<lambda>c. - sc_updated_at c) (conversations db)))"

text \<open>SQL \<open>LIKE\<close> without an escape character: letters of ASCII match in either case.\<close>

function like_match :: "string \<Rightarrow> string \<Rightarrow> bool" where
  "like_match [] s = (s = [])"
| "like_match (p # ps) s =
     (if p = CHR ''%'' then like_match ps s \<or> (case s of [] \<Rightarrow> False | c # cs \<Rightarrow> like_match (p # ps) cs)
      else
        (case s of
           [] \<Rightarrow> False
         | c # cs \<Rightarrow>
             if p = CHR ''_'' then like_match ps (dropWhile is_cont_byte cs)
             else ascii_lower c = ascii_lower p \<and> like_match ps cs))"
  by pat_completeness auto
termination
  by (relation "measure (\<lambda>(p, s). length p + length s)")
    (auto simp: less_Suc_eq_le intro!: add_le_mono le_SucI length_dropWhile_le)

definition search_conversations ::
    "sql_env \<Rightarrow> chat_db \<Rightarrow> string \<Rightarrow> nat \<Rightarrow> (string, stored_conversation list) res" where
  "search_conversations env db query limit =
     (let pattern = ''%'' @ query @ ''%'';
          hit = (\<lambda>c. (case sc_title c of Some t \<Rightarrow> like_match pattern t | None \<Rightarrow> False) \<or>
                    list_ex (\<lambda>m. sm_conversation_id m = sc_id c \<and> like_match pattern (sm_content m)) (messages db)) in
      sql_query env [''lock'', ''prepare search'', ''search'', ''collect search'']
        (take limit (sort_key (\<lambda>c. - sc_updated_at c) (filter hit (conversations db)))))"

definition get_messages :: "sql_env \<Rightarrow> chat_db \<Rightarrow> string \<Rightarrow> (string, stored_message list) res" where
  "get_messages env db conversation_id =
     sql_query env [''lock'', ''prepare msgs'', ''msgs'', ''collect msgs'']
       (sort_key (\<lambda>m. (sm_created_at m, sm_id m))
         (filter (\<lambda>m. sm_conversation_id m = conversation_id) (messages db)))"

definition count_conversations :: "sql_env \<Rightarrow> chat_db \<Rightarrow> (string, nat) res" where
  "count_conversations env db = sql_query env [''lock'', ''count''] (length (conversations db))"

definition count_messages :: "sql_env \<Rightarrow> chat_db \<Rightarrow> (string, nat) res" where
  "count_messages env db = sql_query env [''lock'', ''count msgs''] (length (messages db))"

section \<open>Artifacts and projects\<close>

definition artifact_row :: "chat_artifact \<Rightarrow> stored_artifact" where
  "artifact_row a = \<lparr>sa_id = ca_id a, sa_conversation_id = ca_conversation_id a, sa_title = ca_title a,
     sa_kind = ca_kind a, sa_content = take_chars 200000 (ca_content a),
     sa_updated_at = i64_of (case ca_updated_at a of Some t \<Rightarrow> t | None \<Rightarrow> 0)\<rparr>"

definition upsert_artifact :: "sql_env \<Rightarrow> chat_db \<Rightarrow> chat_artifact \<Rightarrow> unit db_res" where
  "upsert_artifact env db a =
     sql env ''lock'' db (sql env ''read artifact'' db (
       let row = artifact_row a in
       if (case row_of sa_id (artifacts db) (ca_id a) of Some cur \<Rightarrow> sa_updated_at row < sa_updated_at cur | None \<Rightarrow> False)
       then (Ok (), db)
       else sql env ''upsert artifact'' db
         (Ok (), db\<lparr>artifacts := upsert_row sa_id (\<lambda>_ r. r) row (artifacts db)\<rparr>)))"

definition project_row :: "chat_project \<Rightarrow> stored_project" where
  "project_row p = \<lparr>sp_id = cj_id p, sp_name = cj_name p, sp_description = cj_description p,
     sp_updated_at = i64_of (case cj_updated_at p of Some t \<Rightarrow> t | None \<Rightarrow> 0)\<rparr>"

definition upsert_project :: "sql_env \<Rightarrow> chat_db \<Rightarrow> chat_project \<Rightarrow> unit db_res" where
  "upsert_project env db p =
     sql env ''lock'' db (sql env ''read project'' db (
       let row = project_row p in
       if (case row_of sp_id (projects db) (cj_id p) of Some cur \<Rightarrow> sp_updated_at row < sp_updated_at cur | None \<Rightarrow> False)
       then (Ok (), db)
       else sql env ''upsert project'' db
         (Ok (), db\<lparr>projects := upsert_row sp_id (\<lambda>_ r. r) row (projects db)\<rparr>)))"

text \<open>Deleting a conversation deletes its messages: the foreign key cascades.\<close>

definition delete_conversation :: "sql_env \<Rightarrow> chat_db \<Rightarrow> string \<Rightarrow> bool db_res" where
  "delete_conversation env db cid =
     sql env ''lock'' db (sql env ''delete'' db (
       Ok (list_ex (\<lambda>c. sc_id c = cid) (conversations db)),
       db\<lparr>conversations := filter (\<lambda>c. sc_id c \<noteq> cid) (conversations db),
          messages := (if list_ex (\<lambda>c. sc_id c = cid) (conversations db)
                       then filter (\<lambda>m. sm_conversation_id m \<noteq> cid) (messages db) else messages db)\<rparr>))"

section \<open>Last writer wins\<close>

text \<open>
  The contract a synchronised table keeps: an upsert stores the item's row unless a newer row
  is there, and touches no other key.
\<close>

locale lww_table =
  fixes lookup :: "'db \<Rightarrow> string \<Rightarrow> 'r option"
    and upsert :: "'db \<Rightarrow> 'i \<Rightarrow> 'db"
    and item_key :: "'i \<Rightarrow> string"
    and item_row :: "'i \<Rightarrow> 'r"
    and row_ts :: "'r \<Rightarrow> int"
  assumes upsert_same: "lookup (upsert db i) (item_key i) =
      (case lookup db (item_key i) of
         Some old \<Rightarrow> if row_ts (item_row i) < row_ts old then Some old else Some (item_row i)
       | None \<Rightarrow> Some (item_row i))"
    and upsert_other: "k \<noteq> item_key i \<Longrightarrow> lookup (upsert db i) k = lookup db k"
begin

definition push_all :: "'db \<Rightarrow> 'i list \<Rightarrow> 'db" where
  "push_all db xs = foldl upsert db xs"

lemma push_all_simps: "push_all db [] = db" "push_all db (xs @ [i]) = upsert (push_all db xs) i"
  by (simp_all add: push_all_def)

lemma push_all_row:
  "(case lookup (push_all db xs) k of
      None \<Rightarrow> lookup db k = None \<and> (\<forall>i \<in> set xs. item_key i \<noteq> k)
    | Some r \<Rightarrow> (lookup db k = Some r \<or> (\<exists>i \<in> set xs. item_key i = k \<and> r = item_row i)) \<and>
        (\<forall>i \<in> set xs. item_key i = k \<longrightarrow> row_ts (item_row i) \<le> row_ts r) \<and>
        (\<forall>old. lookup db k = Some old \<longrightarrow> row_ts old \<le> row_ts r))"
proof (induction xs rule: rev_induct)
  case (snoc i xs)
  show ?case
  proof (cases "item_key i = k")
    case True
    with snoc upsert_same [of "push_all db xs" i] show ?thesis
      by (fastforce simp: push_all_simps split: option.splits if_splits)
  next
    case False
    with snoc upsert_other [of k i "push_all db xs"] show ?thesis
      by (auto simp: push_all_simps split: option.splits)
  qed
qed (auto simp: push_all_simps split: option.splits)

text \<open>Pushes in any order lead to the same row, when no two for the key have the same time.\<close>

lemma push_all_converges:
  assumes "mset xs = mset ys" and "lookup db k = None"
    and "inj_on (\<lambda>i. row_ts (item_row i)) {i \<in> set xs. item_key i = k}"
  shows "lookup (push_all db xs) k = lookup (push_all db ys) k"
proof -
  have sets: "set xs = set ys" using assms(1) by (metis set_mset_mset)
  note A = push_all_row [where db = db and xs = xs and k = k] and B = push_all_row [where db = db and xs = ys and k = k]
  show ?thesis
  proof (cases "\<exists>i \<in> set xs. item_key i = k")
    case False
    with A B sets assms(2) show ?thesis by (auto split: option.splits)
  next
    case True
    with A B sets assms(2) obtain i j where
      i: "i \<in> set xs" "item_key i = k" "lookup (push_all db xs) k = Some (item_row i)"
        "row_ts (item_row j) \<le> row_ts (item_row i)" and
      j: "j \<in> set xs" "item_key j = k" "lookup (push_all db ys) k = Some (item_row j)"
        "row_ts (item_row i) \<le> row_ts (item_row j)"
      by (force split: option.splits)
    from i j have "i = j" by (intro inj_onD [OF assms(3)]) auto
    with i j show ?thesis by simp
  qed
qed

lemma push_idempotent: "lookup (upsert (upsert db i) i) k = lookup (upsert db i) k"
  using upsert_same [of "upsert db i" i] upsert_same [of db i] upsert_other [of k i]
  by (cases "k = item_key i") (auto split: option.splits)

end

definition no_fault :: sql_env where
  "no_fault = (\<lambda>_. None)"

lemma no_fault_None [simp]: "no_fault l = None"
  by (simp add: no_fault_def)

lemma sql_no_fault [simp]: "sql no_fault l db k = k"
  by (simp add: sql_def no_fault_def)

lemma sql_query_no_fault [simp]: "sql_query no_fault ls a = Ok a"
proof -
  have "List.find (\<lambda>l. no_fault l \<noteq> None) ls = None" by (simp add: find_None_iff no_fault_def)
  then show ?thesis by (simp add: sql_query_def)
qed

lemma upsert_messages_no_fault:
  "upsert_messages no_fault conv ms rows =
     Ok (foldl (\<lambda>rs m. upsert_row sm_id merge_message (message_row conv m) rs) rows ms)"
  by (induction ms arbitrary: rows) (simp_all add: no_fault_def)

lemma row_of_upsert_replace:
  "row_of key (upsert_row key (\<lambda>_ r. r) r rows) k = (if k = key r then Some r else row_of key rows k)"
  by (induction rows) (auto simp: row_of_def)

text \<open>A push of a snapshot is stamped with the clock at its arrival.\<close>

definition push_snapshot :: "(json \<Rightarrow> string) \<Rightarrow> chat_db \<Rightarrow> u64 \<times> chat_conversation \<Rightarrow> chat_db" where
  "push_snapshot json_text db p = snd (upsert_conversation json_text no_fault (fst p) db (snd p))"

interpretation conversation_table: lww_table
  "\<lambda>db. row_of sc_id (conversations db)" "push_snapshot json_text"
  "\<lambda>p. cc_id (snd p)" "\<lambda>p. conversation_row json_text (fst p) (snd p)" sc_updated_at
  for json_text
proof
  fix db :: chat_db and i :: "u64 \<times> chat_conversation"
  have id: "sc_id (conversation_row json_text (fst i) (snd i)) = cc_id (snd i)"
    by (simp add: conversation_row_def Let_def)
  show "row_of sc_id (conversations (push_snapshot json_text db i)) (cc_id (snd i)) =
      (case row_of sc_id (conversations db) (cc_id (snd i)) of
         Some old \<Rightarrow> if sc_updated_at (conversation_row json_text (fst i) (snd i)) < sc_updated_at old then Some old
                     else Some (conversation_row json_text (fst i) (snd i))
       | None \<Rightarrow> Some (conversation_row json_text (fst i) (snd i)))"
    by (simp add: push_snapshot_def upsert_conversation_def Let_def upsert_messages_no_fault row_of_upsert_replace id split: option.split)
  show "row_of sc_id (conversations (push_snapshot json_text db i)) k =
      row_of sc_id (conversations db) k" if "k \<noteq> cc_id (snd i)" for k
    using that
    by (simp add: push_snapshot_def upsert_conversation_def Let_def upsert_messages_no_fault row_of_upsert_replace id split: option.split)
qed

interpretation artifact_table: lww_table
  "\<lambda>db. row_of sa_id (artifacts db)" "\<lambda>db a. snd (upsert_artifact no_fault db a)"
  ca_id artifact_row sa_updated_at
proof
  fix db :: chat_db and i :: chat_artifact
  have id: "sa_id (artifact_row i) = ca_id i" by (simp add: artifact_row_def)
  show "row_of sa_id (artifacts (snd (upsert_artifact no_fault db i))) (ca_id i) =
      (case row_of sa_id (artifacts db) (ca_id i) of
         Some old \<Rightarrow> if sa_updated_at (artifact_row i) < sa_updated_at old then Some old else Some (artifact_row i)
       | None \<Rightarrow> Some (artifact_row i))"
    by (simp add: upsert_artifact_def Let_def row_of_upsert_replace id split: option.split)
  show "row_of sa_id (artifacts (snd (upsert_artifact no_fault db i))) k = row_of sa_id (artifacts db) k"
    if "k \<noteq> ca_id i" for k
    using that by (simp add: upsert_artifact_def Let_def row_of_upsert_replace id split: option.split)
qed

interpretation project_table: lww_table
  "\<lambda>db. row_of sp_id (projects db)" "\<lambda>db p. snd (upsert_project no_fault db p)"
  cj_id project_row sp_updated_at
proof
  fix db :: chat_db and i :: chat_project
  have id: "sp_id (project_row i) = cj_id i" by (simp add: project_row_def)
  show "row_of sp_id (projects (snd (upsert_project no_fault db i))) (cj_id i) =
      (case row_of sp_id (projects db) (cj_id i) of
         Some old \<Rightarrow> if sp_updated_at (project_row i) < sp_updated_at old then Some old else Some (project_row i)
       | None \<Rightarrow> Some (project_row i))"
    by (simp add: upsert_project_def Let_def row_of_upsert_replace id split: option.split)
  show "row_of sp_id (projects (snd (upsert_project no_fault db i))) k = row_of sp_id (projects db) k"
    if "k \<noteq> cj_id i" for k
    using that by (simp add: upsert_project_def Let_def row_of_upsert_replace id split: option.split)
qed

section \<open>Lemmas: rows\<close>

lemma upsert_row_keys:
  assumes "\<And>x. key (merge x r) = key x"
  shows "map key (upsert_row key merge r rows) =
    (if key r \<in> set (map key rows) then map key rows else map key rows @ [key r])"
  using assms by (induction rows) auto

lemma upsert_row_distinct:
  assumes "\<And>x. key (merge x r) = key x" and "distinct (map key rows)"
  shows "distinct (map key (upsert_row key merge r rows))"
  using assms(2) by (simp add: upsert_row_keys [of key merge r rows, OF assms(1)])

lemma upsert_row_set:
  "set (upsert_row key merge r rows) \<subseteq> set rows \<union> {r} \<union> (\<lambda>x. merge x r) ` {x \<in> set rows. key x = key r}"
  by (induction rows) auto

lemma row_of_upsert:
  assumes "\<And>x. key (merge x r) = key x"
  shows "row_of key (upsert_row key merge r rows) k =
    (if k = key r then Some (case row_of key rows k of None \<Rightarrow> r | Some x \<Rightarrow> merge x r) else row_of key rows k)"
  using assms by (induction rows) (auto simp: row_of_def)

lemma row_of_Some: "row_of key rows k = Some r \<Longrightarrow> r \<in> set rows \<and> key r = k"
  by (induction rows) (auto simp: row_of_def split: if_splits)

lemma row_of_distinct:
  "distinct (map key rows) \<Longrightarrow> r \<in> set rows \<Longrightarrow> row_of key rows (key r) = Some r"
  by (induction rows) (auto simp: row_of_def)

lemma filter_upsert_row:
  assumes "\<not> P r" and "\<And>x. x \<in> set rows \<Longrightarrow> key x = key r \<Longrightarrow> \<not> P x \<and> \<not> P (merge x r)"
  shows "filter P (upsert_row key merge r rows) = filter P rows"
  using assms by (induction rows) auto

lemma message_row_simps [simp]:
  "sm_id (message_row c m) = cm_id m" "sm_conversation_id (message_row c m) = c"
  by (simp_all add: message_row_def)

lemma merge_message_simps [simp]:
  "sm_id (merge_message x r) = sm_id x" "sm_conversation_id (merge_message x r) = sm_conversation_id x"
  by (simp_all add: merge_message_def)

lemma merge_message_same:
  "sm_id x = sm_id r \<Longrightarrow> sm_conversation_id x = sm_conversation_id r \<Longrightarrow> merge_message x r = r"
  by (simp add: merge_message_def)

definition put_messages :: "string \<Rightarrow> chat_message list \<Rightarrow> stored_message list \<Rightarrow> stored_message list" where
  "put_messages conv ms rows = foldl (\<lambda>rs m. upsert_row sm_id merge_message (message_row conv m) rs) rows ms"

lemma put_messages_simps [simp]:
  "put_messages conv [] rows = rows"
  "put_messages conv (m # ms) rows = put_messages conv ms (upsert_row sm_id merge_message (message_row conv m) rows)"
  by (simp_all add: put_messages_def)

lemma upsert_messages_Ok:
  "upsert_messages env conv ms rows = Inr rows' \<Longrightarrow> rows' = put_messages conv ms rows"
  by (induction ms arbitrary: rows) (auto split: option.splits)

lemma put_messages_distinct:
  "distinct (map sm_id rows) \<Longrightarrow> distinct (map sm_id (put_messages conv ms rows))"
  by (induction ms arbitrary: rows) (simp_all add: upsert_row_distinct)

text \<open>No row outside the conversation has the id of one of its messages.\<close>

definition owns_ids :: "string \<Rightarrow> chat_message list \<Rightarrow> stored_message list \<Rightarrow> bool" where
  "owns_ids conv ms rows \<longleftrightarrow>
     list_all (\<lambda>r. sm_id r \<in> cm_id ` set ms \<longrightarrow> sm_conversation_id r = conv) rows"

lemma owns_ids_upsert:
  assumes "owns_ids conv ms rows"
  shows "owns_ids conv ms (upsert_row sm_id merge_message (message_row conv m) rows)"
  using assms upsert_row_set [of sm_id merge_message "message_row conv m" rows]
  by (auto simp: owns_ids_def list_all_iff)

lemma owns_ids_Cons: "owns_ids conv (m # ms) rows \<Longrightarrow> owns_ids conv ms rows"
  by (auto simp: owns_ids_def list_all_iff)

lemma put_messages_others:
  "owns_ids conv ms rows \<Longrightarrow>
   filter (\<lambda>r. sm_conversation_id r \<noteq> conv) (put_messages conv ms rows) =
   filter (\<lambda>r. sm_conversation_id r \<noteq> conv) rows"
proof (induction ms arbitrary: rows)
  case (Cons m ms)
  have "owns_ids conv ms (upsert_row sm_id merge_message (message_row conv m) rows)"
    by (rule owns_ids_upsert [OF owns_ids_Cons [OF Cons.prems]])
  moreover have "filter (\<lambda>r. sm_conversation_id r \<noteq> conv) (upsert_row sm_id merge_message (message_row conv m) rows) =
      filter (\<lambda>r. sm_conversation_id r \<noteq> conv) rows"
    using Cons.prems by (intro filter_upsert_row) (auto simp: owns_ids_def list_all_iff)
  ultimately show ?case using Cons.IH by simp
qed simp

lemma put_messages_row_other:
  "k \<notin> cm_id ` set ms \<Longrightarrow> row_of sm_id (put_messages conv ms rows) k = row_of sm_id rows k"
  by (induction ms arbitrary: rows) (simp_all add: row_of_upsert)

lemma put_messages_row:
  "owns_ids conv ms rows \<Longrightarrow> distinct (map cm_id ms) \<Longrightarrow> m \<in> set ms \<Longrightarrow>
   row_of sm_id (put_messages conv ms rows) (cm_id m) = Some (message_row conv m)"
proof (induction ms arbitrary: rows)
  case (Cons a ms)
  let ?rows = "upsert_row sm_id merge_message (message_row conv a) rows"
  have own: "owns_ids conv ms ?rows" by (rule owns_ids_upsert [OF owns_ids_Cons [OF Cons.prems(1)]])
  show ?case
  proof (cases "m = a")
    case False
    with Cons.prems own Cons.IH show ?thesis by simp
  next
    case True
    have "row_of sm_id ?rows (cm_id a) = Some (message_row conv a)"
    proof (cases "row_of sm_id rows (cm_id a)")
      case (Some x)
      from row_of_Some [OF Some] Cons.prems(1) have "merge_message x (message_row conv a) = message_row conv a"
        by (intro merge_message_same) (auto simp: owns_ids_def list_all_iff)
      with Some show ?thesis by (simp add: row_of_upsert)
    qed (simp add: row_of_upsert)
    with True Cons.prems(2) show ?thesis by (simp add: put_messages_row_other)
  qed
qed simp

lemma sql_OkD: "sql env l db k = (Ok a, db') \<Longrightarrow> k = (Ok a, db')"
  by (auto simp: sql_def split: option.splits)

lemma sql_Err: "sql env l db k = (Err e, db') \<Longrightarrow> db' = db \<or> k = (Err e, db')"
  by (auto simp: sql_def split: option.splits)

lemma upsert_conversation_Ok:
  assumes "upsert_conversation jt env now db conv = (Ok n, db')"
  shows "(db' = db \<and> n = 0 \<and> (\<exists>old. row_of sc_id (conversations db) (cc_id conv) = Some old \<and>
      sc_updated_at (conversation_row jt now conv) < sc_updated_at old)) \<or>
    (db' = db\<lparr>conversations := upsert_row sc_id (\<lambda>_ r. r) (conversation_row jt now conv) (conversations db),
        messages := (if cc_messages conv = [] then messages db
          else prune_messages (cc_id conv) (map cm_id (cc_messages conv))
            (put_messages (cc_id conv) (cc_messages conv) (messages db)))\<rparr> \<and> n = length (cc_messages conv) \<and>
      (\<forall>old. row_of sc_id (conversations db) (cc_id conv) = Some old \<longrightarrow>
        sc_updated_at old \<le> sc_updated_at (conversation_row jt now conv)))"
  using assms unfolding upsert_conversation_def Let_def
  by (auto dest!: sql_OkD upsert_messages_Ok split: if_splits sum.splits option.splits)

section \<open>Database invariant\<close>

text \<open>Primary keys are unique and every message belongs to a stored conversation.\<close>

definition db_ok :: "chat_db \<Rightarrow> bool" where
  "db_ok db \<longleftrightarrow> distinct (map sc_id (conversations db)) \<and> distinct (map sm_id (messages db)) \<and>
     distinct (map sa_id (artifacts db)) \<and> distinct (map sp_id (projects db)) \<and>
     sm_conversation_id ` set (messages db) \<subseteq> sc_id ` set (conversations db)"

lemma put_messages_conversations:
  "sm_conversation_id ` set (put_messages conv ms rows) \<subseteq> insert conv (sm_conversation_id ` set rows)"
proof (induction ms arbitrary: rows)
  case (Cons m ms)
  have "sm_conversation_id ` set (upsert_row sm_id merge_message (message_row conv m) rows) \<subseteq>
      insert conv (sm_conversation_id ` set rows)"
    using upsert_row_set [of sm_id merge_message "message_row conv m" rows] by fastforce
  with Cons [of "upsert_row sm_id merge_message (message_row conv m) rows"] show ?case by auto
qed auto

lemma upsert_row_ids: "key ` set (upsert_row key (\<lambda>_ r. r) r rows) = insert (key r) (key ` set rows)"
  by (induction rows) auto

lemma conversation_row_id [simp]: "sc_id (conversation_row jt now conv) = cc_id conv"
  by (simp add: conversation_row_def Let_def)

lemma distinct_map_filter_key: "distinct (map f xs) \<Longrightarrow> distinct (map f (filter P xs))"
  by (induction xs) auto

lemma upsert_replace_keys:
  "map key (upsert_row key (\<lambda>_ r. r) r rows) =
    (if key r \<in> set (map key rows) then map key rows else map key rows @ [key r])"
  by (induction rows) auto

lemma upsert_replace_distinct:
  "distinct (map key rows) \<Longrightarrow> distinct (map key (upsert_row key (\<lambda>_ r. r) r rows))"
  by (simp add: upsert_replace_keys)

lemma upsert_conversation_Err: "upsert_conversation jt env now db conv = (Err e, db') \<Longrightarrow> db' = db"
  unfolding upsert_conversation_def Let_def
  by (auto dest!: sql_Err split: if_splits sum.splits)

lemma upsert_conversation_db_ok:
  assumes "db_ok db"
  shows "db_ok (snd (upsert_conversation jt env now db conv))"
proof (cases "upsert_conversation jt env now db conv")
  case (Pair res db')
  show ?thesis
  proof (cases res)
    case (Inl e)
    with Pair assms upsert_conversation_Err show ?thesis by force
  next
    case (Inr n)
    with Pair have "upsert_conversation jt env now db conv = (Ok n, db')" by simp
    from upsert_conversation_Ok [OF this] consider "db' = db"
      | "db' = db\<lparr>conversations := upsert_row sc_id (\<lambda>_ r. r) (conversation_row jt now conv) (conversations db),
        messages := (if cc_messages conv = [] then messages db
          else prune_messages (cc_id conv) (map cm_id (cc_messages conv))
            (put_messages (cc_id conv) (cc_messages conv) (messages db)))\<rparr>" by blast
    then have "db_ok db'"
    proof cases
      case 2
      have "sm_conversation_id ` set (put_messages (cc_id conv) (cc_messages conv) (messages db)) \<subseteq>
          insert (cc_id conv) (sc_id ` set (conversations db))"
        using put_messages_conversations [of "cc_id conv" "cc_messages conv" "messages db"] assms
        unfolding db_ok_def by blast
      with assms 2 show ?thesis
        by (auto simp: db_ok_def upsert_replace_distinct upsert_row_ids prune_messages_def
            put_messages_distinct distinct_map_filter_key)
    qed (simp add: assms)
    with Pair show ?thesis by simp
  qed
qed

lemma delete_conversation_db_ok:
  assumes "db_ok db"
  shows "db_ok (snd (delete_conversation env db cid))"
proof -
  let ?db' = "db\<lparr>conversations := filter (\<lambda>c. sc_id c \<noteq> cid) (conversations db),
          messages := (if list_ex (\<lambda>c. sc_id c = cid) (conversations db)
                       then filter (\<lambda>m. sm_conversation_id m \<noteq> cid) (messages db) else messages db)\<rparr>"
  have owner: "sm_conversation_id m \<in> sc_id ` set (conversations db)" if "m \<in> set (messages db)" for m
    using that assms unfolding db_ok_def by blast
  have "sm_conversation_id m \<in> sc_id ` set (conversations ?db')" if "m \<in> set (messages ?db')" for m
  proof -
    from that have m: "m \<in> set (messages db)" by (auto split: if_splits)
    from owner [OF m] obtain c where c: "c \<in> set (conversations db)" "sm_conversation_id m = sc_id c" by blast
    with that have "sc_id c \<noteq> cid" by (auto simp: list_ex_iff split: if_splits)
    with c show ?thesis by auto
  qed
  then have "db_ok ?db'"
    using assms by (simp add: db_ok_def distinct_map_filter_key image_subset_iff)
  moreover have "snd (delete_conversation env db cid) = db \<or> snd (delete_conversation env db cid) = ?db'"
    by (auto simp: delete_conversation_def sql_def split: option.splits)
  ultimately show ?thesis using assms by metis
qed

lemma upsert_artifact_db_ok: "db_ok db \<Longrightarrow> db_ok (snd (upsert_artifact env db a))"
  by (auto simp: upsert_artifact_def Let_def sql_def db_ok_def upsert_replace_distinct split: option.splits)

lemma upsert_project_db_ok: "db_ok db \<Longrightarrow> db_ok (snd (upsert_project env db p))"
  by (auto simp: upsert_project_def Let_def sql_def db_ok_def upsert_replace_distinct split: option.splits)

lemma upsert_conversation_new:
  assumes "row_of sc_id (conversations db) (cc_id conv) = None"
  shows "fst (upsert_conversation jt no_fault now db conv) = Ok (length (cc_messages conv))"
  using assms by (simp add: upsert_conversation_def Let_def upsert_messages_no_fault)

section \<open>Properties\<close>

lemma conversation_row_timed:
  "cc_updated_at c = Some t \<Longrightarrow> conversation_row jt n c = conversation_row jt n' c"
  "cc_updated_at c = Some t \<Longrightarrow> sc_updated_at (conversation_row jt n c) = i64_of t"
  by (simp_all add: conversation_row_def Let_def)

text \<open>The row after a series of pushes is that of the newest snapshot, whatever the clocks were.\<close>

lemma pushed_row_newest:
  assumes absent: "row_of sc_id (conversations db) k = None"
    and timed: "\<And>p. p \<in> set ps \<Longrightarrow> cc_id (snd p) = k \<Longrightarrow> \<exists>t. cc_updated_at (snd p) = Some t"
    and inj: "inj_on (\<lambda>c. i64_of (the (cc_updated_at c))) {c \<in> snd ` set ps. cc_id c = k}"
    and c: "c \<in> snd ` set ps" "cc_id c = k"
      "\<And>d. d \<in> snd ` set ps \<Longrightarrow> cc_id d = k \<Longrightarrow> i64_of (the (cc_updated_at d)) \<le> i64_of (the (cc_updated_at c))"
  shows "row_of sc_id (conversations (foldl (push_snapshot jt) db ps)) k = Some (conversation_row jt n c)"
proof -
  let ?out = "row_of sc_id (conversations (foldl (push_snapshot jt) db ps)) k"
  note out = conversation_table.push_all_row [where json_text = jt and db = db and xs = ps and k = k, unfolded conversation_table.push_all_def absent]
  obtain m where m: "(m, c) \<in> set ps" using c(1) by auto
  obtain t where t: "cc_updated_at c = Some t" using timed [OF m] c(2) by auto
  show ?thesis
  proof (cases ?out)
    case None
    with out m c(2) show ?thesis by auto
  next
    case (Some r)
    with out obtain i where i: "i \<in> set ps" "cc_id (snd i) = k" "r = conversation_row jt (fst i) (snd i)" by auto
    obtain u where u: "cc_updated_at (snd i) = Some u" using timed [OF i(1,2)] by auto
    have "sc_updated_at (conversation_row jt m c) \<le> sc_updated_at r" using out Some m c(2) by auto
    then have "i64_of t \<le> i64_of u" using i(3) t u by (simp add: conversation_row_timed(2))
    moreover have "i64_of u \<le> i64_of t" using c(3) [of "snd i"] i(1,2) t u by simp
    ultimately have "snd i = c"
      using inj_onD [OF inj, of "snd i" c] i(1,2) c(1,2) t u by simp
    then show ?thesis using Some i(3) conversation_row_timed(1) [OF t] by simp
  qed
qed

text \<open>
  C12. The chat archive converges, for snapshots that carry their time. Let snapshots of a
  conversation that is not stored yet all carry \<open>updated_at\<close>, with pairwise different times, and
  let no SQL statement fail. Then however they are ordered, and whatever the daemon's clock
  reads as each arrives, the conversation's row ends as that of the newest snapshot: the last
  writer wins, not the last message. (A snapshot without a time is stamped with the clock of its
  arrival, and then the order does count: \<open>untimed_order_counts\<close>.)
\<close>

theorem conversations_converge:
  assumes "mset (map snd ps) = mset (map snd ps')" and "row_of sc_id (conversations db) k = None"
    and "\<forall>c \<in> snd ` set ps. cc_id c = k \<longrightarrow> (\<exists>t. cc_updated_at c = Some t)"
    and "inj_on (\<lambda>c. i64_of (the (cc_updated_at c))) {c \<in> snd ` set ps. cc_id c = k}"
    and "c \<in> snd ` set ps" "cc_id c = k"
      "\<forall>d \<in> snd ` set ps. cc_id d = k \<longrightarrow> i64_of (the (cc_updated_at d)) \<le> i64_of (the (cc_updated_at c))"
  shows "row_of sc_id (conversations
      (foldl (\<lambda>d (now, c). snd (upsert_conversation jt no_fault now d c)) db ps)) k = Some (conversation_row jt n c) \<and>
    row_of sc_id (conversations
      (foldl (\<lambda>d (now, c). snd (upsert_conversation jt no_fault now d c)) db ps')) k = Some (conversation_row jt n c)"
proof -
  have eq: "(\<lambda>d (now, c). snd (upsert_conversation jt no_fault now d c)) = push_snapshot jt"
    by (auto simp: push_snapshot_def fun_eq_iff)
  have same: "snd ` set ps' = snd ` set ps" using assms(1) by (metis set_map set_mset_mset)
  have "\<exists>t. cc_updated_at (snd p) = Some t" if "p \<in> set ps'" "cc_id (snd p) = k" for p
    using assms(3) that same by (metis image_eqI)
  then have "row_of sc_id (conversations (foldl (push_snapshot jt) db ps')) k = Some (conversation_row jt n c)"
    using assms(2,4-7) by (intro pushed_row_newest) (unfold same, auto)
  moreover have "row_of sc_id (conversations (foldl (push_snapshot jt) db ps)) k = Some (conversation_row jt n c)"
    using assms by (intro pushed_row_newest) auto
  ultimately show ?thesis by (simp add: eq)
qed

definition demo_conv :: "u64 \<Rightarrow> chat_message list \<Rightarrow> chat_conversation" where
  "demo_conv t ms = \<lparr>cc_id = ''c1'', cc_title = None, cc_workspace_ref = None, cc_model = None,
     cc_provider = None, cc_is_pinned = None, cc_updated_at = Some t, cc_messages = ms\<rparr>"

definition demo_msg :: "string \<Rightarrow> string \<Rightarrow> chat_message" where
  "demo_msg i c = \<lparr>cm_id = i, cm_role = ''user'', cm_content = c, cm_created_at = None\<rparr>"

theorem conversations_converge_witness:
  "row_of sc_id (conversations (foldl (\<lambda>d (now, c). snd (upsert_conversation (\<lambda>_. []) no_fault now d c))
       chat_db_empty [(10, demo_conv 7 []), (11, demo_conv 3 [])])) ''c1'' = Some (conversation_row (\<lambda>_. []) 0 (demo_conv 7 [])) \<and>
   row_of sc_id (conversations (foldl (\<lambda>d (now, c). snd (upsert_conversation (\<lambda>_. []) no_fault now d c))
       chat_db_empty [(20, demo_conv 3 []), (25, demo_conv 7 [])])) ''c1'' = Some (conversation_row (\<lambda>_. []) 0 (demo_conv 7 []))"
proof (rule conversations_converge)
  show "mset (map snd [(10 :: u64, demo_conv 7 []), (11, demo_conv 3 [])]) =
      mset (map snd [(20 :: u64, demo_conv 3 []), (25, demo_conv 7 [])])" by simp
  show "row_of sc_id (conversations chat_db_empty) ''c1'' = None"
    by (simp add: row_of_def chat_db_empty_def)
qed (auto simp: inj_on_def demo_conv_def i64_of_def)

text \<open>Two snapshots without a time: each arrival order ends with the later one's title.\<close>

lemma untimed_order_counts:
  "let a = (demo_conv 0 [])\<lparr>cc_updated_at := None, cc_title := Some ''a''\<rparr>;
       b = (demo_conv 0 [])\<lparr>cc_updated_at := None, cc_title := Some ''b''\<rparr>;
       title = (\<lambda>ps. Option.bind (row_of sc_id (conversations (foldl (push_snapshot (\<lambda>_. [])) chat_db_empty ps)) ''c1'') sc_title)
   in title [(1, a), (2, b)] = Some ''b'' \<and> title [(1, b), (2, a)] = Some ''a''"
  by code_simp

text \<open>
  C17. An accepted snapshot is authoritative. After a successful upsert that was not refused as
  stale, of a snapshot with messages whose ids are distinct and belong to no other
  conversation, the stored messages of the conversation are exactly those of the snapshot,
  and the messages of all other conversations are untouched.
\<close>

theorem snapshot_authoritative:
  assumes ok: "upsert_conversation jt env now db conv = (Ok n, db')"
    and fresh: "n \<noteq> 0" and ids: "distinct (map cm_id (cc_messages conv))"
    and own: "owns_ids (cc_id conv) (cc_messages conv) (messages db)" and inv: "db_ok db"
  shows "row_of sc_id (conversations db') (cc_id conv) = Some (conversation_row jt now conv) \<and>
    set (filter (\<lambda>m. sm_conversation_id m = cc_id conv) (messages db')) =
      set (map (message_row (cc_id conv)) (cc_messages conv)) \<and>
    filter (\<lambda>m. sm_conversation_id m \<noteq> cc_id conv) (messages db') =
      filter (\<lambda>m. sm_conversation_id m \<noteq> cc_id conv) (messages db) \<and>
    n = length (cc_messages conv)"
proof -
  let ?c = "cc_id conv" and ?ms = "cc_messages conv"
  let ?put = "put_messages ?c ?ms (messages db)"
  from upsert_conversation_Ok [OF ok] fresh have n: "n = length ?ms"
    and db': "db' = db\<lparr>conversations := upsert_row sc_id (\<lambda>_ r. r) (conversation_row jt now conv) (conversations db),
        messages := (if ?ms = [] then messages db else prune_messages ?c (map cm_id ?ms) ?put)\<rparr>" by auto
  from n fresh have ne: "?ms \<noteq> []" by auto
  have dist: "distinct (map sm_id ?put)" using inv by (simp add: db_ok_def put_messages_distinct)
  have "set (filter (\<lambda>m. sm_conversation_id m = ?c) (prune_messages ?c (map cm_id ?ms) ?put)) = message_row ?c ` set ?ms"
  proof (intro equalityI subsetI)
    fix r assume "r \<in> set (filter (\<lambda>m. sm_conversation_id m = ?c) (prune_messages ?c (map cm_id ?ms) ?put))"
    then obtain m where r: "r \<in> set ?put" "m \<in> set ?ms" "sm_id r = cm_id m" by (auto simp: prune_messages_def)
    have "row_of sm_id ?put (sm_id r) = Some r" by (rule row_of_distinct [OF dist r(1)])
    with put_messages_row [OF own ids r(2)] r(2,3) show "r \<in> message_row ?c ` set ?ms" by auto
  next
    fix r assume "r \<in> message_row ?c ` set ?ms"
    then obtain m where m: "m \<in> set ?ms" "r = message_row ?c m" by auto
    with row_of_Some [OF put_messages_row [OF own ids m(1)]]
    show "r \<in> set (filter (\<lambda>m. sm_conversation_id m = ?c) (prune_messages ?c (map cm_id ?ms) ?put))"
      by (auto simp: prune_messages_def)
  qed
  moreover have "filter (\<lambda>m. sm_conversation_id m \<noteq> ?c) (prune_messages ?c (map cm_id ?ms) ?put) =
      filter (\<lambda>m. sm_conversation_id m \<noteq> ?c) ?put"
    unfolding prune_messages_def filter_filter by (rule filter_cong) auto
  ultimately show ?thesis
    using db' ne n put_messages_others [OF own] by (simp add: row_of_upsert_replace)
qed

theorem snapshot_authoritative_witness:
  "\<exists>db'. upsert_conversation (\<lambda>_. []) no_fault 0 chat_db_empty (demo_conv 5 [demo_msg ''m1'' ''hi'', demo_msg ''m2'' ''ho'']) =
       (Ok 2, db') \<and>
     set (filter (\<lambda>m. sm_conversation_id m = ''c1'') (messages db')) =
       set (map (message_row ''c1'') [demo_msg ''m1'' ''hi'', demo_msg ''m2'' ''ho''])"
proof -
  let ?conv = "demo_conv 5 [demo_msg ''m1'' ''hi'', demo_msg ''m2'' ''ho'']"
  have "fst (upsert_conversation (\<lambda>_. []) no_fault 0 chat_db_empty ?conv) = Ok 2"
    using upsert_conversation_new [of chat_db_empty ?conv]
    by (simp add: chat_db_empty_def row_of_def demo_conv_def)
  then obtain db' where ok: "upsert_conversation (\<lambda>_. []) no_fault 0 chat_db_empty ?conv = (Ok 2, db')"
    by (metis prod.collapse)
  have "row_of sc_id (conversations db') (cc_id ?conv) = Some (conversation_row (\<lambda>_. []) 0 ?conv) \<and>
    set (filter (\<lambda>m. sm_conversation_id m = cc_id ?conv) (messages db')) =
      set (map (message_row (cc_id ?conv)) (cc_messages ?conv)) \<and>
    filter (\<lambda>m. sm_conversation_id m \<noteq> cc_id ?conv) (messages db') =
      filter (\<lambda>m. sm_conversation_id m \<noteq> cc_id ?conv) (messages chat_db_empty) \<and>
    2 = length (cc_messages ?conv)"
    by (rule snapshot_authoritative [OF ok])
      (simp_all add: demo_conv_def demo_msg_def chat_db_empty_def owns_ids_def db_ok_def)
  with ok show ?thesis by (simp add: demo_conv_def)
qed

text \<open>
  C16. The archive's invariant. Unique primary keys and messages only of stored conversations
  are kept by every operation that writes, whichever statements fail; and a conversation push
  that reports an error has changed nothing.
\<close>

theorem chat_store_invariant:
  assumes "db_ok db"
  shows "db_ok (snd (upsert_conversation jt env now db conv)) \<and> db_ok (snd (upsert_artifact env db a)) \<and>
    db_ok (snd (upsert_project env db p)) \<and> db_ok (snd (delete_conversation env db cid)) \<and>
    (fst (upsert_conversation jt env now db conv) = Err e \<longrightarrow> snd (upsert_conversation jt env now db conv) = db)"
  using upsert_conversation_db_ok [OF assms] upsert_artifact_db_ok [OF assms] upsert_project_db_ok [OF assms]
    delete_conversation_db_ok [OF assms] upsert_conversation_Err
  by (metis prod.collapse)

theorem chat_store_invariant_witness:
  "db_ok (snd (upsert_conversation (\<lambda>_. []) (\<lambda>l. if l = ''commit'' then Some ''disk full'' else None) 0
      chat_db_empty (demo_conv 5 [demo_msg ''m1'' ''hi'']))) \<and>
   snd (upsert_conversation (\<lambda>_. []) (\<lambda>l. if l = ''commit'' then Some ''disk full'' else None) 0
      chat_db_empty (demo_conv 5 [demo_msg ''m1'' ''hi''])) = chat_db_empty"
proof -
  let ?env = "(\<lambda>l. if l = ''commit'' then Some ''disk full'' else None) :: sql_env"
  have ok: "db_ok chat_db_empty" by (simp add: db_ok_def chat_db_empty_def)
  have "fst (upsert_conversation (\<lambda>_. []) ?env 0 chat_db_empty (demo_conv 5 [demo_msg ''m1'' ''hi''])) =
      Err ''commit: disk full''"
    by (simp add: upsert_conversation_def Let_def sql_def chat_db_empty_def row_of_def demo_conv_def demo_msg_def)
  with chat_store_invariant [OF ok] show ?thesis by blast
qed

text \<open>
  A message id that another conversation already uses. When an accepted snapshot brings a
  message whose id is stored under another conversation, the update overwrites that row's text
  and leaves it with the other conversation: the other conversation's text is lost, and the
  pushed message does not appear in its own conversation, though the push counts it as stored.
\<close>

lemma foreign_message_overwritten:
  assumes "row_of sm_id (messages db) (cm_id m) = Some x" and "sm_conversation_id x \<noteq> cc_id conv"
    and "cc_messages conv = [m]" and "row_of sc_id (conversations db) (cc_id conv) = None" and "db_ok db"
    and "upsert_conversation jt no_fault now db conv = (Ok n, db')"
  shows "n = 1 \<and> row_of sm_id (messages db') (cm_id m) = Some (merge_message x (message_row (cc_id conv) m)) \<and>
    get_messages no_fault db' (cc_id conv) = Ok []"
proof -
  let ?rows = "upsert_row sm_id merge_message (message_row (cc_id conv) m) (messages db)"
  from upsert_conversation_Ok [OF assms(6)] assms(3,4) have n: "n = 1"
    and msgs: "messages db' = prune_messages (cc_id conv) [cm_id m] ?rows" by auto
  have row: "row_of sm_id ?rows (cm_id m) = Some (merge_message x (message_row (cc_id conv) m))"
    using assms(1) by (simp add: row_of_upsert)
  have dist: "distinct (map sm_id ?rows)" using assms(5) by (simp add: db_ok_def upsert_row_distinct)
  have none: "sm_conversation_id r \<noteq> cc_id conv" if "r \<in> set ?rows" "sm_id r = cm_id m" for r
    using row_of_distinct [OF dist that(1)] that(2) row assms(2) by auto
  have "row_of sm_id (prune_messages c k rs) i = row_of sm_id rs i"
    if "row_of sm_id rs i = Some y" "i \<in> set k" for c k rs i y
    using that by (induction rs) (auto simp: row_of_def prune_messages_def)
  from this [OF row] have "row_of sm_id (messages db') (cm_id m) = Some (merge_message x (message_row (cc_id conv) m))"
    unfolding msgs by (simp add: row)
  moreover have "filter (\<lambda>r. sm_conversation_id r = cc_id conv) (messages db') = []"
    using none by (auto simp: msgs prune_messages_def filter_empty_conv)
  ultimately show ?thesis by (simp add: n get_messages_def)
qed

definition demo_archive :: chat_db where
  "demo_archive = snd (upsert_conversation (\<lambda>_. []) no_fault 0 chat_db_empty
     ((demo_conv 5 [demo_msg ''m1'' ''hi''])\<lparr>cc_id := ''c0''\<rparr>))"

lemma foreign_message_overwritten_witness:
  "\<exists>db'. upsert_conversation (\<lambda>_. []) no_fault 0 demo_archive (demo_conv 6 [demo_msg ''m1'' ''stolen'']) = (Ok 1, db') \<and>
     get_messages no_fault db' ''c1'' = Ok [] \<and>
     map_option sm_conversation_id (row_of sm_id (messages db') ''m1'') = Some ''c0''"
proof -
  let ?conv = "demo_conv 6 [demo_msg ''m1'' ''stolen'']"
  have msgs: "messages demo_archive = [message_row ''c0'' (demo_msg ''m1'' ''hi'')]"
    and convs: "map sc_id (conversations demo_archive) = [''c0'']"
    and rest: "artifacts demo_archive = []" "projects demo_archive = []"
    by (simp_all add: demo_archive_def upsert_conversation_def Let_def upsert_messages_no_fault chat_db_empty_def
        row_of_def demo_conv_def demo_msg_def prune_messages_def)
  have ok: "db_ok demo_archive"
    using msgs convs rest by (simp add: db_ok_def flip: set_map)
  have none: "row_of sc_id (conversations demo_archive) ''c1'' = None"
    using convs by (auto simp: row_of_def find_None_iff map_eq_Cons_conv)
  have "fst (upsert_conversation (\<lambda>_. []) no_fault 0 demo_archive ?conv) = Ok 1"
    using upsert_conversation_new [of demo_archive ?conv] none by (simp add: demo_conv_def)
  then obtain db' where up: "upsert_conversation (\<lambda>_. []) no_fault 0 demo_archive ?conv = (Ok 1, db')"
    by (metis prod.collapse)
  have none2: "row_of sc_id (conversations demo_archive) (cc_id ?conv) = None"
    using none by (simp add: demo_conv_def)
  let ?m = "demo_msg ''m1'' ''stolen''" and ?x = "message_row ''c0'' (demo_msg ''m1'' ''hi'')"
  have "1 = (1::nat) \<and> row_of sm_id (messages db') (cm_id ?m) = Some (merge_message ?x (message_row (cc_id ?conv) ?m)) \<and>
      get_messages no_fault db' (cc_id ?conv) = Ok []"
    by (rule foreign_message_overwritten [OF _ _ _ none2 ok up])
      (simp_all add: msgs row_of_def demo_msg_def demo_conv_def)
  with up show ?thesis by (simp add: demo_msg_def demo_conv_def)
qed

text \<open>
  The version a new archive records. Opening a new database runs the second migration
  before the first, which sets the version back: the schema has all tables, the recorded
  version is 1, and it becomes 2 only at the next start.
\<close>

lemma first_open_records_version_one:
  "\<exists>db1 db2. chat_open no_fault chat_db_empty = (Ok (), db1) \<and> v1_tables db1 \<and> v2_tables db1 \<and>
     schema_version db1 = Some 1 \<and> chat_open no_fault db1 = (Ok (), db2) \<and> schema_version db2 = Some 2"
  by (simp add: chat_open_def migrate_def migrate_v1_def migrate_v2_def chat_db_empty_def Let_def)

end
