(* ===== verification/Text_Scan.thy ===== *)
theory Text_Scan
  imports Hashline
begin

text \<open>
  What the text-processing components use of the standard library beyond the prelude: number
  parsing (\<open>str::parse\<close>, \<open>from_str_radix\<close>), splitting at a pattern, trimming a character, the
  \<open>hex\<close> crate's decoder, and the boundaries of characters in a valid UTF-8 string.
\<close>

section \<open>Numbers\<close>

definition is_digit :: "char \<Rightarrow> bool" where
  "is_digit c = (48 \<le> byte_val c \<and> byte_val c \<le> 57)"

text \<open>\<open>parse\<close> of an unsigned integer of \<open>w\<close> bits: an optional plus sign, then digits only.\<close>

definition parse_unsigned :: "nat \<Rightarrow> string \<Rightarrow> nat option" where
  "parse_unsigned w s =
     (let ds = (case s of c # cs \<Rightarrow> if c = CHR ''+'' then cs else s | [] \<Rightarrow> []) in
      if ds = [] \<or> \<not> list_all is_digit ds then None
      else if int (digits_value ds) < 2 ^ w then Some (digits_value ds) else None)"

fun hex_val :: "char \<Rightarrow> nat option" where
  "hex_val c =
     (let n = byte_val c in
      if 48 \<le> n \<and> n \<le> 57 then Some (n - 48)
      else if 97 \<le> n \<and> n \<le> 102 then Some (n - 87)
      else if 65 \<le> n \<and> n \<le> 70 then Some (n - 55)
      else None)"

text \<open>\<open>u8::from_str_radix(hex, 16)\<close> of a two-byte text; a leading plus sign is accepted.\<close>

definition parse_hex2 :: "char \<Rightarrow> char \<Rightarrow> nat option" where
  "parse_hex2 a b =
     (if a = CHR ''+'' then hex_val b
      else (case (hex_val a, hex_val b) of (Some x, Some y) \<Rightarrow> Some (16 * x + y) | _ \<Rightarrow> None))"

text \<open>\<open>hex::decode\<close>: pairs of digits of either case.\<close>

fun hex_decode :: "string \<Rightarrow> bytes option" where
  "hex_decode [] = Some []"
| "hex_decode [_] = None"
| "hex_decode (a # b # s) =
     (case (hex_val a, hex_val b) of
        (Some x, Some y) \<Rightarrow> map_option ((#) (char_of (16 * x + y))) (hex_decode s)
      | _ \<Rightarrow> None)"

lemma list_all_nat_to_string: "list_all is_digit (nat_to_string n)"
proof (induction n rule: nat_to_string.induct)
  case (1 n)
  then show ?case
    by (subst nat_to_string.simps) (auto simp: is_digit_def [abs_def] less_Suc_eq_le [symmetric])
qed

lemma nat_to_string_ne [simp]: "nat_to_string n \<noteq> []"
  by (subst nat_to_string.simps) simp

lemma parse_unsigned_nat: "n < 2 ^ w \<Longrightarrow> parse_unsigned w (nat_to_string n) = Some n"
proof -
  assume n: "n < 2 ^ w"
  obtain c cs where c: "nat_to_string n = c # cs" by (cases "nat_to_string n") auto
  have "c \<noteq> CHR ''+''" using list_all_nat_to_string [of n] c by (auto simp: is_digit_def)
  then show ?thesis
    using n list_all_nat_to_string [of n] digits_value_string [of n]
    by (simp add: parse_unsigned_def Let_def c)
qed

text \<open>\<open>Ord::clamp\<close>.\<close>

definition clamp :: "nat \<Rightarrow> nat \<Rightarrow> nat \<Rightarrow> nat" where
  "clamp lo hi n = (if n < lo then lo else if n > hi then hi else n)"

lemma clamp_bounds: "lo \<le> hi \<Longrightarrow> lo \<le> clamp lo hi n \<and> clamp lo hi n \<le> hi"
  by (simp add: clamp_def)

section \<open>Splitting\<close>

text \<open>\<open>split\<close> at a non-empty pattern, from the left.\<close>

function split_str :: "string \<Rightarrow> string \<Rightarrow> string list" where
  "split_str d [] = [[]]"
| "split_str d (c # cs) =
     (if d \<noteq> [] \<and> starts_with (c # cs) d then [] # split_str d (drop (length d) (c # cs))
      else (case split_str d cs of [] \<Rightarrow> [[c]] | w # ws \<Rightarrow> (c # w) # ws))"
  by pat_completeness auto
termination
  by (relation "measure (\<lambda>(d, s). length s)") (auto simp: neq_Nil_conv)

declare split_str.simps(2) [simp del]

text \<open>\<open>split_once\<close> at a non-empty pattern.\<close>

fun split_once :: "string \<Rightarrow> string \<Rightarrow> (string \<times> string) option" where
  "split_once d [] = None"
| "split_once d (c # cs) =
     (if starts_with (c # cs) d then Some ([], drop (length d) (c # cs))
      else map_option (\<lambda>(a, b). (c # a, b)) (split_once d cs))"

text \<open>\<open>split_whitespace\<close>: maximal runs without white space.\<close>

function words_from :: "string \<Rightarrow> string \<Rightarrow> string list" where
  "words_from cur [] = (if cur = [] then [] else [cur])"
| "words_from cur (c # cs) =
     (case find (starts_with (c # cs)) white_space of
        Some w \<Rightarrow> (if cur = [] then [] else [cur]) @ words_from [] (drop (length w - 1) cs)
      | None \<Rightarrow> words_from (cur @ [c]) cs)"
  by pat_completeness auto
termination
  by (relation "measure (\<lambda>(cur, s). length s)") auto

definition split_whitespace :: "string \<Rightarrow> string list" where
  "split_whitespace s = words_from [] s"

text \<open>\<open>char::is_control\<close>: C0, delete, and the two-byte C1 controls.\<close>

fun has_control :: "string \<Rightarrow> bool" where
  "has_control [] = False"
| "has_control (c # cs) =
     (byte_val c < 32 \<or> c = CHR 0x7F \<or>
      (c = CHR 0xC2 \<and> cs \<noteq> [] \<and> in_range 0x80 0x9F (byte_val (hd cs))) \<or> has_control cs)"

definition strip_prefix :: "string \<Rightarrow> string \<Rightarrow> string option" where
  "strip_prefix p s = (if starts_with s p then Some (drop (length p) s) else None)"

definition trim_start_char :: "char \<Rightarrow> string \<Rightarrow> string" where
  "trim_start_char c s = dropWhile (\<lambda>x. x = c) s"

definition trim_end_char :: "char \<Rightarrow> string \<Rightarrow> string" where
  "trim_end_char c s = rev (dropWhile (\<lambda>x. x = c) (rev s))"

lemma starts_with_append [simp]: "starts_with (p @ s) p"
  by (simp add: starts_with_def)

lemma strip_prefix_append [simp]: "strip_prefix p (p @ s) = Some s"
  by (simp add: strip_prefix_def)

lemma split_once_char:
  "CHR0 \<notin> set a \<Longrightarrow> split_once [CHR0] (a @ CHR0 # b) = Some (a, b)"
  by (induction a) (auto simp: starts_with_def)

text \<open>
  The lines an asynchronous line reader yields before it ends: the first line that is not UTF-8
  is an error, at which every reader loop of the daemon stops.
\<close>

definition readable_lines :: "bytes \<Rightarrow> string list" where
  "readable_lines b = takeWhile valid_utf8 (str_lines b)"

section \<open>Character boundaries\<close>

text \<open>The characters of a valid UTF-8 string, each as its bytes.\<close>

function chars_of :: "string \<Rightarrow> string list" where
  "chars_of [] = []"
| "chars_of (c # cs) = (c # takeWhile is_cont_byte cs) # chars_of (dropWhile is_cont_byte cs)"
  by pat_completeness auto
termination
  by (relation "measure length") (auto simp: less_Suc_eq_le length_dropWhile_le)

lemma concat_chars_of [simp]: "concat (chars_of s) = s"
  by (induction s rule: chars_of.induct) auto

lemma chars_of_ne: "w \<in> set (chars_of s) \<Longrightarrow> w \<noteq> []"
  by (induction s rule: chars_of.induct) auto

text \<open>A cut where no continuation byte follows is between two characters.\<close>

lemma chars_of_append:
  "b = [] \<or> \<not> is_cont_byte (hd b) \<Longrightarrow> chars_of (a @ b) = chars_of a @ chars_of b"
proof (induction a rule: chars_of.induct)
  case (2 c cs)
  show ?case
  proof (cases "list_all is_cont_byte cs")
    case True
    then have all: "\<And>x. x \<in> set cs \<Longrightarrow> is_cont_byte x" by (simp add: list_all_iff)
    have b: "takeWhile is_cont_byte b = []" "dropWhile is_cont_byte b = b"
      using 2(2) by (cases b; simp)+
    have c: "takeWhile is_cont_byte (cs @ b) = cs" "dropWhile is_cont_byte (cs @ b) = b"
      using b by (simp_all add: takeWhile_append2 dropWhile_append2 all)
    have d: "takeWhile is_cont_byte cs = cs" "dropWhile is_cont_byte cs = []"
      by (simp_all only: takeWhile_eq_all_conv dropWhile_eq_Nil_conv) (use all in blast)+
    show ?thesis by (simp only: append_Cons chars_of.simps c d append_Nil)
  next
    case False
    then obtain x where "x \<in> set cs" "\<not> is_cont_byte x" by (auto simp: list_all_iff)
    then show ?thesis using 2 by simp
  qed
qed simp

text \<open>Where a \<open>str\<close> may be cut.\<close>

definition is_char_boundary :: "string \<Rightarrow> nat \<Rightarrow> bool" where
  "is_char_boundary s i = (i = 0 \<or> i = length s \<or> (i < length s \<and> \<not> is_cont_byte (s ! i)))"

lemma split_inclusive_concat: "concat (split_inclusive s) = s"
  by (induction s rule: split_inclusive.induct) (auto split: list.splits)

text \<open>In valid UTF-8 no continuation byte follows an ASCII byte or starts the text.\<close>

lemma is_cont_nth: "is_cont (nth_opt s i) \<longleftrightarrow> i < length s \<and> is_cont_byte (s ! i)"
  by (auto simp: nth_opt_def in_range_def is_cont_byte_def Let_def)

lemma second_ok_cont: "second_ok b c \<Longrightarrow> is_cont c"
  by (auto simp: second_ok_def Let_def in_range_def split: option.splits if_splits)

lemma utf8_chunk_cases:
  "utf8_chunk s = (n, True) \<Longrightarrow>
   n = 1 \<or> n = 2 \<and> is_cont (nth_opt s 1) \<or>
   n = 3 \<and> is_cont (nth_opt s 1) \<and> is_cont (nth_opt s 2) \<or>
   n = 4 \<and> is_cont (nth_opt s 1) \<and> is_cont (nth_opt s 2) \<and> is_cont (nth_opt s 3)"
  using second_ok_cont [of "byte_val (hd s)" "nth_opt s 1"]
  by (simp add: utf8_chunk_def Let_def split: if_split_asm)

lemma utf8_chunk_conts:
  assumes "utf8_chunk s = (n, True)" "0 < i" "i < n"
  shows "i < length s \<and> is_cont_byte (s ! i)"
proof -
  have "is_cont (nth_opt s i)"
    using utf8_chunk_cases [OF assms(1)] assms(2,3)
    by (auto simp: less_Suc_eq numeral_eq_Suc simp del: is_cont.simps)
  then show ?thesis by (simp add: is_cont_nth)
qed

lemma utf8_chunk_start: "utf8_chunk (c # s) = (n, True) \<Longrightarrow> \<not> is_cont_byte c"
  by (simp add: utf8_chunk_def Let_def in_range_def is_cont_byte_def split: if_split_asm)

lemma valid_utf8_chunk:
  assumes "valid_utf8 s" "s \<noteq> []"
  obtains n where "utf8_chunk s = (n, True)" "0 < n" "n \<le> length s" "valid_utf8 (drop n s)"
proof -
  obtain n ok where c: "utf8_chunk s = (n, ok)" by (cases "utf8_chunk s")
  have eq: "(if ok then take n s else replacement_char) @ from_utf8_lossy (drop n s) = s"
    using assms c by (simp add: valid_utf8_def from_utf8_lossy.simps [of s])
  have ok: ok
  proof (rule ccontr)
    assume "\<not> ok"
    with eq obtain u where "s = replacement_char @ u" by metis
    then have "utf8_chunk s = (3, True)"
      by (simp add: utf8_chunk_def replacement_char_def nth_opt_def second_ok_def in_range_def)
    with c \<open>\<not> ok\<close> show False by simp
  qed
  have n: "0 < n" using utf8_chunk_pos [of s] c by simp
  have "n \<le> length s"
  proof (cases "n = 1")
    case True
    with assms(2) show ?thesis by (cases s) auto
  next
    case False
    with utf8_chunk_conts [of s n "n - 1"] c ok n have "n - 1 < length s" by simp
    then show ?thesis by linarith
  qed
  moreover have "valid_utf8 (drop n s)"
    using eq ok by (simp add: valid_utf8_def) (metis append_take_drop_id same_append_eq)
  ultimately show thesis using that c ok n by simp
qed

lemma valid_utf8_start: "valid_utf8 s \<Longrightarrow> s = [] \<or> \<not> is_cont_byte (hd s)"
proof (cases s)
  case (Cons c cs)
  assume "valid_utf8 s"
  then obtain n where "utf8_chunk s = (n, True)" using Cons by (blast elim: valid_utf8_chunk)
  with Cons show ?thesis using utf8_chunk_start by simp
qed simp

lemma valid_utf8_after_ascii:
  "valid_utf8 (a @ c # b) \<Longrightarrow> byte_val c < 128 \<Longrightarrow> valid_utf8 b"
proof (induction "length a" arbitrary: a rule: less_induct)
  case less
  obtain n where n: "utf8_chunk (a @ c # b) = (n, True)" "0 < n" "valid_utf8 (drop n (a @ c # b))"
    by (rule valid_utf8_chunk [OF less.prems(1)]) simp_all
  show ?case
  proof (cases "a = []")
    case True
    with n less.prems(2) have "n = 1" by (simp add: utf8_chunk_def)
    with n True show ?thesis by simp
  next
    case False
    have "n \<le> length a"
    proof (rule ccontr)
      assume "\<not> n \<le> length a"
      with utf8_chunk_conts [OF n(1), of "length a"] False have "is_cont_byte c" by simp
      with less.prems(2) show False by (simp add: is_cont_byte_def Let_def)
    qed
    with n False less.hyps [of "drop n a"] less.prems(2) show ?thesis by simp
  qed
qed

text \<open>The characters of a valid text, one by one.\<close>

definition proper_char :: "string \<Rightarrow> bool" where
  "proper_char w \<longleftrightarrow> w \<noteq> [] \<and> \<not> is_cont_byte (hd w) \<and> list_all is_cont_byte (tl w)"

lemma chars_of_proper:
  "s = [] \<or> \<not> is_cont_byte (hd s) \<Longrightarrow> list_all proper_char (chars_of s)"
proof (induction s rule: chars_of.induct)
  case (2 c cs)
  have d: "dropWhile is_cont_byte cs = [] \<or> \<not> is_cont_byte (hd (dropWhile is_cont_byte cs))"
    using hd_dropWhile by blast
  have "list_all is_cont_byte (takeWhile is_cont_byte cs)"
    unfolding list_all_iff using set_takeWhileD by fast
  moreover have "\<not> is_cont_byte c" using 2(2) by simp
  ultimately have "proper_char (c # takeWhile is_cont_byte cs)" by (simp add: proper_char_def)
  with 2(1) [OF d] show ?case by (simp only: chars_of.simps list.pred_inject simp_thms)
qed simp

lemma chars_of_concat: "list_all proper_char ws \<Longrightarrow> chars_of (concat ws) = ws"
proof (induction ws)
  case (Cons w ws)
  have start: "concat ws = [] \<or> \<not> is_cont_byte (hd (concat ws))"
    using Cons.prems by (cases ws) (auto simp: proper_char_def)
  obtain c cs where w: "w = c # cs" "list_all is_cont_byte cs"
    using Cons.prems by (cases w) (auto simp: proper_char_def)
  then have "takeWhile is_cont_byte cs = cs" "dropWhile is_cont_byte cs = []"
    unfolding takeWhile_eq_all_conv dropWhile_eq_Nil_conv list_all_iff by blast+
  then have "chars_of w = [w]" by (simp only: w chars_of.simps)
  with Cons start show ?case by (simp add: chars_of_append)
qed simp

lemma valid_char_ascii:
  assumes "valid_utf8 s" and "w \<in> set (chars_of s)" and "byte_val (hd w) < 128"
  shows "tl w = []"
proof -
  obtain as bs where ab: "chars_of s = as @ w # bs" using assms(2) by (meson split_list)
  have p: "proper_char w"
    using chars_of_proper [OF valid_utf8_start [OF assms(1)]] assms(2) by (auto simp: list_all_iff)
  then obtain c cs where w: "w = c # cs" by (cases w) (auto simp: proper_char_def)
  have "s = concat as @ c # (cs @ concat bs)" using concat_chars_of [of s] ab w by simp
  with valid_utf8_after_ascii [of "concat as" c] assms(1,3) w have "valid_utf8 (cs @ concat bs)" by simp
  then have "cs = [] \<or> \<not> is_cont_byte (hd cs)" using valid_utf8_start by (cases cs) force+
  with p w show ?thesis by (cases cs) (auto simp: proper_char_def)
qed

text \<open>A lossy decoding is valid.\<close>

lemma nth_opt_take: "i < n \<Longrightarrow> i < length s \<Longrightarrow> nth_opt (take n s @ r) i = nth_opt s i"
  by (auto simp: nth_opt_def nth_append)

lemma utf8_chunk_take:
  assumes "utf8_chunk s = (n, True)" and "s \<noteq> []"
  shows "utf8_chunk (take n s @ r) = (n, True)"
proof -
  have n: "0 < n" using utf8_chunk_pos [of s] assms(1) by simp
  have hd: "hd (take n s @ r) = hd s" using n assms(2) by (cases s; cases n) auto
  have "nth_opt (take n s @ r) i = nth_opt s i" if "0 < i" "i < n" for i
    using utf8_chunk_conts [OF assms(1) that] that by (simp add: nth_opt_take)
  then have "1 < n \<Longrightarrow> nth_opt (take n s @ r) 1 = nth_opt s 1"
    "2 < n \<Longrightarrow> nth_opt (take n s @ r) 2 = nth_opt s 2" "3 < n \<Longrightarrow> nth_opt (take n s @ r) 3 = nth_opt s 3"
    by simp_all
  then show ?thesis
    using assms(1) by (simp add: utf8_chunk_def hd Let_def split: if_split_asm)
qed

lemma lossy_chunk:
  "utf8_chunk s = (n, True) \<Longrightarrow> s \<noteq> [] \<Longrightarrow> from_utf8_lossy (take n s @ r) = take n s @ from_utf8_lossy r"
proof -
  assume c: "utf8_chunk s = (n, True)" and s: "s \<noteq> []"
  have n: "0 < n" using utf8_chunk_pos [of s] c by simp
  have len: "n \<le> length s"
  proof (cases "n = 1")
    case True
    with s show ?thesis by (cases s) auto
  next
    case False
    with utf8_chunk_conts [OF c, of "n - 1"] n show ?thesis by linarith
  qed
  have ne: "take n s @ r \<noteq> []" using n s by (cases s; cases n) auto
  show ?thesis
    unfolding from_utf8_lossy.simps [of "take n s @ r"] using utf8_chunk_take [OF c s, of r] ne len by (simp add: from_utf8_lossy.simps [of "[]"])
qed

lemma utf8_chunk_replacement: "utf8_chunk replacement_char = (3, True)"
  by (simp add: utf8_chunk_def replacement_char_def nth_opt_def second_ok_def in_range_def)

lemma lossy_valid: "valid_utf8 (from_utf8_lossy s)"
proof (induction s rule: from_utf8_lossy.induct)
  case (1 s)
  show ?case
  proof (cases "s = []")
    case True
    then show ?thesis by (simp add: valid_utf8_def from_utf8_lossy.simps)
  next
    case False
    obtain n ok where c: "utf8_chunk s = (n, ok)" by (cases "utf8_chunk s")
    note ih = 1 [OF False c [symmetric], unfolded valid_utf8_def]
    have step: "from_utf8_lossy s = (if ok then take n s else replacement_char) @ from_utf8_lossy (drop n s)"
      using False c by (subst from_utf8_lossy.simps) simp
    have "from_utf8_lossy (replacement_char @ r) = replacement_char @ from_utf8_lossy r" for r
      using lossy_chunk [OF utf8_chunk_replacement, of r] by (simp add: replacement_char_def)
    with lossy_chunk [of s n] c False ih show ?thesis
      unfolding valid_utf8_def step by (cases ok) simp_all
  qed
qed

end
