(* ===== verification/Shell.thy ===== *)
theory Shell
  imports Text_Scan Daemon_Error Capability
begin

text \<open>
  \<open>daemon-core/src/shell.rs\<close>, the Unix build: the shell runner. Each output stream is pumped line
  by line into a capped buffer and, in batches, into the live stream of the connection. The child
  process is a parameter: the bytes it prints, how it ends, and whether it survives a signal.
\<close>

section \<open>Limits\<close>

definition MAX_TIMEOUT_MS :: nat where "MAX_TIMEOUT_MS = 10 * 60 * 1000"
definition MAX_OUTPUT_BYTES :: nat where "MAX_OUTPUT_BYTES = 4 * 1024 * 1024"
definition STREAM_FLUSH_BYTES :: nat where "STREAM_FLUSH_BYTES = 8 * 1024"

definition TRUNCATION_MARKER :: string where
  "TRUNCATION_MARKER =
     [CHR 0x0A] @ ellipsis @ ''[synthhires: output truncated at 4 MiB]'' @ [CHR 0x0A]"

definition clamp_timeout :: "nat option \<Rightarrow> nat" where
  "clamp_timeout requested =
     max (min (case requested of Some t \<Rightarrow> t | None \<Rightarrow> 30000) MAX_TIMEOUT_MS) 1000"

text \<open>
  The buffer and its flag. The space left is counted in bytes, the cut in characters
  (\<open>char_indices().nth(space)\<close>), as in the code.
\<close>

definition push_capped :: "string \<times> bool \<Rightarrow> string \<Rightarrow> string \<times> bool" where
  "push_capped bd data =
     (case bd of (buf, dropped) \<Rightarrow>
        if length buf \<ge> MAX_OUTPUT_BYTES then (buf, True)
        else if length buf + length data > MAX_OUTPUT_BYTES
        then (buf @ take_chars (MAX_OUTPUT_BYTES - length buf) data @ TRUNCATION_MARKER, True)
        else (buf @ data, dropped))"

section \<open>The pump\<close>

text \<open>
  One stream's pump. \<open>pu_open\<close> says whether the receiver takes the chunk with the given number;
  \<open>pu_ended\<close> that the loop has been left.
\<close>

record pump =
  pu_acc :: "string \<times> bool"
  pu_pending :: string
  pu_stopped :: bool
  pu_sent :: "string list"
  pu_ended :: bool

definition pump_init :: pump where
  "pump_init = \<lparr>pu_acc = ([], False), pu_pending = [], pu_stopped = False, pu_sent = [], pu_ended = False\<rparr>"

definition send_chunk :: "(nat \<Rightarrow> bool) \<Rightarrow> string \<Rightarrow> pump \<Rightarrow> pump \<times> bool" where
  "send_chunk rx data p =
     (if rx (length (pu_sent p)) then (p\<lparr>pu_sent := pu_sent p @ [data]\<rparr>, True) else (p, False))"

definition pump_line :: "(nat \<Rightarrow> bool) \<Rightarrow> pump \<Rightarrow> string \<Rightarrow> pump" where
  "pump_line rx p line =
     (if pu_ended p then p
      else
        let data = line @ [CHR 0x0A];
            p1 = p\<lparr>pu_acc := push_capped (pu_acc p) data\<rparr> in
        if snd (pu_acc p1) then
          (if pu_stopped p1 then p1
           else
             let p2 = (if pu_pending p1 \<noteq> []
                       then fst (send_chunk rx (pu_pending p1) (p1\<lparr>pu_pending := []\<rparr>)) else p1)
             in (fst (send_chunk rx TRUNCATION_MARKER p2))\<lparr>pu_stopped := True\<rparr>)
        else
          let p2 = p1\<lparr>pu_pending := pu_pending p1 @ data\<rparr> in
          if length (pu_pending p2) \<ge> STREAM_FLUSH_BYTES
          then (case send_chunk rx (pu_pending p2) (p2\<lparr>pu_pending := []\<rparr>) of
                  (p3, ok) \<Rightarrow> if ok then p3 else p3\<lparr>pu_ended := True\<rparr>)
          else p2)"

definition pump_finish :: "(nat \<Rightarrow> bool) \<Rightarrow> pump \<Rightarrow> pump" where
  "pump_finish rx p =
     (if pu_pending p \<noteq> [] then fst (send_chunk rx (pu_pending p) (p\<lparr>pu_pending := []\<rparr>)) else p)"

definition pump_stream :: "(nat \<Rightarrow> bool) \<Rightarrow> string list \<Rightarrow> pump" where
  "pump_stream rx lines = pump_finish rx (foldl (pump_line rx) pump_init lines)"

section \<open>Running and awaiting\<close>

record shell_request =
  sh_command :: string
  sh_cwd :: "path option"
  sh_timeout_ms :: "nat option"

record shell_result =
  sr_exit_code :: "int option"
  sr_stdout :: string
  sr_stderr :: string
  sr_duration_ms :: nat
  sr_output_truncated :: bool

text \<open>Signals go to a process or to its group.\<close>

datatype signal_sent = TermGroup nat | TermPid nat | KillGroup nat | KillChild

text \<open>How the wait for the child ends before the time limit, or that the limit came first.\<close>

datatype child_end = ChildExited "int option" | ChildCancelled | WaitFailed io_error | LimitReached

record shell_child =
  ch_pid :: "nat option"
  ch_survives_term :: bool
  ch_stdout :: bytes
  ch_stderr :: bytes
  ch_end :: child_end
  ch_elapsed_ms :: nat

definition terminate_child :: "shell_child \<Rightarrow> signal_sent list" where
  "terminate_child c =
     (case ch_pid c of Some pid \<Rightarrow> [TermGroup pid, TermPid pid] | None \<Rightarrow> []) @
     (if \<not> ch_survives_term c then []
      else (case ch_pid c of Some pid \<Rightarrow> [KillGroup pid] | None \<Rightarrow> []) @ [KillChild])"

text \<open>
  A cancellation terminates the child inside the wait; every end but a normal exit terminates it
  (again) before the pumps are awaited.
\<close>

definition await_result ::
    "nat \<Rightarrow> shell_child \<Rightarrow> pump \<Rightarrow> pump \<Rightarrow> (daemon_error, shell_result) res \<times> signal_sent list" where
  "await_result timeout c out err =
     (let stop = terminate_child c in
      case ch_end c of
        ChildExited code \<Rightarrow>
          (Ok \<lparr>sr_exit_code = code, sr_stdout = fst (pu_acc out), sr_stderr = fst (pu_acc err),
               sr_duration_ms = ch_elapsed_ms c,
               sr_output_truncated = (snd (pu_acc out) \<or> snd (pu_acc err))\<rparr>, [])
      | ChildCancelled \<Rightarrow> (Err Cancelled, stop @ stop)
      | WaitFailed e \<Rightarrow> (Err (Io e), stop)
      | LimitReached \<Rightarrow> (Err (Timeout timeout), stop))"

text \<open>\<open>ShellRunner::run\<close>, awaited: the child runs while its two streams are pumped.\<close>

definition runner_run ::
    "capability_gate \<Rightarrow> (shell_request \<Rightarrow> nat \<Rightarrow> (io_error, shell_child) res) \<Rightarrow> (nat \<Rightarrow> bool) \<Rightarrow> (nat \<Rightarrow> bool) \<Rightarrow>
     shell_request \<Rightarrow> (daemon_error, shell_result) res \<times> signal_sent list" where
  "runner_run g spawn rxo rxe req =
     (if \<not> allows g ''desktop.shell.execute'' then (Err (CapabilityDenied ''desktop.shell.execute''), [])
      else
        let timeout = clamp_timeout (sh_timeout_ms req) in
        (case spawn req timeout of
           Inl e \<Rightarrow> (Err (Io e), [])
         | Inr c \<Rightarrow>
             await_result timeout c (pump_stream rxo (readable_lines (ch_stdout c)))
               (pump_stream rxe (readable_lines (ch_stderr c)))))"

section \<open>Lemmas\<close>

definition printed :: "string list \<Rightarrow> string" where
  "printed lines = concat (map (\<lambda>l. l @ [CHR 0x0A]) lines)"

lemma printed_simps [simp]:
  "printed [] = []" "printed (ls @ [l]) = printed ls @ l @ [CHR 0x0A]"
  by (simp_all add: printed_def)

text \<open>The lines that fit the buffer, from the first on.\<close>

fun fitting :: "nat \<Rightarrow> string list \<Rightarrow> string list" where
  "fitting n [] = []"
| "fitting n (l # ls) =
     (if n + length l + 1 \<le> MAX_OUTPUT_BYTES then l # fitting (n + length l + 1) ls else [])"

lemma take_chars_at_least: "length (take_chars n s) \<ge> n \<or> take_chars n s = s"
proof (induction s arbitrary: n)
  case (Cons c cs)
  show ?case
  proof (cases "is_cont_byte c")
    case True
    with Cons.IH [of n] show ?thesis by auto
  next
    case False
    show ?thesis using Cons.IH [of "n - 1"] False by (cases n) auto
  qed
qed simp

text \<open>What the pump is while everything has fitted so far, with the receiver there.\<close>

definition pump_fits :: "string list \<Rightarrow> pump \<Rightarrow> bool" where
  "pump_fits ls p \<longleftrightarrow>
     pu_acc p = (printed ls, False) \<and> length (printed ls) \<le> MAX_OUTPUT_BYTES \<and> \<not> pu_ended p \<and> \<not> pu_stopped p \<and>
     concat (pu_sent p) @ pu_pending p = printed ls \<and> length (pu_pending p) < STREAM_FLUSH_BYTES \<and>
     list_all (\<lambda>c. STREAM_FLUSH_BYTES \<le> length c) (pu_sent p)"

lemma pump_fits_line:
  assumes "pump_fits ls p" and "length (printed ls) + length l + 1 \<le> MAX_OUTPUT_BYTES"
  shows "pump_fits (ls @ [l]) (pump_line (\<lambda>_. True) p l)"
proof -
  have "push_capped (pu_acc p) (l @ [CHR 0x0A]) = (printed (ls @ [l]), False)"
    using assms by (simp add: pump_fits_def push_capped_def)
  with assms show ?thesis
    by (auto simp: pump_fits_def pump_line_def Let_def send_chunk_def)
qed

text \<open>
  The buffer when the line \<open>l\<close> no longer fits behind the lines \<open>ls\<close>: a first part of it of as many
  characters as bytes were left, and the marker; or nothing more, when no byte was left.
\<close>

definition capped_buffer :: "string list \<Rightarrow> string \<Rightarrow> string" where
  "capped_buffer ls l =
     (let space = 4 * 1024 * 1024 - length (printed ls) in
      if space = 0 then printed ls else printed ls @ take_chars space (l @ [CHR 0x0A]) @ TRUNCATION_MARKER)"

text \<open>Once something was dropped, the buffer stays, and the stream carries the marker and nothing more.\<close>

definition pump_capped :: "string list \<Rightarrow> string \<Rightarrow> pump \<Rightarrow> bool" where
  "pump_capped ls l p \<longleftrightarrow>
     pu_acc p = (capped_buffer ls l, True) \<and> length (capped_buffer ls l) \<ge> MAX_OUTPUT_BYTES \<and>
     \<not> pu_ended p \<and> pu_stopped p \<and> pu_pending p = [] \<and>
     (\<exists>chunks. pu_sent p = chunks @ [TRUNCATION_MARKER] \<and> concat chunks = printed ls \<and>
        length chunks * STREAM_FLUSH_BYTES < length (printed ls) + STREAM_FLUSH_BYTES)"

lemma full_chunks: "list_all (\<lambda>c. n \<le> length c) cs \<Longrightarrow> length cs * n \<le> length (concat cs)"
  by (induction cs) (auto simp: algebra_simps)

lemma push_capped_over:
  assumes "length (printed ls) + length (l @ [CHR 0x0A]) > MAX_OUTPUT_BYTES" and "length (printed ls) \<le> MAX_OUTPUT_BYTES"
  shows "push_capped (printed ls, d) (l @ [CHR 0x0A]) = (capped_buffer ls l, True)"
    and "length (capped_buffer ls l) \<ge> MAX_OUTPUT_BYTES"
proof -
  have m: "4 * 1024 * 1024 = MAX_OUTPUT_BYTES" by (simp add: MAX_OUTPUT_BYTES_def)
  show "push_capped (printed ls, d) (l @ [CHR 0x0A]) = (capped_buffer ls l, True)"
    using assms unfolding capped_buffer_def m by (auto simp: push_capped_def Let_def)
  have "length (take_chars (MAX_OUTPUT_BYTES - length (printed ls)) (l @ [CHR 0x0A])) \<ge> MAX_OUTPUT_BYTES - length (printed ls)"
    using take_chars_at_least [of "MAX_OUTPUT_BYTES - length (printed ls)" "l @ [CHR 0x0A]"] assms(1)
    by (metis add.commute le_diff_conv less_imp_le)
  then show "length (capped_buffer ls l) \<ge> MAX_OUTPUT_BYTES"
    using assms unfolding capped_buffer_def m by (auto simp: Let_def)
qed

text \<open>For text of one byte per character the buffer is at most the cap and the marker.\<close>

lemma take_chars_ascii:
  "list_all (\<lambda>c. of_char c < (128 :: nat)) s \<Longrightarrow> length (take_chars n s) \<le> n"
proof (induction s arbitrary: n)
  case (Cons c cs)
  then have "\<not> is_cont_byte c" by (auto simp: is_cont_byte_def)
  then show ?case using Cons by (cases n) auto
qed simp

lemma capped_buffer_bound:
  assumes "length (printed ls) \<le> 4 * 1024 * 1024" and "list_all (\<lambda>c. of_char c < (128 :: nat)) l"
  shows "length (capped_buffer ls l) \<le> 4 * 1024 * 1024 + length TRUNCATION_MARKER"
proof -
  have "length (take_chars (4 * 1024 * 1024 - length (printed ls)) (l @ [CHR 0x0A])) \<le> 4 * 1024 * 1024 - length (printed ls)"
    by (rule take_chars_ascii) (use assms(2) in simp)
  with assms(1) show ?thesis unfolding capped_buffer_def Let_def by (simp only: length_append split: if_split) linarith
qed

lemma pump_first_drop:
  assumes "pump_fits ls p" and "length (printed ls) + length l + 1 > MAX_OUTPUT_BYTES"
  shows "pump_capped ls l (pump_line (\<lambda>_. True) p l)"
proof -
  have m: "push_capped (pu_acc p) (l @ [CHR 0x0A]) = (capped_buffer ls l, True)"
    "length (capped_buffer ls l) \<ge> MAX_OUTPUT_BYTES"
    using assms push_capped_over [of ls l] by (auto simp: pump_fits_def)
  have full: "length (pu_sent p) * STREAM_FLUSH_BYTES \<le> length (concat (pu_sent p))"
    using assms(1) by (intro full_chunks) (simp add: pump_fits_def)
  have all: "concat (pu_sent p) @ pu_pending p = printed ls" using assms(1) by (simp add: pump_fits_def)
  show ?thesis
  proof (cases "pu_pending p = []")
    case True
    with assms(1) m full all show ?thesis
      by (auto simp: pump_fits_def pump_capped_def pump_line_def Let_def send_chunk_def STREAM_FLUSH_BYTES_def)
  next
    case False
    then have "0 < length (pu_pending p)" by simp
    moreover have "length (concat (pu_sent p)) + length (pu_pending p) = length (printed ls)"
      by (metis all length_append)
    ultimately have "length (pu_sent p) * STREAM_FLUSH_BYTES < length (printed ls)" using full by linarith
    then have "Suc (length (pu_sent p)) * STREAM_FLUSH_BYTES < length (printed ls) + STREAM_FLUSH_BYTES" by simp
    with False assms(1) m all show ?thesis
      by (auto simp: pump_fits_def pump_capped_def pump_line_def Let_def send_chunk_def
          intro!: exI [of _ "pu_sent p @ [pu_pending p]"])
  qed
qed

lemma pump_capped_line: "pump_capped ls l p \<Longrightarrow> pump_line (\<lambda>_. True) p x = p"
  by (simp add: pump_capped_def pump_line_def push_capped_def Let_def)

lemma pump_capped_lines: "pump_capped ls l p \<Longrightarrow> foldl (pump_line (\<lambda>_. True)) p ms = p"
  by (induction ms) (simp_all add: pump_capped_line)

lemma fitting_printed:
  "n \<le> MAX_OUTPUT_BYTES \<Longrightarrow> n + length (printed (fitting n ls)) \<le> MAX_OUTPUT_BYTES"
proof (induction ls arbitrary: n)
  case (Cons l ls)
  then show ?case using Cons.IH [of "n + length l + 1"] by (simp add: printed_def add.assoc)
qed (simp add: printed_def)

lemma fitting_over:
  "ls = fitting n ls @ l # rest \<Longrightarrow> MAX_OUTPUT_BYTES < n + length (printed (fitting n ls @ [l]))"
proof (induction ls arbitrary: n)
  case (Cons x ls)
  show ?case
  proof (cases "n + length x + 1 \<le> MAX_OUTPUT_BYTES")
    case True
    with Cons.prems Cons.IH [of "n + length x + 1"] show ?thesis by (simp add: printed_def)
  next
    case False
    with Cons.prems show ?thesis by (simp add: printed_def)
  qed
qed simp

lemma pump_lines:
  assumes "pump_fits ls p"
  shows "let kept = fitting (length (printed ls)) ms; q = foldl (pump_line (\<lambda>_. True)) p ms in
    if kept = ms then pump_fits (ls @ ms) q
    else (\<exists>l rest. ms = kept @ l # rest \<and> pump_capped (ls @ kept) l q)"
  using assms
proof (induction ms arbitrary: ls p)
  case (Cons m ms)
  show ?case
  proof (cases "length (printed ls) + length m + 1 \<le> MAX_OUTPUT_BYTES")
    case True
    then have "pump_fits (ls @ [m]) (pump_line (\<lambda>_. True) p m)" using Cons.prems by (intro pump_fits_line) auto
    from Cons.IH [OF this] True show ?thesis
      by (cases "fitting (length (printed ls) + length m + 1) ms = ms") (auto simp: Let_def)
  next
    case False
    then have "length (printed ls) + length m + 1 > MAX_OUTPUT_BYTES" by auto
    from pump_first_drop [OF Cons.prems this] False show ?thesis
      by (simp add: Let_def pump_capped_lines)
  qed
qed simp

section \<open>Properties\<close>

text \<open>
  C30. The pump's buffer and live stream, exactly. With the connection open, let the kept lines
  be the longest run of lines from the first that fits 4 MiB. If that is all of them, the buffer
  and the concatenated chunks of the stream are both the whole output, and nothing is flagged. If
  not, the flag is set and the stream carries the kept lines and one truncation marker, however
  much follows. The buffer carries the kept lines too and, unless they fill the 4 MiB exactly, a
  first part of the next line with as many characters as bytes were left and then the marker: so
  one over-long line is in the buffer in part and not in the stream at all. In either case a
  buffer of one-byte characters never exceeds 4 MiB and the marker, and the number of frames is at
  most one per 8 KiB of kept output, plus two.
\<close>

theorem pump_caps_and_streams:
  assumes "kept = fitting 0 lines" and "p = pump_stream (\<lambda>_. True) lines"
  shows "length (pu_sent p) \<le> length (printed kept) div (8 * 1024) + 2 \<and>
    length (printed kept) \<le> 4 * 1024 * 1024 \<and>
    (if kept = lines
     then pu_acc p = (printed lines, False) \<and> concat (pu_sent p) = printed lines
     else \<exists>l rest. lines = kept @ l # rest \<and> 4 * 1024 * 1024 < length (printed (kept @ [l])) \<and>
       concat (pu_sent p) = printed kept @ TRUNCATION_MARKER \<and> snd (pu_acc p) \<and>
       fst (pu_acc p) =
         (let space = 4 * 1024 * 1024 - length (printed kept) in
          if space = 0 then printed kept
          else printed kept @ take_chars space (l @ [CHR 0x0A]) @ TRUNCATION_MARKER)) \<and>
    (list_all (list_all (\<lambda>c. of_char c < (128 :: nat))) lines \<longrightarrow>
       length (fst (pu_acc p)) \<le> 4 * 1024 * 1024 + length TRUNCATION_MARKER)"
proof -
  let ?q = "foldl (pump_line (\<lambda>_. True)) pump_init lines"
  have "pump_fits [] pump_init" by (simp add: pump_fits_def pump_init_def STREAM_FLUSH_BYTES_def)
  from pump_lines [OF this, of lines] assms(1)
  have q: "if kept = lines then pump_fits lines ?q else (\<exists>l rest. lines = kept @ l # rest \<and> pump_capped kept l ?q)"
    by (cases "fitting 0 lines = lines") (simp_all add: Let_def)
  have frames: "n \<le> m div STREAM_FLUSH_BYTES + 1" if "n * STREAM_FLUSH_BYTES < m + STREAM_FLUSH_BYTES" for n m
    using div_less_iff_less_mult [of STREAM_FLUSH_BYTES "m" n] that
    by (simp add: STREAM_FLUSH_BYTES_def)
  have flush: "STREAM_FLUSH_BYTES = 8 * 1024" by (simp add: STREAM_FLUSH_BYTES_def)
  have small: "length (printed kept) \<le> 4 * 1024 * 1024"
    using fitting_printed [of 0 lines] assms(1) by (simp add: MAX_OUTPUT_BYTES_def)
  show ?thesis
  proof (cases "kept = lines")
    case True
    with q have f: "pump_fits lines ?q" by simp
    then have "length (pu_sent ?q) * STREAM_FLUSH_BYTES \<le> length (concat (pu_sent ?q))"
      by (intro full_chunks) (simp add: pump_fits_def)
    also have "\<dots> \<le> length (printed lines)" using f by (metis pump_fits_def length_append le_add1)
    finally have n: "length (pu_sent ?q) \<le> length (printed lines) div STREAM_FLUSH_BYTES + 1"
      by (intro frames) (simp add: STREAM_FLUSH_BYTES_def)
    have p: "pu_acc p = (printed lines, False)" "concat (pu_sent p) = printed lines"
      "length (pu_sent p) \<le> length (printed lines) div STREAM_FLUSH_BYTES + 2"
      using f n assms(2) by (auto simp: pump_stream_def pump_finish_def pump_fits_def send_chunk_def)
    with True small show ?thesis unfolding flush by simp
  next
    case False
    with q obtain l rest where l: "lines = kept @ l # rest" "pump_capped kept l ?q" by auto
    then have acc: "pu_acc p = (capped_buffer kept l, True)" "concat (pu_sent p) = printed kept @ TRUNCATION_MARKER"
      "length (pu_sent p) \<le> length (printed kept) div STREAM_FLUSH_BYTES + 2"
      using assms(2) frames by (auto simp: pump_stream_def pump_finish_def pump_capped_def)
    have over: "4 * 1024 * 1024 < length (printed (kept @ [l]))"
      using fitting_over [OF l(1) [unfolded assms(1)]] unfolding assms(1) MAX_OUTPUT_BYTES_def by (simp only: add_0)
    have bound: "length (capped_buffer kept l) \<le> 4 * 1024 * 1024 + length TRUNCATION_MARKER"
      if "list_all (list_all (\<lambda>c. of_char c < (128 :: nat))) lines"
      using capped_buffer_bound [OF small, of l] that unfolding l(1) list_all_append by (simp only: list.pred_inject)
    have parts: "length (pu_sent p) \<le> length (printed kept) div (8 * 1024) + 2"
      "snd (pu_acc p)" "fst (pu_acc p) = capped_buffer kept l"
      using acc unfolding flush by (simp_all only: fst_conv snd_conv)
    have len: "list_all (list_all (\<lambda>c. of_char c < (128 :: nat))) lines \<longrightarrow>
        length (fst (pu_acc p)) \<le> 4 * 1024 * 1024 + length TRUNCATION_MARKER"
      using bound unfolding parts(3) by blast
    show ?thesis
      unfolding if_not_P [OF False]
      by (intro conjI exI [of _ l] exI [of _ rest] parts small l(1) over acc(2) len
          parts(3) [unfolded capped_buffer_def])
  qed
qed

theorem pump_caps_and_streams_witness:
  "let lines = [''ok'', ''done''] in
   fitting 0 lines = lines \<and> pu_acc (pump_stream (\<lambda>_. True) lines) = (printed lines, False) \<and>
   length (pu_sent (pump_stream (\<lambda>_. True) lines)) \<le> 2"
proof -
  have f: "fitting 0 [''ok'', ''done''] = [''ok'', ''done'']" by (simp add: MAX_OUTPUT_BYTES_def)
  from pump_caps_and_streams [OF refl refl, of "[''ok'', ''done'']"] f show ?thesis
    unfolding Let_def f by (simp add: printed_def)
qed

section \<open>What the cap does not do\<close>

text \<open>
  The bytes left are used as a number of characters: a line of multi-byte characters that has
  no more characters than bytes are left is kept whole past the cap.
\<close>

lemma push_capped_overshoots:
  assumes "length buf < MAX_OUTPUT_BYTES" and "length buf + length data > MAX_OUTPUT_BYTES"
    and "char_count data \<le> MAX_OUTPUT_BYTES - length buf"
  shows "push_capped (buf, d) data = (buf @ data @ TRUNCATION_MARKER, True)"
  using assms by (simp add: push_capped_def take_chars_all)

text \<open>A stream that fills the buffer exactly gets no marker into it when more follows.\<close>

lemma full_buffer_gets_no_marker:
  "length buf = MAX_OUTPUT_BYTES \<Longrightarrow> push_capped (buf, False) data = (buf, True)"
  by (simp add: push_capped_def)

text \<open>A line that is not UTF-8 ends the pump: what the child prints after it is never read.\<close>

lemma invalid_line_ends_the_output:
  "readable_lines (''a'' @ [CHR 0x0A, CHR 0xFF, CHR 0x0A] @ ''b'' @ [CHR 0x0A]) = [''a'']"
  by code_simp

text \<open>Nothing runs without the capability; an abnormal end always signals the child's group first.\<close>

lemma shell_refused:
  "\<not> allows g ''desktop.shell.execute'' \<Longrightarrow>
   runner_run g spawn rxo rxe req = (Err (CapabilityDenied ''desktop.shell.execute''), [])"
  by (simp add: runner_run_def)

lemma abnormal_end_kills_group:
  assumes "runner_run g spawn rxo rxe req = (Err e, sent)" and "spawn req (clamp_timeout (sh_timeout_ms req)) = Ok c"
    and "allows g ''desktop.shell.execute''" and "ch_pid c = Some pid"
  shows "\<exists>rest. sent = TermGroup pid # TermPid pid # rest \<and>
    (ch_survives_term c \<longrightarrow> KillGroup pid \<in> set rest)"
  using assms by (auto simp: runner_run_def await_result_def terminate_child_def Let_def split: child_end.splits)

end
