(* ===== verification/Ws_Client.thy ===== *)
theory Ws_Client
  imports Ws_Support Consent Health Fs_Ops Checkpoint Chat_Store Shell
begin

text \<open>
  The WebSocket client (\<open>daemon-core/src/ws_client.rs\<close>): its shared state, the primitives that
  answer and gate an action, and one definition per arm of \<open>handle_action\<close>.

  The state \<open>client\<close> holds what \<open>WsClient\<close> shares with the rest of the daemon, the disk, and
  the frames sent so far. A handler runs to its end before the loop takes the next event, so
  it is a function from the state to its result and the new state. \<open>env\<close> is what the handler
  gets from outside: the clock, fresh identifiers, whether the socket still takes frames, the
  serde decoders of the parameter types, and the engines (language servers, browser, shell,
  processes, memory, ...), whose effect on the disk is arbitrary.
\<close>

section \<open>State\<close>

record client =
  cl_gate :: capability_gate
  cl_broker :: consent_broker
  cl_parked :: "(string \<times> action_request_frame \<times> nat) list"
  cl_tasks :: task_globals
  cl_health :: ws_health
  cl_checkpoints :: "checkpoint_store option"
  cl_chat :: chat_db
  cl_fs :: host_fs
  cl_audit :: "string list"
  cl_sent :: "bridge_frame list"

datatype op_error = OpDaemon daemon_error | OpOther string

datatype shell_final = ShellResult shell_result | ShellError daemon_error | ShellJoinError string

record shell_run =
  run_chunks :: "(string \<times> string) list"
  run_final :: shell_final

record env =
  e_now :: nat
  e_elapsed :: nat
  e_clock :: string
  e_socket_error :: "string option"
  e_parse_uuid :: "string \<Rightarrow> uuid option"
  e_token :: nat
  e_uuid1 :: string
  e_uuid2 :: string
  e_lib :: store_lib
  e_dbg :: dbg
  e_lower :: "string \<Rightarrow> string"
  e_home :: "string option"
  e_json_text :: "json \<Rightarrow> string"
  e_read_req :: "json \<Rightarrow> (string, fs_read_request) res"
  e_write_req :: "json \<Rightarrow> (string, fs_write_request) res"
  e_patch_req :: "json \<Rightarrow> (string, fs_patch_request) res"
  e_delete_req :: "json \<Rightarrow> (string, fs_delete_request) res"
  e_verify_req :: "json \<Rightarrow> (string, fs_verify_request) res"
  e_list_req :: "json \<Rightarrow> (string, fs_list_request) res"
  e_path_req :: "string \<Rightarrow> json \<Rightarrow> (string, path \<times> json) res"
  e_engine_req :: "string \<Rightarrow> json \<Rightarrow> (string, json) res"
  e_engine :: "string \<Rightarrow> json \<Rightarrow> capability_gate \<Rightarrow> host_fs \<Rightarrow> (op_error, json) res \<times> host_fs"
  e_edit :: "json \<Rightarrow> capability_gate \<Rightarrow> host_fs \<Rightarrow> (daemon_error, bool \<times> json) res \<times> host_fs"
  e_rename :: "json \<Rightarrow> capability_gate \<Rightarrow> host_fs \<Rightarrow> (daemon_error, nat \<times> json) res \<times> host_fs"
  e_eval :: "json \<Rightarrow> capability_gate \<Rightarrow> host_fs \<Rightarrow> (daemon_error, json) res \<times> host_fs"
  e_memory :: "json \<Rightarrow> (string, json) res option"
  e_shell :: "json \<Rightarrow> capability_gate \<Rightarrow> host_fs \<Rightarrow> (daemon_error, shell_run) res \<times> host_fs"
  e_sql :: "nat \<Rightarrow> sql_env"
  e_now_word :: u64
  e_conversation :: "json \<Rightarrow> (string, chat_conversation) res"
  e_artifact :: "json \<Rightarrow> (string, chat_artifact) res"
  e_project :: "json \<Rightarrow> (string, chat_project) res"

type_synonym 'a ws_res = "(daemon_error, 'a) res \<times> client"

section \<open>Answering\<close>

definition ws_send :: "env \<Rightarrow> client \<Rightarrow> bridge_frame \<Rightarrow> unit ws_res" where
  "ws_send env c f =
     (case e_socket_error env of
        Some e \<Rightarrow> (Err (Ws e), c)
      | None \<Rightarrow> (Ok (), c\<lparr>cl_sent := cl_sent c @ [f]\<rparr>))"

definition result_status :: "bool \<Rightarrow> string option \<Rightarrow> task_status" where
  "result_status ok error =
     (if ok then Completed None
      else if error = Some ''action_cancelled'' then Killed
      else Failed (case error of Some e \<Rightarrow> e | None \<Rightarrow> ''action_failed''))"

definition result_frame :: "string \<Rightarrow> bool \<Rightarrow> json option \<Rightarrow> string option \<Rightarrow> nat \<Rightarrow> action_result_frame" where
  "result_frame action_id ok output error duration_ms =
     \<lparr>rs_v = PROTOCOL_VERSION, rs_id = action_id, rs_ok = ok, rs_output = output,
      rs_error = map_option (\<lambda>message.
        \<lparr>ae_code = (if message = ''action_cancelled'' then ''action_cancelled'' else ''action_failed''),
         ae_message = message\<rparr>) error,
      rs_duration_ms = duration_ms\<rparr>"

definition send_action_result ::
    "env \<Rightarrow> client \<Rightarrow> string \<Rightarrow> bool \<Rightarrow> json option \<Rightarrow> string option \<Rightarrow> nat \<Rightarrow> unit ws_res" where
  "send_action_result env c action_id ok output error duration_ms =
     (let c1 = (case e_parse_uuid env action_id of
                  Some i \<Rightarrow> c\<lparr>cl_tasks := finish_global_task (e_now env) i (result_status ok error) (cl_tasks c)\<rparr>
                | None \<Rightarrow> c)
      in ws_send env c1 (ActionResult (result_frame action_id ok output error duration_ms)))"

definition send_error :: "env \<Rightarrow> client \<Rightarrow> string \<Rightarrow> string \<Rightarrow> unit ws_res" where
  "send_error env c action_id error = send_action_result env c action_id False None (Some error) 0"

definition register_task :: "env \<Rightarrow> client \<Rightarrow> action_request_frame \<Rightarrow> client" where
  "register_task env c r =
     (case e_parse_uuid env (ar_id r) of
        None \<Rightarrow> c
      | Some i \<Rightarrow> c\<lparr>cl_tasks := record_global_task
          \<lparr>task_id = i, task_kind_of = task_kind_of_capability (ar_capability r),
           task_description = ar_capability r @ '' '' @ middle_dot @ '' '' @ ar_id r,
           task_status_of = Running, started_at = e_now env, finished_at = None\<rparr> (cl_tasks c)\<rparr>)"

definition audit :: "env \<Rightarrow> client \<Rightarrow> action_request_frame \<Rightarrow> client" where
  "audit env c r =
     c\<lparr>cl_audit := cl_audit c @ [''['' @ e_clock env @ ''] CAPABILITY: '' @ ar_capability r @ '' PARAMS: '' @
         redact_audit_params (e_json_text env) (ar_params r) @ [CHR 0x0A]]\<rparr>"

section \<open>Gating a path\<close>

definition consent_relay :: "action_request_frame \<Rightarrow> string \<Rightarrow> string \<Rightarrow> string \<Rightarrow> consent_prompt_frame" where
  "consent_relay r cap summary p =
     \<lparr>cp_v = PROTOCOL_VERSION, cp_id = ar_id r, cp_capability = cap, cp_summary = summary,
      cp_params_hash = [], cp_path = Some p\<rparr>"

text \<open>Relay the prompt to the web (best effort) and register it with the broker.\<close>

definition raise_consent :: "env \<Rightarrow> client \<Rightarrow> action_request_frame \<Rightarrow> string \<Rightarrow> string \<Rightarrow> string \<Rightarrow> client" where
  "raise_consent env c r cap summary p =
     (let c1 = snd (ws_send env c (ConsentPrompt (consent_relay r cap summary p)))
      in c1\<lparr>cl_broker := fst (ask (cl_broker c1)
           \<lparr>prompt_action_id = ar_id r, prompt_capability = cap, prompt_summary = summary, prompt_path = Some p\<rparr>)\<rparr>)"

definition gate_allows_path :: "client \<Rightarrow> string \<Rightarrow> path \<Rightarrow> bool" where
  "gate_allows_path c cap p = (check_path_real (canonicalize (cl_fs c)) (cl_gate c) cap p = Ok Allow)"

definition path_gate ::
    "env \<Rightarrow> client \<Rightarrow> action_request_frame \<Rightarrow> string \<Rightarrow> path \<Rightarrow> consent_answer option \<Rightarrow> capability_gate ws_res" where
  "path_gate env c r cap p decision =
     (if \<not> allows (cl_gate c) cap then (Err (CapabilityDenied cap), c)
      else if ar_skip_consent_prompt r \<and> gate_allows_path c cap p
        then (Ok (with_additional_path (cl_gate c) p), c)
      else if gate_allows_path c cap p then (Ok (cl_gate c), c)
      else
        (case decision of
           Some ans \<Rightarrow>
             if approved ans then
               (let c1 = (if remember ans then c\<lparr>cl_gate := with_additional_path (cl_gate c) p\<rparr> else c)
                in (Ok (with_one_shot_path (cl_gate c1) p), c1))
             else (Err (CapabilityDenied (''consentimiento denegado por el usuario para '' @ cap @
                     '' sobre '' @ path_display p)), c)
         | None \<Rightarrow>
             (Err AwaitingConsent,
              raise_consent env c r cap (cap @ '' sobre '' @ path_display p) (path_display p))))"

definition checkpoint_before :: "env \<Rightarrow> client \<Rightarrow> action_request_frame \<Rightarrow> path \<Rightarrow> (string, unit) res \<times> client" where
  "checkpoint_before env c r p =
     (case cl_checkpoints c of
        None \<Rightarrow> (Ok (), c)
      | Some store \<Rightarrow>
          (case capture (e_lib env) (cl_fs c) store (e_now env) (ar_id r) (ar_capability r) p of
             (Inr _, fs) \<Rightarrow> (Ok (), c\<lparr>cl_fs := fs\<rparr>)
           | (Inl e, fs) \<Rightarrow> (Err (''checkpoint failed (mutation refused): '' @ checkpoint_error_to_string e), c\<lparr>cl_fs := fs\<rparr>)))"

text \<open>\<open>dispatch_op!\<close>: only the park marker of a \<open>DaemonError\<close> is passed on.\<close>

fun op_error_to_string :: "op_error \<Rightarrow> string" where
  "op_error_to_string (OpDaemon e) = error_to_string e"
| "op_error_to_string (OpOther m) = m"

definition is_awaiting_consent :: "op_error \<Rightarrow> bool" where
  "is_awaiting_consent e = (e = OpDaemon AwaitingConsent)"

definition bad_params :: "env \<Rightarrow> client \<Rightarrow> action_request_frame \<Rightarrow> string \<Rightarrow> unit ws_res" where
  "bad_params env c r e = send_error env c (ar_id r) (''bad params: '' @ e)"

definition dispatch_op ::
    "env \<Rightarrow> client \<Rightarrow> action_request_frame \<Rightarrow> (string, 'p) res \<Rightarrow> ('p \<Rightarrow> client \<Rightarrow> (op_error, json) res \<times> client) \<Rightarrow> unit ws_res" where
  "dispatch_op env c r parsed run =
     (case parsed of
        Inl e \<Rightarrow> bad_params env c r e
      | Inr value \<Rightarrow>
          (case run value c of
             (Inr out, c1) \<Rightarrow> send_action_result env c1 (ar_id r) True (Some out) None (e_elapsed env)
           | (Inl e, c1) \<Rightarrow>
               if is_awaiting_consent e then (Err AwaitingConsent, c1)
               else send_error env c1 (ar_id r) (op_error_to_string e)))"

text \<open>The hand-written arms: after the gate, an error is answered and the park marker passed on.\<close>

definition with_path_gate ::
    "env \<Rightarrow> client \<Rightarrow> action_request_frame \<Rightarrow> string \<Rightarrow> path \<Rightarrow> consent_answer option \<Rightarrow>
     (capability_gate \<Rightarrow> client \<Rightarrow> unit ws_res) \<Rightarrow> unit ws_res" where
  "with_path_gate env c r cap p decision k =
     (case path_gate env c r cap p decision of
        (Inr gate, c1) \<Rightarrow> k gate c1
      | (Inl e, c1) \<Rightarrow> if e = AwaitingConsent then (Err AwaitingConsent, c1)
                       else send_error env c1 (ar_id r) (error_to_string e))"

definition with_checkpoint ::
    "env \<Rightarrow> client \<Rightarrow> action_request_frame \<Rightarrow> path \<Rightarrow> (client \<Rightarrow> unit ws_res) \<Rightarrow> unit ws_res" where
  "with_checkpoint env c r p k =
     (case checkpoint_before env c r p of
        (Inr _, c1) \<Rightarrow> k c1
      | (Inl e, c1) \<Rightarrow> send_error env c1 (ar_id r) e)"

end
