(* ===== verification/Ws_Arms.thy ===== *)
theory Ws_Arms
  imports Ws_Client
begin

text \<open>
  The arms of \<open>handle_action\<close> (\<open>ws_client.rs\<close>), one definition each in the order of the code,
  and \<open>handle_action\<close> itself. An arm returns its outcome; the arms that leave the handler
  early (\<open>return\<close>, or \<open>?\<close> outside a block) return a \<open>Return\<close>. JSON objects list their members
  in key order.
\<close>

datatype flow = Outcome "(daemon_error, unit) res" | Return "(daemon_error, unit) res"

definition outcome :: "unit ws_res \<Rightarrow> flow \<times> client" where
  "outcome r = (Outcome (fst r), snd r)"

definition early :: "unit ws_res \<Rightarrow> flow \<times> client" where
  "early r = (Return (fst r), snd r)"

section \<open>File arms\<close>

definition arm_read :: "env \<Rightarrow> client \<Rightarrow> action_request_frame \<Rightarrow> consent_answer option \<Rightarrow> unit ws_res" where
  "arm_read env c r decision =
     dispatch_op env c r (e_read_req env (ar_params r)) (\<lambda>value c.
       let annotate = (case rd_annotate value of Some b \<Rightarrow> b | None \<Rightarrow> False) in
       case path_gate env c r ''desktop.fs.read'' (rd_path value) decision of
         (Inl e, c1) \<Rightarrow> (Err (OpDaemon e), c1)
       | (Inr gate, c1) \<Rightarrow>
           (case fs_ops_read_annotated (sha256_hex (e_lib env)) (cl_fs c1) gate value annotate of
              Inl e \<Rightarrow> (Err (OpDaemon e), c1)
            | Inr res \<Rightarrow> (Ok (JObj [(''content_base64'', JStr (rr_content_base64 res)),
                (''size'', JInt (int (rr_size res))), (''truncated'', JBool (rr_truncated res))]), c1)))"

definition patch_json :: "fs_patch_result \<Rightarrow> json" where
  "patch_json res = JObj
     [(''applied'', JArr (map (\<lambda>a. JObj [(''end_line'', JInt (int (applied_end_line a))),
         (''lines_added'', JInt (int (applied_lines_added a))),
         (''start_line'', JInt (int (applied_start_line a)))]) (pr_applied res))),
      (''bytes_written'', JInt (int (pr_bytes_written res))), (''verified'', JBool (pr_verified res))]"

definition arm_patch :: "env \<Rightarrow> client \<Rightarrow> action_request_frame \<Rightarrow> consent_answer option \<Rightarrow> unit ws_res" where
  "arm_patch env c r decision =
     (case e_patch_req env (ar_params r) of
        Inl e \<Rightarrow> bad_params env c r e
      | Inr value \<Rightarrow>
          with_path_gate env c r ''desktop.fs.write'' (pt_path value) decision (\<lambda>gate c1.
          with_checkpoint env c1 r (pt_path value) (\<lambda>c2.
            case fs_ops_patch (e_dbg env) (sha256_hex (e_lib env)) (cl_fs c2) gate (e_uuid1 env) value of
              (Inr res, fs) \<Rightarrow> send_action_result env (c2\<lparr>cl_fs := fs\<rparr>) (ar_id r) (pr_verified res)
                (Some (patch_json res))
                (if pr_verified res then None else Some ''patch read-back verification failed'') (e_elapsed env)
            | (Inl e, fs) \<Rightarrow> send_error env (c2\<lparr>cl_fs := fs\<rparr>) (ar_id r) (error_to_string e))))"

definition arm_write :: "env \<Rightarrow> client \<Rightarrow> action_request_frame \<Rightarrow> consent_answer option \<Rightarrow> unit ws_res" where
  "arm_write env c r decision =
     (case e_write_req env (ar_params r) of
        Inl e \<Rightarrow> bad_params env c r e
      | Inr value \<Rightarrow>
          with_path_gate env c r ''desktop.fs.write'' (wr_path value) decision (\<lambda>gate c1.
          with_checkpoint env c1 r (wr_path value) (\<lambda>c2.
            case fs_ops_write (cl_fs c2) gate (e_uuid1 env) value of
              (Inr res, fs) \<Rightarrow> send_action_result env (c2\<lparr>cl_fs := fs\<rparr>) (ar_id r) (ww_verified res)
                (Some (JObj [(''bytes_written'', JInt (int (ww_bytes_written res))), (''verified'', JBool (ww_verified res))]))
                (if ww_verified res then None else Some ''write read-back verification failed'') (e_elapsed env)
            | (Inl e, fs) \<Rightarrow> send_error env (c2\<lparr>cl_fs := fs\<rparr>) (ar_id r) (error_to_string e))))"

text \<open>\<open>ast_edit\<close> checkpoints first; its own gate check is inside the AST engine.\<close>

definition arm_ast_edit :: "env \<Rightarrow> client \<Rightarrow> action_request_frame \<Rightarrow> unit ws_res" where
  "arm_ast_edit env c r =
     (case e_path_req env (ar_capability r) (ar_params r) of
        Inl e \<Rightarrow> bad_params env c r e
      | Inr (p, value) \<Rightarrow>
          with_checkpoint env c r p (\<lambda>c1.
            case e_edit env value (cl_gate c1) (cl_fs c1) of
              (Inr (verified, out), fs) \<Rightarrow> send_action_result env (c1\<lparr>cl_fs := fs\<rparr>) (ar_id r) verified (Some out)
                (if verified then None else Some ''ast_edit read-back verification failed'') (e_elapsed env)
            | (Inl e, fs) \<Rightarrow> send_error env (c1\<lparr>cl_fs := fs\<rparr>) (ar_id r) (error_to_string e)))"

text \<open>The park marker is not among the cases of this arm: it is answered like any error.\<close>

definition arm_delete :: "env \<Rightarrow> client \<Rightarrow> action_request_frame \<Rightarrow> consent_answer option \<Rightarrow> unit ws_res" where
  "arm_delete env c r decision =
     (case e_delete_req env (ar_params r) of
        Inl e \<Rightarrow> bad_params env c r e
      | Inr value \<Rightarrow>
          (case path_gate env c r ''desktop.fs.delete'' (del_path value) decision of
             (Inl e, c1) \<Rightarrow> send_error env c1 (ar_id r) (error_to_string e)
           | (Inr gate, c1) \<Rightarrow>
               with_checkpoint env c1 r (del_path value) (\<lambda>c2.
                 case fs_ops_delete (cl_fs c2) gate value of
                   (Inr _, fs) \<Rightarrow> send_action_result env (c2\<lparr>cl_fs := fs\<rparr>) (ar_id r) True
                     (Some (JObj [(''deleted'', JBool True)])) None (e_elapsed env)
                 | (Inl e, fs) \<Rightarrow> send_error env (c2\<lparr>cl_fs := fs\<rparr>) (ar_id r) (error_to_string e))))"

definition arm_verify :: "env \<Rightarrow> client \<Rightarrow> action_request_frame \<Rightarrow> consent_answer option \<Rightarrow> unit ws_res" where
  "arm_verify env c r decision =
     (case e_verify_req env (ar_params r) of
        Inl e \<Rightarrow> bad_params env c r e
      | Inr value \<Rightarrow>
          with_path_gate env c r ''desktop.fs.verify'' (vf_path value) decision (\<lambda>gate c1.
            case fs_ops_verify (cl_fs c1) (e_uuid1 env) (e_uuid2 env) value of
              (res, fs) \<Rightarrow> send_action_result env (c1\<lparr>cl_fs := fs\<rparr>) (ar_id r)
                (vf_exists res \<and> vf_readable res \<and> vf_writable res)
                (Some (JObj [(''exists'', JBool (vf_exists res)), (''is_dir'', JBool (vf_is_dir res)),
                   (''readable'', JBool (vf_readable res)), (''writable'', JBool (vf_writable res))]))
                (vf_error res) (e_elapsed env)))"

definition list_json :: "fs_list_result \<Rightarrow> json" where
  "list_json res = JObj
     [(''entries'', JArr (map (\<lambda>e. JObj [(''is_dir'', JBool (entry_is_dir e)), (''name'', JStr (entry_name_of e)),
         (''path'', JStr (entry_path e))]) (ls_entries res))),
      (''parent'', case ls_parent res of Some p \<Rightarrow> JStr p | None \<Rightarrow> JNull)]"

definition arm_list :: "env \<Rightarrow> client \<Rightarrow> action_request_frame \<Rightarrow> consent_answer option \<Rightarrow> unit ws_res" where
  "arm_list env c r decision =
     dispatch_op env c r (e_list_req env (ar_params r)) (\<lambda>value c.
       let target = str_trim (case ls_path value of Some s \<Rightarrow> s | None \<Rightarrow> []);
           run = (\<lambda>c1. case fs_ops_list (cl_fs c1) (e_lower env) (e_home env) value of
                    Inl e \<Rightarrow> (Err (OpDaemon e), c1)
                  | Inr res \<Rightarrow> (Ok (list_json res), c1)) in
       if target = [] then run c
       else
         (case path_gate env c r ''desktop.fs.list'' (path_components target) decision of
            (Inl e, c1) \<Rightarrow> (Err (OpDaemon e), c1)
          | (Inr _, c1) \<Rightarrow> run c1))"

definition arm_watch :: "env \<Rightarrow> client \<Rightarrow> action_request_frame \<Rightarrow> consent_answer option \<Rightarrow> unit ws_res" where
  "arm_watch env c r decision =
     (case e_path_req env (ar_capability r) (ar_params r) of
        Inl e \<Rightarrow> bad_params env c r e
      | Inr (p, value) \<Rightarrow>
          with_path_gate env c r ''desktop.fs.watch'' p decision (\<lambda>_ c1.
            case e_engine env (ar_capability r) value (cl_gate c1) (cl_fs c1) of
              (Inr out, fs) \<Rightarrow> send_action_result env (c1\<lparr>cl_fs := fs\<rparr>) (ar_id r) True (Some out) None (e_elapsed env)
            | (Inl e, fs) \<Rightarrow> send_error env (c1\<lparr>cl_fs := fs\<rparr>) (ar_id r) (op_error_to_string e)))"

section \<open>Undo arms\<close>

definition entry_json :: "checkpoint_entry \<Rightarrow> json" where
  "entry_json e = JObj
     [(''action_id'', JStr (ck_action_id e)), (''capability'', JStr (ck_capability e)),
      (''existed'', JBool (ck_existed e)), (''hash'', JStr (ck_hash e)), (''path'', JStr (ck_path e)),
      (''size'', JInt (int (ck_size e))), (''truncated'', JBool (ck_truncated e)), (''ts'', JInt (int (ck_ts e)))]"

definition arm_restore :: "env \<Rightarrow> client \<Rightarrow> action_request_frame \<Rightarrow> consent_answer option \<Rightarrow> flow \<times> client" where
  "arm_restore env c r decision =
     (let ts = (case Option.bind (json_get (ar_params r) ''ts'') as_u64 of Some t \<Rightarrow> t | None \<Rightarrow> 0) in
      if ts = 0 then early (send_error env c (ar_id r) ''bad params: ts (ms) requerido'')
      else
        (case cl_checkpoints c of
           None \<Rightarrow> early (send_error env c (ar_id r) ''checkpoint store unavailable'')
         | Some store \<Rightarrow>
             (case find (\<lambda>e. ck_ts e = ts) (checkpoint_list (e_lib env) (cl_fs c) store) of
                None \<Rightarrow> early (send_error env c (ar_id r)
                  (''checkpoint '' @ nat_to_string ts @ '' no existe ('' @ inverted_question @ ''evicted?)''))
              | Some entry \<Rightarrow>
                  (let granted = allows (cl_gate c) ''desktop.fs.restore'';
                       resolved = (if granted then Some \<lparr>approved = True, remember = False\<rparr> else decision) in
                   outcome
                     (case resolved of
                        None \<Rightarrow> (Err AwaitingConsent,
                          raise_consent env c r ''desktop.fs.restore''
                            (''Restaurar '' @ ck_path entry @ '' desde checkpoint'') (ck_path entry))
                      | Some ans \<Rightarrow>
                          if \<not> approved ans then
                            send_error env c (ar_id r) ''capability_denied: desktop.fs.restore (denegado por el owner)''
                          else
                            (case restore (e_lib env) (cl_fs c) store (e_now env) ts of
                               (Inr rollback, fs) \<Rightarrow> send_action_result env (c\<lparr>cl_fs := fs\<rparr>) (ar_id r) True
                                 (Some (JObj [(''path'', JStr (ck_path entry)), (''restored'', JBool True),
                                    (''rollback_ts'', JInt (int (ck_ts rollback))), (''ts'', JInt (int ts))]))
                                 None (e_elapsed env)
                             | (Inl e, fs) \<Rightarrow> send_error env (c\<lparr>cl_fs := fs\<rparr>) (ar_id r)
                                 (''restore failed: '' @ checkpoint_error_to_string e)))))))"

definition arm_checkpoint_list :: "env \<Rightarrow> client \<Rightarrow> action_request_frame \<Rightarrow> consent_answer option \<Rightarrow> unit ws_res" where
  "arm_checkpoint_list env c r decision =
     dispatch_op env c r (Ok (ar_params r)) (\<lambda>value c.
       case path_gate env c r ''desktop.fs.read'' [] decision of
         (Inl e, c1) \<Rightarrow> (Err (OpDaemon e), c1)
       | (Inr _, c1) \<Rightarrow>
           (Ok (JObj [(''entries'', JArr (case cl_checkpoints c1 of
              Some store \<Rightarrow> map entry_json (take 200 (checkpoint_list (e_lib env) (cl_fs c1) store))
            | None \<Rightarrow> []))]), c1))"

section \<open>Engine arms\<close>

definition ENGINE_ARMS :: "string list" where
  "ENGINE_ARMS =
     [''desktop.code.ast_grep'', ''desktop.lsp.diagnostics'', ''desktop.lsp.hover'', ''desktop.lsp.definition'',
      ''desktop.proc.op'', ''desktop.pty.op'', ''desktop.browser.launch'', ''desktop.browser.nav'',
      ''desktop.browser.snapshot'', ''desktop.browser.act'', ''desktop.browser.shot'', ''desktop.browser.wait'',
      ''desktop.browser.eval'', ''desktop.debug.op'', ''desktop.mcp.op'', ''desktop.browser.close'',
      ''desktop.os.available'', ''desktop.os.apps'', ''desktop.os.snapshot'', ''desktop.os.act'',
      ''desktop.browser.tab_open'', ''desktop.browser.tab_select'', ''desktop.browser.tab_close'',
      ''desktop.browser.tab_list'', ''desktop.browser.mock_set'', ''desktop.git.overview'',
      ''desktop.tools.manifest'', ''desktop.git.diff'']"

definition arm_engine :: "env \<Rightarrow> client \<Rightarrow> action_request_frame \<Rightarrow> unit ws_res" where
  "arm_engine env c r =
     dispatch_op env c r (e_engine_req env (ar_capability r) (ar_params r)) (\<lambda>value c.
       case e_engine env (ar_capability r) value (cl_gate c) (cl_fs c) of (res, fs) \<Rightarrow> (res, c\<lparr>cl_fs := fs\<rparr>))"

text \<open>Process list, process kill and network fetch: every error is answered.\<close>

definition arm_system :: "env \<Rightarrow> client \<Rightarrow> action_request_frame \<Rightarrow> unit ws_res" where
  "arm_system env c r =
     (case e_engine_req env (ar_capability r) (ar_params r) of
        Inl e \<Rightarrow> bad_params env c r e
      | Inr value \<Rightarrow>
          (case e_engine env (ar_capability r) value (cl_gate c) (cl_fs c) of
             (Inr out, fs) \<Rightarrow> send_action_result env (c\<lparr>cl_fs := fs\<rparr>) (ar_id r) True (Some out) None (e_elapsed env)
           | (Inl e, fs) \<Rightarrow> send_error env (c\<lparr>cl_fs := fs\<rparr>) (ar_id r) (op_error_to_string e)))"

definition arm_eval :: "env \<Rightarrow> client \<Rightarrow> action_request_frame \<Rightarrow> unit ws_res" where
  "arm_eval env c r =
     (case e_engine_req env (ar_capability r) (ar_params r) of
        Inl e \<Rightarrow> bad_params env c r e
      | Inr value \<Rightarrow>
          (case e_eval env value (cl_gate c) (cl_fs c) of
             (Inr out, fs) \<Rightarrow> send_action_result env (c\<lparr>cl_fs := fs\<rparr>) (ar_id r) True (Some out) None (e_elapsed env)
           | (Inl e, fs) \<Rightarrow>
               (case e of
                  EvalFailed session_id created message out err \<Rightarrow>
                    send_action_result env (c\<lparr>cl_fs := fs\<rparr>) (ar_id r) False
                      (Some (JObj [(''createdSession'', JBool created), (''error'', JStr message),
                         (''sessionId'', JStr session_id), (''stderr'', JStr err), (''stdout'', JStr out)]))
                      None (e_elapsed env)
                | _ \<Rightarrow> send_error env (c\<lparr>cl_fs := fs\<rparr>) (ar_id r) (error_to_string e))))"

definition arm_rename :: "env \<Rightarrow> client \<Rightarrow> action_request_frame \<Rightarrow> unit ws_res" where
  "arm_rename env c r =
     (case e_engine_req env (ar_capability r) (ar_params r) of
        Inl e \<Rightarrow> bad_params env c r e
      | Inr value \<Rightarrow>
          (case e_rename env value (cl_gate c) (cl_fs c) of
             (Inr (edits_applied, out), fs) \<Rightarrow>
               send_action_result env (c\<lparr>cl_fs := fs\<rparr>) (ar_id r) (0 < edits_applied) (Some out) None (e_elapsed env)
           | (Inl e, fs) \<Rightarrow>
               if e = AwaitingConsent then (Err AwaitingConsent, c\<lparr>cl_fs := fs\<rparr>)
               else send_error env (c\<lparr>cl_fs := fs\<rparr>) (ar_id r) (error_to_string e)))"

definition MEMORY_ARMS :: "string list" where
  "MEMORY_ARMS = [''desktop.memory.remember'', ''desktop.memory.recall'', ''desktop.memory.forget'',
     ''desktop.memory.reflect'', ''desktop.memory.stats'']"

definition arm_memory :: "env \<Rightarrow> client \<Rightarrow> action_request_frame \<Rightarrow> unit ws_res" where
  "arm_memory env c r =
     (case e_memory env (ar_params r) of
        Some (Inr value) \<Rightarrow> send_action_result env c (ar_id r) True (Some value) None (e_elapsed env)
      | Some (Inl message) \<Rightarrow> send_error env c (ar_id r) message
      | None \<Rightarrow> send_error env c (ar_id r) ''memory: worker dropped'')"

section \<open>Shell\<close>

text \<open>The debug form of the optional exit code.\<close>

definition show_exit_code :: "int option \<Rightarrow> string" where
  "show_exit_code code =
     (case code of
        None \<Rightarrow> ''None''
      | Some i \<Rightarrow> ''Some('' @ (if i < 0 then ''-'' @ nat_to_string (nat (- i)) else nat_to_string (nat i)) @ '')'')"

fun stream_chunks :: "env \<Rightarrow> client \<Rightarrow> string \<Rightarrow> nat \<Rightarrow> (string \<times> string) list \<Rightarrow> unit ws_res" where
  "stream_chunks env c action_id seq [] = (Ok (), c)"
| "stream_chunks env c action_id seq ((channel, data) # chunks) =
     (case ws_send env c (ActionStream
         \<lparr>st_v = PROTOCOL_VERSION, st_id = action_id, st_seq = seq,
          st_channel = (if channel = ''stdout'' then Stdout else Stderr), st_data = data, st_eof = False\<rparr>) of
        (Inl e, c1) \<Rightarrow> (Err e, c1)
      | (Inr _, c1) \<Rightarrow> stream_chunks env c1 action_id (seq + 1) chunks)"

definition shell_error :: "shell_result \<Rightarrow> string option" where
  "shell_error res =
     (let ok = (sr_exit_code res = Some 0); shown = ''exit code '' @ show_exit_code (sr_exit_code res) in
      if sr_output_truncated res
      then (if ok then Some ''output truncated'' else Some (shown @ '' (output truncated)''))
      else (if ok then None else Some shown))"

definition shell_json :: "shell_result \<Rightarrow> json" where
  "shell_json res = JObj
     [(''exit_code'', case sr_exit_code res of Some i \<Rightarrow> JInt i | None \<Rightarrow> JNull),
      (''output_truncated'', JBool (sr_output_truncated res)),
      (''stderr'', JStr (sr_stderr res)), (''stdout'', JStr (sr_stdout res))]"

definition shell_finish :: "env \<Rightarrow> client \<Rightarrow> action_request_frame \<Rightarrow> shell_final \<Rightarrow> unit ws_res" where
  "shell_finish env c r final =
     (case final of
        ShellResult res \<Rightarrow> send_action_result env c (ar_id r) (sr_exit_code res = Some 0) (Some (shell_json res))
          (shell_error res) (sr_duration_ms res)
      | ShellError e \<Rightarrow>
          if e = Cancelled then send_action_result env c (ar_id r) False None (Some ''action_cancelled'') (e_elapsed env)
          else send_error env c (ar_id r) (error_to_string e)
      | ShellJoinError e \<Rightarrow> send_error env c (ar_id r) (''shell task failed: '' @ e))"

definition arm_shell :: "env \<Rightarrow> client \<Rightarrow> action_request_frame \<Rightarrow> flow \<times> client" where
  "arm_shell env c r =
     (case e_engine_req env (ar_capability r) (ar_params r) of
        Inl e \<Rightarrow> outcome (bad_params env c r e)
      | Inr value \<Rightarrow>
          (let c1 = (case e_parse_uuid env (ar_id r) of
                       Some i \<Rightarrow> c\<lparr>cl_tasks := register_global_cancellation i (e_token env) (cl_tasks c)\<rparr>
                     | None \<Rightarrow> c) in
           case e_shell env value (cl_gate c1) (cl_fs c1) of
             (Inl e, fs) \<Rightarrow> outcome (send_error env (c1\<lparr>cl_fs := fs\<rparr>) (ar_id r) (error_to_string e))
           | (Inr run, fs) \<Rightarrow>
               (case stream_chunks env (c1\<lparr>cl_fs := fs\<rparr>) (ar_id r) 0 (run_chunks run) of
                  (Inl e, c2) \<Rightarrow> early (Err e, c2)
                | (Inr _, c2) \<Rightarrow> outcome (shell_finish env c2 r (run_final run)))))"

section \<open>The handler\<close>

definition run_arm :: "env \<Rightarrow> client \<Rightarrow> action_request_frame \<Rightarrow> consent_answer option \<Rightarrow> flow \<times> client" where
  "run_arm env c r decision =
     (let cap = ar_capability r in
      if cap = ''desktop.fs.read'' then outcome (arm_read env c r decision)
      else if cap = ''desktop.fs.patch'' then outcome (arm_patch env c r decision)
      else if cap = ''desktop.fs.write'' then outcome (arm_write env c r decision)
      else if cap = ''desktop.code.ast_edit'' then outcome (arm_ast_edit env c r)
      else if cap = ''desktop.code.eval'' then outcome (arm_eval env c r)
      else if cap = ''desktop.lsp.rename'' then outcome (arm_rename env c r)
      else if cap \<in> set MEMORY_ARMS then outcome (arm_memory env c r)
      else if cap \<in> set ENGINE_ARMS then outcome (arm_engine env c r)
      else if cap = ''desktop.fs.delete'' then outcome (arm_delete env c r decision)
      else if cap = ''desktop.fs.restore'' then arm_restore env c r decision
      else if cap = ''desktop.checkpoint.list'' then outcome (arm_checkpoint_list env c r decision)
      else if cap = ''desktop.fs.verify'' then outcome (arm_verify env c r decision)
      else if cap = ''desktop.fs.list'' then outcome (arm_list env c r decision)
      else if cap = ''desktop.fs.watch'' then outcome (arm_watch env c r decision)
      else if cap \<in> set [''desktop.process.list'', ''desktop.process.kill'', ''desktop.network.fetch'']
        then outcome (arm_system env c r)
      else if cap = ''desktop.shell.execute'' then arm_shell env c r
      else outcome (send_error env c (ar_id r) (''capability not implemented in daemon: '' @ cap)))"

text \<open>
  The checks before the arms: the required scope, the shell tripwire, and the second check of
  the kill scope. \<open>Some message\<close> is the refusal that is answered.
\<close>

definition shell_command :: "json \<Rightarrow> string" where
  "shell_command params =
     (case Option.bind (json_get params ''command'') as_str of Some s \<Rightarrow> s | None \<Rightarrow> [])"

definition refusal :: "client \<Rightarrow> action_request_frame \<Rightarrow> string option" where
  "refusal c r =
     (if required_scope r \<noteq> ''self'' \<and> \<not> allows (cl_gate c) (required_scope r)
        then Some (''capability not granted: '' @ ar_capability r)
      else if ar_capability r = ''desktop.shell.execute'' \<and> contains_dangerous_shell (shell_command (ar_params r))
        then Some ''hard_stop_blocked: dangerous command pattern''
      else if ar_capability r = ''desktop.process.kill'' \<and> \<not> allows (cl_gate c) ''desktop.process.kill''
        then Some ''capability_denied: desktop.process.kill''
      else None)"

definition park :: "env \<Rightarrow> client \<Rightarrow> action_request_frame \<Rightarrow> client" where
  "park env c r = c\<lparr>cl_parked := assoc_insert (ar_id r) (r, e_now env) (cl_parked c)\<rparr>"

definition handle_action :: "env \<Rightarrow> client \<Rightarrow> action_request_frame \<Rightarrow> consent_answer option \<Rightarrow> unit ws_res" where
  "handle_action env c r decision =
     (let c1 = audit env (register_task env c r) r in
      case refusal c1 r of
        Some message \<Rightarrow> send_error env c1 (ar_id r) message
      | None \<Rightarrow>
          (case run_arm env c1 r decision of
             (Return res, c2) \<Rightarrow> (res, c2)
           | (Outcome res, c2) \<Rightarrow>
               (Ok (), if res = Err AwaitingConsent then park env c2 r else c2)))"

end
