(* ===== verification/Ws_Actions.thy ===== *)
theory Ws_Actions
  imports Ws_Arms
begin

text \<open>
  What handling one action can do to the client: the frame lemmas of the primitives, then of
  the arms, and the properties of \<open>handle_action\<close>.
\<close>

section \<open>Frame lemmas of the primitives\<close>

lemma ws_send_frame [simp, frame_simps]:
  "cl_gate (snd (ws_send env c f)) = cl_gate c" "cl_broker (snd (ws_send env c f)) = cl_broker c"
  "cl_parked (snd (ws_send env c f)) = cl_parked c" "cl_fs (snd (ws_send env c f)) = cl_fs c"
  "cl_checkpoints (snd (ws_send env c f)) = cl_checkpoints c" "cl_chat (snd (ws_send env c f)) = cl_chat c"
  "cl_health (snd (ws_send env c f)) = cl_health c" "cl_tasks (snd (ws_send env c f)) = cl_tasks c"
  by (simp_all add: ws_send_def split: option.split)

lemma ws_send_sent [simp]:
  "cl_sent (snd (ws_send env c f)) = cl_sent c @ (if e_socket_error env = None then [f] else [])"
  by (simp add: ws_send_def split: option.split)

lemma ws_send_result [simp]:
  "fst (ws_send env c f) = (case e_socket_error env of Some e \<Rightarrow> Err (Ws e) | None \<Rightarrow> Ok ())"
  by (simp add: ws_send_def split: option.split)

lemma send_action_result_frame [simp, frame_simps]:
  "cl_gate (snd (send_action_result env c i ok out err d)) = cl_gate c"
  "cl_broker (snd (send_action_result env c i ok out err d)) = cl_broker c"
  "cl_parked (snd (send_action_result env c i ok out err d)) = cl_parked c"
  "cl_fs (snd (send_action_result env c i ok out err d)) = cl_fs c"
  "cl_checkpoints (snd (send_action_result env c i ok out err d)) = cl_checkpoints c"
  "cl_chat (snd (send_action_result env c i ok out err d)) = cl_chat c"
  "cl_health (snd (send_action_result env c i ok out err d)) = cl_health c"
  by (simp_all add: send_action_result_def Let_def split: option.split)

lemma send_action_result_sent [simp]:
  "cl_sent (snd (send_action_result env c i ok out err d)) =
     cl_sent c @ (if e_socket_error env = None then [ActionResult (result_frame i ok out err d)] else [])"
  by (simp add: send_action_result_def Let_def split: option.split)

lemma send_action_result_not_awaiting [simp]:
  "fst (send_action_result env c i ok out err d) \<noteq> Err AwaitingConsent"
  by (simp add: send_action_result_def Let_def split: option.split)

lemma send_error_frame [simp, frame_simps]:
  "cl_gate (snd (send_error env c i e)) = cl_gate c" "cl_broker (snd (send_error env c i e)) = cl_broker c"
  "cl_parked (snd (send_error env c i e)) = cl_parked c" "cl_fs (snd (send_error env c i e)) = cl_fs c"
  "cl_checkpoints (snd (send_error env c i e)) = cl_checkpoints c" "cl_chat (snd (send_error env c i e)) = cl_chat c"
  "cl_health (snd (send_error env c i e)) = cl_health c"
  "cl_sent (snd (send_error env c i e)) =
     cl_sent c @ (if e_socket_error env = None then [ActionResult (result_frame i False None (Some e) 0)] else [])"
  "fst (send_error env c i e) \<noteq> Err AwaitingConsent"
  by (simp_all add: send_error_def)

lemma bad_params_frame [simp, frame_simps]:
  "cl_gate (snd (bad_params env c r e)) = cl_gate c" "cl_broker (snd (bad_params env c r e)) = cl_broker c"
  "cl_parked (snd (bad_params env c r e)) = cl_parked c" "cl_fs (snd (bad_params env c r e)) = cl_fs c"
  "fst (bad_params env c r e) \<noteq> Err AwaitingConsent"
  by (simp_all add: bad_params_def)

lemma register_task_frame [simp, frame_simps]:
  "cl_gate (register_task env c r) = cl_gate c" "cl_broker (register_task env c r) = cl_broker c"
  "cl_parked (register_task env c r) = cl_parked c" "cl_fs (register_task env c r) = cl_fs c"
  "cl_checkpoints (register_task env c r) = cl_checkpoints c" "cl_chat (register_task env c r) = cl_chat c"
  "cl_health (register_task env c r) = cl_health c" "cl_sent (register_task env c r) = cl_sent c"
  by (simp_all add: register_task_def split: option.split)

lemma audit_frame [simp, frame_simps]:
  "cl_gate (audit env c r) = cl_gate c" "cl_broker (audit env c r) = cl_broker c"
  "cl_parked (audit env c r) = cl_parked c" "cl_fs (audit env c r) = cl_fs c"
  "cl_checkpoints (audit env c r) = cl_checkpoints c" "cl_chat (audit env c r) = cl_chat c"
  "cl_health (audit env c r) = cl_health c" "cl_sent (audit env c r) = cl_sent c"
  by (simp_all add: audit_def)

lemma raise_consent_frame [simp, frame_simps]:
  "cl_gate (raise_consent env c r cap s p) = cl_gate c" "cl_parked (raise_consent env c r cap s p) = cl_parked c"
  "cl_fs (raise_consent env c r cap s p) = cl_fs c" "cl_checkpoints (raise_consent env c r cap s p) = cl_checkpoints c"
  "cl_chat (raise_consent env c r cap s p) = cl_chat c"
  "cl_sent (raise_consent env c r cap s p) =
     cl_sent c @ (if e_socket_error env = None then [ConsentPrompt (consent_relay r cap s p)] else [])"
  "cl_broker (raise_consent env c r cap s p) = fst (ask (cl_broker c)
     \<lparr>prompt_action_id = ar_id r, prompt_capability = cap, prompt_summary = s, prompt_path = Some p\<rparr>)"
  by (simp_all add: raise_consent_def Let_def)

lemma tasks_kept [simp]:
  "cl_tasks (raise_consent env c r cap s p) = cl_tasks c"
  "task_inv (cl_tasks c) \<Longrightarrow> task_inv (cl_tasks (register_task env c r))"
  "cl_tasks (audit env c r) = cl_tasks c"
  "task_inv (cl_tasks c) \<Longrightarrow> task_inv (cl_tasks (snd (send_action_result env c i ok out err d)))"
  by (simp_all add: raise_consent_def register_task_def audit_def send_action_result_def Let_def
      record_global_task_inv finish_global_task_def update_global_task_inv split: option.split)

lemma tasks_kept_error [simp]: "task_inv (cl_tasks c) \<Longrightarrow> task_inv (cl_tasks (snd (send_error env c i e)))"
  by (simp add: send_error_def)

lemma gate_allows_path_cong:
  "cl_gate c' = cl_gate c \<Longrightarrow> cl_fs c' = cl_fs c \<Longrightarrow> gate_allows_path c' cap p = gate_allows_path c cap p"
  by (simp add: gate_allows_path_def)

section \<open>What the gate does to the state\<close>

text \<open>The only change of the gate an action can make: the owner approved and said remember.\<close>

definition gate_step :: "consent_answer option \<Rightarrow> capability_gate \<Rightarrow> capability_gate \<Rightarrow> bool" where
  "gate_step decision g g' \<longleftrightarrow> g' = g \<or>
     (\<exists>ans p. decision = Some ans \<and> approved ans \<and> remember ans \<and> g' = with_additional_path g p)"

lemma gate_step_refl [simp]: "gate_step decision g g"
  by (simp add: gate_step_def)

text \<open>
  What an arm does to the gate, the broker and the parked table. \<open>asked\<close> is the request's
  prompt having been raised in this arm.
\<close>

definition asked :: "action_request_frame \<Rightarrow> consent_broker \<Rightarrow> consent_broker \<Rightarrow> bool" where
  "asked r b b' \<longleftrightarrow> (\<exists>p. prompt_action_id p = ar_id r \<and> b' = fst (ask b p))"

text \<open>
  The target \<open>T\<close> of a request: the path its arm gates, if it gates one, and the prompt its arm would
  raise. With it the two steps are exact: only that path is remembered, only that prompt raised.
\<close>

type_synonym gate_target = "path option \<times> consent_prompt option"

definition path_prompt :: "action_request_frame \<Rightarrow> string \<Rightarrow> path \<Rightarrow> consent_prompt" where
  "path_prompt r cap p =
     \<lparr>prompt_action_id = ar_id r, prompt_capability = cap, prompt_summary = cap @ '' sobre '' @ path_display p,
      prompt_path = Some (path_display p)\<rparr>"

definition path_target :: "action_request_frame \<Rightarrow> string \<Rightarrow> path \<Rightarrow> gate_target" where
  "path_target r cap p = (Some p, Some (path_prompt r cap p))"

definition gate_to :: "gate_target \<Rightarrow> consent_answer option \<Rightarrow> capability_gate \<Rightarrow> capability_gate \<Rightarrow> bool" where
  "gate_to T decision g g' \<longleftrightarrow> g' = g \<or>
     (\<exists>ans p. decision = Some ans \<and> approved ans \<and> remember ans \<and> fst T = Some p \<and> g' = with_additional_path g p)"

definition asked_for :: "gate_target \<Rightarrow> action_request_frame \<Rightarrow> consent_broker \<Rightarrow> consent_broker \<Rightarrow> bool" where
  "asked_for T r b b' \<longleftrightarrow> (\<exists>q. snd T = Some q \<and> prompt_action_id q = ar_id r \<and> b' = fst (ask b q))"

lemma gate_to_refl [simp]: "gate_to T decision g g"
  by (simp add: gate_to_def)

lemma gate_to_step: "gate_to T decision g g' \<Longrightarrow> gate_step decision g g'"
  by (auto simp: gate_to_def gate_step_def)

lemma asked_for_asked: "asked_for T r b b' \<Longrightarrow> asked r b b'"
  by (auto simp: asked_for_def asked_def)

definition arm_contract ::
    "gate_target \<Rightarrow> action_request_frame \<Rightarrow> consent_answer option \<Rightarrow> client \<Rightarrow> (daemon_error, unit) res \<Rightarrow> client \<Rightarrow> bool" where
  "arm_contract T r decision c res c' \<longleftrightarrow>
     gate_to T decision (cl_gate c) (cl_gate c') \<and> cl_parked c' = cl_parked c \<and>
     cl_checkpoints c' = cl_checkpoints c \<and> cl_chat c' = cl_chat c \<and> cl_health c' = cl_health c \<and>
     (task_inv (cl_tasks c) \<longrightarrow> task_inv (cl_tasks c')) \<and>
     (cl_broker c' = cl_broker c \<or> decision = None \<and> asked_for T r (cl_broker c) (cl_broker c')) \<and>
     (res = Err AwaitingConsent \<longrightarrow> decision = None \<and> asked_for T r (cl_broker c) (cl_broker c'))"

lemma path_gate_cases:
  assumes "path_gate env c r cap p decision = (res, c')"
  obtains
    (ungranted) "\<not> allows (cl_gate c) cap" "res = Err (CapabilityDenied cap)" "c' = c"
  | (allowed) "allows (cl_gate c) cap" "gate_allows_path c cap p" "c' = c"
      "res = Ok (if ar_skip_consent_prompt r then with_additional_path (cl_gate c) p else cl_gate c)"
  | (approved) ans where "allows (cl_gate c) cap" "\<not> gate_allows_path c cap p" "decision = Some ans" "approved ans"
      "c' = (if remember ans then c\<lparr>cl_gate := with_additional_path (cl_gate c) p\<rparr> else c)"
      "res = Ok (with_one_shot_path (cl_gate c') p)"
  | (denied) ans where "allows (cl_gate c) cap" "\<not> gate_allows_path c cap p" "decision = Some ans" "\<not> approved ans"
      "res = Err (CapabilityDenied (''consentimiento denegado por el usuario para '' @ cap @ '' sobre '' @ path_display p))"
      "c' = c"
  | (asks) "allows (cl_gate c) cap" "\<not> gate_allows_path c cap p" "decision = None" "res = Err AwaitingConsent"
      "c' = raise_consent env c r cap (cap @ '' sobre '' @ path_display p) (path_display p)"
  using assms by (auto simp: path_gate_def Let_def split: if_splits option.splits)

lemma asked_for_ask [simp]:
  "snd T = Some q \<Longrightarrow> prompt_action_id q = ar_id r \<Longrightarrow> asked_for T r b (fst (ask b q))"
  by (auto simp: asked_for_def)

lemma raise_path_prompt:
  "cl_broker (raise_consent env c r cap (cap @ '' sobre '' @ path_display p) (path_display p)) =
     fst (ask (cl_broker c) (path_prompt r cap p))"
  by (simp add: path_prompt_def)

lemma raise_consent_health [simp]: "cl_health (raise_consent env c r cap s p) = cl_health c"
  by (simp add: raise_consent_def Let_def)

lemma path_gate_contract:
  assumes "path_gate env c r cap p decision = (res, c')" and "T = path_target r cap p"
  shows "gate_to T decision (cl_gate c) (cl_gate c') \<and> cl_parked c' = cl_parked c \<and> cl_fs c' = cl_fs c \<and>
     cl_checkpoints c' = cl_checkpoints c \<and> cl_chat c' = cl_chat c \<and> cl_health c' = cl_health c \<and>
     cl_tasks c' = cl_tasks c \<and>
     (if res = Err AwaitingConsent then decision = None \<and> asked_for T r (cl_broker c) (cl_broker c')
      else cl_broker c' = cl_broker c)"
  using assms
  by (cases rule: path_gate_cases) (auto simp: gate_to_def path_target_def asked_for_def path_prompt_def)

section \<open>The contract of every arm\<close>

text \<open>
  The engines never ask the owner: only \<open>path_gate\<close> and the restore arm make an
  \<open>AwaitingConsent\<close> (the marker occurs nowhere else in the crate).
\<close>

definition engines_quiet :: "env \<Rightarrow> bool" where
  "engines_quiet env \<longleftrightarrow>
     (\<forall>cap v g fs. fst (e_engine env cap v g fs) \<noteq> Err (OpDaemon AwaitingConsent)) \<and>
     (\<forall>v g fs. fst (e_rename env v g fs) \<noteq> Err AwaitingConsent)"

definition same_desk :: "client \<Rightarrow> client \<Rightarrow> bool" where
  "same_desk c c' \<longleftrightarrow>
     cl_gate c' = cl_gate c \<and> cl_parked c' = cl_parked c \<and> cl_checkpoints c' = cl_checkpoints c \<and>
     cl_chat c' = cl_chat c \<and> cl_health c' = cl_health c \<and> cl_broker c' = cl_broker c \<and>
     (task_inv (cl_tasks c) \<longrightarrow> task_inv (cl_tasks c'))"

lemma same_desk_refl [simp]: "same_desk c c"
  by (simp add: same_desk_def)

lemma same_desk_trans: "same_desk a b \<Longrightarrow> same_desk b c \<Longrightarrow> same_desk a c"
  by (simp add: same_desk_def)

lemma same_desk_fs [simp]:
  "same_desk c (c\<lparr>cl_fs := fs\<rparr>)"
  "same_desk c (c\<lparr>cl_tasks := register_global_cancellation i tok (cl_tasks c)\<rparr>)"
  by (simp_all add: same_desk_def task_inv_def register_global_cancellation_def)

definition quiet :: "client \<Rightarrow> unit ws_res \<Rightarrow> bool" where
  "quiet c rc \<longleftrightarrow> same_desk c (snd rc) \<and> fst rc \<noteq> Err AwaitingConsent"

lemma quiet_pre: "same_desk c c1 \<Longrightarrow> quiet c1 rc \<Longrightarrow> quiet c rc"
  using same_desk_trans by (auto simp: quiet_def)

lemma quiet_ws_send [simp]: "quiet c (ws_send env c f)"
  by (simp add: quiet_def same_desk_def split: option.split)

lemma quiet_send_action_result [simp]: "quiet c (send_action_result env c i ok out err d)"
  by (simp add: quiet_def same_desk_def)

lemma quiet_send_error [simp]: "quiet c (send_error env c i e)"
  by (simp add: quiet_def same_desk_def)

lemma quiet_bad_params [simp]: "quiet c (bad_params env c r e)"
  by (simp add: bad_params_def)

lemma quiet_after_fs [simp]:
  "quiet c (send_action_result env (c\<lparr>cl_fs := fs\<rparr>) i ok out err d)"
  "quiet c (send_error env (c\<lparr>cl_fs := fs\<rparr>) i e)"
  by (rule quiet_pre [of _ "c\<lparr>cl_fs := fs\<rparr>"]; simp)+

lemma same_desk_checkpoint_before: "same_desk c (snd (checkpoint_before env c r p))"
  by (auto simp: checkpoint_before_def split: option.split prod.split sum.split)

lemma quiet_with_checkpoint:
  assumes "\<And>c'. same_desk c c' \<Longrightarrow> quiet c' (k c')"
  shows "quiet c (with_checkpoint env c r p k)"
proof -
  obtain res c1 where e: "checkpoint_before env c r p = (res, c1)" by fastforce
  with same_desk_checkpoint_before have "same_desk c c1" by (metis snd_conv)
  then show ?thesis
    by (cases res) (auto simp: with_checkpoint_def e intro: quiet_pre assms)
qed

lemma quiet_contract: "quiet c rc \<Longrightarrow> arm_contract T r decision c (fst rc) (snd rc)"
  by (auto simp: quiet_def same_desk_def arm_contract_def)

lemma quiet_contract_of: "quiet c rc \<Longrightarrow> rc = (res, c') \<Longrightarrow> arm_contract T r decision c res c'"
  using quiet_contract by fastforce

lemma contract_then_quiet:
  "arm_contract T r decision c res0 c1 \<Longrightarrow> quiet c1 rc \<Longrightarrow> arm_contract T r decision c (fst rc) (snd rc)"
  by (auto simp: quiet_def same_desk_def arm_contract_def)

lemma contract_after_gate:
  assumes "path_gate env c r cap p decision = (res, c1)" and "T = path_target r cap p"
  shows "arm_contract T r decision c (case res of Inl e \<Rightarrow> Err e | Inr _ \<Rightarrow> Ok ()) c1"
  using path_gate_contract [OF assms] by (auto simp: arm_contract_def split: sum.split if_splits)

lemma contract_with_path_gate:
  assumes "T = path_target r cap p" and "\<And>gate c1. quiet c1 (k gate c1)"
  shows "arm_contract T r decision c (fst (with_path_gate env c r cap p decision k))
    (snd (with_path_gate env c r cap p decision k))"
proof -
  obtain res c1 where e: "path_gate env c r cap p decision = (res, c1)" by fastforce
  note g = contract_after_gate [OF e assms(1)]
  show ?thesis
  proof (cases res)
    case (Inr gate)
    then show ?thesis using contract_then_quiet [OF g assms(2)] e by (simp add: with_path_gate_def)
  next
    case (Inl x)
    show ?thesis
    proof (cases "x = AwaitingConsent")
      case True
      with Inl g e show ?thesis by (simp add: with_path_gate_def)
    next
      case False
      with Inl contract_then_quiet [OF g quiet_send_error] e show ?thesis by (simp add: with_path_gate_def)
    qed
  qed
qed

text \<open>The body of a \<open>dispatch_op!\<close>, before its answer.\<close>

definition run_ok ::
    "gate_target \<Rightarrow> action_request_frame \<Rightarrow> consent_answer option \<Rightarrow> client \<Rightarrow> (op_error, json) res \<times> client \<Rightarrow> bool" where
  "run_ok T r decision c rc \<longleftrightarrow> arm_contract T r decision c
      (case fst rc of Inl e \<Rightarrow> if is_awaiting_consent e then Err AwaitingConsent else Ok () | Inr _ \<Rightarrow> Ok ())
      (snd rc)"

lemma contract_dispatch_op:
  assumes "\<And>v. parsed = Inr v \<Longrightarrow> run_ok T r decision c (run v c)"
  shows "arm_contract T r decision c (fst (dispatch_op env c r parsed run)) (snd (dispatch_op env c r parsed run))"
proof (cases parsed)
  case (Inl e)
  then show ?thesis using quiet_contract [OF quiet_bad_params] by (simp add: dispatch_op_def)
next
  case (Inr v)
  obtain out c1 where e: "run v c = (out, c1)" by fastforce
  note g = assms [OF Inr, unfolded run_ok_def e fst_conv snd_conv]
  show ?thesis
  proof (cases out)
    case (Inl x)
    show ?thesis
    proof (cases "is_awaiting_consent x")
      case True
      with Inl g \<open>parsed = Inr v\<close> e show ?thesis by (simp add: dispatch_op_def)
    next
      case False
      with Inl \<open>parsed = Inr v\<close> e contract_then_quiet [OF g quiet_send_error] show ?thesis
        by (simp add: dispatch_op_def)
    qed
  next
    case (Inr y)
    then show ?thesis using \<open>parsed = Inr v\<close> e contract_then_quiet [OF g quiet_send_action_result]
      by (simp add: dispatch_op_def)
  qed
qed

section \<open>The arms\<close>

abbreviation arm_ok :: "gate_target \<Rightarrow> action_request_frame \<Rightarrow> consent_answer option \<Rightarrow> client \<Rightarrow> unit ws_res \<Rightarrow> bool" where
  "arm_ok T r decision c rc \<equiv> arm_contract T r decision c (fst rc) (snd rc)"

lemma read_never_awaits [simp]:
  "fs_ops_read_annotated sha fs g req a \<noteq> Inl AwaitingConsent"
  by (auto simp: fs_ops_read_annotated_def fs_ops_read_def gate_for_path_def try_bind_def io_try_def Let_def
      split: sum.split prod.split gate_decision.split option.split)

lemma list_never_awaits [simp]: "fs_ops_list fs lower home req \<noteq> Inl AwaitingConsent"
  by (auto simp: fs_ops_list_def io_try_def Let_def split: sum.split)

lemma contract_run_gate:
  assumes "T = path_target r cap p" and "\<And>gate c1. same_desk c1 (snd (k gate c1)) \<and> fst (k gate c1) \<noteq> Inl (OpDaemon AwaitingConsent)"
  shows "run_ok T r decision c (case path_gate env c r cap p decision of
       (Inl e, c1) \<Rightarrow> (Err (OpDaemon e), c1) | (Inr gate, c1) \<Rightarrow> k gate c1)" (is "run_ok T r decision c ?run")
proof -
  obtain res c1 where e: "path_gate env c r cap p decision = (res, c1)" by fastforce
  note g = contract_after_gate [OF e assms(1)]
  show ?thesis
  proof (cases res)
    case (Inl x)
    with g e show ?thesis by (auto simp: run_ok_def is_awaiting_consent_def arm_contract_def)
  next
    case (Inr gate)
    then have r: "?run = k gate c1" by (simp add: e)
    from assms(2) [of c1 gate] have "quiet c1 (Ok (), snd (k gate c1))" by (simp add: quiet_def)
    from contract_then_quiet [OF g this] assms(2) [of c1 gate] show ?thesis
      by (auto simp: run_ok_def r is_awaiting_consent_def split: sum.split)
  qed
qed

text \<open>
  The path a request puts before the gate, with the capability it asks for: that of the file it
  names, the directory it lists, and for the checkpoint list the empty path.
\<close>

definition gated_path :: "env \<Rightarrow> action_request_frame \<Rightarrow> (string \<times> path) option" where
  "gated_path env r =
     (let cap = ar_capability r; params = ar_params r in
      if cap = ''desktop.fs.read''
        then (case e_read_req env params of Inr v \<Rightarrow> Some (cap, rd_path v) | Inl _ \<Rightarrow> None)
      else if cap = ''desktop.fs.patch''
        then (case e_patch_req env params of Inr v \<Rightarrow> Some (''desktop.fs.write'', pt_path v) | Inl _ \<Rightarrow> None)
      else if cap = ''desktop.fs.write''
        then (case e_write_req env params of Inr v \<Rightarrow> Some (cap, wr_path v) | Inl _ \<Rightarrow> None)
      else if cap = ''desktop.fs.delete''
        then (case e_delete_req env params of Inr v \<Rightarrow> Some (cap, del_path v) | Inl _ \<Rightarrow> None)
      else if cap = ''desktop.fs.verify''
        then (case e_verify_req env params of Inr v \<Rightarrow> Some (cap, vf_path v) | Inl _ \<Rightarrow> None)
      else if cap = ''desktop.fs.list''
        then (case e_list_req env params of
                Inr v \<Rightarrow> (let target = str_trim (case ls_path v of Some s \<Rightarrow> s | None \<Rightarrow> [])
                          in if target = [] then None else Some (cap, path_components target))
              | Inl _ \<Rightarrow> None)
      else if cap = ''desktop.fs.watch''
        then (case e_path_req env cap params of Inr (p, _) \<Rightarrow> Some (cap, p) | Inl _ \<Rightarrow> None)
      else if cap = ''desktop.checkpoint.list'' then Some (''desktop.fs.read'', [])
      else None)"

text \<open>The one prompt a request can raise; an undo asks for the entry it would put back.\<close>

definition request_prompt :: "env \<Rightarrow> client \<Rightarrow> action_request_frame \<Rightarrow> consent_prompt option" where
  "request_prompt env c r =
     (if ar_capability r = ''desktop.fs.restore'' then
        Option.bind (cl_checkpoints c) (\<lambda>store.
        map_option (\<lambda>e. \<lparr>prompt_action_id = ar_id r, prompt_capability = ''desktop.fs.restore'',
            prompt_summary = ''Restaurar '' @ ck_path e @ '' desde checkpoint'', prompt_path = Some (ck_path e)\<rparr>)
          (find (\<lambda>e. Some (ck_ts e) = Option.bind (json_get (ar_params r) ''ts'') as_u64)
            (checkpoint_list (e_lib env) (cl_fs c) store)))
      else map_option (\<lambda>(cap, p). path_prompt r cap p) (gated_path env r))"

definition request_target :: "env \<Rightarrow> client \<Rightarrow> action_request_frame \<Rightarrow> gate_target" where
  "request_target env c r = (map_option snd (gated_path env r), request_prompt env c r)"

lemma request_target_path:
  "gated_path env r = Some (cap, p) \<Longrightarrow> request_target env c r = path_target r cap p"
  by (auto simp: request_target_def path_target_def request_prompt_def gated_path_def)

lemma request_target_same:
  "cl_checkpoints c' = cl_checkpoints c \<Longrightarrow> cl_fs c' = cl_fs c \<Longrightarrow> request_target env c' r = request_target env c r"
  by (simp add: request_target_def request_prompt_def)

lemma arm_read_ok:
  assumes "ar_capability r = ''desktop.fs.read''"
  shows "arm_ok (request_target env c r) r decision c (arm_read env c r decision)"
  unfolding arm_read_def Let_def
  by (rule contract_dispatch_op, rule contract_run_gate)
    (auto intro!: request_target_path simp: gated_path_def assms split: sum.split)

lemma arm_patch_ok:
  assumes "ar_capability r = ''desktop.fs.patch''"
  shows "arm_ok (request_target env c r) r decision c (arm_patch env c r decision)"
proof (cases "e_patch_req env (ar_params r)")
  case (Inr v)
  then show ?thesis
    by (simp add: arm_patch_def, intro contract_with_path_gate request_target_path quiet_with_checkpoint)
      (auto simp: gated_path_def assms split: sum.split prod.split)
qed (simp add: arm_patch_def quiet_contract)

lemma arm_write_ok:
  assumes "ar_capability r = ''desktop.fs.write''"
  shows "arm_ok (request_target env c r) r decision c (arm_write env c r decision)"
proof (cases "e_write_req env (ar_params r)")
  case (Inr v)
  then show ?thesis
    by (simp add: arm_write_def, intro contract_with_path_gate request_target_path quiet_with_checkpoint)
      (auto simp: gated_path_def assms split: sum.split prod.split)
qed (simp add: arm_write_def quiet_contract)

lemma arm_verify_ok:
  assumes "ar_capability r = ''desktop.fs.verify''"
  shows "arm_ok (request_target env c r) r decision c (arm_verify env c r decision)"
proof (cases "e_verify_req env (ar_params r)")
  case (Inr v)
  then show ?thesis
    by (simp add: arm_verify_def split: prod.split, intro allI impI contract_with_path_gate request_target_path)
      (auto simp: gated_path_def assms split: sum.split prod.split)
qed (simp add: arm_verify_def quiet_contract)

lemma arm_watch_ok:
  assumes "ar_capability r = ''desktop.fs.watch''"
  shows "arm_ok (request_target env c r) r decision c (arm_watch env c r decision)"
proof (cases "e_path_req env (ar_capability r) (ar_params r)")
  case (Inr v)
  then show ?thesis
    by (simp add: arm_watch_def split: prod.split, intro allI impI contract_with_path_gate request_target_path)
      (auto simp: gated_path_def assms split: sum.split prod.split)
qed (simp add: arm_watch_def quiet_contract)

lemma arm_delete_ok:
  assumes "ar_capability r = ''desktop.fs.delete''"
  shows "arm_ok (request_target env c r) r decision c (arm_delete env c r decision)"
proof -
  have k: "quiet c1 (with_checkpoint env c1 r p (\<lambda>c2.
                 case fs_ops_delete (cl_fs c2) gate value of
                   (Inr _, fs) \<Rightarrow> send_action_result env (c2\<lparr>cl_fs := fs\<rparr>) (ar_id r) True
                     (Some (JObj [(''deleted'', JBool True)])) None (e_elapsed env)
                 | (Inl e, fs) \<Rightarrow> send_error env (c2\<lparr>cl_fs := fs\<rparr>) (ar_id r) (error_to_string e)))"
    for c1 p gate "value"
    by (rule quiet_with_checkpoint) (auto split: sum.split prod.split)
  show ?thesis
    unfolding arm_delete_def
    using k contract_then_quiet [OF contract_after_gate [OF _ request_target_path]] assms
    by (auto simp: gated_path_def split: sum.split prod.split intro: quiet_contract)
qed

lemma arm_list_ok:
  assumes "ar_capability r = ''desktop.fs.list''"
  shows "arm_ok (request_target env c r) r decision c (arm_list env c r decision)"
proof -
  have refl: "run_ok T r decision c (res, c)" if "res \<noteq> Inl (OpDaemon AwaitingConsent)" for T res c
    using that by (auto simp: run_ok_def arm_contract_def is_awaiting_consent_def split: sum.split)
  show ?thesis
    unfolding arm_list_def Let_def
    by (rule contract_dispatch_op)
      (auto simp: gated_path_def assms Let_def intro!: contract_run_gate request_target_path refl split: sum.splits)
qed

lemma arm_checkpoint_list_ok:
  assumes "ar_capability r = ''desktop.checkpoint.list''"
  shows "arm_ok (request_target env c r) r decision c (arm_checkpoint_list env c r decision)"
  unfolding arm_checkpoint_list_def
  by (rule contract_dispatch_op, rule contract_run_gate) (auto intro!: request_target_path simp: gated_path_def assms)

lemma arm_ast_edit_ok: "arm_ok T r decision c (arm_ast_edit env c r)"
  unfolding arm_ast_edit_def
  by (auto split: sum.split prod.split intro!: quiet_contract quiet_with_checkpoint)

lemma arm_system_ok: "arm_ok T r decision c (arm_system env c r)"
  unfolding arm_system_def by (auto split: sum.split prod.split intro!: quiet_contract)

lemma arm_eval_ok: "arm_ok T r decision c (arm_eval env c r)"
  unfolding arm_eval_def by (auto split: sum.split prod.split daemon_error.split intro!: quiet_contract)

lemma arm_memory_ok: "arm_ok T r decision c (arm_memory env c r)"
  unfolding arm_memory_def by (auto split: sum.split option.split intro!: quiet_contract)

lemma arm_engine_ok:
  assumes "engines_quiet env"
  shows "arm_ok T r decision c (arm_engine env c r)"
  unfolding arm_engine_def
proof (rule contract_dispatch_op)
  fix v
  obtain res fs where e: "e_engine env (ar_capability r) v (cl_gate c) (cl_fs c) = (res, fs)" by fastforce
  moreover have "res \<noteq> Err (OpDaemon AwaitingConsent)"
    using assms e by (metis engines_quiet_def fst_conv)
  ultimately show "run_ok T r decision c (case e_engine env (ar_capability r) v (cl_gate c) (cl_fs c) of
      (res, fs) \<Rightarrow> (res, c\<lparr>cl_fs := fs\<rparr>))"
    by (auto simp: run_ok_def arm_contract_def is_awaiting_consent_def split: sum.split)
qed

lemma arm_rename_ok:
  assumes "engines_quiet env"
  shows "arm_ok T r decision c (arm_rename env c r)"
proof -
  have "fst (e_rename env v g fs) \<noteq> Err AwaitingConsent" for v g fs
    using assms by (simp add: engines_quiet_def)
  then have "e_rename env v g fs \<noteq> (Err AwaitingConsent, fs')" for v g fs fs'
    by (metis fst_conv)
  then show ?thesis
    unfolding arm_rename_def by (auto split: sum.split prod.split intro!: quiet_contract)
qed

text \<open>The arms with an early return: \<open>flow_result\<close> is what \<open>handle_action\<close> looks at.\<close>

fun flow_result :: "flow \<Rightarrow> (daemon_error, unit) res" where
  "flow_result (Outcome res) = res"
| "flow_result (Return res) = res"

abbreviation flow_ok :: "gate_target \<Rightarrow> action_request_frame \<Rightarrow> consent_answer option \<Rightarrow> client \<Rightarrow> flow \<times> client \<Rightarrow> bool" where
  "flow_ok T r decision c fc \<equiv> arm_contract T r decision c (flow_result (fst fc)) (snd fc)"

lemma flow_ok_outcome [simp]: "flow_ok T r decision c (outcome rc) = arm_ok T r decision c rc"
  by (simp add: outcome_def)

lemma flow_ok_early [simp]: "flow_ok T r decision c (early rc) = arm_ok T r decision c rc"
  by (simp add: early_def)

lemma arm_restore_ok:
  assumes "ar_capability r = ''desktop.fs.restore''"
  shows "flow_ok (request_target env c r) r decision c (arm_restore env c r decision)"
proof -
  have asks: "arm_contract (request_target env c r) r None c (Err AwaitingConsent)
      (raise_consent env c r ''desktop.fs.restore'' (''Restaurar '' @ ck_path e @ '' desde checkpoint'') (ck_path e))"
    if e: "Option.bind (json_get (ar_params r) ''ts'') as_u64 = Some t" "cl_checkpoints c = Some store"
      "find (\<lambda>e. ck_ts e = t) (checkpoint_list (e_lib env) (cl_fs c) store) = Some e" for t store e
  proof -
    have "request_prompt env c r = Some \<lparr>prompt_action_id = ar_id r, prompt_capability = ''desktop.fs.restore'',
        prompt_summary = ''Restaurar '' @ ck_path e @ '' desde checkpoint'', prompt_path = Some (ck_path e)\<rparr>"
      using e(2,3) unfolding request_prompt_def e(1) by (simp add: assms eq_commute [of _ t])
    then show ?thesis by (simp add: arm_contract_def request_target_def)
  qed
  show ?thesis
    unfolding arm_restore_def Let_def
    by (auto split: option.split sum.split prod.split intro!: quiet_contract asks [simplified append.simps])
qed

lemma quiet_stream_chunks: "quiet c (stream_chunks env c i n chunks)"
proof (induction chunks arbitrary: c n)
  case Nil
  then show ?case by (simp add: quiet_def)
next
  case (Cons x chunks)
  obtain channel data where x: "x = (channel, data)" by fastforce
  obtain res c1 where e: "ws_send env c (ActionStream
         \<lparr>st_v = PROTOCOL_VERSION, st_id = i, st_seq = n,
          st_channel = (if channel = ''stdout'' then Stdout else Stderr), st_data = data, st_eof = False\<rparr>) = (res, c1)"
    by fastforce
  with quiet_ws_send have "quiet c (res, c1)" by metis
  then have d: "same_desk c c1" "res \<noteq> Err AwaitingConsent" by (simp_all add: quiet_def)
  show ?case
    by (cases res) (use d e quiet_pre [OF d(1) Cons.IH] in \<open>auto simp: x quiet_def\<close>)
qed

lemma quiet_shell_finish: "quiet c (shell_finish env c r final)"
  by (auto simp: shell_finish_def split: shell_final.split)

lemma same_desk_cancellation [simp]:
  "same_desk c (case i of None \<Rightarrow> c | Some x \<Rightarrow> c\<lparr>cl_tasks := register_global_cancellation x tok (cl_tasks c)\<rparr>)"
  by (simp split: option.split)

lemma quiet_arm_shell: "quiet c (flow_result (fst (arm_shell env c r)), snd (arm_shell env c r))"
proof (cases "e_engine_req env (ar_capability r) (ar_params r)")
  case (Inl e)
  then show ?thesis using quiet_bad_params by (simp add: arm_shell_def outcome_def)
next
  case (Inr v)
  define c1 where "c1 = (case e_parse_uuid env (ar_id r) of
      Some i \<Rightarrow> c\<lparr>cl_tasks := register_global_cancellation i (e_token env) (cl_tasks c)\<rparr> | None \<Rightarrow> c)"
  have d: "same_desk c c1" by (simp add: c1_def split: option.split)
  obtain res fs where e: "e_shell env v (cl_gate c1) (cl_fs c1) = (res, fs)" by fastforce
  have d2: "same_desk c (c1\<lparr>cl_fs := fs\<rparr>)" using same_desk_trans [OF d same_desk_fs(1)] .
  show ?thesis
  proof (cases res)
    case (Inl x)
    with Inr e quiet_pre [OF d2 quiet_send_error] show ?thesis
      by (simp add: arm_shell_def c1_def [symmetric] outcome_def Let_def)
  next
    case (Inr run)
    obtain res2 c2 where s: "stream_chunks env (c1\<lparr>cl_fs := fs\<rparr>) (ar_id r) 0 (run_chunks run) = (res2, c2)"
      by fastforce
    with quiet_stream_chunks have q: "quiet (c1\<lparr>cl_fs := fs\<rparr>) (res2, c2)" by metis
    then have d3: "same_desk c c2" using same_desk_trans [OF d2] by (simp add: quiet_def)
    show ?thesis
      using \<open>e_engine_req env (ar_capability r) (ar_params r) = Inr v\<close> Inr e s q d3
        quiet_pre [OF d3 quiet_shell_finish [of c2 env r "run_final run"]]
      by (cases res2)
        (auto simp: arm_shell_def c1_def [symmetric] outcome_def early_def Let_def quiet_def)
  qed
qed

lemma arm_shell_ok: "flow_ok T r decision c (arm_shell env c r)"
  using quiet_contract [OF quiet_arm_shell] by simp

lemmas arms_ok = arm_read_ok arm_patch_ok arm_write_ok arm_ast_edit_ok arm_eval_ok arm_memory_ok arm_delete_ok
  arm_checkpoint_list_ok arm_verify_ok arm_list_ok arm_watch_ok arm_system_ok arm_shell_ok arm_restore_ok

lemma run_arm_ok:
  assumes "engines_quiet env"
  shows "flow_ok (request_target env c r) r decision c (run_arm env c r decision)"
  by (simp add: run_arm_def Let_def arms_ok arm_engine_ok [OF assms] arm_rename_ok [OF assms] quiet_contract)

text \<open>The whole handler.\<close>

definition action_step :: "nat \<Rightarrow> action_request_frame \<Rightarrow> consent_answer option \<Rightarrow> client \<Rightarrow> client \<Rightarrow> bool" where
  "action_step now r decision c c' \<longleftrightarrow>
     gate_step decision (cl_gate c) (cl_gate c') \<and>
     cl_checkpoints c' = cl_checkpoints c \<and> cl_chat c' = cl_chat c \<and> cl_health c' = cl_health c \<and>
     (task_inv (cl_tasks c) \<longrightarrow> task_inv (cl_tasks c')) \<and>
     (cl_broker c' = cl_broker c \<or> decision = None \<and> asked r (cl_broker c) (cl_broker c')) \<and>
     (cl_parked c' = cl_parked c \<or>
      decision = None \<and> cl_parked c' = assoc_insert (ar_id r) (r, now) (cl_parked c) \<and>
      asked r (cl_broker c) (cl_broker c'))"

text \<open>The same with the request's own target, and the parked table tied to the prompt.\<close>

definition target_step :: "gate_target \<Rightarrow> nat \<Rightarrow> action_request_frame \<Rightarrow> consent_answer option \<Rightarrow> client \<Rightarrow> client \<Rightarrow> bool" where
  "target_step T now r decision c c' \<longleftrightarrow>
     gate_to T decision (cl_gate c) (cl_gate c') \<and>
     cl_checkpoints c' = cl_checkpoints c \<and> cl_chat c' = cl_chat c \<and> cl_health c' = cl_health c \<and>
     (task_inv (cl_tasks c) \<longrightarrow> task_inv (cl_tasks c')) \<and>
     (cl_broker c' = cl_broker c \<and> cl_parked c' = cl_parked c \<or>
      decision = None \<and> asked_for T r (cl_broker c) (cl_broker c') \<and>
      (cl_parked c' = cl_parked c \<or> cl_parked c' = assoc_insert (ar_id r) (r, now) (cl_parked c)))"

lemma handle_action_target:
  assumes "engines_quiet env"
  shows "target_step (request_target env c r) (e_now env) r decision c (snd (handle_action env c r decision))"
proof -
  define c1 where "c1 = audit env (register_task env c r) r"
  have d: "same_desk c c1" by (simp add: c1_def same_desk_def)
  have T: "request_target env c1 r = request_target env c r"
    by (rule request_target_same) (simp_all add: c1_def)
  show ?thesis
  proof (cases "refusal c1 r")
    case (Some m)
    with quiet_pre [OF d quiet_send_error] show ?thesis
      by (simp add: handle_action_def c1_def [symmetric] Let_def target_step_def quiet_def same_desk_def)
  next
    case None
    obtain fl c2 where e: "run_arm env c1 r decision = (fl, c2)" by fastforce
    have k: "arm_contract (request_target env c r) r decision c1 (flow_result fl) c2"
      using run_arm_ok [OF assms, of c1 r decision] e T by simp
    show ?thesis using None e k d
      by (cases fl) (auto simp: handle_action_def c1_def [symmetric] Let_def target_step_def arm_contract_def
          same_desk_def park_def)
  qed
qed

lemma handle_action_step:
  assumes "engines_quiet env"
  shows "action_step (e_now env) r decision c (snd (handle_action env c r decision))"
  using handle_action_target [OF assms, of c r decision]
  by (auto simp: target_step_def action_step_def dest: gate_to_step asked_for_asked)

end
