(* ===== verification/Ws_Loop.thy ===== *)
theory Ws_Loop
  imports Ws_Actions
begin

text \<open>
  The connection loop of \<open>ws_client.rs\<close>: pushes to the chat archive, the frame dispatch, the
  sweep of expired prompts, the resumption of a parked action, the heartbeat watchdog, the
  hello handshake (\<open>connect_once\<close>) and the reconnect loop (\<open>run\<close>). Each turn of
  \<open>tokio::select!\<close> takes one event, and an event's handler runs to its end, so a connection
  is a fold over the events that happened, each with its own environment (clock, faults).
\<close>

section \<open>Chat pushes\<close>

fun push_conversations :: "env \<Rightarrow> nat \<Rightarrow> chat_db \<Rightarrow> chat_conversation list \<Rightarrow> nat \<Rightarrow> (string, nat) res \<times> chat_db" where
  "push_conversations env n db [] saved = (Ok saved, db)"
| "push_conversations env n db (conv # convs) saved =
     (case upsert_conversation (e_json_text env) (e_sql env n) (e_now_word env) db conv of
        (Inl e, db1) \<Rightarrow> (Err e, db1)
      | (Inr k, db1) \<Rightarrow> push_conversations env (Suc n) db1 convs (saved + k))"

fun push_each :: "(nat \<Rightarrow> chat_db \<Rightarrow> 'a \<Rightarrow> unit db_res) \<Rightarrow> nat \<Rightarrow> chat_db \<Rightarrow> 'a list \<Rightarrow> unit db_res" where
  "push_each f n db [] = (Ok (), db)"
| "push_each f n db (x # xs) =
     (case f n db x of
        (Inl e, db1) \<Rightarrow> (Err e, db1)
      | (Inr _, db1) \<Rightarrow> push_each f (Suc n) db1 xs)"

definition store_error :: "string \<Rightarrow> daemon_error" where
  "store_error e = Protocol (''store_error: '' @ e)"

definition handle_chat_push :: "env \<Rightarrow> client \<Rightarrow> action_request_frame \<Rightarrow> unit ws_res" where
  "handle_chat_push env c r =
     (let c1 = register_task env c r in
      if \<not> allows (cl_gate c1) ''sync.chat.push''
      then send_error env c1 (ar_id r) ''capability not granted: sync.chat.push''
      else
        (case parse_chat_push_params (e_conversation env) (ar_params r) of
           Inl error \<Rightarrow> send_action_result env c1 (ar_id r) False None (Some (''bad_params: '' @ error)) (e_elapsed env)
         | Inr convs \<Rightarrow>
             (case push_conversations env 0 (cl_chat c1) convs 0 of
                (Inl e, db1) \<Rightarrow> (Err (store_error e), c1\<lparr>cl_chat := db1\<rparr>)
              | (Inr _, db1) \<Rightarrow>
                  (case parse_chat_push_extra (e_artifact env) (e_project env) (ar_params r) of
                     Inl e \<Rightarrow> send_error env (c1\<lparr>cl_chat := db1\<rparr>) (ar_id r) (''bad_params: '' @ e)
                   | Inr extra \<Rightarrow>
                       (case push_each (\<lambda>n db a. upsert_artifact (e_sql env n) db a) (length convs) db1 (ce_artifacts extra) of
                          (Inl e, db2) \<Rightarrow> (Err (store_error e), c1\<lparr>cl_chat := db2\<rparr>)
                        | (Inr _, db2) \<Rightarrow>
                            (case push_each (\<lambda>n db p. upsert_project (e_sql env n) db p)
                                    (length convs + length (ce_artifacts extra)) db2 (ce_projects extra) of
                               (Inl e, db3) \<Rightarrow> (Err (store_error e), c1\<lparr>cl_chat := db3\<rparr>)
                             | (Inr _, db3) \<Rightarrow>
                                 send_action_result env (c1\<lparr>cl_chat := db3\<rparr>) (ar_id r) True None None (e_elapsed env)))))))"

section \<open>Frames\<close>

definition handle_frame :: "env \<Rightarrow> client \<Rightarrow> bridge_frame \<Rightarrow> unit ws_res" where
  "handle_frame env c f =
     (case f of
        ActionRequest r \<Rightarrow>
          if ar_capability r = ''sync.chat.push'' then handle_chat_push env c r else handle_action env c r None
      | ScopeUpdate u \<Rightarrow> (Ok (), c\<lparr>cl_gate := gate_new (snapshot_from (su_scopes u))\<rparr>)
      | ConsentResponse a \<Rightarrow>
          (Ok (), c\<lparr>cl_broker := fst (answer (cl_broker c) (cr_id a)
             \<lparr>approved = cr_approved a, remember = cr_remember a\<rparr>)\<rparr>)
      | Revoke _ \<Rightarrow> (Err (Protocol ''revoked''), c)
      | _ \<Rightarrow> (Ok (), c))"

section \<open>Expiry and resumption\<close>

text \<open>\<open>saturating_sub\<close> is the subtraction of naturals. The table is swept in its own order.\<close>

definition expired_ids :: "nat \<Rightarrow> (string \<times> action_request_frame \<times> nat) list \<Rightarrow> string list" where
  "expired_ids now parked = map fst (filter (\<lambda>(_, _, t). now - t > CONSENT_TIMEOUT_MS) parked)"

definition sweep_one :: "string \<Rightarrow> client \<Rightarrow> client" where
  "sweep_one i c = c\<lparr>cl_parked := assoc_remove i (cl_parked c),
     cl_broker := fst (answer (cl_broker c) i \<lparr>approved = False, remember = False\<rparr>)\<rparr>"

definition sweep_expired_parked :: "nat \<Rightarrow> client \<Rightarrow> client" where
  "sweep_expired_parked now c = fold sweep_one (expired_ids now (cl_parked c)) c"

text \<open>The decision arm of the loop: an error of the resumed action is only logged.\<close>

definition decision_step :: "env \<Rightarrow> client \<Rightarrow> client" where
  "decision_step env c =
     (case recv_decision (cl_broker c) of
        None \<Rightarrow> c
      | Some ((i, ans), b) \<Rightarrow>
          (let c1 = c\<lparr>cl_broker := b\<rparr> in
           case map_of (cl_parked c1) i of
             None \<Rightarrow> c1
           | Some (r, _) \<Rightarrow> snd (handle_action env (c1\<lparr>cl_parked := assoc_remove i (cl_parked c1)\<rparr>) r (Some ans))))"

section \<open>The heartbeat tick\<close>

record ws_loop =
  lp_client :: client
  lp_expected :: "nat option"
  lp_misses :: u32

definition burst :: "nat \<Rightarrow> nat \<Rightarrow> nat option \<Rightarrow> bool" where
  "burst now interval expected = (case expected of Some t \<Rightarrow> now - t < interval | None \<Rightarrow> False)"

definition send_heartbeat :: "env \<Rightarrow> ws_loop \<Rightarrow> (daemon_error, unit) res \<times> ws_loop" where
  "send_heartbeat env l =
     (let frame = Heartbeat \<lparr>hb_v = PROTOCOL_VERSION, hb_t = e_now env\<rparr> in
      case e_socket_error env of
        Some e \<Rightarrow> (Err (Ws (''send heartbeat: '' @ e)), l)
      | None \<Rightarrow> (Ok (), l\<lparr>lp_client := snd (ws_send env (lp_client l) frame),
                  lp_expected := Some (frame_heartbeat_t frame)\<rparr>))"

definition heartbeat_tick :: "env \<Rightarrow> nat \<Rightarrow> ws_loop \<Rightarrow> (daemon_error, unit) res \<times> ws_loop" where
  "heartbeat_tick env interval l =
     (let l1 = l\<lparr>lp_client := sweep_expired_parked (e_now env) (lp_client l)\<rparr> in
      case lp_expected l1 of
        None \<Rightarrow> send_heartbeat env l1
      | Some t \<Rightarrow>
          if burst (e_now env) interval (lp_expected l1) then (Ok (), l1)
          else
            (let l2 = l1\<lparr>lp_expected := None, lp_misses := saturating_add32 (lp_misses l1) 1,
                   lp_client := (lp_client l1)\<lparr>cl_health := mark_heartbeat_stale (cl_health (lp_client l1))\<rparr>\<rparr> in
             if z_kill (zombie_decision True (lp_misses l2))
             then (Err (Ws ''heartbeat watchdog: no ack from server''), l2)
             else send_heartbeat env l2))"

section \<open>One turn of the loop\<close>

datatype ws_message =
    MsgText "(string, bridge_frame) res"
  | MsgClose
  | MsgOther
  | MsgError string

text \<open>
  \<open>LocalAnswer\<close> is the owner answering in the native dialog, in another thread of the daemon,
  between two turns.
\<close>

datatype loop_event = Incoming ws_message | DecisionReady | Tick | LocalAnswer string consent_answer

text \<open>\<open>Inr\<close>: the connection goes on; \<open>Inl\<close>: it ended with this result.\<close>

definition loop_turn ::
    "nat \<Rightarrow> env \<times> loop_event \<Rightarrow> ws_loop \<Rightarrow> (daemon_error, unit) res option \<times> ws_loop" where
  "loop_turn interval ev l =
     (case ev of (env, e) \<Rightarrow>
      (case e of
        Incoming (MsgError m) \<Rightarrow> (Some (Err (Ws (''recv: '' @ m))), l)
      | Incoming MsgClose \<Rightarrow> (Some (Ok ()), l)
      | Incoming MsgOther \<Rightarrow> (None, l)
      | Incoming (MsgText (Inl m)) \<Rightarrow> (Some (Err (Json m)), l)
      | Incoming (MsgText (Inr f)) \<Rightarrow>
          (let l1 = (case f of
                 HeartbeatAck a \<Rightarrow> l\<lparr>lp_client := (lp_client l)\<lparr>cl_health :=
                     mark_heartbeat_ack (e_now env) (hk_t a) (cl_health (lp_client l))\<rparr>,
                   lp_expected := None, lp_misses := 0\<rparr>
               | _ \<Rightarrow> l) in
           case handle_frame env (lp_client l1) f of
             (Inl er, c) \<Rightarrow> (Some (Err er), l1\<lparr>lp_client := c\<rparr>)
           | (Inr _, c) \<Rightarrow> (None, l1\<lparr>lp_client := c\<rparr>))
      | DecisionReady \<Rightarrow> (None, l\<lparr>lp_client := decision_step env (lp_client l)\<rparr>)
      | Tick \<Rightarrow>
          (case heartbeat_tick env interval l of
             (Inl er, l1) \<Rightarrow> (Some (Err er), l1)
           | (Inr _, l1) \<Rightarrow> (None, l1))
      | LocalAnswer i ans \<Rightarrow>
          (None, l\<lparr>lp_client := (lp_client l)\<lparr>cl_broker := fst (answer (cl_broker (lp_client l)) i ans)\<rparr>\<rparr>)))"

fun loop_run ::
    "nat \<Rightarrow> (env \<times> loop_event) list \<Rightarrow> ws_loop \<Rightarrow> (daemon_error, unit) res option \<times> ws_loop" where
  "loop_run interval [] l = (None, l)"
| "loop_run interval (ev # evs) l =
     (case loop_turn interval ev l of
        (Some res, l1) \<Rightarrow> (Some res, l1)
      | (None, l1) \<Rightarrow> loop_run interval evs l1)"

section \<open>Connecting\<close>

text \<open>
  The daemon's identity, and what dialling meets: whether the URL and the header values are
  accepted, whether the socket connects and takes the hello, and the first message (\<open>None\<close>
  when the stream ends). SHA-256 and the probes for local tools are parameters.
\<close>

record identity =
  id_token :: string
  id_fingerprint :: string
  id_device_kind :: string
  id_device_name :: string

record dial =
  dl_request_error :: "string option"
  dl_header_error :: "string \<Rightarrow> string option"
  dl_connect_error :: "string option"
  dl_sha256_hex :: "string \<Rightarrow> string"
  dl_client_version :: string
  dl_os :: string
  dl_arch :: string
  dl_tools :: "tool_probe list"
  dl_send_error :: "string option"
  dl_first :: "ws_message option"
  dl_now :: nat

definition FALLBACK_HEARTBEAT_INTERVAL_MS :: nat where
  "FALLBACK_HEARTBEAT_INTERVAL_MS = 30000"

definition hello_of :: "identity \<Rightarrow> dial \<Rightarrow> hello_frame" where
  "hello_of me d =
     \<lparr>he_v = PROTOCOL_VERSION, he_token_hash = dl_sha256_hex d (id_token me), he_fingerprint = id_fingerprint me,
      he_device_kind = (if id_device_kind me = ''desktop'' then Desktop else Mobile),
      he_device_name = id_device_name me, he_client_version = dl_client_version d,
      he_os = dl_os d, he_arch = dl_arch d,
      he_features = [''fs.patch'', ''ast'', ''eval'', ''lsp'', ''memory'', ''git'', ''proc'', ''pty'', ''browser'',
        ''os'', ''dap'', ''mcp'', ''tools''],
      he_consent_timeout_ms = CONSENT_TIMEOUT_MS, he_tools = dl_tools d\<rparr>"

definition dial_headers :: "identity \<Rightarrow> dial \<Rightarrow> (string, unit) res" where
  "dial_headers me d =
     try_bind (case dl_request_error d of Some e \<Rightarrow> Err (''into_client_request: '' @ e) | None \<Rightarrow> Ok ()) (\<lambda>_.
     try_bind (case dl_header_error d (''bearer.'' @ id_token me) of Some e \<Rightarrow> Err (''invalid header: '' @ e) | None \<Rightarrow> Ok ()) (\<lambda>_.
     try_bind (case dl_header_error d (dl_sha256_hex d (id_token me)) of Some e \<Rightarrow> Err (''invalid header: '' @ e) | None \<Rightarrow> Ok ()) (\<lambda>_.
     (case dl_connect_error d of Some e \<Rightarrow> Err (''connect: '' @ e) | None \<Rightarrow> Ok ()))))"

definition await_ack :: "ws_message option \<Rightarrow> (daemon_error, hello_ack_frame) res" where
  "await_ack first =
     (case first of
        None \<Rightarrow> Err (Protocol ''ws closed before hello_ack'')
      | Some (MsgError e) \<Rightarrow> Err (Ws (''recv hello_ack: '' @ e))
      | Some (MsgText (Inl e)) \<Rightarrow> Err (Json e)
      | Some (MsgText (Inr (HelloAck ack))) \<Rightarrow> Ok ack
      | Some (MsgText (Inr (ErrorFrame er))) \<Rightarrow> Err (Protocol (er_code er @ '': '' @ er_message er))
      | Some (MsgText (Inr _)) \<Rightarrow> Err (Protocol ''expected hello_ack'')
      | Some _ \<Rightarrow> Err (Protocol ''hello_ack not text''))"

definition handshake :: "identity \<Rightarrow> dial \<Rightarrow> client \<Rightarrow> (daemon_error, hello_ack_frame) res \<times> client" where
  "handshake me d c =
     (case dial_headers me d of
        Inl e \<Rightarrow> (Err (Ws e), c)
      | Inr _ \<Rightarrow>
          (case dl_send_error d of
             Some e \<Rightarrow> (Err (Ws (''send hello: '' @ e)), c)
           | None \<Rightarrow> (await_ack (dl_first d), c\<lparr>cl_sent := cl_sent c @ [Hello (hello_of me d)]\<rparr>)))"

definition agreed_interval :: "nat \<Rightarrow> hello_ack_frame \<Rightarrow> nat" where
  "agreed_interval fallback ack =
     (if ha_heartbeat_interval_ms ack > 0 then ha_heartbeat_interval_ms ack else fallback)"

definition accept_ack :: "nat \<Rightarrow> hello_ack_frame \<Rightarrow> client \<Rightarrow> ws_loop" where
  "accept_ack now ack c =
     \<lparr>lp_client = c\<lparr>cl_health := mark_connected now (cl_health c), cl_gate := gate_new (snapshot_from (ha_scopes ack))\<rparr>,
      lp_expected = None, lp_misses = 0\<rparr>"

text \<open>\<open>None\<close>: the connection is still open after the events.\<close>

definition connect_once ::
    "identity \<Rightarrow> dial \<Rightarrow> (env \<times> loop_event) list \<Rightarrow> nat \<Rightarrow> client \<Rightarrow> (daemon_error, unit) res option \<times> client" where
  "connect_once me d events fallback c =
     (case handshake me d c of
        (Inl e, c1) \<Rightarrow> (Some (Err e), c1)
      | (Inr ack, c1) \<Rightarrow>
          (case loop_run (agreed_interval fallback ack) events (accept_ack (dl_now d) ack c1) of
             (res, l) \<Rightarrow> (res, lp_client l)))"

section \<open>Reconnecting\<close>

definition fatal_message :: "string \<Rightarrow> bool" where
  "fatal_message m = (str_contains m ''auth_failed'' \<or> str_contains m ''revoked'')"

definition INITIAL_BACKOFF :: nat where "INITIAL_BACKOFF = 1000"
definition MAX_BACKOFF :: nat where "MAX_BACKOFF = 30000"

text \<open>
  One failure or close of a connection: the health counters, and either the error that ends
  \<open>run\<close> or the milliseconds to sleep (without the random part) and the next backoff.
\<close>

definition after_connection ::
    "nat \<Rightarrow> (daemon_error, unit) res \<Rightarrow> nat \<Rightarrow> client \<Rightarrow> (daemon_error, nat \<times> nat) res \<times> client" where
  "after_connection now res backoff c =
     (let next = (\<lambda>b. Ok (b, min (b * 2) MAX_BACKOFF));
          dropped = (\<lambda>h. c\<lparr>cl_health := mark_disconnected now h\<rparr>) in
      case res of
        Inr _ \<Rightarrow> (next INITIAL_BACKOFF, dropped (cl_health c))
      | Inl (Protocol m) \<Rightarrow>
          if fatal_message m then (Err (Protocol m), dropped (set_error m (cl_health c)))
          else (next backoff, dropped (set_error (error_to_string (Protocol m)) (cl_health c)))
      | Inl e \<Rightarrow> (next backoff, dropped (set_error (error_to_string e) (cl_health c))))"

record session =
  ss_dial :: dial
  ss_events :: "(env \<times> loop_event) list"
  ss_ended_at :: nat

datatype run_state = Stopped daemon_error | Connected | Waiting nat

text \<open>
  \<open>run\<close> over the connections made so far, with the sleeps between them: it has stopped, is
  still connected, or has finished them all and waits with the next backoff.
\<close>

fun run_sessions :: "identity \<Rightarrow> session list \<Rightarrow> nat \<Rightarrow> client \<Rightarrow> run_state \<times> nat list \<times> client" where
  "run_sessions me [] backoff c = (Waiting backoff, [], c)"
| "run_sessions me (s # ss) backoff c =
     (case connect_once me (ss_dial s) (ss_events s) FALLBACK_HEARTBEAT_INTERVAL_MS c of
        (None, c1) \<Rightarrow> (Connected, [], c1)
      | (Some res, c1) \<Rightarrow>
          (case after_connection (ss_ended_at s) res backoff c1 of
             (Inl e, c2) \<Rightarrow> (Stopped e, [], c2)
           | (Inr (sleep, backoff'), c2) \<Rightarrow>
               (case run_sessions me ss backoff' c2 of (st, sleeps, c3) \<Rightarrow> (st, sleep # sleeps, c3))))"

definition run :: "identity \<Rightarrow> session list \<Rightarrow> client \<Rightarrow> run_state \<times> nat list \<times> client" where
  "run me ss c = run_sessions me ss INITIAL_BACKOFF (c\<lparr>cl_broker := set_notifier (cl_broker c)\<rparr>)"

section \<open>The store of checkpoints\<close>

text \<open>
  \<open>with_checkpoint_dir\<close>, and the choice by \<open>SYNTHHIRES_CHECKPOINTS\<close>; \<open>project_dir\<close> is the
  platform's configuration directory.
\<close>

definition with_checkpoint_dir ::
    "client \<Rightarrow> path option \<Rightarrow> client" where
  "with_checkpoint_dir c dir =
     (case dir of
        None \<Rightarrow> c\<lparr>cl_checkpoints := None\<rparr>
      | Some d \<Rightarrow>
          (case store_open (cl_fs c) d of
             (Inr s, fs) \<Rightarrow> c\<lparr>cl_checkpoints := Some s, cl_fs := fs\<rparr>
           | (Inl _, fs) \<Rightarrow> c\<lparr>cl_checkpoints := None, cl_fs := fs\<rparr>))"

text \<open>\<open>None\<close>: the \<open>expect\<close> on the fallback store panics.\<close>

definition open_store_or_fallback ::
    "path \<Rightarrow> host_fs \<Rightarrow> path \<Rightarrow> (checkpoint_store \<times> host_fs) option" where
  "open_store_or_fallback temp_dir fs dir =
     (case store_open fs dir of
        (Inr s, fs1) \<Rightarrow> Some (s, fs1)
      | (Inl _, fs1) \<Rightarrow>
          (case store_open fs1 (temp_dir @ [Normal ''synthhires-checkpoints'']) of
             (Inr s, fs2) \<Rightarrow> Some (s, fs2)
           | (Inl _, _) \<Rightarrow> None))"

definition checkpoint_store_from_env ::
    "path \<Rightarrow> string option \<Rightarrow> path option \<Rightarrow> host_fs \<Rightarrow>
     (checkpoint_store option \<times> host_fs) option" where
  "checkpoint_store_from_env temp_dir var project_dir fs =
     (let opened = (\<lambda>dir. map_option (\<lambda>(s, fs1). (Some s, fs1)) (open_store_or_fallback temp_dir fs dir)) in
      case var of
        Some v \<Rightarrow> if v = ''off'' then Some (None, fs) else opened (path_components v)
      | None \<Rightarrow>
          (case project_dir of
             None \<Rightarrow> Some (None, fs)
           | Some d \<Rightarrow> opened (d @ [Normal ''checkpoints''])))"

end
