(* ===== verification/Ws_Safety.thy ===== *)
theory Ws_Safety
  imports Ws_Actions
begin

text \<open>
  Properties of \<open>handle_action\<close>: what an action may change without the owner, what is refused
  before any engine runs, when an action is parked, and what an approval permits.
\<close>

section \<open>A concrete client\<close>

definition demo_env :: env where
  "demo_env = \<lparr>e_now = 1000, e_elapsed = 5, e_clock = ''t'', e_socket_error = None,
     e_parse_uuid = (\<lambda>_. None), e_token = 0, e_uuid1 = ''u1'', e_uuid2 = ''u2'', e_lib = demo_lib,
     e_dbg = (\<lambda>_ _. ([], [])), e_lower = (\<lambda>s. s), e_home = None, e_json_text = (\<lambda>_. ''p''),
     e_read_req = (\<lambda>_. Ok \<lparr>rd_path = path_components ''/w/a.txt'', rd_max_bytes = None, rd_annotate = None\<rparr>),
     e_write_req = (\<lambda>_. Ok \<lparr>wr_path = path_components ''/etc/passwd'', wr_content = ''new''\<rparr>),
     e_patch_req = (\<lambda>_. Err ''p''),
     e_delete_req = (\<lambda>_. Ok \<lparr>del_path = path_components ''/etc/passwd''\<rparr>),
     e_verify_req = (\<lambda>_. Err ''p''), e_list_req = (\<lambda>_. Err ''p''), e_path_req = (\<lambda>_ _. Err ''p''),
     e_engine_req = (\<lambda>_ _. Err ''p''), e_engine = (\<lambda>_ _ _ fs. (Err (OpOther ''x''), fs)),
     e_edit = (\<lambda>_ _ fs. (Err Cancelled, fs)), e_rename = (\<lambda>_ _ fs. (Err Cancelled, fs)),
     e_eval = (\<lambda>_ _ fs. (Err Cancelled, fs)), e_memory = (\<lambda>_. None),
     e_shell = (\<lambda>_ _ fs. (Err Cancelled, fs)), e_sql = (\<lambda>_. no_fault), e_now_word = 0,
     e_conversation = (\<lambda>_. Err ''p''), e_artifact = (\<lambda>_. Err ''p''), e_project = (\<lambda>_. Err ''p'')\<rparr>"

definition demo_client :: client where
  "demo_client = \<lparr>cl_gate = demo_fs_gate, cl_broker = set_notifier broker_new, cl_parked = [],
     cl_tasks = globals_init, cl_health = health_new, cl_checkpoints = None, cl_chat = chat_db_empty,
     cl_fs = demo_fs, cl_audit = [], cl_sent = []\<rparr>"

definition demo_request :: "string \<Rightarrow> action_request_frame" where
  "demo_request cap = \<lparr>ar_v = 1, ar_id = ''a1'', ar_capability = cap, ar_params = JNull,
     ar_conversation_id = None, ar_skip_consent_prompt = True\<rparr>"

lemma demo_engines_quiet: "engines_quiet demo_env"
  by (simp add: engines_quiet_def demo_env_def)

section \<open>Lemmas\<close>

lemma capture_refusal_frame: "refusal (audit env (register_task env c r) r) r = refusal c r"
  by (simp add: refusal_def)

lemma handle_action_refused:
  assumes "refusal c r = Some m"
  shows "handle_action env c r decision = send_error env (audit env (register_task env c r) r) (ar_id r) m"
  using assms by (simp add: handle_action_def capture_refusal_frame)

lemma handle_action_runs:
  assumes "refusal c r = None" and "c1 = audit env (register_task env c r) r"
  shows "handle_action env c r decision =
    (case run_arm env c1 r decision of
       (Return res, c2) \<Rightarrow> (res, c2)
     | (Outcome res, c2) \<Rightarrow> (Ok (), if res = Err AwaitingConsent then park env c2 r else c2))"
  using assms by (simp add: handle_action_def capture_refusal_frame)

lemma park_frame [simp, frame_simps]:
  "cl_fs (park env c r) = cl_fs c" "cl_gate (park env c r) = cl_gate c" "cl_sent (park env c r) = cl_sent c"
  "cl_broker (park env c r) = cl_broker c" "cl_tasks (park env c r) = cl_tasks c"
  by (simp_all add: park_def)

lemma run_arm_simps:
  "ar_capability r = ''desktop.fs.write'' \<Longrightarrow> run_arm env c r d = outcome (arm_write env c r d)"
  "ar_capability r = ''desktop.fs.patch'' \<Longrightarrow> run_arm env c r d = outcome (arm_patch env c r d)"
  "ar_capability r = ''desktop.fs.delete'' \<Longrightarrow> run_arm env c r d = outcome (arm_delete env c r d)"
  "ar_capability r = ''desktop.fs.restore'' \<Longrightarrow> run_arm env c r d = arm_restore env c r d"
  "ar_capability r = ''desktop.checkpoint.list'' \<Longrightarrow> run_arm env c r d = outcome (arm_checkpoint_list env c r d)"
  by (simp_all add: run_arm_def MEMORY_ARMS_def ENGINE_ARMS_def)

lemma handle_action_fs:
  assumes "refusal c r = None"
  shows "cl_fs (snd (handle_action env c r d)) =
    cl_fs (snd (run_arm env (audit env (register_task env c r) r) r d))"
  unfolding handle_action_runs [OF assms refl] by (simp split: prod.split flow.split)

text \<open>The path a mutating request names, with the capability its gate is asked for.\<close>

definition mutation_target :: "env \<Rightarrow> action_request_frame \<Rightarrow> (string \<times> path) option" where
  "mutation_target env r =
     (if ar_capability r = ''desktop.fs.write''
        then (case e_write_req env (ar_params r) of Inr v \<Rightarrow> Some (''desktop.fs.write'', wr_path v) | _ \<Rightarrow> None)
      else if ar_capability r = ''desktop.fs.patch''
        then (case e_patch_req env (ar_params r) of Inr v \<Rightarrow> Some (''desktop.fs.write'', pt_path v) | _ \<Rightarrow> None)
      else if ar_capability r = ''desktop.fs.delete''
        then (case e_delete_req env (ar_params r) of Inr v \<Rightarrow> Some (''desktop.fs.delete'', del_path v) | _ \<Rightarrow> None)
      else None)"

definition approves :: "consent_answer option \<Rightarrow> bool" where
  "approves d = (case d of Some a \<Rightarrow> approved a | None \<Rightarrow> False)"

lemma path_gate_blocked:
  assumes "\<not> gate_allows_path c cap p" and "\<not> approves d"
  obtains e c1 where "path_gate env c r cap p d = (Inl e, c1)" "cl_fs c1 = cl_fs c"
proof -
  obtain res c1 where e: "path_gate env c r cap p d = (res, c1)" by fastforce
  then show ?thesis
    by (cases rule: path_gate_cases) (use assms e in \<open>auto simp: approves_def intro!: that\<close>)
qed

lemma with_path_gate_blocked:
  assumes "\<not> gate_allows_path c cap p" and "\<not> approves d"
  shows "cl_fs (snd (with_path_gate env c r cap p d k)) = cl_fs c"
proof -
  from path_gate_blocked [OF assms] obtain e c1 where
    "path_gate env c r cap p d = (Inl e, c1)" "cl_fs c1 = cl_fs c" .
  then show ?thesis by (simp add: with_path_gate_def)
qed

lemma with_path_gate_asks:
  assumes "allows (cl_gate c) cap" and "\<not> gate_allows_path c cap p"
  shows "with_path_gate env c r cap p None k =
    (Err AwaitingConsent, raise_consent env c r cap (cap @ '' sobre '' @ path_display p) (path_display p))"
  using assms by (simp add: with_path_gate_def path_gate_def)

lemma gate_allows_audited [simp]:
  "gate_allows_path (audit env (register_task env c r) r) cap p = gate_allows_path c cap p"
  by (rule gate_allows_path_cong) simp_all

lemma allows_granted: "gate_allows_path c cap p \<Longrightarrow> allows (cl_gate c) cap \<and> \<not> has_parent_dir p"
  using real.allow_granted [of "canonicalize (cl_fs c)" "cl_gate c" cap p]
  by (simp add: gate_allows_path_def check_path_real_ok)

lemma broker_open_ask [simp]: "broker_open (fst (ask b p)) k = (k = prompt_action_id p \<or> broker_open b k)"
  by (rule desk.open_raise)

lemma asked_open: "asked r b b' \<Longrightarrow> broker_open b' (ar_id r)"
  by (auto simp: asked_def)

lemma write_scope: "ar_capability r = ''desktop.fs.write'' \<Longrightarrow> allows (cl_gate c) ''desktop.fs.write'' \<Longrightarrow> refusal c r = None"
  by (simp add: refusal_def required_scope_def)

lemma delete_scope: "ar_capability r = ''desktop.fs.delete'' \<Longrightarrow> allows (cl_gate c) ''desktop.fs.delete'' \<Longrightarrow> refusal c r = None"
  by (simp add: refusal_def required_scope_def)

section \<open>Properties\<close>

text \<open>
  C15. What an action can do to the desk. Whatever the request and the owner's decision, the
  gate stays as it was unless the owner approved with "remember", and then the one path the
  request put before the gate is added; the checkpoint store, the archive and the health
  counters are untouched. The broker and the parked table are untouched too, or the request was
  undecided and raised exactly its own prompt: the prompt is entered under the request's
  identifier, every other open prompt, every answer sent and every queued decision is kept; and
  then at most this very request was parked.
\<close>

theorem action_effects:
  assumes "engines_quiet env" and "c' = snd (handle_action env c r d)"
  shows "(cl_gate c' = cl_gate c \<or>
      (\<exists>ans cap p. d = Some ans \<and> approved ans \<and> remember ans \<and> gated_path env r = Some (cap, p) \<and>
         cl_gate c' = with_additional_path (cl_gate c) p)) \<and>
    cl_checkpoints c' = cl_checkpoints c \<and> cl_chat c' = cl_chat c \<and> cl_health c' = cl_health c \<and>
    (cl_broker c' = cl_broker c \<and> cl_parked c' = cl_parked c \<or>
     d = None \<and>
     (\<exists>q. request_prompt env c r = Some q \<and> prompt_action_id q = ar_id r \<and>
        cl_broker c' = (cl_broker c)\<lparr>pending := assoc_insert (ar_id r) (q, next_rx (cl_broker c)) (pending (cl_broker c)),
          next_rx := next_rx (cl_broker c) + 1\<rparr>) \<and>
     (cl_parked c' = cl_parked c \<or> cl_parked c' = assoc_insert (ar_id r) (r, e_now env) (cl_parked c)))"
proof -
  note t = handle_action_target [OF assms(1), of c r d, folded assms(2)]
  have "cl_gate c' = cl_gate c \<or>
      (\<exists>ans cap p. d = Some ans \<and> approved ans \<and> remember ans \<and> gated_path env r = Some (cap, p) \<and>
         cl_gate c' = with_additional_path (cl_gate c) p)"
    using t by (auto simp: target_step_def gate_to_def request_target_def)
  moreover have "cl_broker c' = cl_broker c \<and> cl_parked c' = cl_parked c \<or>
     d = None \<and>
     (\<exists>q. request_prompt env c r = Some q \<and> prompt_action_id q = ar_id r \<and>
        cl_broker c' = (cl_broker c)\<lparr>pending := assoc_insert (ar_id r) (q, next_rx (cl_broker c)) (pending (cl_broker c)),
          next_rx := next_rx (cl_broker c) + 1\<rparr>) \<and>
     (cl_parked c' = cl_parked c \<or> cl_parked c' = assoc_insert (ar_id r) (r, e_now env) (cl_parked c))"
    using t by (auto simp: target_step_def asked_for_def request_target_def ask_def Let_def)
  ultimately show ?thesis using t by (simp add: target_step_def)
qed

text \<open>An undecided write outside the roots: one prompt, one parked request, the gate as it was.\<close>

theorem action_effects_witness:
  "\<exists>q. request_prompt demo_env demo_client (demo_request ''desktop.fs.write'') = Some q \<and>
     prompt_path q = Some ''/etc/passwd'' \<and>
     pending (cl_broker (snd (handle_action demo_env demo_client (demo_request ''desktop.fs.write'') None))) = [(''a1'', q, 0)] \<and>
     cl_gate (snd (handle_action demo_env demo_client (demo_request ''desktop.fs.write'') None)) = demo_fs_gate"
proof -
  let ?r = "demo_request ''desktop.fs.write''"
  let ?q = "\<lparr>prompt_action_id = ''a1'', prompt_capability = ''desktop.fs.write'',
      prompt_summary = ''desktop.fs.write sobre /etc/passwd'', prompt_path = Some ''/etc/passwd''\<rparr>"
  have gate: "cl_gate demo_client = demo_fs_gate" by (simp add: demo_client_def)
  have q: "request_prompt demo_env demo_client ?r = Some ?q" by code_simp
  have raised: "broker_open (cl_broker (snd (handle_action demo_env demo_client ?r None))) ''a1''" by code_simp
  have none: "\<not> broker_open (cl_broker demo_client) ''a1''" "pending (cl_broker demo_client) = []"
    "next_rx (cl_broker demo_client) = 0" "ar_id ?r = ''a1''"
    by code_simp+
  from action_effects [OF demo_engines_quiet refl, of demo_client ?r None] raised none q gate
  show ?thesis by (auto simp: assoc_insert_def assoc_remove_def)
qed

text \<open>
  C14. Refused before anything runs. An action whose required scope is not granted, and a shell
  command with a dangerous pattern, is answered with one failed result and does nothing else:
  the disk, the gate, the broker and the parked table are as before, whatever the decision
  and whatever the engines would do.
\<close>

theorem ungranted_or_dangerous_refused:
  assumes "required_scope r \<noteq> ''self'' \<and> required_scope r \<notin> set (capabilities (snapshot (cl_gate c))) \<or>
      ar_capability r = ''desktop.shell.execute'' \<and> contains_dangerous_shell (shell_command (ar_params r))"
    and "c' = snd (handle_action env c r d)"
  shows "cl_fs c' = cl_fs c \<and> cl_gate c' = cl_gate c \<and> cl_broker c' = cl_broker c \<and> cl_parked c' = cl_parked c \<and>
    (\<exists>m. cl_sent c' = cl_sent c @
       (if e_socket_error env = None then [ActionResult (result_frame (ar_id r) False None (Some m) 0)] else []))"
proof -
  have "refusal c r \<noteq> None" using assms(1) by (auto simp: refusal_def allows_iff)
  then obtain m where "refusal c r = Some m" by blast
  from handle_action_refused [OF this, of env d] show ?thesis
    by (auto simp: assms(2))
qed

theorem ungranted_or_dangerous_refused_witness:
  "cl_fs (snd (handle_action demo_env
      (demo_client\<lparr>cl_gate := gate_new (snapshot_from \<lparr>sc_capabilities = [''desktop.shell.execute''], sc_always_allow_paths = []\<rparr>)\<rparr>)
      ((demo_request ''desktop.shell.execute'')\<lparr>ar_params := JObj [(''command'', JStr ''RM   -rf /; rm -RF /'')]\<rparr>) None))
   = demo_fs"
proof -
  let ?r = "(demo_request ''desktop.shell.execute'')\<lparr>ar_params := JObj [(''command'', JStr ''RM   -rf /; rm -RF /'')]\<rparr>"
  have d: "contains_dangerous_shell (shell_command (ar_params ?r))" by code_simp
  have "ar_capability ?r = ''desktop.shell.execute''" by (simp add: demo_request_def)
  then have h: "required_scope ?r \<noteq> ''self'' \<and> required_scope ?r \<notin> set (capabilities (snapshot (cl_gate c))) \<or>
      ar_capability ?r = ''desktop.shell.execute'' \<and> contains_dangerous_shell (shell_command (ar_params ?r))" for c
    using d by blast
  show ?thesis using ungranted_or_dangerous_refused [OF h refl] by (simp add: demo_client_def)
qed

text \<open>
  C2. No mutation without the owner. A write, patch or delete whose path the gate does not
  allow, and a restore that is not granted, leaves the disk exactly as it was unless the
  owner approved it; the server's \<open>skipConsentPrompt\<close> flag does not matter.
\<close>

theorem unapproved_mutation_blocked:
  assumes "(\<exists>cap p. mutation_target env r = Some (cap, p) \<and> \<not> gate_allows_path c cap p) \<or>
      ar_capability r = ''desktop.fs.restore'' \<and> \<not> allows (cl_gate c) ''desktop.fs.restore''"
    and "\<not> approves d"
  shows "cl_fs (snd (handle_action env c r d)) = cl_fs c"
proof (cases "refusal c r")
  case (Some m)
  then show ?thesis by (simp add: handle_action_refused)
next
  case None
  define c1 where "c1 = audit env (register_task env c r) r"
  have same: "cl_fs c1 = cl_fs c" "cl_gate c1 = cl_gate c" by (simp_all add: c1_def)
  have ga: "gate_allows_path c1 cap p = gate_allows_path c cap p" for cap p by (simp add: c1_def)
  have "cl_fs (snd (run_arm env c1 r d)) = cl_fs c"
  proof (cases "ar_capability r = ''desktop.fs.restore''")
    case True
    then have "\<not> allows (cl_gate c1) ''desktop.fs.restore''"
      using assms(1) by (auto simp: mutation_target_def same)
    with True assms(2) show ?thesis
      by (auto simp: run_arm_simps arm_restore_def early_def outcome_def Let_def same approves_def
          split: option.split prod.split)
  next
    case False
    then obtain cap p where t: "mutation_target env r = Some (cap, p)" "\<not> gate_allows_path c1 cap p"
      using assms(1) ga by auto
    from path_gate_blocked [OF t(2) assms(2)] obtain e c2 where
      g: "path_gate env c1 r cap p d = (Inl e, c2)" "cl_fs c2 = cl_fs c1" .
    with t show ?thesis
      by (auto simp: mutation_target_def run_arm_simps outcome_def arm_write_def arm_patch_def arm_delete_def
          with_path_gate_def same split: if_splits sum.splits)
  qed
  then show ?thesis by (simp add: handle_action_fs [OF None] c1_def)
qed

theorem unapproved_mutation_blocked_witness:
  "\<not> gate_allows_path demo_client ''desktop.fs.write'' (path_components ''/etc/passwd'') \<and>
   cl_fs (snd (handle_action demo_env demo_client (demo_request ''desktop.fs.write'') None)) = cl_fs demo_client"
proof -
  have a: "mutation_target demo_env (demo_request ''desktop.fs.write'') =
      Some (''desktop.fs.write'', path_components ''/etc/passwd'')"
    by (simp add: mutation_target_def demo_request_def demo_env_def)
  have b: "\<not> gate_allows_path demo_client ''desktop.fs.write'' (path_components ''/etc/passwd'')"
    by code_simp
  have c: "\<not> approves None" by (simp add: approves_def)
  from a b have h: "(\<exists>cap p. mutation_target demo_env (demo_request ''desktop.fs.write'') = Some (cap, p) \<and>
      \<not> gate_allows_path demo_client cap p) \<or>
      ar_capability (demo_request ''desktop.fs.write'') = ''desktop.fs.restore'' \<and>
      \<not> allows (cl_gate demo_client) ''desktop.fs.restore''" by blast
  from unapproved_mutation_blocked [OF h c] b show ?thesis by blast
qed

text \<open>
  A write outside the granted paths waits for the owner. The disk is untouched, exactly
  one consent prompt naming the path is sent and no result, the prompt is open at the broker,
  and the request is parked under its id with the current time.
\<close>

lemma out_of_scope_write_parks:
  assumes "ar_capability r = ''desktop.fs.write''" and "allows (cl_gate c) ''desktop.fs.write''"
    and "e_write_req env (ar_params r) = Ok value" and "\<not> gate_allows_path c ''desktop.fs.write'' (wr_path value)"
    and "e_socket_error env = None" and "handle_action env c r None = (res, c')"
  shows "res = Ok () \<and> cl_fs c' = cl_fs c \<and> cl_gate c' = cl_gate c \<and>
    cl_sent c' = cl_sent c @ [ConsentPrompt (consent_relay r ''desktop.fs.write''
      (''desktop.fs.write sobre '' @ path_display (wr_path value)) (path_display (wr_path value)))] \<and>
    broker_open (cl_broker c') (ar_id r) \<and>
    map_of (cl_parked c') (ar_id r) = Some (r, e_now env)"
proof -
  define c1 where "c1 = audit env (register_task env c r) r"
  have "run_arm env c1 r None = outcome (Err AwaitingConsent, raise_consent env c1 r ''desktop.fs.write''
      (''desktop.fs.write'' @ '' sobre '' @ path_display (wr_path value)) (path_display (wr_path value)))"
    using assms(1-4) by (simp add: run_arm_simps arm_write_def with_path_gate_asks c1_def)
  with handle_action_runs [OF write_scope [OF assms(1,2)] c1_def, of None] assms(5,6) show ?thesis
    by (auto simp: outcome_def c1_def) (simp_all add: park_def)
qed

lemma out_of_scope_write_parks_witness:
  "map_of (cl_parked (snd (handle_action demo_env demo_client (demo_request ''desktop.fs.write'') None))) ''a1''
     = Some (demo_request ''desktop.fs.write'', 1000) \<and>
   length (cl_sent (snd (handle_action demo_env demo_client (demo_request ''desktop.fs.write'') None))) = 1"
proof -
  let ?r = "demo_request ''desktop.fs.write''"
  have a: "ar_capability ?r = ''desktop.fs.write''" "allows (cl_gate demo_client) ''desktop.fs.write''"
    "e_write_req demo_env (ar_params ?r) = Ok \<lparr>wr_path = path_components ''/etc/passwd'', wr_content = ''new''\<rparr>"
    "\<not> gate_allows_path demo_client ''desktop.fs.write'' (wr_path \<lparr>wr_path = path_components ''/etc/passwd'', wr_content = ''new''\<rparr>)"
    "e_socket_error demo_env = None"
    by (simp add: demo_request_def, code_simp, simp add: demo_env_def, code_simp, simp add: demo_env_def)
  have i: "ar_id ?r = ''a1''" "e_now demo_env = 1000" "cl_sent demo_client = []"
    by (simp_all add: demo_request_def demo_env_def demo_client_def)
  obtain res c' where h: "handle_action demo_env demo_client ?r None = (res, c')" by fastforce
  from out_of_scope_write_parks [OF a h] show ?thesis by (simp add: h i)
qed

text \<open>
  A delete is answered while it waits for the owner. The consent prompt of a delete outside
  the granted paths is raised and stays open, but the request is not parked: the failure
  "waiting for owner consent" is sent at once, so a later approval has nothing to resume.
\<close>

lemma delete_prompt_not_parked:
  assumes "ar_capability r = ''desktop.fs.delete''" and "allows (cl_gate c) ''desktop.fs.delete''"
    and "e_delete_req env (ar_params r) = Ok value" and "\<not> gate_allows_path c ''desktop.fs.delete'' (del_path value)"
    and "e_socket_error env = None" and "handle_action env c r None = (res, c')"
  shows "cl_parked c' = cl_parked c \<and> broker_open (cl_broker c') (ar_id r) \<and>
    (\<exists>prompt. cl_sent c' = cl_sent c @ [ConsentPrompt prompt,
       ActionResult (result_frame (ar_id r) False None (Some ''waiting for owner consent'') 0)])"
proof -
  define c1 where "c1 = audit env (register_task env c r) r"
  define c2 where "c2 = raise_consent env c1 r ''desktop.fs.delete''
      (''desktop.fs.delete'' @ '' sobre '' @ path_display (del_path value)) (path_display (del_path value))"
  have "path_gate env c1 r ''desktop.fs.delete'' (del_path value) None = (Err AwaitingConsent, c2)"
    using assms(2,4) by (simp add: path_gate_def c1_def c2_def)
  then have run: "run_arm env c1 r None = outcome (send_error env c2 (ar_id r) ''waiting for owner consent'')"
    using assms(1,3) by (simp add: run_arm_simps arm_delete_def c1_def)
  show ?thesis
    using handle_action_runs [OF delete_scope [OF assms(1,2)] c1_def, of None] run assms(5,6)
    by (auto simp: outcome_def c2_def c1_def)
qed

lemma delete_prompt_not_parked_witness:
  "cl_parked (snd (handle_action demo_env demo_client (demo_request ''desktop.fs.delete'') None)) = []"
proof -
  let ?r = "demo_request ''desktop.fs.delete''"
  have a: "ar_capability ?r = ''desktop.fs.delete''" "allows (cl_gate demo_client) ''desktop.fs.delete''"
    "e_delete_req demo_env (ar_params ?r) = Ok \<lparr>del_path = path_components ''/etc/passwd''\<rparr>"
    "\<not> gate_allows_path demo_client ''desktop.fs.delete'' (del_path \<lparr>del_path = path_components ''/etc/passwd''\<rparr>)"
    "e_socket_error demo_env = None"
    by (simp add: demo_request_def, code_simp, simp add: demo_env_def, code_simp, simp add: demo_env_def)
  obtain res c' where h: "handle_action demo_env demo_client ?r None = (res, c')" by fastforce
  have "cl_parked demo_client = []" by (simp add: demo_client_def)
  with delete_prompt_not_parked [OF a h] show ?thesis by (simp add: h)
qed

text \<open>
  C6. What a permitted write does to the disk. Once the path gate lets a write through, be it
  by a grant or by the owner's approval, the pre-image is captured first and the disk is then
  exactly what \<open>fs_ops_write\<close> makes of it under the gate that was returned; when the capture
  fails, the write does not happen and the request is answered with the refusal.
\<close>

theorem permitted_write_captures_first:
  assumes "ar_capability r = ''desktop.fs.write''" and "allows (cl_gate c) ''desktop.fs.write''"
    and "e_write_req env (ar_params r) = Ok value" and "cl_checkpoints c = Some store"
    and "path_gate env (audit env (register_task env c r) r) r ''desktop.fs.write'' (wr_path value) d = (Ok gate, c1)"
    and "capture (e_lib env) (cl_fs c) store (e_now env) (ar_id r) ''desktop.fs.write'' (wr_path value) = (cap, fs1)"
    and "e_socket_error env = None" and "handle_action env c r d = (res, c')"
  shows "res = Ok () \<and>
    (case cap of
       Inr _ \<Rightarrow> cl_fs c' = snd (fs_ops_write fs1 gate (e_uuid1 env) value)
     | Inl e \<Rightarrow> cl_fs c' = fs1 \<and>
         cl_sent c' = cl_sent c @ [ActionResult (result_frame (ar_id r) False None
           (Some (''checkpoint failed (mutation refused): '' @ checkpoint_error_to_string e)) 0)])"
proof -
  define c0 where "c0 = audit env (register_task env c r) r"
  note g = path_gate_contract [OF assms(5)]
  have sent: "cl_sent c1 = cl_sent c"
    using assms(5) by (cases rule: path_gate_cases) (auto split: if_splits)
  have c1: "cl_fs c1 = cl_fs c" "cl_checkpoints c1 = Some store" using g assms(4) by auto
  have before: "checkpoint_before env c1 r (wr_path value) =
      (case cap of Inl e \<Rightarrow> Err (''checkpoint failed (mutation refused): '' @ checkpoint_error_to_string e)
       | Inr _ \<Rightarrow> Ok (), c1\<lparr>cl_fs := fs1\<rparr>)"
    using assms(1,6) c1 by (simp add: checkpoint_before_def split: sum.split)
  obtain wres fs2 where w: "fs_ops_write fs1 gate (e_uuid1 env) value = (wres, fs2)" by fastforce
  have arm: "arm_write env c0 r d = with_checkpoint env c1 r (wr_path value) (\<lambda>c2.
            case fs_ops_write (cl_fs c2) gate (e_uuid1 env) value of
              (Inr res, fs) \<Rightarrow> send_action_result env (c2\<lparr>cl_fs := fs\<rparr>) (ar_id r) (ww_verified res)
                (Some (JObj [(''bytes_written'', JInt (int (ww_bytes_written res))), (''verified'', JBool (ww_verified res))]))
                (if ww_verified res then None else Some ''write read-back verification failed'') (e_elapsed env)
            | (Inl e, fs) \<Rightarrow> send_error env (c2\<lparr>cl_fs := fs\<rparr>) (ar_id r) (error_to_string e))"
    using assms(3,5) by (simp add: arm_write_def with_path_gate_def c0_def)
  show ?thesis
    using handle_action_runs [OF write_scope [OF assms(1,2)] c0_def, of d] assms(1,7,8) w sent
    by (cases cap; cases wres)
      (auto simp: run_arm_simps arm with_checkpoint_def before outcome_def send_error_def send_action_result_def
        ws_send_def Let_def split: option.splits)
qed

theorem permitted_write_captures_first_witness:
  "\<exists>cap fs1. capture demo_lib demo_fs demo_store 1000 ''a1'' ''desktop.fs.write'' (path_components ''/etc/passwd'') = (cap, fs1) \<and>
     (is_ok cap \<longrightarrow>
        cl_fs (snd (handle_action demo_env (demo_client\<lparr>cl_checkpoints := Some demo_store\<rparr>)
          (demo_request ''desktop.fs.write'') (Some \<lparr>approved = True, remember = False\<rparr>)))
        = snd (fs_ops_write fs1 (with_one_shot_path demo_fs_gate (path_components ''/etc/passwd'')) ''u1''
            \<lparr>wr_path = path_components ''/etc/passwd'', wr_content = ''new''\<rparr>))"
proof -
  let ?r = "demo_request ''desktop.fs.write''" and ?c = "demo_client\<lparr>cl_checkpoints := Some demo_store\<rparr>"
  let ?v = "\<lparr>wr_path = path_components ''/etc/passwd'', wr_content = ''new''\<rparr>"
  let ?d = "Some \<lparr>approved = True, remember = False\<rparr>"
  let ?c1 = "audit demo_env (register_task demo_env ?c ?r) ?r"
  have f: "cl_fs ?c = demo_fs" "cl_gate ?c = demo_fs_gate" "e_lib demo_env = demo_lib" "e_now demo_env = 1000"
    "ar_id ?r = ''a1''" "e_uuid1 demo_env = ''u1''"
    by (simp_all add: demo_client_def demo_env_def demo_request_def)
  have a: "ar_capability ?r = ''desktop.fs.write''" "allows (cl_gate ?c) ''desktop.fs.write''"
    "e_write_req demo_env (ar_params ?r) = Ok ?v" "cl_checkpoints ?c = Some demo_store"
    by (simp add: demo_request_def, code_simp, simp add: demo_env_def, simp)
  have n: "\<not> gate_allows_path ?c ''desktop.fs.write'' (path_components ''/etc/passwd'')" by code_simp
  have g: "path_gate demo_env ?c1 ?r ''desktop.fs.write'' (wr_path ?v) ?d =
      (Ok (with_one_shot_path demo_fs_gate (path_components ''/etc/passwd'')), ?c1)"
    using a(2) n f(2) by (simp add: path_gate_def)
  have s: "e_socket_error demo_env = None" by (simp add: demo_env_def)
  obtain cap fs1 where k: "capture (e_lib demo_env) (cl_fs ?c) demo_store (e_now demo_env) (ar_id ?r)
      ''desktop.fs.write'' (wr_path ?v) = (cap, fs1)" by fastforce
  obtain res c' where h: "handle_action demo_env ?c ?r ?d = (res, c')" by fastforce
  from permitted_write_captures_first [OF a g k s h] k h f show ?thesis
    by (auto simp: is_ok_def split: sum.splits)
qed

text \<open>
  C22. Consent cannot override traversal. A path with a parent component is never allowed by the
  gate, so such a write asks the owner like any other; but whatever the owner answers,
  \<open>fs_ops_write\<close> refuses it under the gate the approval returns and leaves the disk alone.
\<close>

theorem traversal_prompts_but_never_writes:
  assumes "has_parent_dir p" and "allows (cl_gate c) ''desktop.fs.write''"
  shows "fst (path_gate env c r ''desktop.fs.write'' p None) = Err AwaitingConsent \<and>
    (\<forall>d gate c1. path_gate env c r ''desktop.fs.write'' p d = (Ok gate, c1) \<longrightarrow>
       approves d \<and>
       (\<forall>fs u content. \<exists>e. fs_ops_write fs gate u \<lparr>wr_path = p, wr_content = content\<rparr> = (Err e, fs)))"
proof (intro conjI allI impI)
  have no: "\<not> gate_allows_path c ''desktop.fs.write'' p" using allows_granted assms(1) by blast
  with assms(2) show "fst (path_gate env c r ''desktop.fs.write'' p None) = Err AwaitingConsent"
    by (simp add: path_gate_def)
  fix d gate c1 fs u content
  assume "path_gate env c r ''desktop.fs.write'' p d = (Ok gate, c1)"
  then show "approves d"
    by (cases rule: path_gate_cases) (use no in \<open>auto simp: approves_def\<close>)
  have "op_decision fs gate ''desktop.fs.write'' p \<noteq> Allow"
    using op_gate.traversal_denied [OF assms(1)] by simp
  then obtain e where "gate_for_path fs gate ''desktop.fs.write'' p = Err e"
    by (metis gate_for_path_cases)
  then show "\<exists>e. fs_ops_write fs gate u \<lparr>wr_path = p, wr_content = content\<rparr> = (Err e, fs)"
    by (simp add: fs_ops_write_def)
qed

theorem traversal_prompts_but_never_writes_witness:
  "fst (path_gate demo_env demo_client (demo_request ''desktop.fs.write'') ''desktop.fs.write''
     (path_components ''/w/../etc/passwd'') None) = Err AwaitingConsent"
proof -
  have a: "has_parent_dir (path_components ''/w/../etc/passwd'')" by code_simp
  have b: "allows (cl_gate demo_client) ''desktop.fs.write''" by code_simp
  from traversal_prompts_but_never_writes [OF a b] show ?thesis by blast
qed

text \<open>
  The server's skip flag never widens. Whatever \<open>skipConsentPrompt\<close> says, a path the gate
  does not allow is treated exactly as without the flag; with the flag, an allowed path gets
  the gate it already had plus the path itself.
\<close>

lemma skip_flag_never_widens:
  "(\<not> gate_allows_path c cap p \<longrightarrow>
      fst (path_gate env c (r\<lparr>ar_skip_consent_prompt := True\<rparr>) cap p d) =
      fst (path_gate env c (r\<lparr>ar_skip_consent_prompt := False\<rparr>) cap p d)) \<and>
   (gate_allows_path c cap p \<longrightarrow>
      path_gate env c (r\<lparr>ar_skip_consent_prompt := True\<rparr>) cap p d = (Ok (with_additional_path (cl_gate c) p), c) \<and>
      path_gate env c (r\<lparr>ar_skip_consent_prompt := False\<rparr>) cap p d = (Ok (cl_gate c), c))"
  using allows_granted by (auto simp: path_gate_def split: option.split)

lemma skip_flag_never_widens_witness:
  "\<not> gate_allows_path demo_client ''desktop.fs.write'' (path_components ''/etc/passwd'') \<and>
   fst (path_gate demo_env demo_client ((demo_request ''desktop.fs.write'')\<lparr>ar_skip_consent_prompt := False\<rparr>)
     ''desktop.fs.write'' (path_components ''/etc/passwd'') None) =
   fst (path_gate demo_env demo_client ((demo_request ''desktop.fs.write'')\<lparr>ar_skip_consent_prompt := True\<rparr>)
     ''desktop.fs.write'' (path_components ''/etc/passwd'') None)"
proof -
  have "\<not> gate_allows_path demo_client ''desktop.fs.write'' (path_components ''/etc/passwd'')" by code_simp
  with skip_flag_never_widens show ?thesis by metis
qed

end
