(* ===== verification/Ws_Session.thy ===== *)
theory Ws_Session
  imports Ws_Loop Ws_Safety
begin

text \<open>
  Properties of a connection over any sequence of events: the refinement of an abstract
  consent desk, by which no parked action is lost; expiry; the heartbeat watchdog; chat
  pushes; and the reconnect loop.
\<close>

section \<open>The abstract consent desk\<close>

text \<open>
  What the owner sees: the ids that wait parked, the prompts that are open, and the decisions
  not yet taken up, in order.
\<close>

record desk_view =
  waiting :: "string set"
  prompts :: "string set"
  decided :: "decision_msg list"

inductive desk_step :: "desk_view \<Rightarrow> desk_view \<Rightarrow> bool" where
  stay: "desk_step v v"
| prompt: "desk_step v (v\<lparr>prompts := insert k (prompts v)\<rparr>)"
| parks: "desk_step v (v\<lparr>prompts := insert k (prompts v), waiting := insert k (waiting v)\<rparr>)"
| settle: "k \<in> prompts v \<Longrightarrow>
    desk_step v (v\<lparr>prompts := prompts v - {k}, decided := decided v @ [(k, a)]\<rparr>)"
| decide: "decided v = (k, a) # q \<Longrightarrow> desk_step v (v\<lparr>decided := q, waiting := waiting v - {k}\<rparr>)"
| expire: "desk_step v (v\<lparr>waiting := waiting v - {k}, prompts := prompts v - {k},
    decided := decided v @ (if k \<in> prompts v then [(k, \<lparr>approved = False, remember = False\<rparr>)] else [])\<rparr>)"

inductive_cases desk_stepE: "desk_step v w"

abbreviation desk_steps :: "desk_view \<Rightarrow> desk_view \<Rightarrow> bool" where
  "desk_steps \<equiv> rtranclp desk_step"

text \<open>Nobody waits in vain: a waiting id has an open prompt or a decision on its way.\<close>

definition covered :: "desk_view \<Rightarrow> bool" where
  "covered v \<longleftrightarrow> waiting v \<subseteq> prompts v \<union> fst ` set (decided v)"

lemma desk_step_covered: "desk_step v w \<Longrightarrow> covered v \<Longrightarrow> covered w"
  by (erule desk_stepE) (auto simp: covered_def)

lemma desk_steps_covered: "desk_steps v w \<Longrightarrow> covered v \<Longrightarrow> covered w"
  by (induction rule: rtranclp_induct) (auto intro: desk_step_covered)

section \<open>The loop refines it\<close>

definition desk_of :: "client \<Rightarrow> desk_view" where
  "desk_of c = \<lparr>waiting = fst ` set (cl_parked c), prompts = {k. broker_open (cl_broker c) k},
     decided = broker_decisions (cl_broker c)\<rparr>"

lemma desk_of_cong:
  "cl_parked c' = cl_parked c \<Longrightarrow> cl_broker c' = cl_broker c \<Longrightarrow> desk_of c' = desk_of c"
  by (simp add: desk_of_def)

lemma asked_desk:
  assumes "asked r b b'"
  shows "{k. broker_open b' k} = insert (ar_id r) {k. broker_open b k}"
    and "broker_decisions b' = broker_decisions b" and "broker_ready b' = broker_ready b"
  using assms by (auto simp: asked_def desk.decisions_raise) (auto simp: broker_ready_def ask_def Let_def)

lemma answer_desk:
  assumes "broker_ready b"
  shows "{k. broker_open (fst (answer b i a)) k} = {k. broker_open b k} - {i}"
    and "broker_decisions (fst (answer b i a)) =
      broker_decisions b @ (if broker_open b i then [(i, a)] else [])"
    and "broker_ready (fst (answer b i a))"
  using assms by (auto simp: desk.open_settle desk.decisions_settle desk.ready_settle)

lemma action_desk:
  assumes "engines_quiet env" and "c' = snd (handle_action env c r d)"
  shows "desk_step (desk_of c) (desk_of c')" and "broker_ready (cl_broker c') = broker_ready (cl_broker c)"
    and "d \<noteq> None \<Longrightarrow> desk_of c' = desk_of c"
proof -
  note h = handle_action_step [OF assms(1), of r d c, folded assms(2), unfolded action_step_def]
  show "broker_ready (cl_broker c') = broker_ready (cl_broker c)"
    using h asked_desk(3) by auto
  show "d \<noteq> None \<Longrightarrow> desk_of c' = desk_of c"
    using h by (auto simp: desk_of_def)
  consider (same) "cl_parked c' = cl_parked c" "cl_broker c' = cl_broker c"
    | (asks) "cl_parked c' = cl_parked c" "asked r (cl_broker c) (cl_broker c')"
    | (parks) "cl_parked c' = assoc_insert (ar_id r) (r, e_now env) (cl_parked c)"
        "asked r (cl_broker c) (cl_broker c')"
    using h by blast
  then show "desk_step (desk_of c) (desk_of c')"
  proof cases
    case same
    then have "desk_of c' = desk_of c" by (rule desk_of_cong)
    then show ?thesis using desk_step.stay by simp
  next
    case asks
    then show ?thesis
      using desk_step.prompt [of "desk_of c" "ar_id r"] by (simp add: desk_of_def asked_desk)
  next
    case parks
    then show ?thesis
      using desk_step.parks [of "desk_of c" "ar_id r"] by (simp add: desk_of_def asked_desk)
  qed
qed

lemma answer_client_desk:
  assumes "broker_ready (cl_broker c)"
  shows "desk_step (desk_of c) (desk_of (c\<lparr>cl_broker := fst (answer (cl_broker c) i a)\<rparr>))"
proof (cases "broker_open (cl_broker c) i")
  case True
  then show ?thesis
    using desk_step.settle [of i "desk_of c" a] by (simp add: desk_of_def answer_desk assms)
next
  case False
  then show ?thesis using desk_step.stay by (simp add: answer_closed)
qed

lemma sweep_one_desk:
  assumes "broker_ready (cl_broker c)"
  shows "desk_step (desk_of c) (desk_of (sweep_one i c))" and "broker_ready (cl_broker (sweep_one i c))"
  using desk_step.expire [of "desk_of c" i] assms
  by (simp_all add: desk_of_def sweep_one_def answer_desk)

lemma sweep_fold_desk:
  "broker_ready (cl_broker c) \<Longrightarrow>
   desk_steps (desk_of c) (desk_of (fold sweep_one ids c)) \<and> broker_ready (cl_broker (fold sweep_one ids c))"
proof (induction ids arbitrary: c)
  case (Cons i ids)
  from sweep_one_desk [OF Cons.prems] Cons.IH [of "sweep_one i c"] show ?case
    by (auto intro: converse_rtranclp_into_rtranclp)
qed simp

lemma recv_decision_desk:
  "recv_decision b = Some ((i, a), b') \<Longrightarrow>
   broker_decisions b = (i, a) # broker_decisions b' \<and> broker_ready b' \<and> broker_ready b \<and>
   (\<forall>k. broker_open b' k = broker_open b k)"
  by (auto simp: recv_decision_def broker_view_defs split: option.splits list.splits)

lemma decision_desk:
  assumes "engines_quiet env" and "broker_ready (cl_broker c)"
  shows "desk_step (desk_of c) (desk_of (decision_step env c)) \<and> broker_ready (cl_broker (decision_step env c))"
proof (cases "recv_decision (cl_broker c)")
  case None
  then show ?thesis using assms(2) desk_step.stay by (simp add: decision_step_def)
next
  case (Some m)
  then obtain i a b where m: "recv_decision (cl_broker c) = Some ((i, a), b)" by (metis prod.collapse)
  note d = recv_decision_desk [OF m]
  define c1 where "c1 = c\<lparr>cl_broker := b, cl_parked := assoc_remove i (cl_parked c)\<rparr>"
  have s: "desk_step (desk_of c) (desk_of c1)"
    using desk_step.decide [of "desk_of c" i a "broker_decisions b"] d by (simp add: desk_of_def c1_def)
  show ?thesis
  proof (cases "map_of (cl_parked c) i")
    case None
    then have "i \<notin> fst ` set (cl_parked c)" by (simp add: map_of_eq_None_iff)
    then have "desk_of (c\<lparr>cl_broker := b\<rparr>) = desk_of c1" by (simp add: desk_of_def c1_def)
    then show ?thesis using s d None m by (simp add: decision_step_def)
  next
    case (Some e)
    obtain r t where e: "e = (r, t)" by fastforce
    have "decision_step env c = snd (handle_action env c1 r (Some a))"
      using Some m by (simp add: decision_step_def e c1_def)
    with action_desk(2,3) [OF assms(1) refl, where c = c1 and r = r and d = "Some a"] s d show ?thesis by (simp add: c1_def)
  qed
qed

lemma chat_push_frame [simp]:
  "cl_parked (snd (handle_chat_push env c r)) = cl_parked c"
  "cl_broker (snd (handle_chat_push env c r)) = cl_broker c"
  "cl_gate (snd (handle_chat_push env c r)) = cl_gate c"
  "cl_fs (snd (handle_chat_push env c r)) = cl_fs c"
  by (simp_all add: handle_chat_push_def Let_def split: sum.split prod.split)

lemma frame_desk:
  assumes "engines_quiet env" and "broker_ready (cl_broker c)"
  shows "desk_step (desk_of c) (desk_of (snd (handle_frame env c f))) \<and>
    broker_ready (cl_broker (snd (handle_frame env c f)))"
proof -
  have same: "desk_step (desk_of c) (desk_of c') \<and> broker_ready (cl_broker c')"
    if "cl_parked c' = cl_parked c" "cl_broker c' = cl_broker c" for c'
    using desk_of_cong [OF that] that assms(2) desk_step.stay by simp
  have ans: "desk_step (desk_of c) (desk_of (c\<lparr>cl_broker := fst (answer (cl_broker c) i a)\<rparr>)) \<and>
      broker_ready (fst (answer (cl_broker c) i a))" for i a
    using answer_client_desk answer_desk(3) assms(2) by blast
  show ?thesis
    using action_desk(1,2) [OF assms(1) refl, where c = c] same ans assms(2)
    by (simp add: handle_frame_def split: bridge_frame.split)
qed

definition turn_ready :: "(env \<times> loop_event) list \<Rightarrow> bool" where
  "turn_ready evs \<longleftrightarrow> (\<forall>(env, e) \<in> set evs. engines_quiet env)"

lemma turn_desk:
  assumes "engines_quiet env" and "broker_ready (cl_broker (lp_client l))"
    and "loop_turn interval (env, e) l = (res, l')"
  shows "desk_steps (desk_of (lp_client l)) (desk_of (lp_client l')) \<and> broker_ready (cl_broker (lp_client l'))"
proof -
  let ?ok = "\<lambda>c'. desk_steps (desk_of (lp_client l)) (desk_of c') \<and> broker_ready (cl_broker c')"
  have refl: "?ok (lp_client l)" using assms(2) by simp
  have "?ok (snd (handle_frame env (lp_client l) f))" for f
    using frame_desk [OF assms(1,2)] by blast
  moreover have "?ok (snd (handle_frame env ((lp_client l)\<lparr>cl_health := h\<rparr>) f))" for h f
    using frame_desk [OF assms(1), of "(lp_client l)\<lparr>cl_health := h\<rparr>"] assms(2) by (auto simp: desk_of_def)
  moreover have "?ok (decision_step env (lp_client l))" using decision_desk [OF assms(1,2)] by blast
  moreover have "?ok (lp_client (snd (heartbeat_tick env interval l)))"
  proof -
    have "?ok (sweep_expired_parked (e_now env) (lp_client l))"
      unfolding sweep_expired_parked_def using sweep_fold_desk assms(2) by blast
    moreover have "desk_of (lp_client (snd (heartbeat_tick env interval l))) =
          desk_of (sweep_expired_parked (e_now env) (lp_client l)) \<and>
        cl_broker (lp_client (snd (heartbeat_tick env interval l))) =
          cl_broker (sweep_expired_parked (e_now env) (lp_client l))"
      by (simp add: heartbeat_tick_def send_heartbeat_def Let_def desk_of_def split: option.split)
    ultimately show ?thesis by simp
  qed
  moreover have "?ok ((lp_client l)\<lparr>cl_broker := fst (answer (cl_broker (lp_client l)) i a)\<rparr>)" for i a
    using answer_client_desk [OF assms(2)] answer_desk(3) [OF assms(2)] by auto
  ultimately show ?thesis using assms(3) refl
    by (auto simp: loop_turn_def Let_def split: loop_event.splits ws_message.splits sum.splits prod.splits
        bridge_frame.splits) (metis prod.sel(2))+
qed

lemma run_desk:
  "turn_ready evs \<Longrightarrow> broker_ready (cl_broker (lp_client l)) \<Longrightarrow> loop_run interval evs l = (res, l') \<Longrightarrow>
   desk_steps (desk_of (lp_client l)) (desk_of (lp_client l')) \<and> broker_ready (cl_broker (lp_client l'))"
proof (induction evs arbitrary: l)
  case (Cons ev evs)
  obtain env e where ev: "ev = (env, e)" by fastforce
  obtain r1 l1 where t: "loop_turn interval ev l = (r1, l1)" by fastforce
  have q: "engines_quiet env" "turn_ready evs" using Cons.prems(1) by (auto simp: turn_ready_def ev)
  from turn_desk [OF q(1) Cons.prems(2) t [unfolded ev]]
  have s: "desk_steps (desk_of (lp_client l)) (desk_of (lp_client l1))" "broker_ready (cl_broker (lp_client l1))"
    by auto
  show ?case
  proof (cases r1)
    case None
    with Cons.prems(3) t have "loop_run interval evs l1 = (res, l')" by simp
    from Cons.IH [OF q(2) s(2) this] s(1) show ?thesis by auto
  next
    case (Some r)
    with Cons.prems(3) t s show ?thesis by simp
  qed
qed simp

section \<open>Taking up decisions\<close>

lemma resumed_parked:
  assumes "engines_quiet env"
  shows "cl_parked (snd (handle_action env c r (Some a))) = cl_parked c \<and>
    cl_broker (snd (handle_action env c r (Some a))) = cl_broker c"
  using handle_action_step [OF assms, of r "Some a" c] by (simp add: action_step_def)

lemma decision_takes_up:
  assumes "engines_quiet env" and "broker_decisions (cl_broker c) = (i, a) # q"
  defines "c' \<equiv> decision_step env c"
  shows "broker_decisions (cl_broker c') = q" and "cl_parked c' = assoc_remove i (cl_parked c)"
    and "broker_open (cl_broker c') = broker_open (cl_broker c)"
    and "map_of (cl_parked c) i = Some (r, t) \<Longrightarrow>
      \<exists>c1. cl_parked c1 = assoc_remove i (cl_parked c) \<and> broker_decisions (cl_broker c1) = q \<and>
        cl_fs c1 = cl_fs c \<and> cl_gate c1 = cl_gate c \<and> c' = snd (handle_action env c1 r (Some a))"
proof -
  define b where "b = (cl_broker c)\<lparr>notifier := Some q\<rparr>"
  have m: "recv_decision (cl_broker c) = Some ((i, a), b)"
    using assms(2) by (auto simp: recv_decision_def broker_decisions_def b_def split: option.splits list.splits)
  have bd: "broker_decisions b = q" "broker_open b = broker_open (cl_broker c)"
    by (simp_all add: b_def broker_view_defs fun_eq_iff)
  define c1 where "c1 = c\<lparr>cl_broker := b, cl_parked := assoc_remove i (cl_parked c)\<rparr>"
  have eq: "c' = (case map_of (cl_parked c) i of None \<Rightarrow> c\<lparr>cl_broker := b\<rparr>
      | Some (r, _) \<Rightarrow> snd (handle_action env c1 r (Some a)))"
    using m by (simp add: c'_def decision_step_def c1_def split: option.split)
  have none: "map_of (cl_parked c) i = None \<Longrightarrow> assoc_remove i (cl_parked c) = cl_parked c"
    by (auto simp: assoc_remove_def map_of_eq_None_iff intro!: filter_True)
  note res = resumed_parked [OF assms(1), of c1 _ a]
  show "broker_decisions (cl_broker c') = q" "broker_open (cl_broker c') = broker_open (cl_broker c)"
    using res bd by (simp_all add: eq c1_def split: option.split prod.split)
  show "cl_parked c' = assoc_remove i (cl_parked c)"
    using res none by (simp add: eq c1_def split: option.split prod.split)
  show "\<exists>c1. cl_parked c1 = assoc_remove i (cl_parked c) \<and> broker_decisions (cl_broker c1) = q \<and>
      cl_fs c1 = cl_fs c \<and> cl_gate c1 = cl_gate c \<and> c' = snd (handle_action env c1 r (Some a))"
    if "map_of (cl_parked c) i = Some (r, t)"
    using that bd by (intro exI [of _ c1]) (simp add: eq c1_def)
qed

definition drain :: "env list \<Rightarrow> client \<Rightarrow> client" where
  "drain envs c = fold decision_step envs c"

lemma drain_queue:
  "\<forall>env \<in> set envs. engines_quiet env \<Longrightarrow> broker_decisions (cl_broker c) = qs @ rest \<Longrightarrow> length envs = length qs \<Longrightarrow>
   broker_decisions (cl_broker (drain envs c)) = rest \<and>
   cl_parked (drain envs c) = fold (\<lambda>(i, _). assoc_remove i) qs (cl_parked c) \<and>
   broker_open (cl_broker (drain envs c)) = broker_open (cl_broker c)"
proof (induction envs arbitrary: c qs)
  case (Cons env envs)
  then obtain i a qs' where qs: "qs = (i, a) # qs'" by (cases qs) auto
  have q: "engines_quiet env" "\<forall>env \<in> set envs. engines_quiet env" using Cons.prems(1) by auto
  have d: "broker_decisions (cl_broker c) = (i, a) # qs' @ rest" using Cons.prems(2) qs by simp
  note t = decision_takes_up(1-3) [OF q(1) d]
  from Cons.IH [OF q(2) t(1)] Cons.prems(3) t(2,3) show ?case
    by (simp add: drain_def qs)
qed (simp add: drain_def)

lemma waiting_fold_remove:
  "fst ` set (fold (\<lambda>(i, _). assoc_remove i) qs xs) = fst ` set xs - fst ` set qs"
proof (induction qs arbitrary: xs)
  case (Cons q qs)
  then show ?case by (simp add: case_prod_beta) blast
qed simp

lemma map_of_fold_remove:
  "k \<notin> fst ` set qs \<Longrightarrow> map_of (fold (\<lambda>(i, _). assoc_remove i) qs xs) k = map_of xs k"
  by (induction qs arbitrary: xs) (auto simp: map_of_assoc_remove)

section \<open>Expiry\<close>

lemma sweep_fold_parked:
  "cl_parked (fold sweep_one ids c) = fold assoc_remove ids (cl_parked c)"
  "cl_sent (fold sweep_one ids c) = cl_sent c" "cl_tasks (fold sweep_one ids c) = cl_tasks c"
  "cl_fs (fold sweep_one ids c) = cl_fs c" "cl_gate (fold sweep_one ids c) = cl_gate c"
  "cl_chat (fold sweep_one ids c) = cl_chat c"
  by (induction ids arbitrary: c) (simp_all add: sweep_one_def)

lemma fold_assoc_remove: "fold assoc_remove ids xs = filter (\<lambda>e. fst e \<notin> set ids) xs"
  by (induction ids arbitrary: xs) (auto simp: assoc_remove_def intro: filter_cong)

lemma sweep_fold_broker:
  "cl_broker (fold sweep_one ids c) =
     fold (\<lambda>i b. fst (answer b i \<lparr>approved = False, remember = False\<rparr>)) ids (cl_broker c)"
  by (induction ids arbitrary: c) (simp_all add: sweep_one_def)

lemma not_expired:
  assumes "distinct (map fst xs)" and "(k, r, t) \<in> set xs"
  shows "k \<in> set (expired_ids now xs) \<longleftrightarrow> now - t > CONSENT_TIMEOUT_MS"
proof
  assume "k \<in> set (expired_ids now xs)"
  then obtain r' t' where "(k, r', t') \<in> set xs" "now - t' > CONSENT_TIMEOUT_MS"
    by (auto simp: expired_ids_def)
  with assms show "now - t > CONSENT_TIMEOUT_MS" by (metis eq_key_imp_eq_value prod.inject)
next
  assume "now - t > CONSENT_TIMEOUT_MS"
  with assms(2) show "k \<in> set (expired_ids now xs)" by (force simp: expired_ids_def)
qed

section \<open>Properties of the desk\<close>

text \<open>
  C3. The connection loop refines the abstract desk. Over any events, actions, answers from
  the web and from the local dialog, resumptions, scope updates, expiries and errors, the
  parked table, the open prompts and the queued decisions change only by the steps of the
  abstract desk: a prompt opens, an action parks with its prompt, an open prompt is settled
  once, the oldest decision is taken up, or a waiting id expires with a denial.
\<close>

theorem loop_refines_desk:
  assumes "turn_ready evs" and "broker_ready (cl_broker (lp_client l))" and "loop_run interval evs l = (res, l')"
  shows "desk_steps (desk_of (lp_client l)) (desk_of (lp_client l'))"
  using run_desk [OF assms] by blast

definition demo_loop :: ws_loop where
  "demo_loop = \<lparr>lp_client = demo_client, lp_expected = None, lp_misses = 0\<rparr>"

lemma demo_client_ready: "broker_ready (cl_broker (lp_client demo_loop))"
  by (simp add: demo_loop_def demo_client_def broker_ready_def set_notifier_def)

lemma demo_turn_ready: "turn_ready [(demo_env, e1), (demo_env, e2)]"
  by (simp add: turn_ready_def demo_engines_quiet)

theorem loop_refines_desk_witness:
  "desk_steps (desk_of demo_client) (desk_of (lp_client (snd (loop_run 30000
     [(demo_env, Incoming (MsgText (Ok (ActionRequest (demo_request ''desktop.fs.write''))))), (demo_env, Tick)] demo_loop))))"
proof -
  obtain res l' where r: "loop_run 30000
     [(demo_env, Incoming (MsgText (Ok (ActionRequest (demo_request ''desktop.fs.write''))))), (demo_env, Tick)] demo_loop = (res, l')"
    by fastforce
  from loop_refines_desk [OF demo_turn_ready demo_client_ready r] show ?thesis
    by (simp only: r snd_conv) (simp add: demo_loop_def)
qed

text \<open>
  C4. No parked action is lost. If every waiting action has an open prompt or a decision on its
  way when a connection starts, so it is after any events: an action can only wait for an
  answer that is still possible or already queued.
\<close>

theorem no_parked_action_lost:
  assumes "turn_ready evs" and "broker_ready (cl_broker (lp_client l))" and "loop_run interval evs l = (res, l')"
    and "\<forall>k \<in> fst ` set (cl_parked (lp_client l)).
      broker_open (cl_broker (lp_client l)) k \<or> k \<in> fst ` set (broker_decisions (cl_broker (lp_client l)))"
    and "map_of (cl_parked (lp_client l')) k = Some e"
  shows "broker_open (cl_broker (lp_client l')) k \<or> k \<in> fst ` set (broker_decisions (cl_broker (lp_client l')))"
proof -
  have "covered (desk_of (lp_client l))" using assms(4) by (auto simp: covered_def desk_of_def)
  with run_desk [OF assms(1-3)] have "covered (desk_of (lp_client l'))" using desk_steps_covered by blast
  moreover have "k \<in> fst ` set (cl_parked (lp_client l'))" using map_of_SomeD [OF assms(5)] by force
  ultimately show ?thesis by (auto simp: covered_def desk_of_def)
qed

definition demo_waiting :: client where
  "demo_waiting = demo_client\<lparr>cl_parked := [(''a1'', demo_request ''desktop.fs.write'', 0)],
     cl_broker := fst (ask (set_notifier broker_new) (demo_prompt ''a1''))\<rparr>"

lemma demo_waiting_facts:
  "broker_ready (cl_broker demo_waiting)" "broker_open (cl_broker demo_waiting) ''a1''"
  "map_of (cl_parked demo_waiting) ''a1'' = Some (demo_request ''desktop.fs.write'', 0)"
  "broker_decisions (cl_broker demo_waiting) = []"
  by (simp_all add: demo_waiting_def demo_prompt_def broker_view_defs ask_def set_notifier_def broker_new_def Let_def)

theorem no_parked_action_lost_witness:
  "let l = snd (loop_run 30000 [(demo_env, LocalAnswer ''a1'' \<lparr>approved = True, remember = False\<rparr>)]
       (demo_loop\<lparr>lp_client := demo_waiting\<rparr>)) in
   map_of (cl_parked (lp_client l)) ''a1'' = Some (demo_request ''desktop.fs.write'', 0) \<and>
   (broker_open (cl_broker (lp_client l)) ''a1'' \<or> ''a1'' \<in> fst ` set (broker_decisions (cl_broker (lp_client l))))"
proof -
  let ?evs = "[(demo_env, LocalAnswer ''a1'' \<lparr>approved = True, remember = False\<rparr>)]"
  let ?l = "demo_loop\<lparr>lp_client := demo_waiting\<rparr>"
  obtain res l' where r: "loop_run 30000 ?evs ?l = (res, l')" by fastforce
  have q: "turn_ready ?evs" by (simp add: turn_ready_def demo_engines_quiet)
  have b: "broker_ready (cl_broker (lp_client ?l))" by (simp add: demo_waiting_facts)
  have e: "\<forall>k \<in> fst ` set (cl_parked (lp_client ?l)). broker_open (cl_broker (lp_client ?l)) k \<or>
      k \<in> fst ` set (broker_decisions (cl_broker (lp_client ?l)))"
    using demo_waiting_facts(2) by (simp add: demo_waiting_def)
  have m: "map_of (cl_parked (lp_client l')) ''a1'' = Some (demo_request ''desktop.fs.write'', 0)"
    using r by (auto simp: loop_turn_def demo_waiting_facts)
  from no_parked_action_lost [OF q b r e m] m show ?thesis by (simp only: r snd_conv Let_def)
qed

text \<open>
  C5. The owner's answer reaches the action. When a parked action with an open prompt is
  answered, and no other decision for its id is queued, then after as many decision turns as
  there are queued decisions, whatever those resume, the next decision turn hands exactly this
  request with exactly this answer to the handler, and it is no longer parked.
\<close>

theorem answer_resumes_action:
  assumes "broker_ready (cl_broker c)" and "broker_open (cl_broker c) k" and "map_of (cl_parked c) k = Some (r, t)"
    and "k \<notin> fst ` set (broker_decisions (cl_broker c))"
    and "length envs = length (broker_decisions (cl_broker c))"
    and "\<forall>env \<in> set (envs @ [env]). engines_quiet env"
  shows "\<exists>c2. drain (envs @ [env]) (c\<lparr>cl_broker := fst (answer (cl_broker c) k a)\<rparr>) = snd (handle_action env c2 r (Some a)) \<and>
    map_of (cl_parked c2) k = None \<and> broker_decisions (cl_broker c2) = []"
proof -
  define q where "q = broker_decisions (cl_broker c)"
  define c1 where "c1 = c\<lparr>cl_broker := fst (answer (cl_broker c) k a)\<rparr>"
  have d: "broker_decisions (cl_broker c1) = q @ [(k, a)]"
    using assms(1,2) by (simp add: c1_def q_def answer_desk)
  have quiet: "\<forall>env \<in> set envs. engines_quiet env" "engines_quiet env" using assms(6) by auto
  note e = drain_queue [OF quiet(1) d] 
  have e1: "broker_decisions (cl_broker (drain envs c1)) = [(k, a)]"
    "cl_parked (drain envs c1) = fold (\<lambda>(i, _). assoc_remove i) q (cl_parked c)"
    using e assms(5) by (simp_all add: q_def c1_def)
  have "map_of (cl_parked (drain envs c1)) k = Some (r, t)"
    using e1(2) map_of_fold_remove [of k q "cl_parked c"] assms(3,4) by (simp add: q_def)
  from decision_takes_up(4) [OF quiet(2) e1(1) this] obtain c2 where
    "cl_parked c2 = assoc_remove k (cl_parked (drain envs c1))" "broker_decisions (cl_broker c2) = []"
    "decision_step env (drain envs c1) = snd (handle_action env c2 r (Some a))" by blast
  then show ?thesis by (intro exI [of _ c2]) (simp add: drain_def c1_def)
qed

theorem answer_resumes_action_witness:
  "\<exists>c2. drain [demo_env] (demo_waiting\<lparr>cl_broker := fst (answer (cl_broker demo_waiting) ''a1'' \<lparr>approved = True, remember = False\<rparr>)\<rparr>)
     = snd (handle_action demo_env c2 (demo_request ''desktop.fs.write'') (Some \<lparr>approved = True, remember = False\<rparr>))"
proof -
  have a: "''a1'' \<notin> fst ` set (broker_decisions (cl_broker demo_waiting))"
    "length ([] :: env list) = length (broker_decisions (cl_broker demo_waiting))"
    "\<forall>env \<in> set ([] @ [demo_env]). engines_quiet env"
    by (simp_all add: demo_waiting_facts demo_engines_quiet)
  from answer_resumes_action [OF demo_waiting_facts(1-3) a, of "\<lparr>approved = True, remember = False\<rparr>"]
  show ?thesis by auto
qed

text \<open>
  C21. Decisions run out. As many decision turns as there are queued decisions take up all of
  them: the queue is empty, exactly the ids they name have stopped waiting, and no prompt
  was opened or closed on the way.
\<close>

theorem decisions_run_out:
  assumes "\<forall>env \<in> set envs. engines_quiet env" and "length envs = length (broker_decisions (cl_broker c))"
  shows "broker_decisions (cl_broker (drain envs c)) = [] \<and>
    fst ` set (cl_parked (drain envs c)) = fst ` set (cl_parked c) - fst ` set (broker_decisions (cl_broker c)) \<and>
    broker_open (cl_broker (drain envs c)) = broker_open (cl_broker c)"
  using drain_queue [OF assms(1), of c "broker_decisions (cl_broker c)" "[]"] assms(2)
  by (simp add: waiting_fold_remove)

theorem decisions_run_out_witness:
  "broker_decisions (cl_broker (drain [demo_env] (demo_waiting\<lparr>cl_broker :=
     fst (answer (cl_broker demo_waiting) ''a1'' \<lparr>approved = False, remember = False\<rparr>)\<rparr>))) = []"
proof -
  let ?c = "demo_waiting\<lparr>cl_broker := fst (answer (cl_broker demo_waiting) ''a1'' \<lparr>approved = False, remember = False\<rparr>)\<rparr>"
  have a: "\<forall>env \<in> set [demo_env]. engines_quiet env" "length [demo_env] = length (broker_decisions (cl_broker ?c))"
    by (simp_all add: demo_engines_quiet answer_desk demo_waiting_facts)
  from decisions_run_out [OF a] show ?thesis by blast
qed

text \<open>
  Expiry is exact and silent. The sweep removes from the parked table exactly the actions
  that have waited longer than the declared timeout and closes their prompts with a denial,
  and no others; it sends nothing and leaves the task list alone, so the requester of an
  expired action never gets a result and its task stays as it was.
\<close>

lemma sweep_exact_and_silent:
  assumes "distinct (map fst (cl_parked c))" and "c' = sweep_expired_parked now c"
  shows "cl_parked c' = filter (\<lambda>(_, _, t). now - t \<le> CONSENT_TIMEOUT_MS) (cl_parked c) \<and>
    (\<forall>k. broker_open (cl_broker c') k \<longleftrightarrow> broker_open (cl_broker c) k \<and>
       (\<forall>r t. map_of (cl_parked c) k = Some (r, t) \<longrightarrow> now - t \<le> CONSENT_TIMEOUT_MS)) \<and>
    cl_sent c' = cl_sent c \<and> cl_tasks c' = cl_tasks c \<and> cl_fs c' = cl_fs c \<and> cl_gate c' = cl_gate c"
proof -
  let ?ids = "expired_ids now (cl_parked c)"
  have f: "filter (\<lambda>e. fst e \<notin> set ?ids) (cl_parked c) =
      filter (\<lambda>(_, _, t). now - t \<le> CONSENT_TIMEOUT_MS) (cl_parked c)"
    using not_expired [OF assms(1)] by (intro filter_cong) auto
  have k: "k \<in> set ?ids \<longleftrightarrow> (\<exists>r t. map_of (cl_parked c) k = Some (r, t) \<and> now - t > CONSENT_TIMEOUT_MS)" for k
  proof
    assume "k \<in> set ?ids"
    then obtain r t where "(k, r, t) \<in> set (cl_parked c)" "now - t > CONSENT_TIMEOUT_MS"
      by (auto simp: expired_ids_def)
    then show "\<exists>r t. map_of (cl_parked c) k = Some (r, t) \<and> now - t > CONSENT_TIMEOUT_MS"
      using assms(1) by (metis map_of_eq_Some_iff)
  next
    assume "\<exists>r t. map_of (cl_parked c) k = Some (r, t) \<and> now - t > CONSENT_TIMEOUT_MS"
    then show "k \<in> set ?ids" using not_expired [OF assms(1)] by (meson map_of_SomeD)
  qed
  have b: "broker_open (cl_broker c') k \<longleftrightarrow> k \<notin> set ?ids \<and> broker_open (cl_broker c) k" for k
    unfolding assms(2) sweep_expired_parked_def sweep_fold_broker by (rule desk.open_settle_all)
  show ?thesis
    using f b k by (auto simp: assms(2) sweep_expired_parked_def sweep_fold_parked fold_assoc_remove not_le)
qed

lemma sweep_exact_and_silent_witness:
  "cl_parked (sweep_expired_parked 180001 demo_waiting) = [] \<and>
   cl_parked (sweep_expired_parked 180000 demo_waiting) = cl_parked demo_waiting"
proof -
  have d: "distinct (map fst (cl_parked demo_waiting))" by (simp add: demo_waiting_def)
  from sweep_exact_and_silent [OF d refl, of 180001] sweep_exact_and_silent [OF d refl, of 180000]
  show ?thesis by (simp add: demo_waiting_def CONSENT_TIMEOUT_MS_def)
qed

end
