(* ===== verification/Ws_Reconnect.thy ===== *)
theory Ws_Reconnect
  imports Ws_Session
begin

text \<open>
  The life of a connection: the heartbeat watchdog, what a chat push does, the well-formedness
  of the client's state, and the reconnect loop with its backoff.
\<close>

section \<open>Watchdog lemmas\<close>

definition watchdog_error :: daemon_error where
  "watchdog_error = Ws ''heartbeat watchdog: no ack from server''"

lemma send_heartbeat_watch:
  "send_heartbeat env l = (res, l') \<Longrightarrow>
   res \<noteq> Err watchdog_error \<and> lp_misses l' = lp_misses l \<and>
   (res = Ok () \<longrightarrow> lp_expected l' = Some (e_now env))"
  by (auto simp: send_heartbeat_def watchdog_error_def Let_def split: option.splits)

lemma kill_iff [simp]: "z_kill (zombie_decision True m) \<longleftrightarrow> 2 \<le> unat m"
  by (simp add: zombie_decision_def word_le_nat_alt)

definition aged :: "nat \<Rightarrow> nat \<Rightarrow> ws_loop \<Rightarrow> bool" where
  "aged now interval l \<longleftrightarrow> (case lp_expected l of Some t \<Rightarrow> interval \<le> now - t | None \<Rightarrow> False)"

lemma tick_cases:
  assumes "heartbeat_tick env interval l = (res, l')"
  obtains
    (fresh) "lp_expected l = None" "res \<noteq> Err watchdog_error" "lp_misses l' = lp_misses l"
      "res = Ok () \<longrightarrow> lp_expected l' = Some (e_now env)"
  | (early) t where "lp_expected l = Some t" "\<not> aged (e_now env) interval l" "res = Ok ()"
      "lp_misses l' = lp_misses l" "lp_expected l' = Some t"
  | (dead) "aged (e_now env) interval l" "1 \<le> unat (lp_misses l)" "res = Err watchdog_error"
  | (miss) "aged (e_now env) interval l" "unat (lp_misses l) = 0" "res \<noteq> Err watchdog_error"
      "unat (lp_misses l') = 1" "res = Ok () \<longrightarrow> lp_expected l' = Some (e_now env)"
proof (cases "lp_expected l")
  case None
  with assms show ?thesis
    by (intro fresh) (auto simp: heartbeat_tick_def dest!: send_heartbeat_watch)
next
  case (Some t)
  show ?thesis
  proof (cases "aged (e_now env) interval l")
    case False
    with Some assms show ?thesis
      by (intro early [of t]) (auto simp: heartbeat_tick_def burst_def aged_def Let_def)
  next
    case True
    then have nb: "\<not> burst (e_now env) interval (Some t)" using Some by (simp add: burst_def aged_def)
    have u: "unat (saturating_add32 (lp_misses l) 1) = min (unat (lp_misses l) + 1) (2 ^ 32 - 1)"
      by (simp add: unat_saturating_add32)
    show ?thesis
    proof (cases "1 \<le> unat (lp_misses l)")
      case True
      then have "2 \<le> unat (saturating_add32 (lp_misses l) 1)" by (simp add: u)
      with assms Some nb True \<open>aged (e_now env) interval l\<close> show ?thesis
        by (intro dead) (auto simp: heartbeat_tick_def watchdog_error_def Let_def)
    next
      case False
      then have z: "unat (lp_misses l) = 0" by simp
      then have "unat (saturating_add32 (lp_misses l) 1) = 1" by (simp add: u)
      with assms Some nb z \<open>aged (e_now env) interval l\<close> show ?thesis
        by (intro miss) (auto simp: heartbeat_tick_def Let_def dest!: send_heartbeat_watch)
    qed
  qed
qed

text \<open>Only ticks and acks move the watchdog.\<close>

fun quiet_event :: "loop_event \<Rightarrow> bool" where
  "quiet_event Tick = False"
| "quiet_event (Incoming (MsgText (Inr (HeartbeatAck _)))) = False"
| "quiet_event _ = True"

lemma quiet_event_turn:
  assumes "quiet_event e" and "loop_turn interval (env, e) l = (None, l')"
  shows "lp_expected l' = lp_expected l \<and> lp_misses l' = lp_misses l"
  using assms
  by (cases e rule: quiet_event.cases)
    (auto simp: loop_turn_def Let_def split: sum.splits prod.splits bridge_frame.splits)

lemma quiet_run:
  "\<forall>(env, e) \<in> set evs. quiet_event e \<Longrightarrow> loop_run interval evs l = (None, l') \<Longrightarrow>
   lp_expected l' = lp_expected l \<and> lp_misses l' = lp_misses l"
proof (induction evs arbitrary: l)
  case (Cons ev evs)
  obtain env e where ev: "ev = (env, e)" by fastforce
  obtain r1 l1 where t: "loop_turn interval ev l = (r1, l1)" by fastforce
  with Cons.prems(2) have r: "r1 = None" "loop_run interval evs l1 = (None, l')" by (auto split: option.splits)
  from Cons.IH [OF _ r(2)] quiet_event_turn [of e interval env l l1] Cons.prems(1) t r ev show ?case by auto
qed simp

lemma loop_run_append:
  "loop_run interval (xs @ ys) l =
     (case loop_run interval xs l of (Some res, l1) \<Rightarrow> (Some res, l1) | (None, l1) \<Rightarrow> loop_run interval ys l1)"
  by (induction xs arbitrary: l) (auto split: option.split prod.split)

lemma turn_misses:
  assumes "unat (lp_misses l) \<le> 1" and "loop_turn interval (env, e) l = (None, l')"
  shows "unat (lp_misses l') \<le> 1"
proof (cases "quiet_event e")
  case True
  with quiet_event_turn [OF True assms(2)] assms(1) show ?thesis by simp
next
  case False
  then show ?thesis
  proof (cases e rule: quiet_event.cases)
    case 1
    obtain res l1 where t: "heartbeat_tick env interval l = (res, l1)" by fastforce
    with 1 assms(2) have "res = Ok ()" "l' = l1" by (auto simp: loop_turn_def split: sum.splits)
    with t assms(1) show ?thesis by (cases rule: tick_cases) auto
  qed (use assms(2) in \<open>auto simp: loop_turn_def Let_def split: sum.splits prod.splits\<close>)
qed

lemma run_misses:
  "unat (lp_misses l) \<le> 1 \<Longrightarrow> loop_run interval evs l = (None, l') \<Longrightarrow> unat (lp_misses l') \<le> 1"
proof (induction evs arbitrary: l)
  case (Cons ev evs)
  obtain env e where ev: "ev = (env, e)" by fastforce
  obtain r1 l1 where t: "loop_turn interval ev l = (r1, l1)" by fastforce
  with Cons.prems(2) have r: "r1 = None" "loop_run interval evs l1 = (None, l')" by (auto split: option.splits)
  from Cons.IH [OF turn_misses r(2)] Cons.prems(1) t r(1) ev show ?case by auto
qed simp

section \<open>Watchdog properties\<close>

text \<open>
  C18. When the watchdog kills. While a connection runs, the miss count is never above one, so
  it cannot saturate; and a tick ends the connection with the watchdog's error exactly when
  the last heartbeat is unanswered, at least one interval old, and one miss was counted
  before it. An ack in between therefore always saves the connection.
\<close>

theorem watchdog_exact:
  assumes "loop_run interval evs (accept_ack now ack c) = (None, l)"
  shows "unat (lp_misses l) \<le> 1 \<and>
    (fst (heartbeat_tick env interval l) = Err watchdog_error \<longleftrightarrow>
      (\<exists>t. lp_expected l = Some t \<and> interval \<le> e_now env - t \<and> lp_misses l = 1))"
proof
  show m: "unat (lp_misses l) \<le> 1"
    by (rule run_misses [OF _ assms]) (simp add: accept_ack_def)
  have one: "lp_misses l = 1 \<longleftrightarrow> 1 \<le> unat (lp_misses l)"
    using m by (metis le_antisym order_refl unsigned_1 word_unat_eq_iff)
  obtain res l1 where t: "heartbeat_tick env interval l = (res, l1)" by fastforce
  then show "fst (heartbeat_tick env interval l) = Err watchdog_error \<longleftrightarrow>
      (\<exists>t. lp_expected l = Some t \<and> interval \<le> e_now env - t \<and> lp_misses l = 1)"
    unfolding one
    by (cases rule: tick_cases) (auto simp: t aged_def split: option.splits)
qed

theorem watchdog_exact_witness:
  "fst (heartbeat_tick (demo_env\<lparr>e_now := 90000\<rparr>) 30000 (accept_ack 0 \<lparr>ha_v = 1, ha_device_id = [],
      ha_scopes = \<lparr>sc_capabilities = [], sc_always_allow_paths = []\<rparr>, ha_heartbeat_interval_ms = 30000\<rparr> demo_client))
   \<noteq> Err watchdog_error"
proof -
  let ?l = "accept_ack 0 \<lparr>ha_v = 1, ha_device_id = [], ha_scopes = \<lparr>sc_capabilities = [],
      sc_always_allow_paths = []\<rparr>, ha_heartbeat_interval_ms = 30000\<rparr> demo_client"
  have r: "loop_run 30000 [] ?l = (None, ?l)" by simp
  have "lp_expected ?l = None" by (simp add: accept_ack_def)
  with watchdog_exact [OF r, of "demo_env\<lparr>e_now := 90000\<rparr>"] show ?thesis by auto
qed

text \<open>
  C19. A dead server is noticed. Once a heartbeat is sent, if two ticks follow, each at least one
  interval after the one before, and no ack arrives, the connection has ended by the second,
  whatever other frames, decisions and answers came in between.
\<close>

theorem dead_server_detected:
  assumes "lp_expected l = Some t0" and "\<forall>(env, e) \<in> set (es1 @ es2). quiet_event e"
    and "interval \<le> e_now env1 - t0" and "interval \<le> e_now env2 - e_now env1"
  shows "fst (loop_run interval (es1 @ [(env1, Tick)] @ es2 @ [(env2, Tick)]) l) \<noteq> None"
proof (cases "loop_run interval es1 l")
  case (Pair r1 l1)
  show ?thesis
  proof (cases r1)
    case (Some res)
    then show ?thesis using Pair by (simp add: loop_run_append)
  next
    case None
    have q1: "\<forall>(env, e) \<in> set es1. quiet_event e" and q2: "\<forall>(env, e) \<in> set es2. quiet_event e"
      using assms(2) by auto
    from quiet_run [OF q1] Pair None assms(1) have e1: "lp_expected l1 = Some t0" by auto
    then have a1: "aged (e_now env1) interval l1" using assms(3) by (simp add: aged_def)
    obtain res2 l2 where t2: "heartbeat_tick env1 interval l1 = (res2, l2)" by fastforce
    have live: "lp_expected l2 = Some (e_now env1) \<and> 1 \<le> unat (lp_misses l2)" if "res2 = Ok ()"
      using t2 by (cases rule: tick_cases) (use a1 e1 that in \<open>auto\<close>)
    show ?thesis
    proof (cases res2)
      case (Inl er)
      then show ?thesis using Pair None t2 by (simp add: loop_run_append loop_turn_def)
    next
      case (Inr u)
      then have l2: "lp_expected l2 = Some (e_now env1)" "1 \<le> unat (lp_misses l2)" using live by auto
      obtain r3 l3 where p3: "loop_run interval es2 l2 = (r3, l3)" by fastforce
      show ?thesis
      proof (cases r3)
        case (Some res)
        then show ?thesis using Pair None t2 Inr p3 by (simp add: loop_run_append loop_turn_def)
      next
        case n3: None
        from quiet_run [OF q2] p3 n3 l2 have l3: "lp_expected l3 = Some (e_now env1)" "1 \<le> unat (lp_misses l3)"
          by auto
        obtain res4 l4 where t4: "heartbeat_tick env2 interval l3 = (res4, l4)" by fastforce
        then have "res4 = Err watchdog_error"
          by (cases rule: tick_cases) (use l3 assms(4) in \<open>auto simp: aged_def\<close>)
        with Pair None t2 Inr p3 n3 t4 show ?thesis by (simp add: loop_run_append loop_turn_def)
      qed
    qed
  qed
qed

theorem dead_server_detected_witness:
  "fst (loop_run 30000 [(demo_env\<lparr>e_now := 30000\<rparr>, Tick), (demo_env, Incoming MsgOther), (demo_env\<lparr>e_now := 60000\<rparr>, Tick)]
     (demo_loop\<lparr>lp_expected := Some 0\<rparr>)) \<noteq> None"
proof -
  have a: "lp_expected (demo_loop\<lparr>lp_expected := Some 0\<rparr>) = Some 0"
    "\<forall>(env, e) \<in> set ([] @ [(demo_env, Incoming MsgOther)]). quiet_event e"
    "30000 \<le> e_now (demo_env\<lparr>e_now := 30000\<rparr>) - 0"
    "30000 \<le> e_now (demo_env\<lparr>e_now := 60000\<rparr>) - e_now (demo_env\<lparr>e_now := 30000\<rparr>)"
    by simp_all
  from dead_server_detected [OF a] show ?thesis by simp
qed

section \<open>Chat pushes\<close>

lemma answered [simp]:
  "e_socket_error env = None \<Longrightarrow> fst (send_action_result env c i ok out err d) = Ok ()"
  "e_socket_error env = None \<Longrightarrow> fst (send_error env c i e) = Ok ()"
  by (simp_all add: send_error_def send_action_result_def Let_def split: option.split)

lemma push_conversations_db_ok:
  "db_ok db \<Longrightarrow> db_ok (snd (push_conversations env n db convs saved))"
proof (induction convs arbitrary: n db saved)
  case (Cons conv convs)
  obtain res db1 where e: "upsert_conversation (e_json_text env) (e_sql env n) (e_now_word env) db conv = (res, db1)"
    by fastforce
  with upsert_conversation_db_ok [OF Cons.prems] have "db_ok db1" by (metis snd_conv)
  with Cons.IH e show ?case by (cases res) simp_all
qed simp

lemma push_each_db_ok:
  assumes "\<And>n db x. db_ok db \<Longrightarrow> db_ok (snd (f n db x))"
  shows "db_ok db \<Longrightarrow> db_ok (snd (push_each f n db xs))"
proof (induction xs arbitrary: n db)
  case (Cons x xs)
  obtain res db1 where e: "f n db x = (res, db1)" by fastforce
  with assms [OF Cons.prems, of n x] have "db_ok db1" by simp
  with Cons.IH e show ?case by (cases res) simp_all
qed simp

lemma chat_push_db_ok:
  assumes "db_ok (cl_chat c)"
  shows "db_ok (cl_chat (snd (handle_chat_push env c r)))"
proof -
  have a: "push_conversations env 0 (cl_chat c) convs 0 = (res, db1) \<Longrightarrow> db_ok db1" for convs res db1
    using push_conversations_db_ok [OF assms, of env 0 convs 0] by simp
  have b: "push_each (\<lambda>n db a. upsert_artifact (e_sql env n) db a) n db xs = (res, db1) \<Longrightarrow> db_ok db \<Longrightarrow> db_ok db1"
    for n db xs res db1
    using push_each_db_ok [of "\<lambda>n db a. upsert_artifact (e_sql env n) db a" db n xs] upsert_artifact_db_ok by simp
  have d: "push_each (\<lambda>n db a. upsert_project (e_sql env n) db a) n db xs = (res, db1) \<Longrightarrow> db_ok db \<Longrightarrow> db_ok db1"
    for n db xs res db1
    using push_each_db_ok [of "\<lambda>n db a. upsert_project (e_sql env n) db a" db n xs] upsert_project_db_ok by simp
  show ?thesis
    using assms by (auto simp: handle_chat_push_def Let_def split: sum.split prod.split dest!: a b d)
qed

text \<open>
  A chat push answers or ends the connection. A granted push with a malformed list is
  answered with \<open>bad_params\<close> and stores nothing. When a statement of the archive fails, the
  handler returns an error instead of a result: no answer is sent, and in the loop the
  connection ends with that error. A push whose artifacts or projects are malformed is
  answered with \<open>bad_params\<close> although its conversations are already stored.
\<close>

lemma chat_push_outcomes:
  assumes "allows (cl_gate c) ''sync.chat.push''" and "e_socket_error env = None"
    and "ar_capability r = ''sync.chat.push''"
  shows "(parse_chat_push_params (e_conversation env) (ar_params r) = Err e \<longrightarrow>
      (\<exists>c'. handle_chat_push env c r = (Ok (), c') \<and> cl_chat c' = cl_chat c \<and>
        cl_sent c' = cl_sent c @ [ActionResult (result_frame (ar_id r) False None (Some (''bad_params: '' @ e)) (e_elapsed env))])) \<and>
    (parse_chat_push_params (e_conversation env) (ar_params r) = Ok convs \<and>
     push_conversations env 0 (cl_chat c) convs 0 = (Err e, db) \<longrightarrow>
      (\<exists>c'. handle_chat_push env c r = (Err (Protocol (''store_error: '' @ e)), c') \<and> cl_sent c' = cl_sent c) \<and>
      fst (loop_turn interval (env, Incoming (MsgText (Ok (ActionRequest r)))) (l\<lparr>lp_client := c\<rparr>)) =
        Some (Err (Protocol (''store_error: '' @ e)))) \<and>
    (parse_chat_push_params (e_conversation env) (ar_params r) = Ok convs \<and>
     push_conversations env 0 (cl_chat c) convs 0 = (Ok n, db) \<and>
     parse_chat_push_extra (e_artifact env) (e_project env) (ar_params r) = Err e \<longrightarrow>
      (\<exists>c'. handle_chat_push env c r = (Ok (), c') \<and> cl_chat c' = db \<and>
        cl_sent c' = cl_sent c @ [ActionResult (result_frame (ar_id r) False None (Some (''bad_params: '' @ e)) 0)]))"
proof -
  have g: "allows (cl_gate (register_task env c r)) ''sync.chat.push''" using assms(1) by simp
  show ?thesis
  proof (intro conjI impI)
    assume "parse_chat_push_params (e_conversation env) (ar_params r) = Err e"
    with g assms(2) show "\<exists>c'. handle_chat_push env c r = (Ok (), c') \<and> cl_chat c' = cl_chat c \<and>
        cl_sent c' = cl_sent c @ [ActionResult (result_frame (ar_id r) False None (Some (''bad_params: '' @ e)) (e_elapsed env))]"
      by (intro exI [of _ "snd (handle_chat_push env c r)"])
        (simp add: handle_chat_push_def Let_def prod_eq_iff)
  next
    assume h: "parse_chat_push_params (e_conversation env) (ar_params r) = Ok convs \<and>
      push_conversations env 0 (cl_chat c) convs 0 = (Err e, db)"
    then have p: "handle_chat_push env c r =
        (Err (Protocol (''store_error: '' @ e)), (register_task env c r)\<lparr>cl_chat := db\<rparr>)"
      using g by (simp add: handle_chat_push_def Let_def store_error_def)
    then show "\<exists>c'. handle_chat_push env c r = (Err (Protocol (''store_error: '' @ e)), c') \<and> cl_sent c' = cl_sent c"
      by simp
    show "fst (loop_turn interval (env, Incoming (MsgText (Ok (ActionRequest r)))) (l\<lparr>lp_client := c\<rparr>)) =
        Some (Err (Protocol (''store_error: '' @ e)))"
      using p assms(3) by (simp add: loop_turn_def handle_frame_def)
  next
    assume "parse_chat_push_params (e_conversation env) (ar_params r) = Ok convs \<and>
      push_conversations env 0 (cl_chat c) convs 0 = (Ok n, db) \<and>
      parse_chat_push_extra (e_artifact env) (e_project env) (ar_params r) = Err e"
    then have "handle_chat_push env c r =
        send_error env ((register_task env c r)\<lparr>cl_chat := db\<rparr>) (ar_id r) (''bad_params: '' @ e)"
      using g by (simp add: handle_chat_push_def Let_def)
    with assms(2) show "\<exists>c'. handle_chat_push env c r = (Ok (), c') \<and> cl_chat c' = db \<and>
        cl_sent c' = cl_sent c @ [ActionResult (result_frame (ar_id r) False None (Some (''bad_params: '' @ e)) 0)]"
      by (intro exI [of _ "snd (handle_chat_push env c r)"]) (simp add: prod_eq_iff)
  qed
qed

definition demo_push :: action_request_frame where
  "demo_push = (demo_request ''sync.chat.push'')\<lparr>ar_params := JObj [(''conversations'', JArr [JNull])]\<rparr>"

definition demo_push_env :: env where
  "demo_push_env = demo_env\<lparr>e_conversation := (\<lambda>_. Ok (demo_conv 1 [])),
     e_sql := (\<lambda>_ label. if label = ''commit'' then Some ''disk full'' else None)\<rparr>"

definition demo_push_client :: client where
  "demo_push_client = demo_client\<lparr>cl_gate := gate_new (snapshot_from
     \<lparr>sc_capabilities = [''sync.chat.push''], sc_always_allow_paths = []\<rparr>)\<rparr>"

lemma chat_push_outcomes_witness:
  "fst (handle_chat_push demo_push_env demo_push_client demo_push) = Err (Protocol ''store_error: commit: disk full'')"
proof -
  have a: "allows (cl_gate demo_push_client) ''sync.chat.push''" "e_socket_error demo_push_env = None"
    "ar_capability demo_push = ''sync.chat.push''"
    by (code_simp, simp add: demo_push_env_def demo_env_def, simp add: demo_push_def demo_request_def)
  have p: "parse_chat_push_params (e_conversation demo_push_env) (ar_params demo_push) = Ok [demo_conv 1 []]"
    by (simp add: parse_chat_push_params_def demo_push_def demo_push_env_def)
  have u: "push_conversations demo_push_env 0 (cl_chat demo_push_client) [demo_conv 1 []] 0 =
      (Err ''commit: disk full'', chat_db_empty)"
    by (simp add: upsert_conversation_def Let_def sql_def demo_push_env_def demo_push_client_def demo_client_def
        chat_db_empty_def row_of_def demo_conv_def)
  show ?thesis using chat_push_outcomes [OF a] p u by fastforce
qed

section \<open>Well-formed clients\<close>

text \<open>
  The type of the client's state: both tables are maps, the task list is bounded and free of
  duplicates, the archive keeps its keys and references, and the decision channel is there.
\<close>

definition client_wf :: "client \<Rightarrow> bool" where
  "client_wf c \<longleftrightarrow> distinct (map fst (cl_parked c)) \<and> distinct (map fst (pending (cl_broker c))) \<and>
     task_inv (cl_tasks c) \<and> db_ok (cl_chat c) \<and> broker_ready (cl_broker c)"

lemma ask_wf: "distinct (map fst (pending b)) \<Longrightarrow> distinct (map fst (pending (fst (ask b p))))"
  by (simp add: ask_def Let_def distinct_assoc_insert)

lemma answer_wf: "distinct (map fst (pending b)) \<Longrightarrow> distinct (map fst (pending (fst (answer b i a))))"
  by (auto simp: answer_def Let_def distinct_assoc_remove split: option.split)

lemma asked_wf: "asked r b b' \<Longrightarrow> distinct (map fst (pending b)) \<Longrightarrow> distinct (map fst (pending b'))"
  by (auto simp: asked_def ask_wf)

lemma asked_ready: "asked r b b' \<Longrightarrow> broker_ready b \<Longrightarrow> broker_ready b'"
  by (simp add: asked_desk(3))

lemma action_wf:
  assumes "engines_quiet env" and "client_wf c"
  shows "client_wf (snd (handle_action env c r d))"
  using handle_action_step [OF assms(1), of r d c] assms(2)
  by (auto simp: client_wf_def action_step_def distinct_assoc_insert dest: asked_wf asked_ready)

lemma answer_client_wf: "client_wf c \<Longrightarrow> client_wf (c\<lparr>cl_broker := fst (answer (cl_broker c) i a)\<rparr>)"
  by (simp add: client_wf_def answer_wf answer_desk)

lemma sweep_wf: "client_wf c \<Longrightarrow> client_wf (fold sweep_one ids c)"
  by (induction ids arbitrary: c)
    (simp_all add: sweep_one_def client_wf_def answer_wf answer_desk distinct_assoc_remove)

lemma decision_wf:
  assumes "engines_quiet env" and "client_wf c"
  shows "client_wf (decision_step env c)"
proof (cases "recv_decision (cl_broker c)")
  case None
  with assms show ?thesis by (simp add: decision_step_def)
next
  case (Some m)
  obtain i a b where m: "recv_decision (cl_broker c) = Some ((i, a), b)" using Some by (metis prod.collapse)
  from recv_decision_desk [OF m] have r: "broker_ready b" by blast
  from m have p: "pending b = pending (cl_broker c)"
    by (auto simp: recv_decision_def split: option.splits list.splits)
  have w: "client_wf (c\<lparr>cl_broker := b\<rparr>)" "client_wf (c\<lparr>cl_broker := b, cl_parked := assoc_remove i (cl_parked c)\<rparr>)"
    using assms(2) r p by (simp_all add: client_wf_def distinct_assoc_remove)
  then show ?thesis using action_wf [OF assms(1) w(2)] m
    by (auto simp: decision_step_def Let_def split: option.split)
qed

lemma chat_push_wf:
  assumes "client_wf c"
  shows "client_wf (snd (handle_chat_push env c r))"
proof -
  have t: "task_inv (cl_tasks (register_task env c r))" using assms by (simp add: client_wf_def)
  then have t': "task_inv (cl_tasks ((register_task env c r)\<lparr>cl_chat := db\<rparr>))" for db by simp
  have "task_inv (cl_tasks (snd (handle_chat_push env c r)))"
    using t tasks_kept(4) [OF t'] tasks_kept_error [OF t'] tasks_kept(4) [OF t] tasks_kept_error [OF t]
    by (auto simp: handle_chat_push_def Let_def split: sum.split prod.split)
  with assms chat_push_db_ok show ?thesis by (simp add: client_wf_def)
qed

lemma frame_wf: "engines_quiet env \<Longrightarrow> client_wf c \<Longrightarrow> client_wf (snd (handle_frame env c f))"
  using action_wf chat_push_wf answer_client_wf
  by (auto simp: handle_frame_def client_wf_def split: bridge_frame.split)

lemma tick_wf: "client_wf (lp_client l) \<Longrightarrow> client_wf (lp_client (snd (heartbeat_tick env interval l)))"
  using sweep_wf [of "lp_client l"]
  by (auto simp: heartbeat_tick_def send_heartbeat_def sweep_expired_parked_def client_wf_def Let_def split: option.split)

lemma turn_wf:
  assumes "engines_quiet env" and "client_wf (lp_client l)" and "loop_turn interval (env, e) l = (res, l')"
  shows "client_wf (lp_client l')"
proof -
  have h: "client_wf ((lp_client l)\<lparr>cl_health := h\<rparr>)" for h using assms(2) by (simp add: client_wf_def)
  note f = frame_wf [OF assms(1) assms(2)] frame_wf [OF assms(1) h]
  show ?thesis
    using assms(3) f decision_wf [OF assms(1,2)] tick_wf [OF assms(2), of env interval] answer_client_wf [OF assms(2)] assms(2)
    by (auto simp: loop_turn_def Let_def split: loop_event.splits ws_message.splits sum.splits prod.splits
        bridge_frame.splits) (metis prod.sel(2))+
qed

lemma run_wf:
  "turn_ready evs \<Longrightarrow> client_wf (lp_client l) \<Longrightarrow> loop_run interval evs l = (res, l') \<Longrightarrow> client_wf (lp_client l')"
proof (induction evs arbitrary: l)
  case (Cons ev evs)
  obtain env e where ev: "ev = (env, e)" by fastforce
  obtain r1 l1 where t: "loop_turn interval ev l = (r1, l1)" by fastforce
  have q: "engines_quiet env" "turn_ready evs" using Cons.prems(1) by (auto simp: turn_ready_def ev)
  from turn_wf [OF q(1) Cons.prems(2)] t ev have "client_wf (lp_client l1)" by simp
  with Cons q(2) t show ?case by (cases r1) auto
qed simp

lemma connect_wf:
  assumes "turn_ready evs" and "client_wf c"
  shows "client_wf (snd (connect_once me d evs fallback c))"
proof -
  have h: "client_wf (snd (handshake me d c))"
    using assms(2) by (simp add: handshake_def client_wf_def split: sum.split option.split)
  then have a: "client_wf (lp_client (accept_ack now ack (snd (handshake me d c))))" for now ack
    by (simp add: accept_ack_def client_wf_def)
  have "client_wf (lp_client (snd (loop_run interval evs (accept_ack now ack (snd (handshake me d c))))))" for interval now ack
    using run_wf [OF assms(1) a] by (metis prod.collapse)
  with h show ?thesis
    by (auto simp: connect_once_def split: sum.split prod.split) (metis snd_conv)
qed

section \<open>Backoff lemmas\<close>

lemma after_connection_Ok:
  "after_connection now res b c = (Inr (sleep, b'), c') \<Longrightarrow>
   (sleep = b \<or> sleep = INITIAL_BACKOFF) \<and> b' = min (sleep * 2) MAX_BACKOFF"
  by (auto simp: after_connection_def Let_def split: sum.splits daemon_error.splits if_splits)

lemma after_connection_wf: "client_wf c \<Longrightarrow> client_wf (snd (after_connection now res b c))"
  by (auto simp: after_connection_def client_wf_def Let_def split: sum.split daemon_error.split)

lemma run_sessions_wf:
  "\<forall>s \<in> set ss. turn_ready (ss_events s) \<Longrightarrow> client_wf c \<Longrightarrow> run_sessions me ss b c = (st, sleeps, c') \<Longrightarrow> client_wf c'"
proof (induction ss arbitrary: b c sleeps)
  case (Cons s ss)
  obtain r1 c1 where k: "connect_once me (ss_dial s) (ss_events s) FALLBACK_HEARTBEAT_INTERVAL_MS c = (r1, c1)"
    by fastforce
  with connect_wf [of "ss_events s" c me "ss_dial s" FALLBACK_HEARTBEAT_INTERVAL_MS] Cons.prems(1,2)
  have w1: "client_wf c1" by simp
  show ?case
  proof (cases r1)
    case None
    with Cons.prems(3) k w1 show ?thesis by simp
  next
    case (Some res)
    obtain r2 c2 where a: "after_connection (ss_ended_at s) res b c1 = (r2, c2)" by fastforce
    with after_connection_wf [OF w1] have w2: "client_wf c2" by (metis snd_conv)
    show ?thesis
      using Cons.prems Cons.IH [OF _ w2] k Some a w2 by (auto split: sum.splits prod.splits)
  qed
qed simp

lemma run_sessions_sleeps:
  "INITIAL_BACKOFF \<le> b \<Longrightarrow> b \<le> MAX_BACKOFF \<Longrightarrow> run_sessions me ss b c = (st, sleeps, c') \<Longrightarrow>
   \<forall>s \<in> set sleeps. INITIAL_BACKOFF \<le> s \<and> s \<le> MAX_BACKOFF"
proof (induction ss arbitrary: b c sleeps st c')
  case (Cons s ss)
  obtain r1 c1 where k: "connect_once me (ss_dial s) (ss_events s) FALLBACK_HEARTBEAT_INTERVAL_MS c = (r1, c1)"
    by fastforce
  show ?case
  proof (cases r1)
    case None
    with Cons.prems(3) k show ?thesis by auto
  next
    case (Some res)
    obtain r2 c2 where a: "after_connection (ss_ended_at s) res b c1 = (r2, c2)" by fastforce
    show ?thesis
    proof (cases r2)
      case (Inl e)
      with Cons.prems(3) k Some a show ?thesis by auto
    next
      case (Inr p)
      obtain sl b' where p: "p = (sl, b')" by fastforce
      obtain st2 sleeps2 c3 where r: "run_sessions me ss b' c2 = (st2, sleeps2, c3)" by (metis prod_cases3)
      have b: "INITIAL_BACKOFF \<le> sl" "sl \<le> MAX_BACKOFF" "INITIAL_BACKOFF \<le> b'" "b' \<le> MAX_BACKOFF"
        using after_connection_Ok [OF a [unfolded Inr p]] Cons.prems(1,2)
        by (auto simp: INITIAL_BACKOFF_def MAX_BACKOFF_def)
      have "sleeps = sl # sleeps2" using Cons.prems(3) k Some a Inr p r by simp
      with Cons.IH [OF b(3,4) r] b show ?thesis by auto
    qed
  qed
qed auto

definition backoff_after :: "nat \<Rightarrow> nat" where
  "backoff_after n = min (INITIAL_BACKOFF * 2 ^ n) MAX_BACKOFF"

lemma backoff_after_Suc: "min (backoff_after n * 2) MAX_BACKOFF = backoff_after (Suc n)"
  by (simp add: backoff_after_def INITIAL_BACKOFF_def MAX_BACKOFF_def)

lemma unreachable_sessions:
  "\<forall>s \<in> set ss. \<exists>e. dial_headers me (ss_dial s) = Err e \<Longrightarrow>
   \<exists>c'. run_sessions me ss (backoff_after n) c =
      (Waiting (backoff_after (n + length ss)), map (\<lambda>i. backoff_after (n + i)) [0..<length ss], c') \<and>
     cl_parked c' = cl_parked c \<and> cl_gate c' = cl_gate c \<and> cl_broker c' = cl_broker c"
proof (induction ss arbitrary: n c)
  case (Cons s ss)
  from Cons.prems obtain e where e: "dial_headers me (ss_dial s) = Err e" by auto
  obtain c1 where a: "after_connection (ss_ended_at s) (Err (Ws e)) (backoff_after n) c =
      (Inr (backoff_after n, backoff_after (Suc n)), c1)"
    and c1: "cl_parked c1 = cl_parked c" "cl_gate c1 = cl_gate c" "cl_broker c1 = cl_broker c"
    by (simp add: after_connection_def Let_def backoff_after_Suc)
  have k: "connect_once me (ss_dial s) (ss_events s) FALLBACK_HEARTBEAT_INTERVAL_MS c = (Some (Err (Ws e)), c)"
    by (simp add: connect_once_def handshake_def e)
  obtain c' where r: "run_sessions me ss (backoff_after (Suc n)) c1 =
      (Waiting (backoff_after (Suc n + length ss)), map (\<lambda>i. backoff_after (Suc n + i)) [0..<length ss], c')"
    and c': "cl_parked c' = cl_parked c1" "cl_gate c' = cl_gate c1" "cl_broker c' = cl_broker c1"
    using Cons.IH [of "Suc n" c1] Cons.prems by auto
  have "[0..<Suc (length ss)] = 0 # map Suc [0..<length ss]"
    by (simp del: upt_Suc add: upt_conv_Cons map_Suc_upt)
  then have m: "map (\<lambda>i. backoff_after (n + i)) [0..<length (s # ss)] =
      backoff_after n # map (\<lambda>i. backoff_after (Suc n + i)) [0..<length ss]"
    by (simp del: upt_Suc add: comp_def)
  show ?case unfolding m using k a r c1 c' by simp
qed simp

section \<open>Properties of the reconnect loop\<close>

text \<open>
  C13. The client's state is well typed for the life of the daemon. Over any connections with any
  events, ended or not, the parked table and the pending prompts stay maps, the task list
  stays bounded and free of duplicates, the archive keeps its keys and references, and the
  decision channel stays installed.
\<close>

theorem run_keeps_client_wf:
  assumes "\<forall>s \<in> set ss. turn_ready (ss_events s)" and "client_wf (c\<lparr>cl_broker := set_notifier (cl_broker c)\<rparr>)"
    and "run me ss c = (st, sleeps, c')"
  shows "client_wf c'"
  using run_sessions_wf [OF assms(1,2)] assms(3) by (simp add: run_def)

definition demo_identity :: identity where
  "demo_identity = \<lparr>id_token = ''tok'', id_fingerprint = ''fp'', id_device_kind = ''desktop'', id_device_name = ''n''\<rparr>"

definition demo_ack :: hello_ack_frame where
  "demo_ack = \<lparr>ha_v = 1, ha_device_id = ''d'', ha_scopes = \<lparr>sc_capabilities = [''desktop.fs.write''],
     sc_always_allow_paths = [''/w'']\<rparr>, ha_heartbeat_interval_ms = 0\<rparr>"

definition demo_dial :: dial where
  "demo_dial = \<lparr>dl_request_error = None, dl_header_error = (\<lambda>_. None), dl_connect_error = None,
     dl_sha256_hex = (\<lambda>s. s), dl_client_version = ''1'', dl_os = ''linux'', dl_arch = ''x86'', dl_tools = [],
     dl_send_error = None, dl_first = Some (MsgText (Ok (HelloAck demo_ack))), dl_now = 7\<rparr>"

lemma demo_client_wf: "client_wf (demo_client\<lparr>cl_broker := set_notifier (cl_broker demo_client)\<rparr>)"
  by (simp add: client_wf_def demo_client_def set_notifier_def broker_new_def broker_ready_def task_inv_def
      globals_init_def db_ok_def chat_db_empty_def)

theorem run_keeps_client_wf_witness:
  "client_wf (snd (snd (run demo_identity [\<lparr>ss_dial = demo_dial, ss_events =
     [(demo_env, Tick), (demo_env, Incoming (MsgText (Ok (ActionRequest (demo_request ''desktop.fs.write'')))))],
     ss_ended_at = 9\<rparr>] demo_client)))"
proof -
  let ?ss = "[\<lparr>ss_dial = demo_dial, ss_events =
     [(demo_env, Tick), (demo_env, Incoming (MsgText (Ok (ActionRequest (demo_request ''desktop.fs.write'')))))],
     ss_ended_at = 9\<rparr>]"
  have a: "\<forall>s \<in> set ?ss. turn_ready (ss_events s)" using demo_turn_ready by simp
  obtain st sleeps c' where r: "run demo_identity ?ss demo_client = (st, sleeps, c')" by (metis prod_cases3)
  from run_keeps_client_wf [OF a demo_client_wf r] show ?thesis by (simp only: r snd_conv)
qed

text \<open>
  C20. The backoff. Whatever the connections do, every sleep before a reconnection, its random
  part aside, lies between one and thirty seconds. While the server cannot be reached, the
  daemon keeps trying: the sleeps are 1, 2, 4, 8, 16 seconds and then always 30, it never
  stops, and the gate, the open prompts and the parked actions are kept.
\<close>

theorem backoff_bounded_and_exponential:
  "(\<forall>s \<in> set (fst (snd (run me ss c))). 1000 \<le> s \<and> s \<le> 30000) \<and>
   ((\<forall>s \<in> set ss. \<exists>e. dial_headers me (ss_dial s) = Err e) \<longrightarrow>
     (\<exists>c'. run me ss c = (Waiting (min (1000 * 2 ^ length ss) 30000),
        map (\<lambda>i. min (1000 * 2 ^ i) 30000) [0..<length ss], c') \<and>
      cl_parked c' = cl_parked c \<and> cl_gate c' = cl_gate c \<and> pending (cl_broker c') = pending (cl_broker c)))"
proof (intro conjI impI)
  obtain st sleeps c' where r: "run me ss c = (st, sleeps, c')" by (metis prod_cases3)
  then have "run_sessions me ss INITIAL_BACKOFF (c\<lparr>cl_broker := set_notifier (cl_broker c)\<rparr>) = (st, sleeps, c')"
    by (simp add: run_def)
  from run_sessions_sleeps [OF _ _ this] r
  show "\<forall>s \<in> set (fst (snd (run me ss c))). 1000 \<le> s \<and> s \<le> 30000"
    by (simp add: INITIAL_BACKOFF_def MAX_BACKOFF_def)
next
  assume "\<forall>s \<in> set ss. \<exists>e. dial_headers me (ss_dial s) = Err e"
  from unreachable_sessions [OF this, of 0 "c\<lparr>cl_broker := set_notifier (cl_broker c)\<rparr>"]
  show "\<exists>c'. run me ss c = (Waiting (min (1000 * 2 ^ length ss) 30000),
        map (\<lambda>i. min (1000 * 2 ^ i) 30000) [0..<length ss], c') \<and>
      cl_parked c' = cl_parked c \<and> cl_gate c' = cl_gate c \<and> pending (cl_broker c') = pending (cl_broker c)"
    by (auto simp: run_def backoff_after_def INITIAL_BACKOFF_def MAX_BACKOFF_def set_notifier_def)
qed

theorem backoff_bounded_and_exponential_witness:
  "fst (snd (run demo_identity (replicate 6 \<lparr>ss_dial = demo_dial\<lparr>dl_connect_error := Some ''refused''\<rparr>,
      ss_events = [], ss_ended_at = 0\<rparr>) demo_client)) = [1000, 2000, 4000, 8000, 16000, 30000]"
proof -
  let ?s = "\<lparr>ss_dial = demo_dial\<lparr>dl_connect_error := Some ''refused''\<rparr>, ss_events = [], ss_ended_at = 0\<rparr>"
  have u: "\<forall>s \<in> set (replicate 6 ?s). \<exists>e. dial_headers demo_identity (ss_dial s) = Err e"
    by (simp add: dial_headers_def demo_dial_def)
  have "map (\<lambda>i. min (1000 * 2 ^ i) 30000) [0..<length (replicate 6 ?s)] = [1000, 2000, 4000, 8000, 16000, 30000 :: nat]"
    by (simp add: upt_rec)
  moreover from backoff_bounded_and_exponential [of demo_identity "replicate 6 ?s" demo_client] u
  obtain c' where "run demo_identity (replicate 6 ?s) demo_client = (Waiting (min (1000 * 2 ^ length (replicate 6 ?s)) 30000),
      map (\<lambda>i. min (1000 * 2 ^ i) 30000) [0..<length (replicate 6 ?s)], c')" by blast
  ultimately show ?thesis by (simp only: fst_conv snd_conv)
qed

text \<open>
  Revocation is final. When the server revokes the device in a connection that got that far,
  \<open>run\<close> stops with that error whatever connections could follow, and the daemon is marked
  disconnected with the reason recorded.
\<close>

lemma revocation_is_final:
  assumes "handshake me (ss_dial s) c = (Ok ack, c1)"
    and "loop_run (agreed_interval 30000 ack) evs (accept_ack (dl_now (ss_dial s)) ack c1) = (None, l)"
    and "ss_events s = evs @ (env, Incoming (MsgText (Ok (Revoke v)))) # rest"
  shows "\<exists>c'. run_sessions me (s # ss) b c = (Stopped (Protocol ''revoked''), [], c') \<and>
    \<not> h_connected (cl_health c') \<and> h_last_error (cl_health c') = ''revoked'' \<and> cl_fs c' = cl_fs (lp_client l)"
proof -
  have "connect_once me (ss_dial s) (ss_events s) FALLBACK_HEARTBEAT_INTERVAL_MS c =
      (Some (Err (Protocol ''revoked'')), lp_client l)"
    using assms by (simp add: connect_once_def loop_run_append loop_turn_def handle_frame_def
        FALLBACK_HEARTBEAT_INTERVAL_MS_def)
  moreover have "fatal_message ''revoked''" by code_simp
  ultimately show ?thesis
    by (simp add: after_connection_def Let_def)
      (simp add: mark_disconnected_def set_error_def Let_def)
qed

lemma revocation_is_final_witness:
  "\<exists>c'. run_sessions demo_identity [\<lparr>ss_dial = demo_dial,
      ss_events = [(demo_env, Incoming (MsgText (Ok (Revoke \<lparr>rv_v = 1, rv_reason = ''r''\<rparr>)))), (demo_env, Tick)],
      ss_ended_at = 0\<rparr>] 1000 demo_client = (Stopped (Protocol ''revoked''), [], c')"
proof -
  let ?s = "\<lparr>ss_dial = demo_dial,
      ss_events = [(demo_env, Incoming (MsgText (Ok (Revoke \<lparr>rv_v = 1, rv_reason = ''r''\<rparr>)))), (demo_env, Tick)],
      ss_ended_at = 0\<rparr>"
  have h: "handshake demo_identity (ss_dial ?s) demo_client =
      (Ok demo_ack, demo_client\<lparr>cl_sent := cl_sent demo_client @ [Hello (hello_of demo_identity demo_dial)]\<rparr>)"
    by (simp add: handshake_def dial_headers_def demo_dial_def await_ack_def)
  have l: "loop_run (agreed_interval 30000 demo_ack) [] l0 = (None, l0)" for l0 by simp
  have e: "ss_events ?s = [] @ (demo_env, Incoming (MsgText (Ok (Revoke \<lparr>rv_v = 1, rv_reason = ''r''\<rparr>)))) # [(demo_env, Tick)]"
    by simp
  from revocation_is_final [OF h l e, of "[]" 1000] show ?thesis by blast
qed

end
