(* ===== verification/Lsp_Text.thy ===== *)
theory Lsp_Text
  imports Text_Scan
begin

text \<open>
  The pure text layer of \<open>daemon-core/src/lsp_ops.rs\<close>: the base protocol's framing, which the
  debug-adapter bridge shares, \<open>file://\<close> URIs, and LSP positions (UTF-16 columns) as byte
  offsets. A byte stream is what it still delivers and how it ends.
\<close>

section \<open>Framing\<close>

definition MAX_FRAME_BYTES :: nat where "MAX_FRAME_BYTES = 10 * 1024 * 1024"
definition MAX_HEADER_BYTES :: nat where "MAX_HEADER_BYTES = 8192"

definition CRLF :: string where "CRLF = [CHR 0x0D, CHR 0x0A]"

definition frame_message :: "string \<Rightarrow> bytes" where
  "frame_message body = ''Content-Length: '' @ nat_to_string (length body) @ CRLF @ CRLF @ body"

record reader =
  rd_bytes :: bytes
  rd_broken :: "io_error option"

text \<open>One byte, at a time: \<open>None\<close> is the end of the stream.\<close>

definition read_byte :: "reader \<Rightarrow> (io_error, char option) res \<times> reader" where
  "read_byte r =
     (case rd_bytes r of
        c # cs \<Rightarrow> (Ok (Some c), r\<lparr>rd_bytes := cs\<rparr>)
      | [] \<Rightarrow> (case rd_broken r of None \<Rightarrow> (Ok None, r) | Some e \<Rightarrow> (Err e, r)))"

definition invalid_data :: "string \<Rightarrow> string \<Rightarrow> io_error" where
  "invalid_data label m = OtherIo (label @ '': '' @ m)"

text \<open>The header loop: \<open>Ok None\<close> at the end of the stream, wherever in the header it comes.\<close>

function read_header :: "string \<Rightarrow> bytes \<Rightarrow> reader \<Rightarrow> (io_error, bytes option) res \<times> reader" where
  "read_header label header r =
     (case read_byte r of
        (Inl e, r1) \<Rightarrow> (Err e, r1)
      | (Inr None, r1) \<Rightarrow> (Ok None, r1)
      | (Inr (Some c), r1) \<Rightarrow>
          let header1 = header @ [c] in
          if ends_with header1 (CRLF @ CRLF) then (Ok (Some header1), r1)
          else if length header1 > MAX_HEADER_BYTES
          then (Err (invalid_data label ''header section too long''), r1)
          else read_header label header1 r1)"
  by pat_completeness auto
termination
  by (relation "measure (\<lambda>(l, h, r). length (rd_bytes r))")
    (auto simp: read_byte_def split: list.splits option.splits)

declare read_header.simps [simp del]

text \<open>The last \<open>Content-Length\<close> line decides; one that does not parse counts as none.\<close>

fun content_length_of :: "nat option \<Rightarrow> string list \<Rightarrow> nat option" where
  "content_length_of n [] = n"
| "content_length_of n (l # ls) =
     content_length_of
       (case split_once '':'' l of
          Some (name, v) \<Rightarrow>
            (if eq_ignore_ascii_case (str_trim name) ''content-length'' then parse_unsigned 64 (str_trim v) else n)
        | None \<Rightarrow> n) ls"

definition read_frame :: "string \<Rightarrow> reader \<Rightarrow> (io_error, string option) res \<times> reader" where
  "read_frame label r =
     (case read_header label [] r of
        (Inl e, r1) \<Rightarrow> (Err e, r1)
      | (Inr None, r1) \<Rightarrow> (Ok None, r1)
      | (Inr (Some header), r1) \<Rightarrow>
          if \<not> valid_utf8 header then (Err (OtherIo ''headers''), r1)
          else
            (case content_length_of None (split_str CRLF header) of
               None \<Rightarrow> (Err (invalid_data label ''missing Content-Length''), r1)
             | Some len \<Rightarrow>
                 if len = 0 \<or> len > MAX_FRAME_BYTES
                 then (Err (invalid_data label ''frame size out of bounds''), r1)
                 else if length (rd_bytes r1) < len
                 then (Err (case rd_broken r1 of None \<Rightarrow> OtherIo ''early eof'' | Some e \<Rightarrow> e), r1\<lparr>rd_bytes := []\<rparr>)
                 else
                   (let body = take len (rd_bytes r1); r2 = r1\<lparr>rd_bytes := drop len (rd_bytes r1)\<rparr> in
                    if valid_utf8 body then (Ok (Some body), r2) else (Err (OtherIo ''body''), r2))))"

section \<open>File URIs\<close>

definition uri_safe :: "char \<Rightarrow> bool" where
  "uri_safe c =
     (let n = byte_val c in
      (48 \<le> n \<and> n \<le> 57) \<or> (65 \<le> n \<and> n \<le> 90) \<or> (97 \<le> n \<and> n \<le> 122) \<or> c \<in> set ''-_.!~*'' \<or>
      n = 39 \<or> c \<in> set ''()'')"

definition upper_hex :: "nat \<Rightarrow> char" where
  "upper_hex n = (if n < 10 then char_of (48 + n) else char_of (55 + n))"

text \<open>A character outside the safe set is written byte by byte; every byte of one that is not ASCII is.\<close>

definition uri_byte :: "char \<Rightarrow> string" where
  "uri_byte c =
     (if uri_safe c then [c] else [CHR 0x25, upper_hex (byte_val c div 16), upper_hex (byte_val c mod 16)])"

definition uri_escape :: "string \<Rightarrow> string" where
  "uri_escape s = concat (map uri_byte s)"

text \<open>\<open>text.split(['/', '\'])\<close>: both slashes separate components.\<close>

definition slash_components :: "string \<Rightarrow> string list" where
  "slash_components s = concat (map (split_on (CHR 0x5C)) (split_on (CHR ''/'') s))"

definition path_text_to_uri :: "string \<Rightarrow> string" where
  "path_text_to_uri s =
     ''file://'' @
     concat (map (\<lambda>comp. if comp = [] then [] else ''/'' @ uri_escape comp) (slash_components s)) @
     (if s \<noteq> [] \<and> last s = CHR ''/'' then ''/'' else [])"

fun percent_decode :: "bytes \<Rightarrow> bytes option" where
  "percent_decode [] = Some []"
| "percent_decode (c # cs) =
     (if c = CHR 0x25 then
        (case cs of
           a # b # rest \<Rightarrow>
             (case parse_hex2 a b of
                Some n \<Rightarrow> map_option ((#) (char_of n)) (percent_decode rest)
              | None \<Rightarrow> None)
         | _ \<Rightarrow> map_option ((#) c) (percent_decode cs))
      else map_option ((#) c) (percent_decode cs))"

definition uri_to_path_text :: "string \<Rightarrow> string option" where
  "uri_to_path_text uri =
     (case strip_prefix ''file://'' uri of
        None \<Rightarrow> None
      | Some rest \<Rightarrow> map_option from_utf8_lossy (percent_decode (dropWhile (\<lambda>c. c \<noteq> CHR ''/'') rest)))"

section \<open>Positions\<close>

definition len_utf16 :: "string \<Rightarrow> nat" where
  "len_utf16 ch = (if length ch = 4 then 2 else 1)"

fun utf16_scan :: "nat \<Rightarrow> nat \<Rightarrow> nat \<Rightarrow> string list \<Rightarrow> nat option" where
  "utf16_scan col count idx [] = None"
| "utf16_scan col count idx (ch # chs) =
     (if count \<ge> col then Some idx
      else if count + len_utf16 ch > col then Some (idx + length ch)
      else utf16_scan col (count + len_utf16 ch) (idx + length ch) chs)"

definition utf16_to_byte_offset :: "string \<Rightarrow> nat \<Rightarrow> nat" where
  "utf16_to_byte_offset line col =
     (case utf16_scan col 0 0 (chars_of line) of Some i \<Rightarrow> i | None \<Rightarrow> length line)"

fun linecol_scan :: "nat \<Rightarrow> nat \<Rightarrow> nat \<Rightarrow> string list \<Rightarrow> nat" where
  "linecol_scan line col offset [] = offset"
| "linecol_scan line col offset (t # ts) =
     (case line of
        0 \<Rightarrow> offset + utf16_to_byte_offset t col
      | Suc n \<Rightarrow> linecol_scan n col (offset + length t) ts)"

definition linecol_to_byte :: "string \<Rightarrow> nat \<Rightarrow> nat \<Rightarrow> nat" where
  "linecol_to_byte source line col = linecol_scan line col 0 (split_inclusive source)"


section \<open>Lemmas: framing\<close>

lemma read_byte_simps [simp]:
  "read_byte r = (Inr (Some c), r1) \<longleftrightarrow> (\<exists>cs. rd_bytes r = c # cs \<and> r1 = r\<lparr>rd_bytes := cs\<rparr>)"
  "rd_bytes r = c # cs \<Longrightarrow> read_byte r = (Inr (Some c), r\<lparr>rd_bytes := cs\<rparr>)"
  by (auto simp: read_byte_def split: list.splits option.splits)

lemma ends_with_CRLF2: "ends_with h (CRLF @ CRLF) \<longleftrightarrow> (\<exists>u. h = u @ CRLF @ CRLF)"
  by (simp add: ends_with_suffix suffix_def)

text \<open>A header line without a carriage return and the empty line after it are read whole.\<close>

lemma read_header_line:
  assumes "CHR 0x0D \<notin> set (h @ xs)" and "length h + length xs + 4 \<le> MAX_HEADER_BYTES"
    and "rd_bytes r = xs @ CRLF @ CRLF @ rest"
  shows "read_header label h r = (Ok (Some (h @ xs @ CRLF @ CRLF)), r\<lparr>rd_bytes := rest\<rparr>)"
  using assms
proof (induction xs arbitrary: h r)
  case Nil
  have no: "\<not> ends_with (h @ w) (CRLF @ CRLF)" if "w \<in> {[CHR 0x0D], CRLF, CRLF @ [CHR 0x0D]}" for w
  proof
    assume "ends_with (h @ w) (CRLF @ CRLF)"
    then obtain u where "h @ w = u @ CRLF @ CRLF" by (auto simp: ends_with_CRLF2)
    then have "rev w @ rev h = rev (CRLF @ CRLF) @ rev u" by (metis append.assoc rev_append)
    with that have "rev h = CHR 0x0A # CHR 0x0D # rev u" by (auto simp: CRLF_def)
    then have "set (rev h) = set (CHR 0x0A # CHR 0x0D # rev u)" by (rule arg_cong)
    with Nil(1) show False by simp
  qed
  have yes: "ends_with (h @ CRLF @ CRLF) (CRLF @ CRLF)" by (auto simp: ends_with_CRLF2)
  show ?case
    using Nil no [of "[CHR 0x0D]"] no [of CRLF] no [of "CRLF @ [CHR 0x0D]"] yes
    by (simp add: read_header.simps Let_def CRLF_def)
next
  case (Cons x xs)
  have "\<not> ends_with (h @ [x]) (CRLF @ CRLF)"
  proof
    assume "ends_with (h @ [x]) (CRLF @ CRLF)"
    then obtain u where "h @ [x] = u @ CRLF @ CRLF" by (auto simp: ends_with_CRLF2)
    then have "CHR 0x0D \<in> set (h @ [x])" by (simp only:) (simp add: CRLF_def)
    with Cons.prems(1) show False by simp
  qed
  with Cons.prems show ?case
    using Cons.IH [of "h @ [x]" "r\<lparr>rd_bytes := xs @ CRLF @ CRLF @ rest\<rparr>"]
    by (subst read_header.simps) simp
qed

lemma nat_to_string_length: "n < 10 ^ k \<Longrightarrow> 0 < k \<Longrightarrow> length (nat_to_string n) \<le> k"
proof (induction k arbitrary: n)
  case (Suc k)
  show ?case
  proof (cases "n < 10")
    case True
    then show ?thesis by (subst nat_to_string.simps) simp
  next
    case False
    with Suc.prems have "0 < k" "n div 10 < 10 ^ k" by (cases k; simp add: div_less_iff_less_mult mult.commute)+
    with Suc.IH [of "n div 10"] False show ?thesis by (subst nat_to_string.simps) simp
  qed
qed simp

lemma split_str_free:
  assumes "x \<notin> set w"
  shows "split_str (x # xs) w = [w]" and "split_str (x # xs) (w @ (x # xs) @ s) = w # split_str (x # xs) s"
  using assms
  by (induction w) (auto simp: split_str.simps(2) starts_with_def)

lemma split_CRLF:
  assumes "CHR 0x0D \<notin> set w"
  shows "split_str CRLF w = [w]" and "split_str CRLF (w @ CRLF @ s) = w # split_str CRLF s"
  using split_str_free [OF assms, of "[CHR 0x0A]", folded CRLF_def] by simp_all

lemma trim_space_digits:
  assumes "list_all is_digit ds"
  shows "str_trim (CHR '' '' # ds) = ds"
proof -
  have hex: "set ds \<subseteq> hex_digits"
  proof
    fix c assume "c \<in> set ds"
    with assms have "48 \<le> byte_val c" "byte_val c \<le> 57" by (auto simp: list_all_iff is_digit_def)
    then have "byte_val c \<in> set [48..<58]" by (simp only: set_upt atLeastLessThan_iff, arith)
    then have "c \<in> set (map char_of [48..<58 :: nat])" by (metis char_of_char image_eqI set_map)
    also have "map char_of [48..<58 :: nat] = ''0123456789''" by code_simp
    finally show "c \<in> hex_digits" by (auto simp: hex_digits_def)
  qed
  have "find (starts_with (CHR '' '' # ds)) white_space = Some [CHR '' '']"
    by (simp add: white_space_def starts_with_def)
  then have "trim_start (CHR '' '' # ds) = trim_with (length ds) white_space ds"
    by (simp add: trim_start_def)
  also have "\<dots> = trim_start ds" by (simp add: trim_start_def)
  finally have "str_trim (CHR '' '' # ds) = str_trim ds" by (simp add: str_trim_def)
  then show ?thesis by (simp add: str_trim_hex [OF hex])
qed

lemma header_length:
  assumes "n < 2 ^ 64"
  shows "content_length_of None (split_str CRLF (''Content-Length: '' @ nat_to_string n @ CRLF @ CRLF)) = Some n"
proof -
  let ?h = "''Content-Length: '' @ nat_to_string n"
  have cr: "CHR 0x0D \<notin> set ?h"
    using list_all_nat_to_string [of n] by (auto simp: list_all_iff is_digit_def)
  have "split_str CRLF (?h @ CRLF @ CRLF) = [?h, [], []]"
    using split_CRLF(2) [OF cr, of CRLF] split_CRLF(1) [of "[]"] split_CRLF(2) [of "[]" "[]"] by simp
  moreover have "split_once '':'' ?h = Some (''Content-Length'', CHR '' '' # nat_to_string n)"
    by (simp add: starts_with_def)
  moreover have "eq_ignore_ascii_case (str_trim ''Content-Length'') ''content-length''" by code_simp
  moreover have "str_trim (CHR '' '' # nat_to_string n) = nat_to_string n"
    by (rule trim_space_digits) (rule list_all_nat_to_string)
  ultimately show ?thesis using parse_unsigned_nat [OF assms] by simp
qed

text \<open>Bodies the writer sends and the reader takes.\<close>

definition frameable :: "string \<Rightarrow> bool" where
  "frameable body \<longleftrightarrow> body \<noteq> [] \<and> length body \<le> MAX_FRAME_BYTES \<and> valid_utf8 body"

lemma read_frame_message:
  assumes "frameable body" and "rd_bytes r = frame_message body @ rest"
  shows "read_frame label r = (Ok (Some body), r\<lparr>rd_bytes := rest\<rparr>)"
proof -
  let ?n = "nat_to_string (length body)" and ?r1 = "r\<lparr>rd_bytes := body @ rest\<rparr>"
  have n: "length body < 10 ^ 8" "length body < 2 ^ 64"
    using assms(1) by (simp_all add: frameable_def MAX_FRAME_BYTES_def)
  have "length ?n \<le> 8" by (rule nat_to_string_length [OF n(1)]) simp
  moreover have "CHR 0x0D \<notin> set (''Content-Length: '' @ ?n)"
    using list_all_nat_to_string [of "length body"] by (auto simp: list_all_iff is_digit_def)
  ultimately have head: "read_header label [] r = (Ok (Some (''Content-Length: '' @ ?n @ CRLF @ CRLF)), ?r1)"
    using read_header_line [of "[]" "''Content-Length: '' @ ?n" r "body @ rest" label] assms(2)
    by (simp add: frame_message_def MAX_HEADER_BYTES_def)
  have utf: "valid_utf8 (''Content-Length: '' @ ?n @ CRLF @ CRLF)"
    unfolding valid_utf8_def using list_all_nat_to_string [of "length body"]
    by (intro lossy_ascii) (auto simp: list_all_iff is_digit_def CRLF_def)
  show ?thesis
    unfolding read_frame_def head
    using assms(1) utf header_length [OF n(2)] by (simp add: frameable_def)
qed

text \<open>Every message the stream delivers, as the reader task collects them.\<close>

lemma read_header_shrinks:
  "read_header label h r = (Ok (Some hd'), r1) \<Longrightarrow> length (rd_bytes r1) < length (rd_bytes r)"
proof (induction "rd_bytes r" arbitrary: h r)
  case Nil
  then show ?case by (subst (asm) read_header.simps) (simp add: read_byte_def split: option.splits)
next
  case (Cons c cs)
  then show ?case
    using Cons.hyps(1) [of "r\<lparr>rd_bytes := cs\<rparr>" "h @ [c]"] Cons.hyps(2) [symmetric] Cons.prems
    by (subst (asm) (2) read_header.simps) (auto simp: Let_def split: if_splits)
qed

lemma read_frame_shrinks:
  "read_frame label r = (Ok (Some body), r1) \<Longrightarrow> length (rd_bytes r1) < length (rd_bytes r)"
  by (auto simp: read_frame_def Let_def dest!: read_header_shrinks
      split: prod.splits sum.splits option.splits if_splits)

function frames_of :: "string \<Rightarrow> reader \<Rightarrow> string list" where
  "frames_of label r =
     (case read_frame label r of
        (Inr (Some body), r1) \<Rightarrow> body # frames_of label r1
      | _ \<Rightarrow> [])"
  by pat_completeness auto
termination
  by (relation "measure (\<lambda>(l, r). length (rd_bytes r))") (auto dest: read_frame_shrinks [OF sym])

declare frames_of.simps [simp del]

section \<open>Lemmas: percent encoding\<close>

lemma hex_val_upper: "n < 16 \<Longrightarrow> hex_val (upper_hex n) = Some n"
  by (auto simp: upper_hex_def Let_def)

lemma upper_hex_not_plus: "n < 16 \<Longrightarrow> upper_hex n \<noteq> CHR ''+''"
  using hex_val_upper [of n] by (auto simp: Let_def)

lemma percent_decode_byte: "percent_decode (uri_byte c @ s) = map_option ((#) c) (percent_decode s)"
proof (cases "uri_safe c")
  case True
  then have "c \<noteq> CHR 0x25" by (auto simp: uri_safe_def)
  with True show ?thesis by (simp add: uri_byte_def)
next
  case False
  have h: "byte_val c div 16 < 16" "byte_val c mod 16 < 16"
    using nat_of_char_less_256 [of c] by (simp_all add: div_less_iff_less_mult)
  have "parse_hex2 (upper_hex (byte_val c div 16)) (upper_hex (byte_val c mod 16)) = Some (byte_val c)"
    using hex_val_upper [OF h(1)] hex_val_upper [OF h(2)] upper_hex_not_plus [OF h(1)]
    by (simp add: parse_hex2_def del: hex_val.simps)
  with False show ?thesis by (simp add: uri_byte_def)
qed

lemma percent_decode_escape:
  "percent_decode (uri_escape w @ s) = map_option ((@) w) (percent_decode s)"
  by (induction w) (simp_all add: uri_escape_def percent_decode_byte option.map_comp comp_def option.map_ident)

text \<open>Texts of absolute paths whose components are not empty and hold no slash of either kind.\<close>

definition plain_comp :: "string \<Rightarrow> bool" where
  "plain_comp w \<longleftrightarrow> w \<noteq> [] \<and> CHR ''/'' \<notin> set w \<and> CHR 0x5C \<notin> set w"

lemma percent_decode_comps:
  "percent_decode (concat (map (\<lambda>w. if w = [] then [] else ''/'' @ uri_escape w) ws)) =
   Some (concat (map (\<lambda>w. if w = [] then [] else ''/'' @ w) ws))"
  by (induction ws) (auto simp: percent_decode_escape)

lemma join_slashes: "ws \<noteq> [] \<Longrightarrow> ''/'' @ str_join ''/'' ws = concat (map (\<lambda>w. ''/'' @ w) ws)"
  by (induction ws rule: list_nonempty_induct) (auto simp: neq_Nil_conv)

lemma slash_components_plain:
  assumes "list_all plain_comp ws" and "ws \<noteq> []"
  shows "slash_components (''/'' @ str_join ''/'' ws) = [] # ws"
proof -
  have "split_on (CHR ''/'') (str_join ''/'' ws) = ws"
    using assms by (intro split_on_join) (auto simp: list_all_iff plain_comp_def)
  moreover have "concat (map (split_on (CHR 0x5C)) ws) = ws"
    using assms(1) by (induction ws) (auto simp: plain_comp_def split_on_no_sep)
  ultimately show ?thesis by (simp add: slash_components_def)
qed

lemma uri_text_roundtrip:
  assumes "list_all plain_comp ws" and "valid_utf8 (''/'' @ str_join ''/'' ws)"
  shows "uri_to_path_text (path_text_to_uri (''/'' @ str_join ''/'' ws)) = Some (''/'' @ str_join ''/'' ws)"
proof (cases "ws = []")
  case True
  then show ?thesis
    using assms(2) by (simp add: path_text_to_uri_def slash_components_def uri_to_path_text_def strip_prefix_def
        starts_with_def valid_utf8_def)
next
  case False
  let ?t = "''/'' @ str_join ''/'' ws"
  have ne: "w \<noteq> []" if "w \<in> set ws" for w using assms(1) that by (auto simp: list_all_iff plain_comp_def)
  have "last ?t \<noteq> CHR ''/''"
  proof -
    have "?t = concat (map (\<lambda>w. ''/'' @ w) (butlast ws)) @ ''/'' @ last ws"
      using join_slashes [OF False] False by (metis (no_types, lifting) append_butlast_last_id concat.simps
          concat_append list.simps(8,9) map_append append_Nil2)
    then have "last ?t = last (last ws)" using ne [of "last ws"] False by (simp only: last_append) simp
    moreover have "CHR ''/'' \<notin> set (last ws)" "last ws \<noteq> []"
      using assms(1) False by (auto simp: list_all_iff plain_comp_def)
    ultimately show ?thesis by (metis last_in_set)
  qed
  then have "path_text_to_uri ?t =
      ''file://'' @ concat (map (\<lambda>w. if w = [] then [] else ''/'' @ uri_escape w) ws)"
    using slash_components_plain [OF assms(1) False] by (simp add: path_text_to_uri_def)
  moreover have "dropWhile (\<lambda>c. c \<noteq> CHR ''/'') (concat (map (\<lambda>w. if w = [] then [] else ''/'' @ uri_escape w) ws)) =
      concat (map (\<lambda>w. if w = [] then [] else ''/'' @ uri_escape w) ws)"
    using False ne by (cases ws) auto
  moreover have "concat (map (\<lambda>w. if w = [] then [] else ''/'' @ w) ws) = ?t"
    using join_slashes [OF False] ne by (simp cong: map_cong)
  ultimately show ?thesis
    using assms(2) by (simp only: uri_to_path_text_def strip_prefix_append valid_utf8_def)
      (simp add: percent_decode_comps del: append_Cons)
qed

section \<open>Lemmas: positions\<close>

definition utf16_len :: "string \<Rightarrow> nat" where
  "utf16_len s = sum_list (map len_utf16 (chars_of s))"

lemma len_utf16_pos: "0 < len_utf16 ch"
  by (simp add: len_utf16_def)

lemma utf16_scan_at:
  "utf16_scan (count + sum_list (map len_utf16 as)) count idx (as @ bs) =
   (if bs = [] then None else Some (idx + length (concat as)))"
proof (induction as arbitrary: count idx)
  case Nil
  then show ?case by (cases bs) auto
next
  case (Cons a as)
  then show ?case using len_utf16_pos [of a] Cons.IH [of "count + len_utf16 a" "idx + length a"]
    by (simp add: add.assoc)
qed

lemma utf16_offset_prefix:
  assumes "b = [] \<or> \<not> is_cont_byte (hd b)"
  shows "utf16_to_byte_offset (a @ b) (utf16_len a) = length a"
proof -
  have "chars_of b = [] \<longleftrightarrow> b = []" by (cases b) auto
  then show ?thesis
    using utf16_scan_at [of 0 "chars_of a" 0 "chars_of b"]
    by (simp add: utf16_to_byte_offset_def utf16_len_def chars_of_append [OF assms])
qed

lemma split_inclusive_whole_lines:
  assumes "a = [] \<or> last a = CHR 0x0A"
  shows "split_inclusive (a @ s) = split_inclusive a @ split_inclusive s"
    and "length (split_inclusive a) = count_list a (CHR 0x0A)"
proof -
  have "a = [] \<or> last a = CHR 0x0A \<Longrightarrow>
    split_inclusive (a @ s) = split_inclusive a @ split_inclusive s \<and>
    length (split_inclusive a) = count_list a (CHR 0x0A) \<and> (a \<noteq> [] \<longrightarrow> split_inclusive a \<noteq> [])"
    by (induction a) (auto split: list.splits if_splits)
  with assms show "split_inclusive (a @ s) = split_inclusive a @ split_inclusive s"
    "length (split_inclusive a) = count_list a (CHR 0x0A)" by blast+
qed

lemma split_inclusive_first:
  assumes "CHR 0x0A \<notin> set a" and "a @ b \<noteq> []"
  shows "\<exists>b1 b2 ts. b = b1 @ b2 \<and> split_inclusive (a @ b) = (a @ b1) # ts"
  using assms
proof (induction a)
  case Nil
  have "\<exists>b1 b2 ts. b = b1 @ b2 \<and> split_inclusive b = b1 # ts" if "b \<noteq> []"
    using that
  proof (induction b)
    case (Cons c cs)
    then show ?case by (cases "cs = []") (auto split: list.splits)
  qed simp
  with Nil show ?case by simp
next
  case (Cons c a)
  show ?case
  proof (cases "a @ b = []")
    case True
    with Cons.prems show ?thesis by auto
  next
    case False
    with Cons obtain b1 b2 ts where "b = b1 @ b2" "split_inclusive (a @ b) = (a @ b1) # ts" by auto
    with Cons.prems show ?thesis by auto
  qed
qed

lemma linecol_scan_skip:
  "linecol_scan (length ls + n) col off (ls @ ts) = linecol_scan n col (off + length (concat ls)) ts"
  by (induction ls arbitrary: off) (simp_all add: add.assoc)

lemma chars_of_later:
  "chars_of s = as @ b # bs \<Longrightarrow> as \<noteq> [] \<Longrightarrow> \<not> is_cont_byte (hd b)"
proof (induction s arbitrary: as rule: chars_of.induct)
  case (2 c cs)
  then obtain as' where as': "as = (c # takeWhile is_cont_byte cs) # as'"
    "chars_of (dropWhile is_cont_byte cs) = as' @ b # bs" by (cases as) auto
  show ?case
  proof (cases as')
    case Nil
    obtain y ys where y: "dropWhile is_cont_byte cs = y # ys"
      using as'(2) by (cases "dropWhile is_cont_byte cs") auto
    then have "\<not> is_cont_byte y" using hd_dropWhile [of is_cont_byte cs] by simp
    moreover have "hd b = y" using as'(2) unfolding y Nil by auto
    ultimately show ?thesis by simp
  next
    case (Cons x xs)
    then have "as' \<noteq> []" by simp
    with 2(1) [OF as'(2)] show ?thesis by blast
  qed
qed simp

lemma utf16_scan_cut:
  "\<exists>as bs. chs = as @ bs \<and>
     (case utf16_scan col count idx chs of Some i \<Rightarrow> i = idx + length (concat as) | None \<Rightarrow> bs = [])"
proof (induction chs arbitrary: count idx)
  case (Cons ch chs)
  obtain as bs where ab: "chs = as @ bs" "case utf16_scan col (count + len_utf16 ch) (idx + length ch) chs of
      Some i \<Rightarrow> i = idx + length ch + length (concat as) | None \<Rightarrow> bs = []"
    using Cons.IH [where count = "count + len_utf16 ch" and idx = "idx + length ch"] by (elim exE conjE) (rule that)
  consider "col \<le> count" | "count < col" "col < count + len_utf16 ch"
    | "count < col" "count + len_utf16 ch \<le> col"
    by linarith
  then show ?case
  proof cases
    case 1
    then show ?thesis by (intro exI [of _ "[]"] exI [of _ "ch # chs"]) simp
  next
    case 2
    then show ?thesis by (intro exI [of _ "[ch]"] exI [of _ chs]) simp
  next
    case 3
    with ab show ?thesis
      by (intro exI [of _ "ch # as"] exI [of _ bs]) (auto split: option.splits)
  qed
qed simp

text \<open>An offset inside a line is the end of some of its characters.\<close>

lemma utf16_offset_cut:
  obtains a b where "t = a @ b" "utf16_to_byte_offset t col = length a"
    "a = [] \<or> b = [] \<or> \<not> is_cont_byte (hd b)"
proof -
  obtain as bs where ab: "chars_of t = as @ bs" "case utf16_scan col 0 0 (chars_of t) of
      Some i \<Rightarrow> i = 0 + length (concat as) | None \<Rightarrow> bs = []"
    using utf16_scan_cut [where chs = "chars_of t" and col = col and count = 0 and idx = 0]
    by (elim exE conjE) (rule that)
  have t: "t = concat as @ concat bs" using concat_chars_of [of t] ab(1) by simp
  have "utf16_to_byte_offset t col = length (concat as)"
    using ab(2) t by (auto simp: utf16_to_byte_offset_def split: option.splits)
  moreover have "concat as = [] \<or> concat bs = [] \<or> \<not> is_cont_byte (hd (concat bs))"
  proof (cases bs)
    case (Cons b bs')
    then have "b \<noteq> []" using chars_of_ne [of b t] ab(1) by simp
    with Cons ab(1) chars_of_later [of t as b bs'] show ?thesis by (cases "as = []") auto
  qed simp
  ultimately show thesis using t that by blast
qed

lemma utf16_offset_le: "utf16_to_byte_offset t col \<le> length t"
  by (rule utf16_offset_cut [of t col]) simp

text \<open>A line of the text is whole characters; so every position is a boundary.\<close>

lemma split_inclusive_step:
  "s \<noteq> [] \<Longrightarrow> \<exists>u v. s = u @ v \<and> split_inclusive s = u # split_inclusive v \<and> u \<noteq> [] \<and>
     (v = [] \<or> last u = CHR 0x0A)"
proof (induction s)
  case (Cons c cs)
  show ?case
  proof (cases "c = CHR 0x0A \<or> cs = []")
    case True
    then show ?thesis by (intro exI [of _ "[c]"] exI [of _ cs]) auto
  next
    case False
    with Cons obtain u v where "cs = u @ v" "split_inclusive cs = u # split_inclusive v" "u \<noteq> []"
      "v = [] \<or> last u = CHR 0x0A" by blast
    with False show ?thesis by (intro exI [of _ "c # u"] exI [of _ v]) auto
  qed
qed simp

lemma linecol_scan_cut:
  assumes "valid_utf8 s"
  shows "\<exists>i. linecol_scan line col off (split_inclusive s) = off + i \<and> is_char_boundary s i \<and> i \<le> length s"
  using assms
proof (induction "length s" arbitrary: s line off rule: less_induct)
  case less
  show ?case
  proof (cases "s = []")
    case True
    then show ?thesis by (simp add: is_char_boundary_def)
  next
    case False
    from split_inclusive_step [OF this] obtain u v where
      s: "s = u @ v" "split_inclusive s = u # split_inclusive v" "u \<noteq> []" "v = [] \<or> last u = CHR 0x0A"
      by blast
    have v: "valid_utf8 v"
    proof (cases "v = []")
      case True
      then show ?thesis by (simp add: valid_utf8_def from_utf8_lossy.simps)
    next
      case False
      with s have "s = butlast u @ CHR 0x0A # v" by (metis append_butlast_last_id append.assoc append_Cons append_Nil)
      with less.prems show ?thesis using valid_utf8_after_ascii by simp
    qed
    have vhd: "v = [] \<or> \<not> is_cont_byte (hd v)" by (rule valid_utf8_start [OF v])
    show ?thesis
    proof (cases line)
      case 0
      obtain a b where ab: "u = a @ b" "utf16_to_byte_offset u col = length a"
        "a = [] \<or> b = [] \<or> \<not> is_cont_byte (hd b)"
        by (rule utf16_offset_cut [of u col])
      have "is_char_boundary s (length a)"
        using ab(1,3) s(1) vhd
        by (cases b; cases v) (auto simp: is_char_boundary_def nth_append)
      with 0 s ab show ?thesis by (intro exI [of _ "length a"]) simp
    next
      case (Suc n)
      from less.hyps [of v n "off + length u"] s(1,3) v obtain i where
        i: "linecol_scan n col (off + length u) (split_inclusive v) = off + length u + i"
          "is_char_boundary v i" "i \<le> length v" by auto
      have "is_char_boundary s (length u + i)"
        using i(2,3) s(1) vhd by (cases v) (auto simp: is_char_boundary_def nth_append hd_conv_nth)
      with Suc s i show ?thesis by (intro exI [of _ "length u + i"]) simp
    qed
  qed
qed

lemma linecol_boundary:
  assumes "valid_utf8 s"
  shows "is_char_boundary s (linecol_to_byte s line col)" and "linecol_to_byte s line col \<le> length s"
  using linecol_scan_cut [OF assms, of line col 0] by (auto simp: linecol_to_byte_def)

lemma position_before:
  assumes "before = [] \<or> last before = CHR 0x0A" and "CHR 0x0A \<notin> set pre"
    and "post = [] \<or> \<not> is_cont_byte (hd post)"
  shows "linecol_to_byte (before @ pre @ post) (count_list before (CHR 0x0A)) (utf16_len pre) =
    length before + length pre"
proof -
  note lines = split_inclusive_whole_lines [OF assms(1)]
  have "linecol_to_byte (before @ pre @ post) (count_list before (CHR 0x0A)) (utf16_len pre) =
      linecol_scan 0 (utf16_len pre) (length before) (split_inclusive (pre @ post))"
    using linecol_scan_skip [of "split_inclusive before" 0 "utf16_len pre" 0 "split_inclusive (pre @ post)"] lines
    by (simp add: linecol_to_byte_def split_inclusive_concat)
  also have "\<dots> = length before + length pre"
  proof (cases "pre @ post = []")
    case False
    from split_inclusive_first [OF assms(2) False] obtain b1 b2 ts where
      b: "post = b1 @ b2" "split_inclusive (pre @ post) = (pre @ b1) # ts" by blast
    have "b1 = [] \<or> \<not> is_cont_byte (hd b1)" using assms(3) b(1) by (cases b1) auto
    from utf16_offset_prefix [OF this] b(2) show ?thesis by simp
  qed simp
  finally show ?thesis .
qed

section \<open>Properties\<close>

text \<open>
  C29. What the bridge writes is what the other side reads. Any sequence of messages
  (not empty, at most 10 MiB, valid UTF-8) written with \<open>frame_message\<close> one after the other
  is delivered by \<open>read_frame\<close> as the same sequence, message by message; nothing is lost,
  merged or split, however the stream ends afterwards.
\<close>

theorem frames_read_back:
  assumes "list_all frameable bodies"
  shows "frames_of label \<lparr>rd_bytes = concat (map frame_message bodies), rd_broken = e\<rparr> = bodies"
  using assms
proof (induction bodies)
  case Nil
  have "read_frame label \<lparr>rd_bytes = [], rd_broken = e\<rparr> = (case e of
      None \<Rightarrow> (Ok None, \<lparr>rd_bytes = [], rd_broken = e\<rparr>) | Some x \<Rightarrow> (Err x, \<lparr>rd_bytes = [], rd_broken = e\<rparr>))"
    by (cases e) (simp_all add: read_frame_def read_header.simps read_byte_def)
  then show ?case by (subst frames_of.simps) (cases e; simp)
next
  case (Cons body bodies)
  have "read_frame label \<lparr>rd_bytes = frame_message body @ concat (map frame_message bodies), rd_broken = e\<rparr> =
      (Ok (Some body), \<lparr>rd_bytes = concat (map frame_message bodies), rd_broken = e\<rparr>)"
    using read_frame_message [of body "\<lparr>rd_bytes = frame_message body @ concat (map frame_message bodies), rd_broken = e\<rparr>"
        "concat (map frame_message bodies)" label] Cons.prems by simp
  then show ?case using Cons by (subst frames_of.simps) simp
qed

theorem frames_read_back_witness:
  "let bodies = [''{}'', ''[1]''] in
   list_all frameable bodies \<and>
   frames_of ''lsp'' \<lparr>rd_bytes = concat (map frame_message bodies), rd_broken = None\<rparr> = bodies"
proof -
  have f: "list_all frameable [''{}'', ''[1]'']"
    by (simp add: frameable_def MAX_FRAME_BYTES_def valid_utf8_def lossy_ascii)
  show ?thesis unfolding Let_def using frames_read_back [OF f, of "''lsp''" None] f by blast
qed

text \<open>
  Server positions are resolved exactly. In valid UTF-8 text every LSP position (line,
  UTF-16 column), also one past the end of its line or of the text, resolves to a byte offset
  inside the text that is a character boundary, so slicing there cannot panic; and the position
  of a place in the text, given by the lines before it and the UTF-16 length of the part of its
  line before it, resolves to exactly the byte offset of that place.
\<close>

lemma position_exact:
  assumes "valid_utf8 source" and "source = before @ pre @ post"
    and "before = [] \<or> last before = CHR 0x0A" and "CHR 0x0A \<notin> set pre"
    and "post = [] \<or> \<not> is_cont_byte (hd post)"
  shows "linecol_to_byte source (count_list before (CHR 0x0A)) (utf16_len pre) = length (before @ pre) \<and>
    (\<forall>line col. is_char_boundary source (linecol_to_byte source line col) \<and>
                linecol_to_byte source line col \<le> length source)"
  using position_before [OF assms(3-5)] linecol_boundary [OF assms(1)] assms(2) by simp

text \<open>An emoji before the place counts two columns and four bytes.\<close>

lemma position_exact_witness:
  "let emoji = [CHR 0xF0, CHR 0x9F, CHR 0x98, CHR 0x80]; before = ''let a;'' @ [CHR 0x0A]; pre = emoji @ ''x'' in
   utf16_len pre = 3 \<and> linecol_to_byte (before @ pre @ ''yz'') 1 3 = 12"
proof -
  let ?pre = "[CHR 0xF0, CHR 0x9F, CHR 0x98, CHR 0x80] @ ''x''" and ?before = "''let a;'' @ [CHR 0x0A]"
  have v: "valid_utf8 (?before @ ?pre @ ''yz'')" by code_simp
  have u: "utf16_len ?pre = 3" "count_list ?before (CHR 0x0A) = 1" by code_simp+
  have "linecol_to_byte (?before @ ?pre @ ''yz'') (count_list ?before (CHR 0x0A)) (utf16_len ?pre) =
      length (?before @ ?pre)"
    using position_exact [OF v refl, of] by (simp add: is_cont_byte_def)
  then show ?thesis unfolding Let_def u by simp
qed

end
