(* ===== verification/Lsp_Ops.thy ===== *)
theory Lsp_Ops
  imports Lsp_Text Fs_Ops
begin

text \<open>
  \<open>daemon-core/src/lsp_ops.rs\<close>: the language-server bridge. A pooled server is its state in the
  daemon (record \<open>lsp_server\<close>); the child process is a parameter: whether it can be spawned and
  written to, and what it delivers while the daemon waits. The JSON parser and printer are
  parameters. The rename engine works on the disk of \<open>Host_Fs\<close>; a panic is the outcome \<open>None\<close>.
\<close>

section \<open>Server selection\<close>

definition lsp_language_for :: "string \<Rightarrow> (string \<times> string \<times> string list) option" where
  "lsp_language_for extension =
     (let ext = to_ascii_lowercase extension in
      if ext = ''rs'' then Some (''rust'', ''rust-analyzer'', [])
      else if ext \<in> {''ts'', ''tsx'', ''jsx'', ''mjs'', ''cjs''}
      then Some (''typescript'', ''typescript-language-server'', [''--stdio''])
      else if ext = ''js'' then Some (''javascript'', ''typescript-language-server'', [''--stdio''])
      else if ext = ''py'' then Some (''python'', ''pyright-langserver'', [''--stdio''])
      else if ext = ''go'' then Some (''go'', ''gopls'', [])
      else if ext \<in> {''c'', ''h''} then Some (''c'', ''clangd'', [])
      else if ext \<in> {''cc'', ''cpp'', ''cxx'', ''hpp'', ''hh''} then Some (''cpp'', ''clangd'', [])
      else None)"

text \<open>\<open>Path::extension\<close>: what follows the last dot of the last name, unless that dot is its first byte.\<close>

definition path_extension :: "path \<Rightarrow> string option" where
  "path_extension p =
     (if p = [] then None
      else (case last p of
              Normal name \<Rightarrow>
                (let e = takeWhile (\<lambda>c. c \<noteq> CHR ''.'') (rev name);
                     r = dropWhile (\<lambda>c. c \<noteq> CHR ''.'') (rev name)
                 in if r = [] \<or> tl r = [] then None else Some (rev e))
            | _ \<Rightarrow> None))"

definition path_to_uri :: "path \<Rightarrow> string" where
  "path_to_uri p = path_text_to_uri (path_display p)"

definition uri_to_path :: "string \<Rightarrow> path option" where
  "uri_to_path uri = map_option path_components (uri_to_path_text uri)"

section \<open>Pooled servers\<close>

record lsp_server =
  sv_program :: string
  sv_language :: string
  sv_pending :: "nat list"
  sv_diagnostics :: "(string \<times> json list) list"
  sv_opened :: "string list"
  sv_next_id :: nat
  sv_written :: bytes

record lsp_env =
  lx_parse :: "string \<Rightarrow> json option"
  lx_text :: "json \<Rightarrow> string"
  lx_spawn :: "string \<Rightarrow> path \<Rightarrow> io_error option"
  lx_write :: "lsp_server \<Rightarrow> io_error option"
  lx_deliver :: "lsp_server \<Rightarrow> string list"
  lx_polls :: "lsp_server \<Rightarrow> string list list"
  lx_pid :: nat

type_synonym 'a srv_res = "(daemon_error, 'a) res \<times> lsp_server"

definition srv_then :: "'a srv_res \<Rightarrow> ('a \<Rightarrow> lsp_server \<Rightarrow> 'b srv_res) \<Rightarrow> 'b srv_res" where
  "srv_then r k = (case r of (Inl e, st) \<Rightarrow> (Err e, st) | (Inr a, st) \<Rightarrow> k a st)"

lemma srv_then_simps [simp, result_simps]:
  "srv_then (Inl e, st) k = (Inl e, st)"
  "srv_then (Inr a, st) k = k a st"
  by (simp_all add: srv_then_def)

definition new_server :: "string \<Rightarrow> string \<Rightarrow> lsp_server" where
  "new_server program language =
     \<lparr>sv_program = program, sv_language = language, sv_pending = [], sv_diagnostics = [],
      sv_opened = [], sv_next_id = 1, sv_written = []\<rparr>"

definition send_raw :: "lsp_env \<Rightarrow> lsp_server \<Rightarrow> json \<Rightarrow> unit srv_res" where
  "send_raw env st msg =
     (case lx_write env st of
        Some e \<Rightarrow> (Err (Protocol (''lsp stdin: '' @ io_display e)), st)
      | None \<Rightarrow> (Ok (), st\<lparr>sv_written := sv_written st @ frame_message (lx_text env msg)\<rparr>))"

definition rpc_notification :: "string \<Rightarrow> json \<Rightarrow> json" where
  "rpc_notification meth params =
     JObj [(''jsonrpc'', JStr ''2.0''), (''method'', JStr meth), (''params'', params)]"

definition rpc_request :: "nat \<Rightarrow> string \<Rightarrow> json \<Rightarrow> json" where
  "rpc_request i meth params =
     JObj [(''id'', JInt (int i)), (''jsonrpc'', JStr ''2.0''), (''method'', JStr meth), (''params'', params)]"

definition notify :: "lsp_env \<Rightarrow> lsp_server \<Rightarrow> string \<Rightarrow> json \<Rightarrow> unit srv_res" where
  "notify env st meth params = send_raw env st (rpc_notification meth params)"

definition request_msg :: "lsp_env \<Rightarrow> lsp_server \<Rightarrow> nat \<Rightarrow> string \<Rightarrow> json \<Rightarrow> unit srv_res" where
  "request_msg env st i meth params = send_raw env st (rpc_request i meth params)"

fun json_path :: "json \<Rightarrow> string list \<Rightarrow> json option" where
  "json_path v [] = Some v"
| "json_path v (k # ks) = (case json_get v k of None \<Rightarrow> None | Some w \<Rightarrow> json_path w ks)"

text \<open>
  One message in the reader task: a known id goes to its waiter, which is returned; diagnostics
  are kept under their URI; anything else is dropped.
\<close>

definition reader_message :: "lsp_server \<Rightarrow> json \<Rightarrow> lsp_server \<times> (nat \<times> json) option" where
  "reader_message st msg =
     (case Option.bind (json_get msg ''id'') as_u64 of
        Some i \<Rightarrow>
          if i \<in> set (sv_pending st)
          then (st\<lparr>sv_pending := filter (\<lambda>j. j \<noteq> i) (sv_pending st)\<rparr>, Some (i, msg))
          else (st, None)
      | None \<Rightarrow>
          if Option.bind (json_get msg ''method'') as_str = Some ''textDocument/publishDiagnostics''
          then (case Option.bind (json_path msg [''params'', ''uri'']) as_str of
                  Some uri \<Rightarrow>
                    (let diags = (case Option.bind (json_path msg [''params'', ''diagnostics'']) as_array of
                                    Some l \<Rightarrow> l | None \<Rightarrow> []) in
                     (st\<lparr>sv_diagnostics := assoc_insert uri diags (sv_diagnostics st)\<rparr>, None))
                | None \<Rightarrow> (st, None))
          else (st, None))"

text \<open>Waiting for the reply to \<open>i\<close> while the reader handles the bodies that arrive; then the time-out.\<close>

fun await_reply :: "lsp_env \<Rightarrow> lsp_server \<Rightarrow> nat \<Rightarrow> string list \<Rightarrow> json option \<times> lsp_server" where
  "await_reply env st i [] = (None, st)"
| "await_reply env st i (b # bs) =
     (case lx_parse env b of
        None \<Rightarrow> await_reply env st i bs
      | Some msg \<Rightarrow>
          (case reader_message st msg of
             (st1, Some (j, m)) \<Rightarrow> if j = i then (Some m, st1) else await_reply env st1 i bs
           | (st1, None) \<Rightarrow> await_reply env st1 i bs))"

definition init_params :: "lsp_env \<Rightarrow> path \<Rightarrow> json" where
  "init_params env root =
     JObj [(''capabilities'', JObj []), (''processId'', JInt (int (lx_pid env))),
           (''rootUri'', JStr (path_to_uri root))]"

definition initialize :: "lsp_env \<Rightarrow> lsp_server \<Rightarrow> path \<Rightarrow> unit srv_res" where
  "initialize env st root =
     (let i = sv_next_id st;
          st1 = st\<lparr>sv_next_id := i + 1, sv_pending := i # sv_pending st\<rparr> in
      srv_then (request_msg env st1 i ''initialize'' (init_params env root)) (\<lambda>_ st2.
        case await_reply env st2 i (lx_deliver env st2) of
          (None, st3) \<Rightarrow> (Err (Protocol ''lsp initialize: timed out''), st3)
        | (Some reply, st3) \<Rightarrow>
            (case json_get reply ''error'' of
               Some err \<Rightarrow> (Err (Protocol (''lsp initialize error: '' @ lx_text env err)), st3)
             | None \<Rightarrow> notify env st3 ''initialized'' (JObj []))))"

definition do_request :: "lsp_env \<Rightarrow> lsp_server \<Rightarrow> string \<Rightarrow> json \<Rightarrow> json srv_res" where
  "do_request env st meth params =
     (let i = sv_next_id st;
          st1 = st\<lparr>sv_next_id := i + 1, sv_pending := i # sv_pending st\<rparr> in
      case request_msg env st1 i meth params of
        (Inl e, st2) \<Rightarrow> (Err e, st2\<lparr>sv_pending := filter (\<lambda>j. j \<noteq> i) (sv_pending st2)\<rparr>)
      | (Inr _, st2) \<Rightarrow>
          (case await_reply env st2 i (lx_deliver env st2) of
             (Some reply, st3) \<Rightarrow>
               (case json_get reply ''error'' of
                  Some err \<Rightarrow> (Err (Protocol (''lsp '' @ meth @ '' error: '' @ lx_text env err)), st3)
                | None \<Rightarrow> (Ok (case json_get reply ''result'' of Some v \<Rightarrow> v | None \<Rightarrow> JNull), st3))
           | (None, st3) \<Rightarrow>
               (Err (Protocol (''lsp '' @ meth @ '': timed out'')),
                st3\<lparr>sv_pending := filter (\<lambda>j. j \<noteq> i) (sv_pending st3)\<rparr>)))"

section \<open>The engine\<close>

record lsp_file_request =
  lf_path :: path
  lf_workspace :: "path option"

record lsp_position_request =
  lp_path :: path
  lp_line :: nat
  lp_character :: nat
  lp_workspace :: "path option"

record lsp_rename_request =
  ln_path :: path
  ln_line :: nat
  ln_character :: nat
  ln_new_name :: string
  ln_workspace :: "path option"

record lsp_diagnostics_result =
  ld_language :: string
  ld_server :: string
  ld_uri :: string
  ld_diagnostics :: "json list"

record lsp_hover_result =
  lh_language :: string
  lh_server :: string
  lh_hover :: "json option"

record lsp_definition_result =
  lo_language :: string
  lo_server :: string
  lo_locations :: "json list"

record lsp_rename_result =
  lr_language :: string
  lr_server :: string
  lr_files_changed :: nat
  lr_edits_applied :: nat

record lsp_engine =
  en_gate :: capability_gate
  en_servers :: "((string \<times> string) \<times> lsp_server) list"

type_synonym 'a engine_res = "(daemon_error, 'a) res \<times> lsp_engine"

definition ensure_gate_path :: "capability_gate \<Rightarrow> string \<Rightarrow> path \<Rightarrow> (daemon_error, unit) res" where
  "ensure_gate_path g cap p =
     (case check_path g cap p of
        Allow \<Rightarrow> Ok ()
      | RequireConsent \<Rightarrow> Err (CapabilityDenied (cap @ '' requires consent for '' @ path_display p))
      | Deny \<Rightarrow> Err (CapabilityDenied cap))"

definition spawn_server :: "lsp_env \<Rightarrow> path \<Rightarrow> string \<Rightarrow> string \<Rightarrow> (daemon_error, lsp_server) res" where
  "spawn_server env root language program =
     (case lx_spawn env program root of
        None \<Rightarrow> Ok (new_server program language)
      | Some NotFound \<Rightarrow>
          Err (Protocol (''lsp: server '' @ [CHR 0x27] @ program @ [CHR 0x27] @ '' not found in PATH for '' @
                 language @ ''; install it to enable LSP features''))
      | Some e \<Rightarrow> Err (Io e))"

definition no_server_for :: "string \<Rightarrow> daemon_error" where
  "no_server_for ext =
     Protocol (''lsp: no language server configured for '' @ [CHR 0x27] @ ext @ [CHR 0x27] @
       '' (supported: rs, ts/tsx, js, py, go, c/cpp)'')"

definition read_to_string :: "host_fs \<Rightarrow> path \<Rightarrow> (daemon_error, string) res" where
  "read_to_string fs p =
     io_try (fs_read fs p) (\<lambda>b. if valid_utf8 b then Ok b
       else Err (Io (OtherIo ''stream did not contain valid UTF-8'')))"

text \<open>The server of the request, spawned on first use: its key in the pool, its state, the pool.\<close>

definition pool_server ::
    "lsp_env \<Rightarrow> lsp_engine \<Rightarrow> path \<Rightarrow> string \<Rightarrow> string \<Rightarrow>
     (daemon_error, lsp_server \<times> lsp_engine) res" where
  "pool_server env en root language program =
     (case map_of (en_servers en) (language, path_display root) of
        Some st \<Rightarrow> Ok (st, en)
      | None \<Rightarrow> try_bind (spawn_server env root language program) (\<lambda>st.
          Ok (st, en\<lparr>en_servers := assoc_insert (language, path_display root) st (en_servers en)\<rparr>)))"

definition open_file :: "lsp_env \<Rightarrow> lsp_server \<Rightarrow> path \<Rightarrow> string \<Rightarrow> string \<Rightarrow> string \<Rightarrow> unit srv_res" where
  "open_file env st root language uri source =
     (if uri \<in> set (sv_opened st) then (Ok (), st)
      else
        srv_then (initialize env (st\<lparr>sv_opened := uri # sv_opened st\<rparr>) root) (\<lambda>_ st1.
          notify env st1 ''textDocument/didOpen''
            (JObj [(''textDocument'', JObj [(''languageId'', JStr language), (''text'', JStr source),
               (''uri'', JStr uri), (''version'', JInt 1)])])))"

definition put_server :: "lsp_engine \<Rightarrow> string \<Rightarrow> path \<Rightarrow> lsp_server \<Rightarrow> lsp_engine" where
  "put_server en language root st =
     en\<lparr>en_servers := assoc_insert (language, path_display root) st (en_servers en)\<rparr>"

definition request_root :: "path \<Rightarrow> path option \<Rightarrow> path" where
  "request_root p workspace =
     (case workspace of Some w \<Rightarrow> w | None \<Rightarrow> (case path_parent p of Some d \<Rightarrow> d | None \<Rightarrow> []))"

text \<open>
  The server made ready for the file: its language, root, state and the file's URI. A server
  once spawned stays in the pool, whatever fails afterwards.
\<close>

definition prepare ::
    "lsp_env \<Rightarrow> host_fs \<Rightarrow> lsp_engine \<Rightarrow> path \<Rightarrow> path option \<Rightarrow>
     (string \<times> path \<times> lsp_server \<times> string) engine_res" where
  "prepare env fs en p workspace =
     (let ext = (case path_extension p of Some e \<Rightarrow> e | None \<Rightarrow> []) in
      case lsp_language_for ext of
        None \<Rightarrow> (Err (no_server_for ext), en)
      | Some (language, program, args) \<Rightarrow>
          let root = request_root p workspace in
          (case pool_server env en root language program of
             Inl e \<Rightarrow> (Err e, en)
           | Inr (st, en1) \<Rightarrow>
               let uri = path_to_uri p in
               (case read_to_string fs p of
                  Inl e \<Rightarrow> (Err e, en1)
                | Inr source \<Rightarrow>
                    (case open_file env st root language uri source of
                       (Inl e, st1) \<Rightarrow> (Err e, put_server en1 language root st1)
                     | (Inr _, st1) \<Rightarrow> (Ok (language, root, st1, uri), put_server en1 language root st1)))))"

text \<open>A gated request on a prepared server; the server's new state goes back to the pool.\<close>

definition on_server ::
    "lsp_env \<Rightarrow> host_fs \<Rightarrow> lsp_engine \<Rightarrow> string \<Rightarrow> path \<Rightarrow> path option \<Rightarrow>
     (lsp_server \<Rightarrow> string \<Rightarrow> 'a srv_res) \<Rightarrow> 'a engine_res" where
  "on_server env fs en cap p workspace k =
     (case ensure_gate_path (en_gate en) cap p of
        Inl e \<Rightarrow> (Err e, en)
      | Inr _ \<Rightarrow>
          (case prepare env fs en p workspace of
             (Inl e, en1) \<Rightarrow> (Err e, en1)
           | (Inr (language, root, st, uri), en1) \<Rightarrow>
               (case k st uri of (r, st1) \<Rightarrow> (r, put_server en1 language root st1))))"

fun deliver_all :: "lsp_env \<Rightarrow> lsp_server \<Rightarrow> string list \<Rightarrow> lsp_server" where
  "deliver_all env st [] = st"
| "deliver_all env st (b # bs) =
     deliver_all env (case lx_parse env b of None \<Rightarrow> st | Some msg \<Rightarrow> fst (reader_message st msg)) bs"

text \<open>The polling loop: look, sleep while bodies arrive, look again, until the deadline.\<close>

fun poll_diagnostics :: "lsp_env \<Rightarrow> lsp_server \<Rightarrow> string \<Rightarrow> string list list \<Rightarrow> json list \<times> lsp_server" where
  "poll_diagnostics env st uri [] =
     ((case map_of (sv_diagnostics st) uri of Some l \<Rightarrow> l | None \<Rightarrow> []), st)"
| "poll_diagnostics env st uri (bs # later) =
     (case map_of (sv_diagnostics st) uri of
        Some l \<Rightarrow> (l, st)
      | None \<Rightarrow> poll_diagnostics env (deliver_all env st bs) uri later)"

definition lsp_diagnostics ::
    "lsp_env \<Rightarrow> host_fs \<Rightarrow> lsp_engine \<Rightarrow> lsp_file_request \<Rightarrow> lsp_diagnostics_result engine_res" where
  "lsp_diagnostics env fs en req =
     on_server env fs en ''desktop.fs.read'' (lf_path req) (lf_workspace req) (\<lambda>st uri.
       case poll_diagnostics env st uri (lx_polls env st) of
         (l, st1) \<Rightarrow> (Ok \<lparr>ld_language = sv_language st, ld_server = sv_program st, ld_uri = uri,
                        ld_diagnostics = l\<rparr>, st1))"

definition position_params :: "string \<Rightarrow> nat \<Rightarrow> nat \<Rightarrow> (string \<times> json) list" where
  "position_params uri line character =
     [(''position'', JObj [(''character'', JInt (int character)), (''line'', JInt (int (line - 1)))]),
      (''textDocument'', JObj [(''uri'', JStr uri)])]"

definition lsp_hover ::
    "lsp_env \<Rightarrow> host_fs \<Rightarrow> lsp_engine \<Rightarrow> lsp_position_request \<Rightarrow> lsp_hover_result engine_res" where
  "lsp_hover env fs en req =
     on_server env fs en ''desktop.fs.read'' (lp_path req) (lp_workspace req) (\<lambda>st uri.
       srv_then (do_request env st ''textDocument/hover''
           (JObj (position_params uri (lp_line req) (lp_character req)))) (\<lambda>hover st1.
         (Ok \<lparr>lh_language = sv_language st, lh_server = sv_program st,
              lh_hover = (if hover \<noteq> JNull then Some hover else None)\<rparr>, st1)))"

fun definition_locations :: "json \<Rightarrow> json list" where
  "definition_locations JNull = []"
| "definition_locations (JArr l) = l"
| "definition_locations v = [v]"

definition lsp_definition ::
    "lsp_env \<Rightarrow> host_fs \<Rightarrow> lsp_engine \<Rightarrow> lsp_position_request \<Rightarrow> lsp_definition_result engine_res" where
  "lsp_definition env fs en req =
     on_server env fs en ''desktop.fs.read'' (lp_path req) (lp_workspace req) (\<lambda>st uri.
       srv_then (do_request env st ''textDocument/definition''
           (JObj (position_params uri (lp_line req) (lp_character req)))) (\<lambda>def st1.
         (Ok \<lparr>lo_language = sv_language st, lo_server = sv_program st,
              lo_locations = definition_locations def\<rparr>, st1)))"

section \<open>Applying a workspace edit\<close>

text \<open>Both shapes: \<open>changes\<close> maps URIs to edits, \<open>documentChanges\<close> is a list.\<close>

definition changes_targets :: "json \<Rightarrow> (string \<times> json list) list" where
  "changes_targets edit =
     (case json_get edit ''changes'' of
        Some (JObj ms) \<Rightarrow> List.map_filter (\<lambda>(uri, v). map_option (Pair uri) (as_array v)) ms
      | _ \<Rightarrow> [])"

definition document_target :: "json \<Rightarrow> (string \<times> json list) option" where
  "document_target d =
     (case (Option.bind (json_path d [''textDocument'', ''uri'']) as_str,
            Option.bind (json_get d ''edits'') as_array) of
        (Some uri, Some edits) \<Rightarrow> Some (uri, edits)
      | _ \<Rightarrow> None)"

definition workspace_edit_targets :: "json \<Rightarrow> (string \<times> json list) list" where
  "workspace_edit_targets edit =
     changes_targets edit @
     (case Option.bind (json_get edit ''documentChanges'') as_array of
        Some docs \<Rightarrow> List.map_filter document_target docs
      | None \<Rightarrow> [])"

type_synonym text_range = "nat \<times> nat \<times> string"
type_synonym file_edit = "path \<times> string \<times> text_range list"

definition position_field :: "json \<Rightarrow> string \<Rightarrow> string \<Rightarrow> nat" where
  "position_field e edge field =
     (case Option.bind (json_path e [''range'', edge, field]) as_u64 of Some n \<Rightarrow> n | None \<Rightarrow> 0)"

definition text_range_of :: "string \<Rightarrow> json \<Rightarrow> text_range" where
  "text_range_of source e =
     (linecol_to_byte source (position_field e ''start'' ''line'') (position_field e ''start'' ''character''),
      linecol_to_byte source (position_field e ''end'' ''line'') (position_field e ''end'' ''character''),
      (case Option.bind (json_get e ''newText'') as_str of Some s \<Rightarrow> s | None \<Rightarrow> []))"

fun plan_ranges :: "string \<Rightarrow> string \<Rightarrow> json list \<Rightarrow> (daemon_error, text_range list) res" where
  "plan_ranges uri source [] = Ok []"
| "plan_ranges uri source (e # es) =
     (case text_range_of source e of
        (s, t, new_text) \<Rightarrow>
          if s > t \<or> t > length source
          then Err (Protocol (''lsp rename: invalid range '' @ nat_to_string s @ ''..'' @ nat_to_string t @
                 '' in '' @ uri))
          else try_bind (plan_ranges uri source es) (\<lambda>rs. Ok ((s, t, new_text) # rs)))"

fun plan_files :: "capability_gate \<Rightarrow> host_fs \<Rightarrow> (string \<times> json list) list \<Rightarrow> (daemon_error, file_edit list) res" where
  "plan_files g fs [] = Ok []"
| "plan_files g fs ((uri, edits) # ts) =
     (case uri_to_path uri of
        None \<Rightarrow> Err (Protocol (''lsp rename: unsupported uri '' @ uri))
      | Some p \<Rightarrow>
          try_bind (ensure_gate_path g ''desktop.fs.write'' p) (\<lambda>_.
          try_bind (read_to_string fs p) (\<lambda>source.
          try_bind (plan_ranges uri source edits) (\<lambda>rs.
          try_bind (plan_files g fs ts) (\<lambda>files. Ok ((p, source, rs) # files))))))"

text \<open>The overlap check: by start and end, and neighbours compared.\<close>

fun neighbours_overlap :: "text_range list \<Rightarrow> bool" where
  "neighbours_overlap ((s, e, t) # (s', e', t') # rs) = (s' < e \<or> neighbours_overlap ((s', e', t') # rs))"
| "neighbours_overlap _ = False"

definition overlapping :: "text_range list \<Rightarrow> bool" where
  "overlapping rs = neighbours_overlap (sort_key (\<lambda>(s, e, t). (s, e)) rs)"

text \<open>\<open>String::replace_range\<close> panics off a character boundary or outside the text.\<close>

definition replace_range :: "nat \<Rightarrow> nat \<Rightarrow> string \<Rightarrow> string \<Rightarrow> string option" where
  "replace_range i j rep s =
     (if i \<le> j \<and> j \<le> length s \<and> is_char_boundary s i \<and> is_char_boundary s j
      then Some (splice i j rep s) else None)"

fun replace_ranges :: "text_range list \<Rightarrow> string \<Rightarrow> string option" where
  "replace_ranges [] s = Some s"
| "replace_ranges ((i, j, rep) # rs) s =
     (case replace_range i j rep s of None \<Rightarrow> None | Some s' \<Rightarrow> replace_ranges rs s')"

definition edited_text :: "string \<Rightarrow> text_range list \<Rightarrow> string option" where
  "edited_text source rs = replace_ranges (rev (sort_key fst rs)) source"

definition replace_file :: "host_fs \<Rightarrow> path \<Rightarrow> string \<Rightarrow> unit fs_res" where
  "replace_file fs p out =
     (let tmp = with_extension p ''synthhires-tmp'' in
      fs_step (fs_write_left fs tmp out) (fs_write fs tmp out) (\<lambda>fs1.
        case fs_rename fs1 tmp p of
          Inl e \<Rightarrow> (Err (Io e), (case fs_remove_file fs1 tmp of Inr fs2 \<Rightarrow> fs2 | Inl _ \<Rightarrow> fs1))
        | Inr fs2 \<Rightarrow>
            (case fs_read fs2 p of
               Inl e \<Rightarrow> (Err (Io e), fs2)
             | Inr written \<Rightarrow>
                 if written \<noteq> out then (Err (Protocol ''lsp rename: read-back verification failed''), fs2)
                 else (Ok (), fs2))))"

text \<open>An outcome may be a panic, \<open>None\<close>; the files written before it stay written.\<close>

fun write_files :: "host_fs \<Rightarrow> file_edit list \<Rightarrow> nat \<Rightarrow> (daemon_error, nat) res option \<times> host_fs" where
  "write_files fs [] n = (Some (Ok n), fs)"
| "write_files fs ((p, source, rs) # files) n =
     (case edited_text source rs of
        None \<Rightarrow> (None, fs)
      | Some out \<Rightarrow>
          (case replace_file fs p out of
             (Inl e, fs1) \<Rightarrow> (Some (Err e), fs1)
           | (Inr _, fs1) \<Rightarrow> write_files fs1 files (n + 1)))"

definition apply_workspace_edit ::
    "capability_gate \<Rightarrow> host_fs \<Rightarrow> json \<Rightarrow> (daemon_error, nat \<times> nat) res option \<times> host_fs" where
  "apply_workspace_edit g fs edit =
     (let targets = workspace_edit_targets edit in
      if targets = [] then (Some (Err (Protocol ''lsp rename: empty WorkspaceEdit'')), fs)
      else
        (case plan_files g fs targets of
           Inl e \<Rightarrow> (Some (Err e), fs)
         | Inr files \<Rightarrow>
             if list_ex (\<lambda>(p, source, rs). overlapping rs) files
             then (Some (Err (Protocol ''lsp rename: overlapping edits from server'')), fs)
             else
               (case write_files fs files 0 of
                  (Some (Inr n), fs1) \<Rightarrow>
                    (Some (Ok (n, sum_list (map (\<lambda>(p, source, rs). length rs) files))), fs1)
                | (Some (Inl e), fs1) \<Rightarrow> (Some (Err e), fs1)
                | (None, fs1) \<Rightarrow> (None, fs1))))"

definition lsp_rename ::
    "lsp_env \<Rightarrow> host_fs \<Rightarrow> lsp_engine \<Rightarrow> lsp_rename_request \<Rightarrow>
     (daemon_error, lsp_rename_result) res option \<times> lsp_engine \<times> host_fs" where
  "lsp_rename env fs en req =
     (case on_server env fs en ''desktop.fs.write'' (ln_path req) (ln_workspace req) (\<lambda>st uri.
         srv_then (do_request env st ''textDocument/rename''
           (JObj ((''newName'', JStr (ln_new_name req)) # position_params uri (ln_line req) (ln_character req))))
           (\<lambda>edit st1. (Ok (sv_language st, sv_program st, edit), st1))) of
        (Inl e, en1) \<Rightarrow> (Some (Err e), en1, fs)
      | (Inr (language, program, edit), en1) \<Rightarrow>
          if edit = JNull
          then (Some (Err (Protocol
                  ''lsp rename: server returned no WorkspaceEdit (not a renamable symbol?)'')), en1, fs)
          else
            (case apply_workspace_edit (en_gate en) fs edit of
               (None, fs1) \<Rightarrow> (None, en1, fs1)
             | (Some (Inl e), fs1) \<Rightarrow> (Some (Err e), en1, fs1)
             | (Some (Inr (files, edits)), fs1) \<Rightarrow>
                 (Some (Ok \<lparr>lr_language = language, lr_server = program, lr_files_changed = files,
                            lr_edits_applied = edits\<rparr>), en1, fs1)))"

end
