(* ===== verification/Lsp_Safety.thy ===== *)
theory Lsp_Safety
  imports Lsp_Ops
begin

text \<open>
  What the language-server bridge guarantees: its descending splice loop is the simultaneous
  replacement of all ranges, it never panics on edits sent as the protocol asks, and a refused
  rename touches nothing; and, as lemmas, what it does not handle.
\<close>

section \<open>Lemmas: splicing text\<close>

text \<open>Ranges inside the text, at character boundaries, with text that starts a character.\<close>

definition range_ok :: "string \<Rightarrow> text_range \<Rightarrow> bool" where
  "range_ok s r =
     (case r of (i, j, rep) \<Rightarrow>
        i \<le> j \<and> j \<le> length s \<and> is_char_boundary s i \<and> is_char_boundary s j \<and>
        (rep = [] \<or> \<not> is_cont_byte (hd rep)))"

text \<open>A replacement is not followed, in the server's order, by an edit that starts where it starts.\<close>

definition inserts_first :: "text_range list \<Rightarrow> bool" where
  "inserts_first rs = sorted_wrt (\<lambda>a b. fst a = fst b \<longrightarrow> fst (snd a) = fst a) rs"

lemma char_boundary_hd:
  assumes "is_char_boundary s p" and "s = [] \<or> \<not> is_cont_byte (hd s)"
  shows "drop p s = [] \<or> \<not> is_cont_byte (hd (drop p s))"
proof (cases "p < length s")
  case True
  then show ?thesis
    using assms by (cases "p = 0") (auto simp: is_char_boundary_def hd_drop_conv_nth)
qed simp

lemma weave_start:
  assumes "s = [] \<or> \<not> is_cont_byte (hd s)" and "is_char_boundary s p" and "list_all (range_ok s) es"
  shows "weave p s es = [] \<or> \<not> is_cont_byte (hd (weave p s es))"
  using assms(2,3)
proof (induction es arbitrary: p)
  case Nil
  then show ?case using char_boundary_hd [OF _ assms(1)] by simp
next
  case (Cons e es)
  obtain i j rep where e: "e = (i, j, rep)" by (cases e)
  have rest: "weave j s es = [] \<or> \<not> is_cont_byte (hd (weave j s es))"
    using Cons.IH [of j] Cons.prems(2) e by (simp add: range_ok_def)
  have mid: "take (i - p) (drop p s) = [] \<or> \<not> is_cont_byte (hd (take (i - p) (drop p s)))"
    using char_boundary_hd [OF Cons.prems(1) assms(1)] by (cases "drop p s"; cases "i - p") auto
  show ?case
    using rest mid Cons.prems(2) e
    by (cases "take (i - p) (drop p s)"; cases rep) (auto simp: range_ok_def)
qed

lemma boundary_take_append:
  assumes "is_char_boundary s i" and "i \<le> p" and "p \<le> length s"
    and "i = p \<Longrightarrow> u = [] \<or> \<not> is_cont_byte (hd u)"
  shows "is_char_boundary (take p s @ u) i"
proof (cases "i = p")
  case True
  with assms(3,4) show ?thesis by (cases u) (auto simp: is_char_boundary_def nth_append)
next
  case False
  with assms show ?thesis by (auto simp: is_char_boundary_def nth_append)
qed

lemma disjoint_from_before:
  "disjoint_from k (es @ (i, j, rep) # fs) \<Longrightarrow> disjoint_from k (es @ [(i, j', rep')])"
  by (induction es arbitrary: k) auto

lemma disjoint_from_adjacent: "disjoint_from k (es @ (i, j, rep) # (p, q, t) # fs) \<Longrightarrow> j \<le> p"
  by (induction es arbitrary: k) auto

text \<open>Replacing from the last range to the first is replacing all of them at once.\<close>

lemma replace_ranges_weave:
  assumes "s = [] \<or> \<not> is_cont_byte (hd s)" and "disjoint_from 0 (rev rs @ ds)"
    and "list_all (range_ok s) (rs @ ds)" and "p \<le> length s" and "is_char_boundary s p"
    and "disjoint_from p ds" and "disjoint_from 0 (rev rs @ [(p, p, [])])"
  shows "replace_ranges rs (take p s @ weave p s ds) = Some (weave 0 s (rev rs @ ds))"
  using assms(2-)
proof (induction rs arbitrary: p ds)
  case Nil
  then show ?case using weave_shift [of 0 p s ds] by simp
next
  case (Cons r rs)
  obtain i j rep where r: "r = (i, j, rep)" by (cases r)
  have ok: "i \<le> j" "j \<le> length s" "is_char_boundary s i" "is_char_boundary s j"
    using Cons.prems(2) r by (simp_all add: range_ok_def)
  have jp: "j \<le> p" using disjoint_from_adjacent [of 0 "rev rs" i j rep] Cons.prems(6) r by simp
  have u: "weave p s ds = [] \<or> \<not> is_cont_byte (hd (weave p s ds))"
    using weave_start [OF assms(1) Cons.prems(4)] Cons.prems(2) by simp
  have len: "j \<le> length (take p s @ weave p s ds)" using jp Cons.prems(3) by simp
  have "replace_range i j rep (take p s @ weave p s ds) = Some (take i s @ weave i s ((i, j, rep) # ds))"
    using boundary_take_append [OF ok(3) _ Cons.prems(3) u] boundary_take_append [OF ok(4) jp Cons.prems(3) u]
      ok(1) jp len splice_step [OF ok(1) jp Cons.prems(3,5)]
    by (simp add: replace_range_def)
  moreover have "disjoint_from i ((i, j, rep) # ds)"
    using disjoint_from_mono [OF Cons.prems(5) jp] by simp
  ultimately show ?case
    using Cons.IH [of "(i, j, rep) # ds" i] Cons.prems ok r
      disjoint_from_before [of 0 "rev rs" i j rep] by simp
qed

lemma neighbours_apart:
  assumes "\<not> neighbours_overlap rs" and "\<And>r. r \<in> set rs \<Longrightarrow> fst r \<le> fst (snd r)"
  shows "sorted_wrt (\<lambda>a b. fst (snd a) \<le> fst b) rs"
  using assms
proof (induction rs rule: neighbours_overlap.induct)
  case (1 s e t s' e' t' rs)
  then have "sorted_wrt (\<lambda>a b. fst (snd a) \<le> fst b) ((s', e', t') # rs)" by simp
  moreover have "e \<le> s'" "s' \<le> e'" using 1(2) 1(3) [of "(s', e', t')"] by auto
  ultimately show ?case by (auto intro: order_trans)
qed auto

text \<open>A stable sort keeps what holds of pairs with equal keys.\<close>

lemma sorted_wrt_same_key:
  "sorted_wrt (\<lambda>a b. f a = f b \<longrightarrow> P a b) xs \<longleftrightarrow> (\<forall>k. sorted_wrt P (filter (\<lambda>x. f x = k) xs))"
  by (induction xs) auto

lemma sort_key_inserts_first: "inserts_first rs \<Longrightarrow> inserts_first (sort_key fst rs)"
  unfolding inserts_first_def sorted_wrt_same_key [where f = fst] by (simp add: sort_key_stable)

lemma apart_disjoint:
  "sorted_wrt (\<lambda>a b. fst (snd a) \<le> fst b) rs \<Longrightarrow> \<forall>r \<in> set rs. k \<le> fst r \<Longrightarrow> disjoint_from k rs"
proof (induction rs arbitrary: k)
  case (Cons r rs)
  obtain i j rep where r: "r = (i, j, rep)" by (cases r)
  with Cons.prems have "\<forall>r \<in> set rs. j \<le> fst r" "sorted_wrt (\<lambda>a b. fst (snd a) \<le> fst b) rs" by auto
  from Cons.IH [OF this(2,1)] Cons.prems(2) r show ?case by simp
qed simp

lemma sorted_disjoint:
  assumes "\<not> overlapping rs" and "inserts_first rs" and "\<forall>r \<in> set rs. fst r \<le> fst (snd r)"
  shows "disjoint_from 0 (sort_key fst rs)"
proof -
  let ?ss = "sort_key (\<lambda>(s, e, t). (s, e)) rs"
  have sorted2: "sorted_wrt (\<lambda>a b. fst (snd a) \<le> fst b) ?ss"
    using assms(1,3) by (intro neighbours_apart) (auto simp: overlapping_def)
  have apart: "fst (snd a) \<le> fst b" if ab: "a \<in> set rs" "b \<in> set rs" "fst a < fst b" for a b
  proof -
    obtain i j where ij: "i < length ?ss" "?ss ! i = a" "j < length ?ss" "?ss ! j = b"
      using ab(1,2) by (metis in_set_conv_nth set_sort)
    consider "i < j" | "j < i" | "i = j" by linarith
    then show ?thesis
    proof cases
      case 1
      then show ?thesis using sorted_wrt_nth_less [OF sorted2, of i j] ij by simp
    next
      case 2
      then have "fst (snd b) \<le> fst a" using sorted_wrt_nth_less [OF sorted2, of j i] ij by simp
      with assms(3) ab(2,3) show ?thesis by fastforce
    next
      case 3
      with ij ab(3) show ?thesis by simp
    qed
  qed
  have "sorted_wrt (\<lambda>a b. fst (snd a) \<le> fst b) (sort_key fst rs)"
    unfolding sorted_wrt_iff_nth_less
  proof (intro allI impI)
    fix i j
    assume ij: "i < j" "j < length (sort_key fst rs)"
    let ?a = "sort_key fst rs ! i" and ?b = "sort_key fst rs ! j"
    have mem: "?a \<in> set rs" "?b \<in> set rs" using ij nth_mem [of _ "sort_key fst rs"] by simp_all
    have le: "fst ?a \<le> fst ?b"
      using sorted_sort_key [of fst rs] ij by (simp add: sorted_wrt_map sorted_wrt_iff_nth_less)
    show "fst (snd ?a) \<le> fst ?b"
    proof (cases "fst ?a = fst ?b")
      case True
      have "fst (snd ?a) = fst ?a"
        using sort_key_inserts_first [OF assms(2)] ij True
        unfolding inserts_first_def sorted_wrt_iff_nth_less by blast
      with le show ?thesis by simp
    next
      case False
      with le apart [OF mem] show ?thesis by simp
    qed
  qed
  then show ?thesis by (rule apart_disjoint) simp
qed

text \<open>An edit as a server may send it: insertions before the replacement at the same place, UTF-8 texts.\<close>

definition well_sent :: "text_range list \<Rightarrow> bool" where
  "well_sent rs \<longleftrightarrow> inserts_first rs \<and> list_all (\<lambda>(i, j, rep). valid_utf8 rep) rs"

lemma disjoint_from_end:
  "disjoint_from k es \<Longrightarrow> k \<le> n \<Longrightarrow> list_all (\<lambda>(i, j, rep). j \<le> n) es \<Longrightarrow> disjoint_from k (es @ [(n, n, [])])"
  by (induction k es rule: disjoint_from.induct) auto

lemma plan_ranges_ok:
  assumes "plan_ranges uri source es = Ok rs" and "valid_utf8 source"
    and "list_all (\<lambda>(i, j, rep). valid_utf8 rep) rs"
  shows "list_all (range_ok source) rs"
  using assms(1,3)
proof (induction es arbitrary: rs)
  case (Cons e es)
  obtain s t new_text where e: "text_range_of source e = (s, t, new_text)" by (cases "text_range_of source e")
  with Cons.prems(1) obtain rs' where rs: "s \<le> t" "t \<le> length source" "rs = (s, t, new_text) # rs'"
    "plan_ranges uri source es = Ok rs'"
    by (auto simp: try_bind_Inr split: if_splits)
  have "is_char_boundary source s" "is_char_boundary source t"
    using e linecol_boundary(1) [OF assms(2)] by (auto simp: text_range_of_def)
  with rs Cons.IH [OF rs(4)] Cons.prems(2) valid_utf8_start [of new_text] show ?case
    by (auto simp: range_ok_def)
qed simp

lemma edited_text_weave:
  assumes "valid_utf8 source" and "\<not> overlapping rs" and "inserts_first rs" and "list_all (range_ok source) rs"
  shows "edited_text source rs = Some (weave 0 source (sort_key fst rs))"
proof -
  let ?ss = "sort_key fst rs" and ?n = "length source"
  have "\<forall>r \<in> set rs. fst r \<le> fst (snd r)" using assms(4) by (auto simp: list_all_iff range_ok_def)
  from sorted_disjoint [OF assms(2,3) this] have d: "disjoint_from 0 ?ss" .
  have ok: "list_all (range_ok source) ?ss" using assms(4) by (simp add: list_all_iff)
  then have "list_all (\<lambda>(i, j, rep). j \<le> ?n) ?ss" by (auto simp: list_all_iff range_ok_def)
  from disjoint_from_end [OF d _ this] have e: "disjoint_from 0 (?ss @ [(?n, ?n, [])])" by simp
  have b: "is_char_boundary source ?n" by (simp add: is_char_boundary_def)
  show ?thesis
    using replace_ranges_weave [OF valid_utf8_start [OF assms(1)], of "rev ?ss" "[]" ?n] d e b ok
    by (simp add: edited_text_def list_all_iff)
qed

text \<open>What a plan guarantees for each of its files.\<close>

lemma plan_files_each:
  assumes "plan_files g fs ts = Ok files" and "(p, source, rs) \<in> set files"
  shows "check_path g ''desktop.fs.write'' p = Allow \<and> fs_read fs p = Ok source \<and> valid_utf8 source \<and>
    (\<exists>uri es. plan_ranges uri source es = Ok rs)"
  using assms
proof (induction ts arbitrary: files)
  case (Cons t ts)
  obtain uri edits where t: "t = (uri, edits)" by (cases t)
  from Cons.prems(1) t obtain q src rs' files' where q:
    "ensure_gate_path g ''desktop.fs.write'' q = Ok ()" "read_to_string fs q = Ok src"
    "plan_ranges uri src edits = Ok rs'" "plan_files g fs ts = Ok files'" "files = (q, src, rs') # files'"
    by (auto simp: try_bind_Inr split: option.splits)
  have "check_path g ''desktop.fs.write'' q = Allow"
    using q(1) by (auto simp: ensure_gate_path_def split: gate_decision.splits)
  moreover have "fs_read fs q = Ok src" "valid_utf8 src"
    using q(2) by (auto simp: read_to_string_def dest!: io_try_OkD split: if_splits)
  ultimately show ?case using Cons.IH [OF q(4)] Cons.prems(2) q(3,5) by auto
qed simp

text \<open>The reference: each file in turn gets its text with all its edits made at once.\<close>

fun write_woven :: "host_fs \<Rightarrow> file_edit list \<Rightarrow> nat \<Rightarrow> (daemon_error, nat) res \<times> host_fs" where
  "write_woven fs [] n = (Ok n, fs)"
| "write_woven fs ((p, source, rs) # files) n =
     (case replace_file fs p (weave 0 source (sort_key fst rs)) of
        (Inl e, fs1) \<Rightarrow> (Err e, fs1)
      | (Inr _, fs1) \<Rightarrow> write_woven fs1 files (n + 1))"

lemma write_files_woven:
  assumes "list_all (\<lambda>(p, source, rs). edited_text source rs = Some (weave 0 source (sort_key fst rs))) files"
  shows "write_files fs files n = map_prod Some id (write_woven fs files n)"
  using assms
proof (induction files arbitrary: fs n)
  case (Cons f files)
  obtain p source rs where f: "f = (p, source, rs)" by (cases f)
  with Cons.prems have "edited_text source rs = Some (weave 0 source (sort_key fst rs))" by simp
  with Cons f show ?case by (auto split: prod.splits sum.splits)
qed simp

lemma replace_file_reads:
  "replace_file fs p out = (Ok (), fs') \<Longrightarrow> fs_read fs' p = Ok out"
  by (auto simp: replace_file_def Let_def fs_step_def split: sum.splits if_splits)

lemma write_woven_last:
  "write_woven fs (files @ [(p, source, rs)]) n = (Ok m, fs') \<Longrightarrow>
   m = n + length files + 1 \<and> fs_read fs' p = Ok (weave 0 source (sort_key fst rs))"
  by (induction files arbitrary: fs n) (fastforce split: prod.splits sum.splits dest: replace_file_reads)+

section \<open>Properties\<close>

text \<open>
  C25. A rename replaces all ranges of a file at once. When the plan succeeds and the edits are
  sent as the protocol asks (an insertion before the replacement at the same place, in UTF-8),
  the engine never panics while slicing, and it either refuses overlapping edits with the disk
  untouched or does exactly what the reference \<open>write_woven\<close> does: each file in turn gets its
  original text with every range replaced simultaneously. After success the last file of the
  plan reads as exactly that text, and the counts are those of the plan.
\<close>

theorem rename_is_simultaneous_replacement:
  assumes "plan_files g fs (workspace_edit_targets edit) = Ok files"
    and "workspace_edit_targets edit \<noteq> []" and "list_all (\<lambda>(p, source, rs). well_sent rs) files"
  shows "if list_ex (\<lambda>(p, source, rs). overlapping rs) files
    then \<exists>e. apply_workspace_edit g fs edit = (Some (Err e), fs)
    else apply_workspace_edit g fs edit =
      (case write_woven fs files 0 of
         (Inr n, fs1) \<Rightarrow> (Some (Ok (n, sum_list (map (\<lambda>(p, source, rs). length rs) files))), fs1)
       | (Inl e, fs1) \<Rightarrow> (Some (Err e), fs1)) \<and>
      (\<forall>front p source rs n m. files = front @ [(p, source, rs)] \<longrightarrow>
         fst (apply_workspace_edit g fs edit) = Some (Ok (n, m)) \<longrightarrow>
         n = length files \<and>
         fs_read (snd (apply_workspace_edit g fs edit)) p = Ok (weave 0 source (sort_key fst rs)))"
proof (cases "list_ex (\<lambda>(p, source, rs). overlapping rs) files")
  case True
  with assms(1,2) show ?thesis by (simp add: apply_workspace_edit_def)
next
  case False
  have "edited_text source rs = Some (weave 0 source (sort_key fst rs))" if f: "(p, source, rs) \<in> set files" for p source rs
  proof -
    from plan_files_each [OF assms(1) f] obtain uri es where
      pl: "valid_utf8 source" "plan_ranges uri source es = Ok rs" by blast
    have "inserts_first rs" "list_all (\<lambda>(i, j, rep). valid_utf8 rep) rs"
      using assms(3) f by (auto simp: list_all_iff well_sent_def)
    moreover have "\<not> overlapping rs" using False f by (auto simp: list_ex_iff)
    ultimately show ?thesis using edited_text_weave plan_ranges_ok [OF pl(2,1)] pl(1) by blast
  qed
  then have w: "write_files fs files 0 = map_prod Some id (write_woven fs files 0)"
    by (intro write_files_woven) (auto simp: list_all_iff)
  have eq: "apply_workspace_edit g fs edit =
      (case write_woven fs files 0 of
         (Inr n, fs1) \<Rightarrow> (Some (Ok (n, sum_list (map (\<lambda>(p, source, rs). length rs) files))), fs1)
       | (Inl e, fs1) \<Rightarrow> (Some (Err e), fs1))"
    using assms(1,2) False w by (auto simp: apply_workspace_edit_def split: prod.splits sum.splits)
  have last: "n = length files \<and> fs_read (snd (apply_workspace_edit g fs edit)) p = Ok (weave 0 source (sort_key fst rs))"
    if at: "files = front @ [(p, source, rs)]" "fst (apply_workspace_edit g fs edit) = Some (Ok (n, m))"
    for front p source rs n m
  proof -
    obtain fs1 where "write_woven fs files 0 = (Ok n, fs1)"
      using at(2) unfolding eq by (auto split: prod.splits sum.splits)
    then show ?thesis using write_woven_last [of fs front p source rs 0 n fs1] at(1) eq by simp
  qed
  from False eq last show ?thesis by simp
qed

text \<open>A rename of \<open>old\<close> in the demonstration file: one replacement and one insertion.\<close>

definition demo_position :: "int \<Rightarrow> int \<Rightarrow> json" where
  "demo_position l c = JObj [(''character'', JInt c), (''line'', JInt l)]"

definition demo_text_edit :: "int \<Rightarrow> int \<Rightarrow> string \<Rightarrow> json" where
  "demo_text_edit a b s =
     JObj [(''newText'', JStr s), (''range'', JObj [(''end'', demo_position 0 b), (''start'', demo_position 0 a)])]"

definition demo_rename :: "string \<Rightarrow> json list \<Rightarrow> json" where
  "demo_rename uri edits = JObj [(''changes'', JObj [(uri, JArr edits)])]"

theorem rename_is_simultaneous_replacement_witness:
  "let edit = demo_rename ''file:///w/a.txt'' [demo_text_edit 3 3 ''!'', demo_text_edit 0 2 ''NEW''] in
   fst (apply_workspace_edit demo_fs_gate demo_fs edit) = Some (Ok (1, 2)) \<and>
   fs_read (snd (apply_workspace_edit demo_fs_gate demo_fs edit)) (path_components ''/w/a.txt'') = Ok ''NEWd!''"
proof -
  define edit where "edit = demo_rename ''file:///w/a.txt'' [demo_text_edit 3 3 ''!'', demo_text_edit 0 2 ''NEW'']"
  let ?rs = "[(3, 3, ''!''), (0, 2, ''NEW'')]" and ?p = "path_components ''/w/a.txt''"
  have pl: "plan_files demo_fs_gate demo_fs (workspace_edit_targets edit) = Ok [(?p, ''old'', ?rs)]"
    "workspace_edit_targets edit \<noteq> []" "\<not> overlapping ?rs"
    unfolding edit_def by code_simp+
  have ws: "list_all (\<lambda>(p, source, rs). well_sent rs) [(?p, ''old'', ?rs)]"
    by (simp add: well_sent_def inserts_first_def valid_utf8_def lossy_ascii)
  have ok: "fst (apply_workspace_edit demo_fs_gate demo_fs edit) = Some (Ok (1, 2))"
    unfolding edit_def by code_simp
  have "weave 0 ''old'' (sort_key fst ?rs) = ''NEWd!''" by code_simp
  moreover have ne: "\<not> list_ex (\<lambda>(p, source, rs). overlapping rs) [(?p, ''old'', ?rs)]" using pl(3) by simp
  note rename_is_simultaneous_replacement [OF pl(1,2) ws, unfolded if_not_P [OF ne], THEN conjunct2,
      rule_format, of "[]" ?p "''old''" ?rs 1 2]
  ultimately show ?thesis using ok unfolding Let_def edit_def [symmetric] by simp
qed

text \<open>
  C26. A rename that is refused touches nothing. If the disk changed at all, every target of the
  edit was a file URI whose path the gate allows for writing and whose file was read as UTF-8
  before the first write, and no two edits of a file overlapped. In particular one target
  outside the granted paths, one unreadable file or one overlap stops the whole rename.
\<close>

theorem rename_all_or_nothing_before_writing:
  assumes "snd (apply_workspace_edit g fs edit) \<noteq> fs"
  shows "\<exists>files. plan_files g fs (workspace_edit_targets edit) = Ok files \<and>
    map (\<lambda>(p, source, rs). Some p) files = map (\<lambda>(uri, es). uri_to_path uri) (workspace_edit_targets edit) \<and>
    list_all (\<lambda>(p, source, rs). check_path g ''desktop.fs.write'' p = Allow \<and> fs_read fs p = Ok source \<and>
      valid_utf8 source \<and> \<not> overlapping rs) files"
proof -
  obtain files where pl: "plan_files g fs (workspace_edit_targets edit) = Ok files"
    "\<not> list_ex (\<lambda>(p, source, rs). overlapping rs) files"
    using assms by (auto simp: apply_workspace_edit_def Let_def split: sum.splits if_splits)
  have "plan_files g fs ts = Ok files \<Longrightarrow>
      map (\<lambda>(p, source, rs). Some p) files = map (\<lambda>(uri, es). uri_to_path uri) ts" for ts files
    by (induction ts arbitrary: files) (auto simp: try_bind_Inr split: option.splits)
  from this [OF pl(1)] pl plan_files_each [OF pl(1)] show ?thesis
    by (auto simp: list_all_iff list_ex_iff)
qed

theorem rename_all_or_nothing_before_writing_witness:
  "let edit = demo_rename ''file:///w/a.txt'' [demo_text_edit 0 2 ''NEW''] in
   snd (apply_workspace_edit demo_fs_gate demo_fs edit) \<noteq> demo_fs \<and>
   check_path demo_fs_gate ''desktop.fs.write'' (path_components ''/w/a.txt'') = Allow \<and>
   apply_workspace_edit demo_fs_gate demo_fs (demo_rename ''file:///etc/passwd'' [demo_text_edit 0 2 ''NEW'']) =
     (Some (Err (CapabilityDenied ''desktop.fs.write requires consent for /etc/passwd'')), demo_fs)"
proof -
  define edit where "edit = demo_rename ''file:///w/a.txt'' [demo_text_edit 0 2 ''NEW'']"
  let ?out = "demo_rename ''file:///etc/passwd'' [demo_text_edit 0 2 ''NEW'']"
  have r: "fs_read (snd (apply_workspace_edit demo_fs_gate demo_fs edit)) (path_components ''/w/a.txt'') = Ok ''NEWd''"
    "fs_read demo_fs (path_components ''/w/a.txt'') = Ok ''old''"
    "map (\<lambda>(uri, es). uri_to_path uri) (workspace_edit_targets edit) = [Some (path_components ''/w/a.txt'')]"
    unfolding edit_def by code_simp+
  then have ne: "snd (apply_workspace_edit demo_fs_gate demo_fs edit) \<noteq> demo_fs" by auto
  from rename_all_or_nothing_before_writing [OF this] r(3)
  have "check_path demo_fs_gate ''desktop.fs.write'' (path_components ''/w/a.txt'') = Allow"
    by (auto simp: map_eq_Cons_conv)
  moreover have "apply_workspace_edit demo_fs_gate demo_fs ?out =
      (Some (Err (CapabilityDenied ''desktop.fs.write requires consent for /etc/passwd'')), demo_fs)"
  proof -
    have "fst (apply_workspace_edit demo_fs_gate demo_fs ?out) =
        Some (Err (CapabilityDenied ''desktop.fs.write requires consent for /etc/passwd''))"
      "check_path demo_fs_gate ''desktop.fs.write'' (path_components ''/etc/passwd'') \<noteq> Allow"
      "map (\<lambda>(uri, es). uri_to_path uri) (workspace_edit_targets ?out) = [Some (path_components ''/etc/passwd'')]"
      by code_simp+
    moreover have "snd (apply_workspace_edit demo_fs_gate demo_fs ?out) = demo_fs"
    proof (rule ccontr)
      assume "\<not> ?thesis"
      from rename_all_or_nothing_before_writing [OF this] obtain files where
        f: "map (\<lambda>(p, source, rs). Some p) files = map (\<lambda>(uri, es). uri_to_path uri) (workspace_edit_targets ?out)"
        "list_all (\<lambda>(p, source, rs). check_path demo_fs_gate ''desktop.fs.write'' p = Allow \<and>
           fs_read demo_fs p = Ok source \<and> valid_utf8 source \<and> \<not> overlapping rs) files"
        by blast
      from f(1) [unfolded calculation(3)] obtain s r where "files = [(path_components ''/etc/passwd'', s, r)]"
        by (auto simp: map_eq_Cons_conv)
      with f(2) calculation(2) show False by simp
    qed
    ultimately show ?thesis by (simp add: prod_eq_iff)
  qed
  ultimately show ?thesis using ne unfolding Let_def edit_def [symmetric] by blast
qed

section \<open>What the bridge does not handle\<close>

text \<open>
  A replacement listed before an insertion at the same place passes the overlap check, and the
  loop then cuts into the inserted text: the insertion is lost and a replaced character stays.
\<close>

lemma insertion_after_replacement_corrupts:
  "\<not> overlapping [(5, 8, ''X''), (5, 5, ''AB'')] \<and> \<not> well_sent [(5, 8, ''X''), (5, 5, ''AB'')] \<and>
   edited_text ''0123456789'' [(5, 8, ''X''), (5, 5, ''AB'')] = Some ''01234X6789'' \<and>
   edited_text ''0123456789'' [(5, 5, ''AB''), (5, 8, ''X'')] = Some ''01234ABX89''"
  by (intro conjI; code_simp)

text \<open>The same file twice in one edit: only the edits of its last entry survive.\<close>

lemma same_file_twice_loses_edits:
  "let edit = JObj [(''documentChanges'', JArr (map (\<lambda>e. JObj [(''edits'', JArr [e]),
      (''textDocument'', JObj [(''uri'', JStr ''file:///w/a.txt'')])])
      [demo_text_edit 0 1 ''O'', demo_text_edit 2 3 ''D'']))] in
   fst (apply_workspace_edit demo_fs_gate demo_fs edit) = Some (Ok (2, 2)) \<and>
   fs_read (snd (apply_workspace_edit demo_fs_gate demo_fs edit)) (path_components ''/w/a.txt'') = Ok ''olD''"
  unfolding Let_def by (intro conjI; code_simp)

text \<open>
  Rename asks the lexical gate only. A link inside a granted root leads its write outside,
  where \<open>fs.write\<close> with the link-resolving check refuses.
\<close>

lemma rename_follows_links_outside:
  "let edit = demo_rename ''file:///w/link/passwd'' [demo_text_edit 0 4 ''evil''] in
   op_decision demo_fs demo_fs_gate ''desktop.fs.write'' (path_components ''/w/link/passwd'') = RequireConsent \<and>
   fst (apply_workspace_edit demo_fs_gate demo_fs edit) = Some (Ok (1, 1)) \<and>
   fs_read (snd (apply_workspace_edit demo_fs_gate demo_fs edit)) (path_components ''/etc/passwd'') = Ok ''evil''"
  unfolding Let_def by (intro conjI; code_simp)

text \<open>
  A request of the server whose id equals that of a waiting request is taken for its reply;
  having no result, it answers the request with null.
\<close>

lemma server_request_taken_for_reply:
  assumes "json_get msg ''id'' = Some (JInt (int i))" and "i < 2 ^ 64" and "i \<in> set (sv_pending st)"
    and "json_get msg ''method'' = Some (JStr m)"
  shows "snd (reader_message st msg) = Some (i, msg)"
  using assms by (simp add: reader_message_def)

lemma reader_message_keeps:
  "sv_written (fst (reader_message s m)) = sv_written s" "sv_opened (fst (reader_message s m)) = sv_opened s"
  by (auto simp: reader_message_def Let_def split: option.splits)

lemma await_reply_keeps:
  "await_reply env s i bs = (r, s') \<Longrightarrow> sv_written s' = sv_written s \<and> sv_opened s' = sv_opened s"
proof (induction bs arbitrary: s)
  case (Cons b bs)
  show ?case
  proof (cases "lx_parse env b")
    case None
    with Cons show ?thesis by simp
  next
    case (Some msg)
    obtain s1 o1 where m: "reader_message s msg = (s1, o1)" by (cases "reader_message s msg")
    have s1: "sv_written s1 = sv_written s" "sv_opened s1 = sv_opened s"
      using reader_message_keeps [of s msg] m by simp_all
    show ?thesis
      using Cons.prems Some m s1 Cons.IH [of s1]
      by (auto split: option.splits prod.splits if_splits)
  qed
qed simp

lemma send_raw_keeps:
  "prefix (sv_written s) (sv_written (snd (send_raw env s msg)))" "sv_opened (snd (send_raw env s msg)) = sv_opened s"
  by (simp_all add: send_raw_def split: option.split)

lemma initialize_keeps:
  "sv_opened (snd (initialize env s root)) = sv_opened s"
  by (auto simp: initialize_def request_msg_def notify_def send_raw_def Let_def
      dest!: await_reply_keeps split: prod.split option.split)

text \<open>
  Every newly opened file sends the initialize request again, although the server was
  initialized when its first file was opened.
\<close>

lemma open_file_initializes_again:
  assumes "uri \<notin> set (sv_opened st)" and "\<And>s. lx_write env s = None"
  shows "prefix
    (sv_written st @ frame_message (lx_text env (rpc_request (sv_next_id st) ''initialize'' (init_params env root))))
    (sv_written (snd (open_file env st root language uri source)))"
  using assms
  by (auto simp: open_file_def initialize_def request_msg_def notify_def send_raw_def Let_def
      dest!: await_reply_keeps split: prod.split option.split)

text \<open>
  When that initialize fails, the file is marked as opened all the same: the next request for
  it goes out without initialize and without \<open>didOpen\<close>.
\<close>

lemma failed_open_is_remembered:
  assumes "open_file env st root language uri source = (Err e, st1)"
  shows "open_file env st1 root language uri source' = (Ok (), st1)"
proof -
  have new: "uri \<notin> set (sv_opened st)" using assms by (auto simp: open_file_def split: if_splits)
  obtain r s where i: "initialize env (st\<lparr>sv_opened := uri # sv_opened st\<rparr>) root = (r, s)" by fastforce
  then have "sv_opened s = uri # sv_opened st"
    using initialize_keeps [of env "st\<lparr>sv_opened := uri # sv_opened st\<rparr>" root] by simp
  moreover have "sv_opened st1 = sv_opened s"
    using assms new i send_raw_keeps(2)
    by (cases r) (auto simp: open_file_def notify_def, metis snd_conv)
  ultimately show ?thesis by (simp add: open_file_def)
qed

end
