(* ===== verification/Autoupdate.thy ===== *)
theory Autoupdate
  imports Text_Scan Daemon_Error
begin

text \<open>
  \<open>daemon-core/src/autoupdate.rs\<close>: the check for a newer release, the signature of its manifest
  and the verified download. HTTP, the JSON codec, Ed25519 and SHA-256 are parameters (record
  \<open>update_env\<close>); the file is written on the disk of \<open>Host_Fs\<close>.
\<close>

section \<open>State and parameters\<close>

record artifact_entry =
  ar_target :: string
  ar_sha256 :: string
  ar_url :: string

record signed_manifest =
  mf_version :: string
  mf_published_at :: string
  mf_artifacts :: "(string \<times> artifact_entry) list"
  mf_signature :: string

datatype update_status =
    UpToDate
  | UpdateAvailable string artifact_entry
  | CheckFailed string

text \<open>A response: whether its status is an error (then how it prints) and the body, if it can be read.\<close>

record http_response =
  rp_status_error :: "string option"
  rp_body :: "(string, bytes) res"

record update_env =
  up_pubkey_hex :: "string option"
  up_client :: "string option"
  up_get :: "string \<Rightarrow> (string, http_response) res"
  up_json :: "bytes \<Rightarrow> (string, json) res"
  up_to_vec :: "json \<Rightarrow> bytes"
  up_manifest :: "bytes \<Rightarrow> (string, signed_manifest) res"
  up_key_ok :: "bytes \<Rightarrow> bool"
  up_sig_ok :: "bytes \<Rightarrow> bool"
  up_verify_strict :: "bytes \<Rightarrow> bytes \<Rightarrow> bytes \<Rightarrow> bool"
  up_sha256 :: "bytes \<Rightarrow> bytes"
  up_os :: string
  up_arch :: string

definition update_pubkey_hex :: "update_env \<Rightarrow> string" where
  "update_pubkey_hex E =
     (case up_pubkey_hex E of
        Some k \<Rightarrow> k
      | None \<Rightarrow> ''cddb85d58da4192d7d59f2e086bb6d84cbf6581c0b654845620f21c64eaa2e0c'')"

definition RELEASES_API :: string where
  "RELEASES_API = ''https://api.github.com/repos/planobinario/synthhires-bridge/releases''"

section \<open>The manifest's signature\<close>

text \<open>The object without its signature member, printed again, is what CI signed.\<close>

fun without_signature :: "json \<Rightarrow> json" where
  "without_signature (JObj ms) = JObj (assoc_remove ''signature'' ms)"
| "without_signature v = v"

definition verify_manifest_signature :: "update_env \<Rightarrow> bytes \<Rightarrow> bool" where
  "verify_manifest_signature E raw =
     (case hex_decode (update_pubkey_hex E) of
        None \<Rightarrow> False
      | Some key \<Rightarrow>
          if length key \<noteq> 32 then False
          else if \<not> up_key_ok E key then False
          else
            (case up_json E raw of
               Inl _ \<Rightarrow> False
             | Inr v \<Rightarrow>
                 (case hex_decode (case Option.bind (json_get v ''signature'') as_str of
                                     Some s \<Rightarrow> s | None \<Rightarrow> []) of
                    None \<Rightarrow> False
                  | Some sig \<Rightarrow>
                      if length sig \<noteq> 64 then False
                      else if \<not> up_sig_ok E sig then False
                      else up_verify_strict E key (up_to_vec E (without_signature v)) sig)))"

section \<open>Versions\<close>

fun collect_parts :: "string list \<Rightarrow> nat list option" where
  "collect_parts [] = Some []"
| "collect_parts (p # ps) =
     (case parse_unsigned 64 p of
        None \<Rightarrow> None
      | Some n \<Rightarrow> map_option ((#) n) (collect_parts ps))"

definition version_parts :: "string \<Rightarrow> nat list option" where
  "version_parts v =
     (let s = (case strip_prefix ''v'' v of Some t \<Rightarrow> t | None \<Rightarrow> v);
          core = takeWhile (\<lambda>c. c \<noteq> CHR ''-'' \<and> c \<noteq> CHR ''+'') s
      in collect_parts (split_on (CHR ''.'') core))"

definition part_at :: "nat list \<Rightarrow> nat \<Rightarrow> nat" where
  "part_at xs i = (if i < length xs then xs ! i else 0)"

fun newer_scan :: "nat list \<Rightarrow> nat list \<Rightarrow> nat list \<Rightarrow> bool" where
  "newer_scan a b [] = False"
| "newer_scan a b (i # is) =
     (if part_at a i \<noteq> part_at b i then part_at b i > part_at a i else newer_scan a b is)"

definition is_newer_version :: "string \<Rightarrow> string \<Rightarrow> bool" where
  "is_newer_version current latest =
     (case (version_parts current, version_parts latest) of
        (Some a, Some b) \<Rightarrow> newer_scan a b [0..<max (length a) (length b)]
      | _ \<Rightarrow> False)"

section \<open>Checking and downloading\<close>

text \<open>The texts of the hash decoder's own errors are left out.\<close>

definition current_target :: "update_env \<Rightarrow> string" where
  "current_target E =
     (if up_os E = ''windows'' then ''x86_64-pc-windows-msvc''
      else if up_os E = ''macos''
      then (if up_arch E = ''aarch64'' then ''aarch64-apple-darwin'' else ''x86_64-apple-darwin'')
      else if up_arch E = ''aarch64'' then ''aarch64-unknown-linux-gnu''
      else ''x86_64-unknown-linux-gnu'')"

definition latest_of_tag :: "json \<Rightarrow> string" where
  "latest_of_tag release =
     (let tag = (case Option.bind (json_get release ''tag_name'') as_str of Some t \<Rightarrow> t | None \<Rightarrow> ''unknown'')
      in (case strip_prefix ''v'' tag of Some t \<Rightarrow> t | None \<Rightarrow> tag))"

definition manifest_url :: "string \<Rightarrow> string" where
  "manifest_url latest =
     RELEASES_API @ ''/download/v'' @ latest @ ''/release-manifest-'' @ latest @ ''.json''"

definition check_for_update :: "update_env \<Rightarrow> string \<Rightarrow> update_status" where
  "check_for_update E current =
     (case up_client E of
        Some e \<Rightarrow> CheckFailed (''client build: '' @ e)
      | None \<Rightarrow>
     (case up_get E (RELEASES_API @ ''/latest'') of
        Inl e \<Rightarrow> CheckFailed (''fetch latest: '' @ e)
      | Inr resp \<Rightarrow>
     (case try_bind (rp_body resp) (up_json E) of
        Inl e \<Rightarrow> CheckFailed (''parse release: '' @ e)
      | Inr release \<Rightarrow>
          let latest = latest_of_tag release in
          if \<not> is_newer_version current latest then UpToDate
          else
     (case up_get E (manifest_url latest) of
        Inl e \<Rightarrow> CheckFailed (''fetch manifest: '' @ e)
      | Inr mresp \<Rightarrow>
     (case rp_body mresp of
        Inl e \<Rightarrow> CheckFailed (''read manifest body: '' @ e)
      | Inr raw \<Rightarrow>
          if \<not> verify_manifest_signature E raw
          then CheckFailed (''manifest Ed25519 signature verification failed '' @ em_dash @ '' update refused'')
          else
     (case up_manifest E raw of
        Inl e \<Rightarrow> CheckFailed (''parse manifest: '' @ e)
      | Inr manifest \<Rightarrow>
     (case find (\<lambda>(name, entry). ar_target entry = current_target E) (mf_artifacts manifest) of
        Some (name, entry) \<Rightarrow> UpdateAvailable (mf_version manifest) entry
      | None \<Rightarrow> CheckFailed (''no artifact for target '' @ current_target E @ '' in release '' @ latest))))))))"

definition download_and_verify ::
    "update_env \<Rightarrow> host_fs \<Rightarrow> artifact_entry \<Rightarrow> path \<Rightarrow> (daemon_error, unit) res \<times> host_fs" where
  "download_and_verify E fs entry dest =
     (case up_client E of
        Some e \<Rightarrow> (Err (Io (OtherIo e)), fs)
      | None \<Rightarrow>
     (case up_get E (ar_url entry) of
        Inl e \<Rightarrow> (Err (Io (OtherIo e)), fs)
      | Inr resp \<Rightarrow>
     (case rp_status_error resp of
        Some e \<Rightarrow> (Err (Io (OtherIo e)), fs)
      | None \<Rightarrow>
     (case rp_body resp of
        Inl e \<Rightarrow> (Err (Io (OtherIo e)), fs)
      | Inr content \<Rightarrow>
     (case hex_decode (ar_sha256 entry) of
        None \<Rightarrow> (Err (Protocol ''invalid sha256 in manifest''), fs)
      | Some expected \<Rightarrow>
          if up_sha256 E content \<noteq> expected
          then (Err (Protocol (''downloaded binary SHA-256 mismatch '' @ em_dash @ '' update aborted'')), fs)
          else
            (case fs_write fs dest content of
               Inl e \<Rightarrow> (Err (Io e), fs_write_left fs dest content)
             | Inr fs1 \<Rightarrow> (Ok (), fs1)))))))"

section \<open>Lemmas\<close>

text \<open>The reference: version numbers as zero-padded sequences, compared at the first difference.\<close>

definition version_less :: "nat list \<Rightarrow> nat list \<Rightarrow> bool" where
  "version_less a b \<longleftrightarrow> (\<exists>i. part_at a i < part_at b i \<and> (\<forall>j < i. part_at a j = part_at b j))"

lemma newer_scan_from:
  "newer_scan a b [k..<n] \<longleftrightarrow>
     (\<exists>i. k \<le> i \<and> i < n \<and> part_at a i < part_at b i \<and> (\<forall>j. k \<le> j \<longrightarrow> j < i \<longrightarrow> part_at a j = part_at b j))"
proof (induction "n - k" arbitrary: k)
  case (Suc d)
  then have k: "[k..<n] = k # [Suc k..<n]" by (simp add: upt_conv_Cons)
  show ?case
  proof (cases "part_at a k = part_at b k")
    case True
    have "newer_scan a b [k..<n] \<longleftrightarrow>
      (\<exists>i. Suc k \<le> i \<and> i < n \<and> part_at a i < part_at b i \<and> (\<forall>j. Suc k \<le> j \<longrightarrow> j < i \<longrightarrow> part_at a j = part_at b j))"
      using True Suc(1) [of "Suc k"] Suc(2) by (simp add: k)
    with True show ?thesis
      by (metis Suc_leD Suc_le_eq le_neq_implies_less nat_less_le)
  next
    case False
    then have "newer_scan a b [k..<n] \<longleftrightarrow> part_at a k < part_at b k" by (simp add: k)
    moreover have "k < n" using Suc(2) by simp
    ultimately show ?thesis using False by (metis le_neq_implies_less le_refl not_less)
  qed
qed auto

lemma newer_scan_less: "newer_scan a b [0..<max (length a) (length b)] \<longleftrightarrow> version_less a b"
proof -
  have "i < max (length a) (length b)" if "part_at a i < part_at b i" for i
    using that by (auto simp: part_at_def split: if_splits)
  then show ?thesis by (auto simp: newer_scan_from version_less_def)
qed

lemma version_less_trans: "version_less a b \<Longrightarrow> version_less b c \<Longrightarrow> version_less a c"
proof -
  assume "version_less a b" "version_less b c"
  then obtain i k where ik: "part_at a i < part_at b i" "\<forall>j < i. part_at a j = part_at b j"
    "part_at b k < part_at c k" "\<forall>j < k. part_at b j = part_at c j"
    by (auto simp: version_less_def)
  consider "i < k" | "i = k" | "k < i" by linarith
  then show ?thesis
  proof cases
    case 1
    with ik show ?thesis unfolding version_less_def by (intro exI [of _ i]) auto
  next
    case 2
    with ik show ?thesis unfolding version_less_def by (intro exI [of _ k]) auto
  next
    case 3
    with ik show ?thesis unfolding version_less_def by (intro exI [of _ k]) auto
  qed
qed

lemma version_less_irrefl: "\<not> version_less a a"
  by (simp add: version_less_def)

text \<open>What the check of a manifest guarantees: a strict verification of what CI signed.\<close>

definition signed_by_pinned_key :: "update_env \<Rightarrow> bytes \<Rightarrow> bool" where
  "signed_by_pinned_key E raw \<longleftrightarrow>
     (\<exists>key v text sig. hex_decode (update_pubkey_hex E) = Some key \<and> length key = 32 \<and> up_json E raw = Ok v \<and>
        json_get v ''signature'' = Some (JStr text) \<and> hex_decode text = Some sig \<and> length sig = 64 \<and>
        up_verify_strict E key (up_to_vec E (without_signature v)) sig)"

lemma as_str_Some: "as_str v = Some s \<longleftrightarrow> v = JStr s"
  by (cases v) auto

lemma verified_is_signed: "verify_manifest_signature E raw \<Longrightarrow> signed_by_pinned_key E raw"
  by (force simp: verify_manifest_signature_def signed_by_pinned_key_def bind_eq_Some_conv as_str_Some
      split: option.splits sum.splits if_splits)

lemma write_ErrD:
  assumes "fs_write fs p b = Err e"
  shows "fs_write_left fs p b = fs \<or>
    (\<exists>d n. locate fs p = Some d \<and> disk_fault fs d = Some n \<and> n < length b \<and>
       fs_write_left fs p b = put_node fs d (FileNode (take n b)))"
  using assms
  by (auto simp: fs_write_def fs_write_left_def write_open_def fault_in_def
      split: sum.splits option.splits if_splits fs_node.splits)

section \<open>Properties\<close>

text \<open>
  C27. An update installs signed bytes only. When the check offers an artifact and its download
  succeeds, the offer came from a manifest fetched for a newer release tag whose Ed25519
  signature verified against the embedded key; the artifact is the one that manifest lists for
  this platform; and what was written to the destination are bytes whose SHA-256 is the one the
  signed manifest names. A download that fails leaves every node but the destination as it was,
  and the destination too, unless the last step failed: the file is opened, and so emptied, before
  it is filled, and a full device leaves it with a first part of bytes of the signed hash. No
  other bytes are ever written.
\<close>

theorem update_is_signed_and_hashed:
  assumes "check_for_update E current = UpdateAvailable version entry"
  shows "(\<exists>latest mresp raw m name.
      is_newer_version current latest \<and> up_get E (manifest_url latest) = Ok mresp \<and> rp_body mresp = Ok raw \<and>
      signed_by_pinned_key E raw \<and> up_manifest E raw = Ok m \<and> version = mf_version m \<and>
      (name, entry) \<in> set (mf_artifacts m) \<and> ar_target entry = current_target E) \<and>
    (\<forall>fs dest r fs'. download_and_verify E fs entry dest = (r, fs') \<longrightarrow>
      (case r of
         Inl _ \<Rightarrow> fs' = fs \<or>
           (\<exists>content d n. hex_decode (ar_sha256 entry) = Some (up_sha256 E content) \<and>
              locate fs dest = Some d \<and> disk_fault fs d = Some n \<and> n < length content \<and>
              fs' = put_node fs d (FileNode (take n content)))
       | Inr _ \<Rightarrow> \<exists>content. hex_decode (ar_sha256 entry) = Some (up_sha256 E content) \<and>
                           fs_write fs dest content = Ok fs'))"
proof (intro conjI allI impI)
  from assms obtain latest mresp raw m name where
    "is_newer_version current latest" "up_get E (manifest_url latest) = Ok mresp" "rp_body mresp = Ok raw"
    "verify_manifest_signature E raw" "up_manifest E raw = Ok m" "version = mf_version m"
    "find (\<lambda>(name, entry). ar_target entry = current_target E) (mf_artifacts m) = Some (name, entry)"
    by (auto simp: check_for_update_def Let_def split: option.splits sum.splits if_splits)
  then show "\<exists>latest mresp raw m name.
      is_newer_version current latest \<and> up_get E (manifest_url latest) = Ok mresp \<and> rp_body mresp = Ok raw \<and>
      signed_by_pinned_key E raw \<and> up_manifest E raw = Ok m \<and> version = mf_version m \<and>
      (name, entry) \<in> set (mf_artifacts m) \<and> ar_target entry = current_target E"
    using verified_is_signed by (auto simp: find_Some_iff in_set_conv_nth) metis
next
  fix fs dest r fs'
  assume "download_and_verify E fs entry dest = (r, fs')"
  then show "case r of
      Inl _ \<Rightarrow> fs' = fs \<or>
        (\<exists>content d n. hex_decode (ar_sha256 entry) = Some (up_sha256 E content) \<and>
           locate fs dest = Some d \<and> disk_fault fs d = Some n \<and> n < length content \<and>
           fs' = put_node fs d (FileNode (take n content)))
    | Inr _ \<Rightarrow> \<exists>content. hex_decode (ar_sha256 entry) = Some (up_sha256 E content) \<and>
                        fs_write fs dest content = Ok fs'"
    using write_ErrD
    by (auto simp: download_and_verify_def split: option.splits sum.splits if_splits) metis
qed

text \<open>A release 0.2.0 whose manifest is signed, in a model of the libraries.\<close>

definition demo_entry :: artifact_entry where
  "demo_entry = \<lparr>ar_target = ''x86_64-unknown-linux-gnu'', ar_sha256 = ''6162'', ar_url = ''u''\<rparr>"

definition demo_update :: "string \<Rightarrow> string \<Rightarrow> update_env" where
  "demo_update tag version =
     \<lparr>up_pubkey_hex = None, up_client = None,
      up_get = (\<lambda>url. Ok \<lparr>rp_status_error = None,
         rp_body = Ok (if url = RELEASES_API @ ''/latest'' then ''release'' else if url = ''u'' then ''ab'' else ''manifest'')\<rparr>),
      up_json = (\<lambda>b. Ok (if b = ''release'' then JObj [(''tag_name'', JStr tag)]
         else JObj [(''signature'', JStr (replicate 128 (CHR ''0'')))])),
      up_to_vec = (\<lambda>_. ''canonical''),
      up_manifest = (\<lambda>_. Ok \<lparr>mf_version = version, mf_published_at = [], mf_artifacts = [(''linux'', demo_entry)],
         mf_signature = []\<rparr>),
      up_key_ok = (\<lambda>_. True), up_sig_ok = (\<lambda>_. True), up_verify_strict = (\<lambda>k m s. m = ''canonical''),
      up_sha256 = take 2, up_os = ''linux'', up_arch = ''x86_64''\<rparr>"

definition empty_disk :: host_fs where
  "empty_disk = \<lparr>nodes = [], cwd = [RootDir], deny_read = (\<lambda>_. False), deny_write = (\<lambda>_. False),
     disk_fault = (\<lambda>_. None)\<rparr>"

theorem update_is_signed_and_hashed_witness:
  "let E = demo_update ''v0.2.0'' ''0.2.0'' in
   check_for_update E ''0.1.9'' = UpdateAvailable ''0.2.0'' demo_entry \<and>
   (\<exists>content fs'. download_and_verify E empty_disk demo_entry [RootDir, Normal ''bin''] = (Ok (), fs') \<and>
      hex_decode (ar_sha256 demo_entry) = Some (up_sha256 E content) \<and>
      fs_write empty_disk [RootDir, Normal ''bin''] content = Ok fs')"
proof -
  let ?E = "demo_update ''v0.2.0'' ''0.2.0''"
  have c: "check_for_update ?E ''0.1.9'' = UpdateAvailable ''0.2.0'' demo_entry" by code_simp
  obtain r fs' where d: "download_and_verify ?E empty_disk demo_entry [RootDir, Normal ''bin''] = (r, fs')"
    by fastforce
  have "is_ok (fst (download_and_verify ?E empty_disk demo_entry [RootDir, Normal ''bin'']))" by code_simp
  with d have "r = Ok ()" by (cases r) auto
  with update_is_signed_and_hashed [OF c] c d show ?thesis unfolding Let_def by fastforce
qed

text \<open>
  The update test is the strict order of version numbers. \<open>is_newer_version\<close> holds exactly
  when both texts are dotted numbers and the first is less than the second at the first place
  where the zero-padded sequences differ; so nothing is newer than itself, the relation is
  transitive, and text that is not a version never triggers an update.
\<close>

lemma newer_version_strict_order:
  "(is_newer_version u v \<longleftrightarrow>
      (\<exists>a b. version_parts u = Some a \<and> version_parts v = Some b \<and> version_less a b)) \<and>
   \<not> is_newer_version u u \<and>
   (is_newer_version u v \<longrightarrow> is_newer_version v w \<longrightarrow> is_newer_version u w)"
proof -
  have eq: "is_newer_version x y \<longleftrightarrow>
      (\<exists>a b. version_parts x = Some a \<and> version_parts y = Some b \<and> version_less a b)" for x y
    by (auto simp: is_newer_version_def newer_scan_less split: option.splits)
  then show ?thesis using version_less_irrefl version_less_trans by fastforce
qed

lemma newer_version_strict_order_witness:
  "is_newer_version ''0.1.9'' ''0.1.21'' \<and> is_newer_version ''v0.1.21'' ''0.2'' \<and> is_newer_version ''0.1.9'' ''0.2'' \<and>
   \<not> is_newer_version ''1.2'' ''1.2.0'' \<and> \<not> is_newer_version ''dev'' ''0.1.22''"
proof -
  have "is_newer_version ''0.1.9'' ''0.1.21''" "is_newer_version ''v0.1.21'' ''0.2''"
    "is_newer_version ''0.1.21'' ''0.2''" "\<not> is_newer_version ''1.2'' ''1.2.0''"
    "\<not> is_newer_version ''dev'' ''0.1.22''"
    by code_simp+
  then show ?thesis using newer_version_strict_order [of "''0.1.9''" "''0.1.21''" "''0.2''"] by blast
qed

section \<open>What the check does not do\<close>

text \<open>
  The version inside the signed manifest is compared with nothing: an old manifest with a
  valid signature, served under a newer tag, is offered as an update. No field of the
  manifest asks for a downgrade.
\<close>

lemma signed_old_manifest_is_offered:
  "check_for_update (demo_update ''v9.9.9'' ''0.1.0'') ''0.1.9'' = UpdateAvailable ''0.1.0'' demo_entry \<and>
   is_newer_version ''0.1.0'' ''0.1.9''"
  by (intro conjI; code_simp)

text \<open>
  The destination is written in place: on a device that fills up, the binary that was there is
  lost and a truncated one is left.
\<close>

lemma full_device_damages_binary:
  "let old = empty_disk\<lparr>nodes := [([RootDir, Normal ''bin''], FileNode ''old'')], disk_fault := (\<lambda>_. Some 1)\<rparr>;
       run = download_and_verify (demo_update ''v0.2.0'' ''0.2.0'') old demo_entry [RootDir, Normal ''bin'']
   in fst run = Err (Io NO_SPACE) \<and> node_at (snd run) [RootDir, Normal ''bin''] = Some (FileNode ''a'')"
  by code_simp

text \<open>An answer of the release service without a tag, such as an error object, reads as up to date.\<close>

lemma tagless_release_is_up_to_date:
  assumes "up_client E = None" and "up_get E (RELEASES_API @ ''/latest'') = Ok resp"
    and "rp_body resp = Ok b" and "up_json E b = Ok v" and "json_get v ''tag_name'' = None"
  shows "check_for_update E current = UpToDate"
proof -
  have "latest_of_tag v = ''unknown''" using assms(5) by (simp add: latest_of_tag_def strip_prefix_def starts_with_def)
  moreover have "version_parts ''unknown'' = None" by code_simp
  ultimately show ?thesis
    using assms by (simp add: check_for_update_def is_newer_version_def Let_def split: option.split)
qed

end
