(* ===== verification/Pairing.thy ===== *)
theory Pairing
  imports Text_Scan Daemon_Error Protocol
begin

text \<open>
  \<open>daemon-core/src/pairing.rs\<close>: the exchange of a pairing code for a device token. What the
  exchange does to the outside is the list of its effects, in order; the HTTP exchange and the
  token store are parameters (record \<open>pairing_env\<close>).
\<close>

section \<open>State and parameters\<close>

record pair_request =
  pq_code :: string
  pq_pairing_id :: "string option"
  pq_device_kind :: string
  pq_device_name :: string
  pq_fingerprint :: string
  pq_desired_scopes :: "string list"

record pair_data =
  pd_device_id :: string
  pd_token :: string
  pd_token_expires_at :: string
  pd_ws_url :: string
  pd_scopes :: scopes

record pair_response =
  pr_success :: bool
  pr_data :: pair_data

text \<open>An answer: its status as printed, whether it is a success, its text and its decoding.\<close>

record pair_answer =
  pa_status :: string
  pa_is_success :: bool
  pa_text :: string
  pa_json :: "(string, pair_response) res"

record pairing_env =
  pe_probe :: "(daemon_error, unit) res"
  pe_post :: "string \<Rightarrow> pair_request \<Rightarrow> (string, pair_answer) res"
  pe_save :: "string \<Rightarrow> string \<Rightarrow> (daemon_error, unit) res"

datatype pair_effect = ProbeStore | PostTo string pair_request | SaveToken string string

section \<open>The backend's address\<close>

definition i_acute :: string where "i_acute = [CHR 0xC3, CHR 0xAD]"
definition a_acute :: string where "a_acute = [CHR 0xC3, CHR 0xA1]"

definition loopback_host :: "string \<Rightarrow> bool" where
  "loopback_host h = (h = ''localhost'' \<or> h = ''127.0.0.1'' \<or> h = ''::1'' \<or> h = ''[::1]'')"

definition authority_of :: "string \<Rightarrow> string" where
  "authority_of rest = hd (split_on (CHR ''/'') rest)"

definition host_of :: "string \<Rightarrow> string" where
  "host_of authority = hd (split_on (CHR '':'') authority)"

definition validate_backend_url :: "string \<Rightarrow> (string, unit) res" where
  "validate_backend_url backend =
     (let b = str_trim backend in
      if b = [] then Err (''backend vac'' @ i_acute @ ''o'')
      else
        (case split_once ''://'' (to_ascii_lowercase b) of
           None \<Rightarrow> Err (''backend sin esquema v'' @ a_acute @ ''lido: '' @ b)
         | Some (scheme, rest) \<Rightarrow>
             if \<not> (scheme = ''https'' \<or> scheme = ''wss'' \<or> scheme = ''http'' \<or> scheme = ''ws'')
             then Err (''esquema no permitido en backend: '' @ b)
             else
               let authority = authority_of rest in
               if authority = [] then Err (''backend sin host: '' @ b)
               else if CHR 0x40 \<in> set authority then Err (''backend con userinfo no permitido: '' @ b)
               else if (scheme = ''http'' \<or> scheme = ''ws'') \<and> \<not> loopback_host (host_of authority)
               then Err (''http/ws solo permitido en loopback: '' @ b)
               else if has_control b \<or> CHR '' '' \<in> set b
               then Err (''backend con caracteres inv'' @ a_acute @ ''lidos: '' @ b)
               else Ok ()))"

definition to_ws_scheme :: "string \<Rightarrow> string" where
  "to_ws_scheme s = str_replace (str_replace s ''https://'' ''wss://'') ''http://'' ''ws://''"

definition is_ws_url :: "string \<Rightarrow> bool" where
  "is_ws_url s = (starts_with s ''ws://'' \<or> starts_with s ''wss://'')"

definition ws_endpoint_for_origin :: "string \<Rightarrow> string \<Rightarrow> string" where
  "ws_endpoint_for_origin backend_origin ws_path =
     (if is_ws_url ws_path then ws_path
      else if is_ws_url backend_origin then backend_origin
      else
        let trimmed = trim_end_char (CHR ''/'') backend_origin in
        if ends_with trimmed ws_path then to_ws_scheme trimmed
        else to_ws_scheme trimmed @ ws_path)"

section \<open>The exchange\<close>

definition default_scopes :: "string list" where
  "default_scopes =
     [''desktop.shell.execute'', ''desktop.fs.read'', ''desktop.fs.write'', ''desktop.fs.delete'',
      ''desktop.fs.verify'', ''desktop.fs.list'', ''desktop.fs.watch'', ''desktop.process.list'',
      ''desktop.process.kill'', ''desktop.network.fetch'', ''sync.chat.push'']"

fun add_scopes :: "string list \<Rightarrow> string list \<Rightarrow> string list" where
  "add_scopes have [] = have"
| "add_scopes have (c # cs) = add_scopes (if c \<in> set have then have else have @ [c]) cs"

definition with_default_scopes :: "pair_request \<Rightarrow> pair_request" where
  "with_default_scopes req =
     (if pq_device_kind req = ''desktop''
      then req\<lparr>pq_desired_scopes := add_scopes (pq_desired_scopes req) default_scopes\<rparr> else req)"

definition complete :: "pairing_env \<Rightarrow> string \<Rightarrow> pair_request \<Rightarrow> (daemon_error, pair_response) res \<times> pair_effect list" where
  "complete env backend req0 =
     (case validate_backend_url backend of
        Inl e \<Rightarrow> (Err (Protocol e), [])
      | Inr _ \<Rightarrow>
     (case pe_probe env of
        Inl e \<Rightarrow> (Err e, [ProbeStore])
      | Inr _ \<Rightarrow>
          let req = with_default_scopes req0;
              url = trim_end_char (CHR ''/'') backend @ ''/api/devices/pair/complete'';
              done1 = [ProbeStore, PostTo url req] in
     (case pe_post env url req of
        Inl e \<Rightarrow> (Err (Protocol (''pair/complete http: '' @ e)), done1)
      | Inr answer \<Rightarrow>
          if \<not> pa_is_success answer
          then (Err (Protocol (''pair/complete '' @ pa_status answer @ '': '' @ pa_text answer)), done1)
          else
     (case pa_json answer of
        Inl e \<Rightarrow> (Err (Protocol (''pair/complete decode: '' @ e)), done1)
      | Inr body \<Rightarrow>
          let ws_url = ws_endpoint_for_origin backend (pd_ws_url (pr_data body));
              done2 = done1 @ [SaveToken (pd_device_id (pr_data body)) (pd_token (pr_data body))] in
     (case pe_save env (pd_device_id (pr_data body)) (pd_token (pr_data body)) of
        Inl e \<Rightarrow> (Err e, done2)
      | Inr _ \<Rightarrow>
          (Ok \<lparr>pr_success = pr_success body, pr_data = (pr_data body)\<lparr>pd_ws_url := ws_url\<rparr>\<rparr>, done2))))))"

text \<open>The fingerprint's digest: the three parts joined by bars.\<close>

definition fingerprint_hash :: "(bytes \<Rightarrow> string) \<Rightarrow> string \<Rightarrow> string \<Rightarrow> string \<Rightarrow> string" where
  "fingerprint_hash sha_hex hostname os machine_id = sha_hex (hostname @ ''|'' @ os @ ''|'' @ machine_id)"

section \<open>Lemmas\<close>

lemma add_scopes_grow: "\<exists>extra. add_scopes base cs = base @ extra \<and> set extra \<subseteq> set cs \<and> set cs \<subseteq> set (base @ extra)"
proof (induction cs arbitrary: base)
  case (Cons c cs)
  from Cons.IH [of "if c \<in> set base then base else base @ [c]"] show ?case
    by (auto split: if_splits)
qed simp

lemma str_replace_skip: "p \<noteq> [] \<Longrightarrow> \<not> starts_with (c # s) p \<Longrightarrow> str_replace (c # s) p r = c # str_replace s p r"
  by (subst str_replace.simps) simp

lemma str_replace_here: "p \<noteq> [] \<Longrightarrow> str_replace (p @ s) p r = r @ str_replace s p r"
  by (subst str_replace.simps) simp

lemma to_ws_scheme_http: "to_ws_scheme (''http://'' @ s) = ''ws://'' @ to_ws_scheme s"
proof -
  have "str_replace (''http://'' @ s) ''https://'' ''wss://'' = ''http://'' @ str_replace s ''https://'' ''wss://''"
    by (simp add: str_replace_skip starts_with_def)
  then show ?thesis
    using str_replace_here [of "''http://''"] by (simp only: to_ws_scheme_def) simp
qed

lemma to_ws_scheme_https: "to_ws_scheme (''https://'' @ s) = ''wss://'' @ to_ws_scheme s"
proof -
  have "str_replace (''https://'' @ s) ''https://'' ''wss://'' = ''wss://'' @ str_replace s ''https://'' ''wss://''"
    using str_replace_here [of "''https://''" s "''wss://''"] by simp
  then show ?thesis
    by (simp only: to_ws_scheme_def) (simp add: str_replace_skip starts_with_def)
qed

lemma trim_end_char_keeps: "x \<noteq> c \<Longrightarrow> trim_end_char c (a @ x # s) = a @ x # trim_end_char c s"
  by (simp add: trim_end_char_def dropWhile_append)

text \<open>What a validated address guarantees.\<close>

definition trusted_backend :: "string \<Rightarrow> bool" where
  "trusted_backend backend \<longleftrightarrow>
     (\<exists>scheme rest. split_once ''://'' (to_ascii_lowercase (str_trim backend)) = Some (scheme, rest) \<and>
        authority_of rest \<noteq> [] \<and> CHR 0x40 \<notin> set (authority_of rest) \<and>
        (scheme \<in> {''https'', ''wss''} \<or>
         scheme \<in> {''http'', ''ws''} \<and> loopback_host (host_of (authority_of rest)))) \<and>
     \<not> has_control (str_trim backend) \<and> CHR '' '' \<notin> set (str_trim backend)"

lemma validate_backend_trusted: "validate_backend_url backend = Ok u \<Longrightarrow> trusted_backend backend"
  by (auto simp: validate_backend_url_def trusted_backend_def Let_def split: if_splits option.splits)

section \<open>Properties\<close>

text \<open>
  C28. Pairing talks to trusted backends only, and in order. Nothing leaves the machine unless the
  address passed the check (an https or wss address, or http or ws to a loopback host, without
  user information, control characters or spaces) and the token store answered a probe first;
  then at most one request is sent, to that backend, carrying the code; for a desktop it asks
  for every default capability besides the ones the caller asked for. A token is saved only
  after a success answer, as the last effect, and it is the token of that answer.
\<close>

theorem pairing_effects_in_order:
  assumes "complete env backend req = (r, es)"
  shows "es = [] \<or> es = [ProbeStore] \<or>
    trusted_backend backend \<and> pe_probe env = Ok () \<and>
    (let url = trim_end_char (CHR ''/'') backend @ ''/api/devices/pair/complete'';
         q = with_default_scopes req in
     pq_code q = pq_code req \<and> set (pq_desired_scopes req) \<subseteq> set (pq_desired_scopes q) \<and>
     (pq_device_kind req = ''desktop'' \<longrightarrow> set default_scopes \<subseteq> set (pq_desired_scopes q)) \<and>
     (es = [ProbeStore, PostTo url q] \<or>
      (\<exists>answer body. pe_post env url q = Ok answer \<and> pa_is_success answer \<and> pa_json answer = Ok body \<and>
         es = [ProbeStore, PostTo url q, SaveToken (pd_device_id (pr_data body)) (pd_token (pr_data body))])))"
proof -
  obtain extra where "add_scopes (pq_desired_scopes req) default_scopes = pq_desired_scopes req @ extra"
    "set default_scopes \<subseteq> set (pq_desired_scopes req @ extra)"
    using add_scopes_grow [of "pq_desired_scopes req" default_scopes] by blast
  then have "pq_code (with_default_scopes req) = pq_code req"
    "set (pq_desired_scopes req) \<subseteq> set (pq_desired_scopes (with_default_scopes req))"
    "pq_device_kind req = ''desktop'' \<longrightarrow> set default_scopes \<subseteq> set (pq_desired_scopes (with_default_scopes req))"
    by (auto simp: with_default_scopes_def)
  with assms validate_backend_trusted [of backend] show ?thesis
    by (auto simp: complete_def Let_def split: sum.splits if_splits)
qed

definition demo_pair_request :: pair_request where
  "demo_pair_request = \<lparr>pq_code = ''ABCDEF'', pq_pairing_id = None, pq_device_kind = ''desktop'',
     pq_device_name = ''pc'', pq_fingerprint = ''f'', pq_desired_scopes = [''memory.read'']\<rparr>"

definition demo_pairing :: pairing_env where
  "demo_pairing =
     \<lparr>pe_probe = Ok (),
      pe_post = (\<lambda>_ _. Ok \<lparr>pa_status = ''200 OK'', pa_is_success = True, pa_text = [],
        pa_json = Ok \<lparr>pr_success = True, pr_data = \<lparr>pd_device_id = ''d1'', pd_token = ''t1'',
          pd_token_expires_at = [], pd_ws_url = ''/api/devices/ws'',
          pd_scopes = \<lparr>sc_capabilities = [], sc_always_allow_paths = []\<rparr>\<rparr>\<rparr>\<rparr>),
      pe_save = (\<lambda>_ _. Ok ())\<rparr>"

theorem pairing_effects_in_order_witness:
  "length (snd (complete demo_pairing ''https://synthhires.com/'' demo_pair_request)) = 3 \<and>
   trusted_backend ''https://synthhires.com/'' \<and>
   snd (complete demo_pairing ''http://evil.com'' demo_pair_request) = []"
proof -
  obtain r es where c: "complete demo_pairing ''https://synthhires.com/'' demo_pair_request = (r, es)" by fastforce
  have "length (snd (complete demo_pairing ''https://synthhires.com/'' demo_pair_request)) = 3" by code_simp
  moreover have "snd (complete demo_pairing ''http://evil.com'' demo_pair_request) = []" by code_simp
  ultimately show ?thesis using pairing_effects_in_order [OF c] c by auto
qed

text \<open>
  The dialled endpoint is a WebSocket address with exactly one path suffix. For an http or
  https origin with a host, the endpoint starts with ws or wss, and running a saved endpoint
  through the function again, as every later start of the daemon does, changes nothing.
\<close>

lemma ws_endpoint_idempotent:
  assumes "origin = scheme @ c # t" and "scheme = ''http://'' \<or> scheme = ''https://''" and "c \<noteq> CHR ''/''"
  shows "is_ws_url (ws_endpoint_for_origin origin ws_path) \<and>
    ws_endpoint_for_origin (ws_endpoint_for_origin origin ws_path) ws_path = ws_endpoint_for_origin origin ws_path"
proof (cases "is_ws_url ws_path")
  case True
  then show ?thesis by (simp add: ws_endpoint_for_origin_def)
next
  case False
  have "\<not> is_ws_url origin" using assms(1,2) by (auto simp: is_ws_url_def starts_with_def)
  moreover have "trim_end_char (CHR ''/'') origin = scheme @ c # trim_end_char (CHR ''/'') t"
    using assms(1,3) by (simp add: trim_end_char_keeps)
  moreover have "is_ws_url (to_ws_scheme (scheme @ s) @ u)" for s u
    using assms(2) by (auto simp: to_ws_scheme_http to_ws_scheme_https is_ws_url_def starts_with_def
        simp del: append_Cons)
  moreover from this [of _ "[]"] have "is_ws_url (to_ws_scheme (scheme @ s))" for s by simp
  ultimately have "is_ws_url (ws_endpoint_for_origin origin ws_path)"
    using False by (simp add: ws_endpoint_for_origin_def Let_def)
  with False show ?thesis by (simp add: ws_endpoint_for_origin_def)
qed

lemma ws_endpoint_idempotent_witness:
  "let e = ws_endpoint_for_origin ''http://host/'' ''/api/devices/ws'' in
   e = ''ws://host/api/devices/ws'' \<and> ws_endpoint_for_origin e ''/api/devices/ws'' = e"
proof -
  have "ws_endpoint_for_origin ''http://host/'' ''/api/devices/ws'' = ''ws://host/api/devices/ws''" by code_simp
  then show ?thesis
    using ws_endpoint_idempotent [of "''http://host/''" "''http://''" "CHR ''h''" "''ost/''" "''/api/devices/ws''"]
    by (simp add: Let_def)
qed

section \<open>What the checks do not do\<close>

text \<open>
  The check ignores the case of the scheme, the conversion does not: an accepted address
  can give an endpoint that is no WebSocket address.
\<close>

lemma uppercase_scheme_gives_no_ws_endpoint:
  "validate_backend_url ''HTTPS://host'' = Ok () \<and>
   ws_endpoint_for_origin ''HTTPS://host'' ''/api/devices/ws'' = ''HTTPS://host/api/devices/ws''"
  by (intro conjI; code_simp)

text \<open>The IPv6 loopback of the host list can never match, since the host ends at the first colon.\<close>

lemma ipv6_loopback_refused: "\<not> is_ok (validate_backend_url ''http://[::1]:8788'')"
  by code_simp

text \<open>A port that is no number is accepted.\<close>

lemma malformed_port_accepted: "validate_backend_url ''http://localhost:port'' = Ok ()"
  by code_simp

end
