(* ===== verification/System_Ops.thy ===== *)
theory System_Ops
  imports Text_Scan Daemon_Error
begin

text \<open>
  \<open>daemon-core/src/system_ops.rs\<close>, the Unix build: process listing and termination, the network
  fetch and the file watch. \<open>se_reach\<close> tells which processes \<open>kill -TERM\<close> with a given operand
  signals. The programs \<open>ps\<close> and \<open>kill\<close>, the HTTP client, the URL parser, the
  watcher and Unicode lower-casing are parameters (record \<open>system_env\<close>).
\<close>

section \<open>Parameters\<close>

record url_parts =
  u_scheme :: string
  u_host :: "string option"

record command_output =
  co_success :: bool
  co_status :: string
  co_stdout :: bytes

record net_response =
  nr_status :: nat
  nr_headers :: "(string \<times> string) list"
  nr_chunks :: "(string, bytes) res list"

datatype watch_recv = WatchEvent string "string list" | WatchError string | WatchEnd

record system_env =
  se_ps :: "(io_error, command_output) res"
  se_kill :: "nat \<Rightarrow> (io_error, bool) res"
  se_reach :: "nat \<Rightarrow> nat set"
  se_own_pid :: nat
  se_lower :: "string \<Rightarrow> string"
  se_url :: "string \<Rightarrow> (string, url_parts) res"
  se_method_ok :: "string \<Rightarrow> string option"
  se_header_ok :: "string \<Rightarrow> string \<Rightarrow> string option"
  se_client :: "nat \<Rightarrow> string option"
  se_send :: "string \<Rightarrow> string \<Rightarrow> (string \<times> string) list \<Rightarrow> string option \<Rightarrow> (string, net_response) res"

section \<open>Processes\<close>


record process_info =
  pi_pid :: nat
  pi_name :: string
  pi_command :: string

definition parse_process_line :: "string \<Rightarrow> process_info option" where
  "parse_process_line line =
     (case split_whitespace line of
        pid # name # rest \<Rightarrow>
          (case parse_unsigned 32 pid of
             Some n \<Rightarrow> Some \<lparr>pi_pid = n, pi_name = name, pi_command = str_join '' '' rest\<rparr>
           | None \<Rightarrow> None)
      | _ \<Rightarrow> None)"

definition matches_query :: "(string \<Rightarrow> string) \<Rightarrow> string \<Rightarrow> process_info \<Rightarrow> bool" where
  "matches_query lower query p =
     (query = [] \<or> str_contains (lower (pi_name p @ '' '' @ pi_command p)) query)"

fun collect_processes :: "(string \<Rightarrow> string) \<Rightarrow> string \<Rightarrow> nat \<Rightarrow> process_info list \<Rightarrow> string list \<Rightarrow> process_info list" where
  "collect_processes lower query limit got [] = got"
| "collect_processes lower query limit got (l # ls) =
     (case parse_process_line l of
        None \<Rightarrow> collect_processes lower query limit got ls
      | Some p \<Rightarrow>
          if \<not> matches_query lower query p then collect_processes lower query limit got ls
          else if length (got @ [p]) \<ge> limit then got @ [p]
          else collect_processes lower query limit (got @ [p]) ls)"








section \<open>Network fetch\<close>

definition MAX_FETCH_BYTES :: nat where "MAX_FETCH_BYTES = 2 * 1024 * 1024"

definition is_cloud_metadata_host :: "string \<Rightarrow> bool" where
  "is_cloud_metadata_host host =
     (let h = trim_end_char (CHR ''.'') (trim_end_char (CHR 0x5D) (trim_start_char (CHR 0x5B) (to_ascii_lowercase host))) in
      h = ''169.254.169.254'' \<or> h = ''fd00:ec2::254'' \<or> h = ''100.100.100.200'' \<or>
      h = ''metadata.google.internal'' \<or> h = ''168.63.129.16'')"

record network_request =
  nq_url :: string
  nq_method :: string
  nq_headers :: "(string \<times> string) list"
  nq_body :: "string option"
  nq_timeout_ms :: "nat option"
  nq_max_bytes :: "nat option"

record network_result =
  nt_status :: nat
  nt_headers :: "(string \<times> string) list"
  nt_body :: string
  nt_bytes :: nat
  nt_truncated :: bool

text \<open>The first header that is refused ends the check; the parameter's text says which part of it.\<close>

fun check_headers :: "system_env \<Rightarrow> (string \<times> string) list \<Rightarrow> (daemon_error, unit) res" where
  "check_headers E [] = Ok ()"
| "check_headers E ((n, v) # hs) =
     (case se_header_ok E n v of
        Some e \<Rightarrow> Err (Protocol (''invalid header '' @ e))
      | None \<Rightarrow> check_headers E hs)"

fun read_body :: "nat \<Rightarrow> bytes \<Rightarrow> (string, bytes) res list \<Rightarrow> (daemon_error, bytes \<times> bool) res" where
  "read_body max_bytes got [] = Ok (got, False)"
| "read_body max_bytes got (chunk # rest) =
     (case chunk of
        Inl e \<Rightarrow> Err (Protocol (''network body: '' @ e))
      | Inr c \<Rightarrow>
          let remaining = max_bytes - length got in
          if length c > remaining then Ok (got @ take remaining c, True)
          else if length (got @ c) \<ge> max_bytes then Ok (got @ c, True)
          else read_body max_bytes (got @ c) rest)"

definition fetch_network :: "system_env \<Rightarrow> network_request \<Rightarrow> (daemon_error, network_result) res" where
  "fetch_network E req =
     (case se_url E (nq_url req) of
        Inl e \<Rightarrow> Err (Protocol (''invalid url: '' @ e))
      | Inr parsed \<Rightarrow>
          if \<not> (u_scheme parsed = ''http'' \<or> u_scheme parsed = ''https'')
          then Err (Protocol ''only http and https are supported'')
          else if is_cloud_metadata_host (case u_host parsed of Some h \<Rightarrow> h | None \<Rightarrow> [])
          then Err (Protocol ''cloud metadata endpoints are blocked'')
          else
            let timeout_ms = clamp 100 120000 (case nq_timeout_ms req of Some t \<Rightarrow> t | None \<Rightarrow> 30000);
                max_bytes = clamp 1 MAX_FETCH_BYTES (case nq_max_bytes req of Some m \<Rightarrow> m | None \<Rightarrow> MAX_FETCH_BYTES) in
            (case se_method_ok E (nq_method req) of
               Some e \<Rightarrow> Err (Protocol (''invalid method: '' @ e))
             | None \<Rightarrow>
                 try_bind (check_headers E (nq_headers req)) (\<lambda>_.
                 case se_client E timeout_ms of
                   Some e \<Rightarrow> Err (Protocol (''http client: '' @ e))
                 | None \<Rightarrow>
                     (case se_send E (nq_url req) (nq_method req) (nq_headers req) (nq_body req) of
                        Inl e \<Rightarrow> Err (Protocol (''network fetch: '' @ e))
                      | Inr response \<Rightarrow>
                          try_bind (read_body max_bytes [] (nr_chunks response)) (\<lambda>(got, truncated).
                            Ok \<lparr>nt_status = nr_status response, nt_headers = nr_headers response,
                                nt_body = from_utf8_lossy got, nt_bytes = length got,
                                nt_truncated = truncated\<rparr>)))))"

section \<open>File watch\<close>

definition MAX_WATCH_DURATION_MS :: nat where "MAX_WATCH_DURATION_MS = 120000"

definition watch_duration :: "nat option \<Rightarrow> nat" where
  "watch_duration d = clamp 100 MAX_WATCH_DURATION_MS (case d of Some n \<Rightarrow> n | None \<Rightarrow> 10000)"

record watch_request =
  fw_path :: path
  fw_duration_ms :: "nat option"
  fw_recursive :: bool

text \<open>
  The receive loop: what each receive returns and the time since the start at which it does. A
  receive that starts past the deadline does not happen.
\<close>

fun watch_loop :: "nat \<Rightarrow> nat \<Rightarrow> (string \<times> string list) list \<Rightarrow> (nat \<times> watch_recv) list \<Rightarrow>
    (daemon_error, (string \<times> string list) list) res" where
  "watch_loop duration now events [] = Ok events"
| "watch_loop duration now events ((t, r) # rs) =
     (if now \<ge> duration then Ok events
      else (case r of
              WatchEvent kind paths \<Rightarrow> watch_loop duration t (events @ [(kind, paths)]) rs
            | WatchError e \<Rightarrow> Err (Protocol (''watch event: '' @ e))
            | WatchEnd \<Rightarrow> Ok events))"

text \<open>
  The watch: the parameter makes the watcher on the path (its error says which step failed) and
  gives the receives and the time that had passed at the end.
\<close>

definition watch_filesystem ::
    "(path \<Rightarrow> bool \<Rightarrow> (string, (nat \<times> watch_recv) list \<times> nat) res) \<Rightarrow> watch_request \<Rightarrow>
     (daemon_error, (string \<times> string list) list \<times> nat) res" where
  "watch_filesystem watcher req =
     (case watcher (fw_path req) (fw_recursive req) of
        Inl e \<Rightarrow> Err (Protocol e)
      | Inr (receives, elapsed) \<Rightarrow>
          try_bind (watch_loop (watch_duration (fw_duration_ms req)) 0 [] receives) (\<lambda>events.
            Ok (events, elapsed)))"

section \<open>Lemmas\<close>

lemma collect_processes_grows:
  "\<exists>more. collect_processes lower query limit got ls = got @ more \<and>
     list_all (matches_query lower query) more \<and>
     (length got < limit \<longrightarrow> length (got @ more) \<le> limit)"
proof (induction ls arbitrary: got)
  case (Cons l ls)
  show ?case
  proof (cases "parse_process_line l")
    case None
    with Cons show ?thesis by simp
  next
    case (Some p)
    show ?thesis
    proof (cases "matches_query lower query p \<and> length (got @ [p]) < limit")
      case True
      from Cons.IH [of "got @ [p]"] obtain more where
        m: "collect_processes lower query limit (got @ [p]) ls = got @ p # more"
          "list_all (matches_query lower query) more" "length (got @ p # more) \<le> limit"
        using True by auto
      show ?thesis
        using Some True m by (intro exI [of _ "p # more"]) simp
    next
      case False
      with Some Cons.IH [of got] show ?thesis by (cases "matches_query lower query p") auto
    qed
  qed
qed simp



text \<open>The bytes a response would deliver in full.\<close>

fun body_bytes :: "(string, bytes) res list \<Rightarrow> bytes" where
  "body_bytes [] = []"
| "body_bytes (Inl e # cs) = body_bytes cs"
| "body_bytes (Inr b # cs) = b @ body_bytes cs"

lemma read_body_exact:
  "read_body m got cs = Ok (r, t) \<Longrightarrow> length got < m \<Longrightarrow>
   r = take m (got @ body_bytes cs) \<and> (t \<longleftrightarrow> m \<le> length (got @ body_bytes cs))"
proof (induction cs arbitrary: got)
  case (Cons c cs)
  from Cons.prems(1) obtain b where c: "c = Inr b" by (cases c) auto
  consider "length b > m - length got" | "length b \<le> m - length got" "length (got @ b) \<ge> m"
    | "length (got @ b) < m"
    using Cons.prems(2) by fastforce
  then show ?case
  proof cases
    case 1
    with Cons.prems c show ?thesis by auto
  next
    case 2
    with Cons.prems c have "r = got @ b" "t" by (auto simp: Let_def not_less [symmetric])
    moreover have "length (got @ b) = m" using 2 Cons.prems(2) by simp
    ultimately show ?thesis using c by simp
  next
    case 3
    with Cons.prems c have "read_body m (got @ b) cs = Ok (r, t)"
      by (auto simp: Let_def split: if_splits)
    from Cons.IH [OF this 3] c show ?thesis by simp
  qed
qed auto

section \<open>Properties\<close>


definition demo_ps :: command_output where
  "demo_ps = \<lparr>co_success = True, co_status = [],
     co_stdout = '' 7 n a'' @ [CHR 0x0A] @ ''8 n d'' @ [CHR 0x0A] @ ''9 b l''\<rparr>"

definition demo_system :: "(string, bytes) res list \<Rightarrow> system_env" where
  "demo_system chunks =
     \<lparr>se_ps = Ok demo_ps,
      se_kill = (\<lambda>_. Ok True), se_reach = (\<lambda>n. if n = 0 then {1, 8} else {n}), se_own_pid = 8, se_lower = to_ascii_lowercase,
      se_url = (\<lambda>u. Ok \<lparr>u_scheme = ''https'', u_host = Some u\<rparr>), se_method_ok = (\<lambda>_. None),
      se_header_ok = (\<lambda>_ _. None), se_client = (\<lambda>_. None),
      se_send = (\<lambda>_ _ _ _. Ok \<lparr>nr_status = 200, nr_headers = [], nr_chunks = chunks\<rparr>)\<rparr>"


text \<open>
  A fetch returns exactly the allowed beginning of the body. A successful fetch went to an
  http or https address whose host is none of the cloud metadata hosts; the body it returns is
  the response's bytes cut at the requested limit, which lies between 1 and 2 MiB, the
  reported length is theirs, and the flag says whether the limit was reached.
\<close>

lemma fetch_bounded_exact:
  assumes "fetch_network E req = Ok res"
  shows "\<exists>parsed response.
    se_url E (nq_url req) = Ok parsed \<and> (u_scheme parsed = ''http'' \<or> u_scheme parsed = ''https'') \<and>
    \<not> is_cloud_metadata_host (case u_host parsed of Some h \<Rightarrow> h | None \<Rightarrow> []) \<and>
    se_send E (nq_url req) (nq_method req) (nq_headers req) (nq_body req) = Ok response \<and>
    (let limit = clamp 1 MAX_FETCH_BYTES (case nq_max_bytes req of Some m \<Rightarrow> m | None \<Rightarrow> MAX_FETCH_BYTES);
         content = body_bytes (nr_chunks response) in
     1 \<le> limit \<and> limit \<le> MAX_FETCH_BYTES \<and> nt_body res = from_utf8_lossy (take limit content) \<and>
     nt_bytes res = min limit (length content) \<and> (nt_truncated res \<longleftrightarrow> limit \<le> length content))"
proof -
  let ?limit = "clamp 1 MAX_FETCH_BYTES (case nq_max_bytes req of Some m \<Rightarrow> m | None \<Rightarrow> MAX_FETCH_BYTES)"
  from assms obtain parsed response got t where f: "se_url E (nq_url req) = Ok parsed"
    "u_scheme parsed = ''http'' \<or> u_scheme parsed = ''https''"
    "\<not> is_cloud_metadata_host (case u_host parsed of Some h \<Rightarrow> h | None \<Rightarrow> [])"
    "se_send E (nq_url req) (nq_method req) (nq_headers req) (nq_body req) = Ok response"
    "read_body ?limit [] (nr_chunks response) = Ok (got, t)"
    "nt_body res = from_utf8_lossy got" "nt_bytes res = length got" "nt_truncated res = t"
    by (auto simp: fetch_network_def Let_def try_bind_Inr split: sum.splits option.splits if_splits)
  have l: "1 \<le> ?limit" "?limit \<le> MAX_FETCH_BYTES"
    using clamp_bounds [of 1 MAX_FETCH_BYTES] by (simp_all add: MAX_FETCH_BYTES_def)
  from read_body_exact [OF f(5)] l(1) have "got = take ?limit (body_bytes (nr_chunks response))"
    "t \<longleftrightarrow> ?limit \<le> length (body_bytes (nr_chunks response))" by auto
  with f l show ?thesis unfolding Let_def by auto
qed

definition demo_fetch :: network_request where
  "demo_fetch = \<lparr>nq_url = ''example.org'', nq_method = ''GET'', nq_headers = [], nq_body = None,
     nq_timeout_ms = None, nq_max_bytes = Some 3\<rparr>"

lemma fetch_bounded_exact_witness:
  "let E = demo_system [Ok ''ab'', Ok ''cd''] in
   \<exists>res. fetch_network E demo_fetch = Ok res \<and> nt_body res = ''abc'' \<and> nt_bytes res = 3 \<and> nt_truncated res"
proof -
  let ?E = "demo_system [Ok ''ab'', Ok ''cd'']"
  have host: "\<not> is_cloud_metadata_host ''example.org''" by code_simp
  have ok: "is_ok (fetch_network ?E demo_fetch)"
    using host by (simp add: fetch_network_def demo_system_def demo_fetch_def clamp_def MAX_FETCH_BYTES_def)
  then obtain res where r: "fetch_network ?E demo_fetch = Ok res" by (cases "fetch_network ?E demo_fetch") auto
  have "clamp 1 MAX_FETCH_BYTES 3 = 3" by (simp add: clamp_def MAX_FETCH_BYTES_def)
  moreover have "from_utf8_lossy ''abc'' = ''abc''" by (simp add: lossy_ascii)
  ultimately show ?thesis using fetch_bounded_exact [OF r] r unfolding Let_def
    by (auto simp: demo_system_def demo_fetch_def)
qed

section \<open>What the guards do not cover\<close>

text \<open>The IPv4-mapped form of the metadata address is not recognised.\<close>

lemma mapped_metadata_host_passes:
  "is_cloud_metadata_host ''169.254.169.254'' \<and> is_cloud_metadata_host ''Metadata.Google.Internal.'' \<and>
   is_cloud_metadata_host ''[fd00:ec2::254]'' \<and> \<not> is_cloud_metadata_host ''[::ffff:a9fe:a9fe]''"
  by (intro conjI; code_simp)

text \<open>A body of exactly the limit is reported as truncated although nothing was cut.\<close>

lemma exact_body_reported_truncated: "read_body 3 [] [Ok ''abc''] = Ok (''abc'', True)"
  by simp

end
