(* ===== verification/Proc_Ops.thy ===== *)
theory Proc_Ops
  imports Shell Tasks "HOL-Library.Char_ord" "HOL-Library.List_Lexorder"
begin

text \<open>
  \<open>daemon-core/src/proc_ops.rs\<close>: processes that outlive a call. Each has a log ring shared with
  its reader tasks, a handle in the engine's table and an entry in the shared task list. What a
  child and its monitor do is a list of events; an operation that runs beside them takes the
  events that happen at each of its await points.
\<close>

section \<open>The log ring\<close>

definition RING_CAPACITY :: nat where "RING_CAPACITY = 500"

record log_ring =
  rg_lines :: "string list"
  rg_total :: nat

definition ring_new :: log_ring where
  "ring_new = \<lparr>rg_lines = [], rg_total = 0\<rparr>"

definition ring_push :: "log_ring \<Rightarrow> string \<Rightarrow> log_ring" where
  "ring_push r line =
     (let ls = (if length (rg_lines r) \<ge> RING_CAPACITY then tl (rg_lines r) else rg_lines r) in
      \<lparr>rg_lines = ls @ [line], rg_total = rg_total r + 1\<rparr>)"

definition ring_read :: "log_ring \<Rightarrow> nat option \<Rightarrow> nat option \<Rightarrow> string list \<times> nat" where
  "ring_read r start max_lines =
     (let m = clamp 1 1000 (case max_lines of Some n \<Rightarrow> n | None \<Rightarrow> 200);
          total = rg_total r;
          skip = min (case start of Some n \<Rightarrow> n | None \<Rightarrow> 0) total in
      (take m (drop skip (drop (total - length (rg_lines r)) (rg_lines r))), total))"

section \<open>State\<close>

datatype proc_state = ProcRunning | ProcExited int | ProcKilled | ProcFailed string

fun proc_label :: "proc_state \<Rightarrow> string" where
  "proc_label ProcRunning = ''running''"
| "proc_label (ProcExited _) = ''exited''"
| "proc_label ProcKilled = ''killed''"
| "proc_label (ProcFailed _) = ''failed''"

record proc_handle =
  ph_command :: string
  ph_args :: "string list"
  ph_state :: proc_state
  ph_cancel :: nat

text \<open>Rings are kept by process id beside the table, since the reader tasks hold them too.\<close>

record proc_engine =
  pg_gate :: capability_gate
  pg_procs :: "(uuid \<times> proc_handle) list"
  pg_rings :: "(uuid \<times> log_ring) list"
  pg_tasks :: task_globals

datatype proc_op =
    ProcStart string string "string list"
  | ProcSignal uuid "string option"
  | ProcLogs uuid "nat option" "nat option"
  | ProcWait uuid "nat option"
  | ProcList
  | ProcProbe nat "string option"

record proc_entry =
  pe_id :: uuid
  pe_command :: string
  pe_args :: "string list"
  pe_status :: string
  pe_exit_code :: "int option"

datatype proc_payload =
    StartResult uuid
  | SignalResult uuid bool
  | LogsResult uuid "string list" nat bool
  | WaitResult uuid bool "int option"
  | ListResult "proc_entry list"
  | ProbeResult nat bool

type_synonym proc_res = "(string, proc_payload) res \<times> proc_engine"

section \<open>Events of children\<close>

text \<open>
  How the monitor's select ends: the token is cancelled, and the child survives the group's TERM
  or not; the child exits with a code or by a signal; or waiting for it fails.
\<close>

datatype monitor_end = MonitorCancelled bool | ChildDone "int option" | ChildWaitFailed string

fun monitor_state :: "monitor_end \<Rightarrow> proc_state" where
  "monitor_state (MonitorCancelled _) = ProcKilled"
| "monitor_state (ChildDone (Some code)) = ProcExited code"
| "monitor_state (ChildDone None) = ProcKilled"
| "monitor_state (ChildWaitFailed e) = ProcFailed e"

text \<open>The signals the monitor sends; only a child still alive after two seconds is killed hard.\<close>

fun monitor_signals :: "nat option \<Rightarrow> monitor_end \<Rightarrow> signal_sent list" where
  "monitor_signals pid (MonitorCancelled survives) =
     (case pid of Some p \<Rightarrow> [TermGroup p] | None \<Rightarrow> []) @
     (if survives then (case pid of Some p \<Rightarrow> [KillGroup p] | None \<Rightarrow> []) @ [KillChild] else [])"
| "monitor_signals pid _ = []"

text \<open>
  A line on one of the streams; or the end of the child, as its monitor records it: at a time,
  with the table's lock free or not (\<open>try_lock\<close>).
\<close>

datatype proc_event =
    PrintedLine uuid bool string
  | MonitorEnd uuid nat monitor_end bool

fun status_of_end :: "proc_state \<Rightarrow> task_status" where
  "status_of_end (ProcExited code) = Completed (Some code)"
| "status_of_end ProcKilled = Killed"
| "status_of_end (ProcFailed reason) = Failed reason"
| "status_of_end ProcRunning = Running"

definition set_proc_state :: "uuid \<Rightarrow> proc_state \<Rightarrow> proc_engine \<Rightarrow> proc_engine" where
  "set_proc_state i s en =
     (case map_of (pg_procs en) i of
        Some h \<Rightarrow> en\<lparr>pg_procs := assoc_insert i (h\<lparr>ph_state := s\<rparr>) (pg_procs en)\<rparr>
      | None \<Rightarrow> en)"

definition reader_line :: "uuid \<Rightarrow> bool \<Rightarrow> string \<Rightarrow> proc_engine \<Rightarrow> proc_engine" where
  "reader_line i is_err line en =
     (case map_of (pg_rings en) i of
        Some r \<Rightarrow> en\<lparr>pg_rings := assoc_insert i
                    (ring_push r (if is_err then ''[stderr] '' @ line else line)) (pg_rings en)\<rparr>
      | None \<Rightarrow> en)"

definition monitor_record :: "uuid \<Rightarrow> nat \<Rightarrow> proc_state \<Rightarrow> bool \<Rightarrow> proc_engine \<Rightarrow> proc_engine" where
  "monitor_record i now s lock_free en =
     (let en1 = (if lock_free then set_proc_state i s en else en) in
      en1\<lparr>pg_tasks := update_global_task now i (status_of_end s) (pg_tasks en1)\<rparr>)"

fun proc_event_step :: "proc_engine \<Rightarrow> proc_event \<Rightarrow> proc_engine" where
  "proc_event_step en (PrintedLine i is_err line) = reader_line i is_err line en"
| "proc_event_step en (MonitorEnd i now e lock_free) = monitor_record i now (monitor_state e) lock_free en"

definition proc_events :: "proc_engine \<Rightarrow> proc_event list \<Rightarrow> proc_engine" where
  "proc_events en evs = foldl proc_event_step en evs"

section \<open>Operations\<close>

text \<open>
  What a start depends on: the fresh id and cancellation token, the clock, whether the program
  spawns, and the events that happen before the task is recorded and before the handle is put
  into the table.
\<close>

record proc_env =
  px_id :: uuid
  px_token :: nat
  px_now :: nat
  px_spawn :: "string \<Rightarrow> string list \<Rightarrow> string \<Rightarrow> string option"
  px_before_record :: "proc_event list"
  px_before_insert :: "proc_event list"
  px_polls :: "(nat \<times> proc_event list) list"
  px_addr :: "string \<Rightarrow> string option"
  px_connects :: "string \<Rightarrow> bool"

definition proc_task :: "proc_env \<Rightarrow> string \<Rightarrow> string list \<Rightarrow> task_state" where
  "proc_task env command args =
     \<lparr>task_id = px_id env, task_kind_of = OtherKind ''proc'',
      task_description = str_trim (command @ '' '' @ str_join '' '' args),
      task_status_of = Running, started_at = px_now env, finished_at = None\<rparr>"

definition proc_start :: "proc_env \<Rightarrow> proc_engine \<Rightarrow> string \<Rightarrow> string \<Rightarrow> string list \<Rightarrow> proc_res" where
  "proc_start env en dir command args =
     (if \<not> allows (pg_gate en) ''desktop.shell.execute''
      then (Err ''desktop.proc.op: capability not granted (desktop.shell.execute)'', en)
      else if str_trim command = [] then (Err ''start: command is empty'', en)
      else
        (case px_spawn env command args dir of
           Some e \<Rightarrow> (Err (''spawn '' @ command @ '': '' @ e), en)
         | None \<Rightarrow>
             let i = px_id env;
                 en1 = proc_events (en\<lparr>pg_rings := assoc_insert i ring_new (pg_rings en)\<rparr>) (px_before_record env);
                 en2 = en1\<lparr>pg_tasks := register_global_cancellation i (px_token env)
                             (record_global_task (proc_task env command args) (pg_tasks en1))\<rparr>;
                 en3 = proc_events en2 (px_before_insert env)
             in (Ok (StartResult i),
                 en3\<lparr>pg_procs := assoc_insert i
                   \<lparr>ph_command = command, ph_args = args, ph_state = ProcRunning, ph_cancel = px_token env\<rparr>
                   (pg_procs en3)\<rparr>)))"

definition proc_signal :: "proc_engine \<Rightarrow> uuid \<Rightarrow> string option \<Rightarrow> proc_res" where
  "proc_signal en i sig =
     (case map_of (pg_procs en) i of
        None \<Rightarrow> (Err (''signal: unknown proc '' @ i), en)
      | Some h \<Rightarrow>
          if ph_state h \<noteq> ProcRunning then (Ok (SignalResult i False), en)
          else (Ok (SignalResult i True),
                en\<lparr>pg_tasks := (pg_tasks en)\<lparr>cancelled := ph_cancel h # cancelled (pg_tasks en)\<rparr>\<rparr>))"

definition proc_logs :: "proc_engine \<Rightarrow> uuid \<Rightarrow> nat option \<Rightarrow> nat option \<Rightarrow> proc_res" where
  "proc_logs en i start max_lines =
     (case map_of (pg_procs en) i of
        None \<Rightarrow> (Err (''logs: unknown proc '' @ i), en)
      | Some h \<Rightarrow>
          (case ring_read (case map_of (pg_rings en) i of Some r \<Rightarrow> r | None \<Rightarrow> ring_new) start max_lines of
             (lines, n) \<Rightarrow> (Ok (LogsResult i lines n (ph_state h = ProcRunning)), en)))"

definition wait_deadline :: "nat option \<Rightarrow> nat" where
  "wait_deadline timeout_ms = clamp 100 60000 (case timeout_ms of Some n \<Rightarrow> n | None \<Rightarrow> 10000)"

text \<open>
  The waiting loop: look at the state; while it is running and the deadline is not reached,
  sleep while events happen. A poll is the time passed when it looks at the clock and the events
  of the sleep that follows; the clock has passed the deadline when the polls are used up.
\<close>

fun proc_wait :: "proc_engine \<Rightarrow> uuid \<Rightarrow> nat \<Rightarrow> (nat \<times> proc_event list) list \<Rightarrow> proc_res" where
  "proc_wait en i deadline polls =
     (case map_of (pg_procs en) i of
        None \<Rightarrow> (Err (''wait: unknown proc '' @ i), en)
      | Some h \<Rightarrow>
          (case ph_state h of
             ProcRunning \<Rightarrow>
               (case polls of
                  [] \<Rightarrow> (Ok (WaitResult i True None), en)
                | (elapsed, evs) # later \<Rightarrow>
                    if elapsed < deadline then proc_wait (proc_events en evs) i deadline later
                    else (Ok (WaitResult i True None), en))
           | ProcExited code \<Rightarrow> (Ok (WaitResult i False (Some code)), en)
           | ProcKilled \<Rightarrow> (Ok (WaitResult i False None), en)
           | ProcFailed reason \<Rightarrow> (Err (''wait: proc failed: '' @ reason), en)))"

declare proc_wait.simps [simp del]

definition proc_entry_of :: "uuid \<times> proc_handle \<Rightarrow> proc_entry" where
  "proc_entry_of ih =
     (case ih of (i, h) \<Rightarrow>
        \<lparr>pe_id = i, pe_command = ph_command h, pe_args = ph_args h, pe_status = proc_label (ph_state h),
         pe_exit_code = (case ph_state h of ProcExited code \<Rightarrow> Some code | _ \<Rightarrow> None)\<rparr>)"

definition proc_list :: "proc_engine \<Rightarrow> proc_res" where
  "proc_list en = (Ok (ListResult (sort_key pe_id (map proc_entry_of (pg_procs en)))), en)"

definition proc_probe :: "proc_env \<Rightarrow> proc_engine \<Rightarrow> nat \<Rightarrow> string option \<Rightarrow> proc_res" where
  "proc_probe env en port host =
     (let target = (case host of Some h \<Rightarrow> h | None \<Rightarrow> ''127.0.0.1'') @ '':'' @ nat_to_string port in
      case px_addr env target of
        Some e \<Rightarrow> (Err (''probe: bad host: '' @ e), en)
      | None \<Rightarrow> (Ok (ProbeResult port (px_connects env target)), en))"

fun proc_execute :: "proc_env \<Rightarrow> proc_engine \<Rightarrow> proc_op \<Rightarrow> proc_res" where
  "proc_execute env en (ProcStart dir command args) = proc_start env en dir command args"
| "proc_execute env en (ProcSignal i sig) = proc_signal en i sig"
| "proc_execute env en (ProcLogs i start max_lines) = proc_logs en i start max_lines"
| "proc_execute env en (ProcWait i timeout_ms) = proc_wait en i (wait_deadline timeout_ms) (px_polls env)"
| "proc_execute env en ProcList = proc_list en"
| "proc_execute env en (ProcProbe port host) = proc_probe env en port host"

section \<open>Lemmas\<close>

text \<open>The ring holds the last lines of the history, and counts all of it.\<close>

definition ring_of :: "string list \<Rightarrow> log_ring" where
  "ring_of history = \<lparr>rg_lines = drop (length history - RING_CAPACITY) history, rg_total = length history\<rparr>"

lemma ring_push_of: "ring_push (ring_of history) line = ring_of (history @ [line])"
proof (cases "length history < RING_CAPACITY")
  case True
  then show ?thesis by (simp add: ring_push_def ring_of_def)
next
  case False
  then have "0 < RING_CAPACITY" "RING_CAPACITY \<le> length history" by (simp_all add: RING_CAPACITY_def)
  then show ?thesis
    by (simp add: ring_push_def ring_of_def Let_def Suc_diff_le tl_drop drop_Suc [symmetric])
qed

lemma ring_pushes: "foldl ring_push ring_new history = ring_of history"
proof (induction history rule: rev_induct)
  case Nil
  show ?case by (simp add: ring_new_def ring_of_def)
next
  case (snoc line history)
  then show ?case by (simp add: ring_push_of)
qed

section \<open>Properties\<close>

text \<open>
  C31. What a log read returns. After any lines, the ring counts all of them and, as long as no
  more than 500 were printed, a read from line \<open>start\<close> returns exactly the lines from there on,
  at most the requested number. Once lines were discarded, the read skips as many of the kept
  lines as were discarded, and then \<open>start\<close> more; from 1000 lines on it returns none at all.
\<close>

theorem ring_read_exact:
  assumes "r = foldl ring_push ring_new history" and "m = clamp 1 1000 (case limit of Some n \<Rightarrow> n | None \<Rightarrow> 200)"
    and "s = min (case start of Some n \<Rightarrow> n | None \<Rightarrow> 0) (length history)"
  shows "snd (ring_read r start limit) = length history \<and>
    fst (ring_read r start limit) = take m (drop (s + 2 * (length history - RING_CAPACITY)) history) \<and>
    (length history \<le> RING_CAPACITY \<longrightarrow> fst (ring_read r start limit) = take m (drop s history)) \<and>
    (length history \<ge> 2 * RING_CAPACITY \<longrightarrow> fst (ring_read r start limit) = [])"
proof -
  have r: "r = ring_of history" using assms(1) by (simp add: ring_pushes)
  have "length history - min (length history) RING_CAPACITY = length history - RING_CAPACITY" by simp
  then have "ring_read r start limit =
      (take m (drop (s + 2 * (length history - RING_CAPACITY)) history), length history)"
    using assms(2,3) unfolding r
    by (simp add: ring_read_def ring_of_def Let_def min_def mult_2 add.commute add.left_commute)
  then show ?thesis by (auto simp: RING_CAPACITY_def)
qed

theorem ring_read_exact_witness:
  "ring_read (foldl ring_push ring_new [''a'', ''b'', ''c'']) (Some 1) (Some 1) = ([''b''], 3) \<and>
   fst (ring_read (foldl ring_push ring_new (replicate 1000 ''x'')) None None) = []"
proof -
  have "clamp 1 1000 1 = 1" by (simp add: clamp_def)
  then have "ring_read (foldl ring_push ring_new [''a'', ''b'', ''c'']) (Some 1) (Some 1) = ([''b''], 3)"
    using ring_read_exact [OF refl refl refl, of "[''a'', ''b'', ''c'']" "Some 1" "Some 1"]
    by (simp add: RING_CAPACITY_def prod_eq_iff)
  moreover have "fst (ring_read (foldl ring_push ring_new (replicate 1000 ''x'')) None None) = []"
    using ring_read_exact [OF refl refl refl, of "replicate 1000 ''x''" None None]
    by (simp add: RING_CAPACITY_def)
  ultimately show ?thesis by blast
qed

section \<open>Facts and races\<close>

lemma start_needs_grant:
  "\<not> allows (pg_gate en) ''desktop.shell.execute'' \<Longrightarrow>
   proc_start env en dir command args = (Err ''desktop.proc.op: capability not granted (desktop.shell.execute)'', en)"
  by (simp add: proc_start_def)

text \<open>
  A child that ends before its handle is in the table is listed as running for ever: the start
  puts a running handle there whatever happened, and the monitor is gone.
\<close>

lemma early_end_is_lost:
  assumes "proc_start env en dir command args = (Ok (StartResult i), en')"
  shows "i = px_id env \<and> (\<exists>h. map_of (pg_procs en') i = Some h \<and> ph_state h = ProcRunning)"
  using assms by (auto simp: proc_start_def Let_def split: if_splits option.splits)

text \<open>An end recorded while the table is locked changes the task but never the handle.\<close>

lemma locked_end_is_lost: "pg_procs (proc_event_step en (MonitorEnd i now s False)) = pg_procs en"
  by (simp add: monitor_record_def)

text \<open>Whatever signal is asked for, the same cancellation is sent.\<close>

lemma signal_name_ignored: "proc_signal en i sig = proc_signal en i None"
  by (simp add: proc_signal_def)

end
