(* ===== verification/Pty_Ops.thy ===== *)
theory Pty_Ops
  imports Text_Scan Daemon_Error Capability
begin

text \<open>
  \<open>daemon-core/src/pty_ops.rs\<close>, the Unix build: persistent shell sessions. A session is its
  output buffer, what was written to the shell, and whether the shell lives. What the terminal
  delivers, and when the shell ends, is a list of events: an operation that sleeps takes the
  events its session has in each of its sleeps, and a session's reader thread delivers events
  between operations, and to the other sessions, as steps of their own. Opening a terminal and spawning the shell are parameters.
\<close>

section \<open>Scrubbing\<close>

definition ESC :: string where "ESC = [CHR 0x1B]"
definition LF :: string where "LF = [CHR 0x0A]"

text \<open>The final byte of a control sequence.\<close>

definition csi_final :: "string \<Rightarrow> bool" where
  "csi_final ch = (\<exists>c \<in> set ch. ch = [c] \<and> 0x40 \<le> byte_val c \<and> byte_val c \<le> 0x7E)"

fun skip_csi :: "string list \<Rightarrow> string list" where
  "skip_csi [] = []"
| "skip_csi (n # chs) = (if csi_final n then chs else skip_csi chs)"

lemma length_skip_csi: "length (skip_csi chs) \<le> length chs"
  by (induction chs) auto

definition control_noise :: "string \<Rightarrow> bool" where
  "control_noise ch = (ch \<in> {[CHR 0x07], [CHR 0x08], [CHR 0x0B], [CHR 0x0C]})"

function scrub_chars :: "string list \<Rightarrow> string list" where
  "scrub_chars [] = []"
| "scrub_chars (c # chs) =
     (if c = ESC then
        (case chs of
           [] \<Rightarrow> []
         | n # rest \<Rightarrow> scrub_chars (if n = [CHR 0x5B] then skip_csi rest else rest))
      else if control_noise c then scrub_chars chs
      else c # scrub_chars chs)"
  by pat_completeness auto
termination
  by (relation "measure length") (auto simp: less_Suc_eq_le le_SucI length_skip_csi)

definition scrub_ansi :: "string \<Rightarrow> string" where
  "scrub_ansi s = concat (scrub_chars (chars_of s))"

section \<open>The output buffer\<close>

definition RING_LINES :: nat where "RING_LINES = 1000"
definition PARTIAL_CAP :: nat where "PARTIAL_CAP = 16 * 1024"
definition READ_BUFFER :: nat where "READ_BUFFER = 8192"

text \<open>\<open>ob_poisoned\<close>: a reader panicked while it held the buffer's lock.\<close>

record output_buffer =
  ob_lines :: "string list"
  ob_partial :: string
  ob_bytes :: nat
  ob_poisoned :: bool

definition buffer_new :: output_buffer where
  "buffer_new = \<lparr>ob_lines = [], ob_partial = [], ob_bytes = 0, ob_poisoned = False\<rparr>"

definition line_bytes :: "string list \<Rightarrow> nat" where
  "line_bytes ls = sum_list (map (\<lambda>l. length l + 1) ls)"

definition push_char :: "output_buffer \<Rightarrow> string \<Rightarrow> output_buffer" where
  "push_char b ch =
     (if ch = LF then
        let lines = ob_lines b @ [strip_suffix_char (CHR 0x0D) (ob_partial b)];
            bytes = ob_bytes b + length (ob_partial b) + 1;
            excess = length lines - RING_LINES
        in b\<lparr>ob_partial := [], ob_lines := drop excess lines, ob_bytes := bytes - line_bytes (take excess lines)\<rparr>
      else b\<lparr>ob_partial := ob_partial b @ ch\<rparr>)"

text \<open>The cut of a long partial line panics when it is not between two characters.\<close>

definition cap_partial :: "output_buffer \<Rightarrow> output_buffer" where
  "cap_partial b =
     (if length (ob_partial b) > PARTIAL_CAP
      then let cut = length (ob_partial b) - PARTIAL_CAP in
        if is_char_boundary (ob_partial b) cut then b\<lparr>ob_partial := drop cut (ob_partial b)\<rparr>
        else b\<lparr>ob_poisoned := True\<rparr>
      else b)"

definition buffer_push :: "output_buffer \<Rightarrow> string \<Rightarrow> output_buffer" where
  "buffer_push b chunk =
     (if ob_poisoned b then b
      else cap_partial (foldl push_char b (chars_of (scrub_ansi chunk))))"

definition buffer_contains :: "output_buffer \<Rightarrow> string \<Rightarrow> bool" where
  "buffer_contains b needle =
     (\<not> ob_poisoned b \<and>
      (list_ex (\<lambda>l. str_contains l needle) (ob_lines b) \<or> str_contains (ob_partial b) needle))"

definition buffer_drain :: "output_buffer \<Rightarrow> string \<times> output_buffer" where
  "buffer_drain b =
     (if ob_poisoned b then ([], b)
      else (str_join LF (ob_lines b) @ (if ob_partial b \<noteq> [] then LF @ ob_partial b else []),
            b\<lparr>ob_lines := [], ob_bytes := 0\<rparr>))"

definition buffer_pending :: "output_buffer \<Rightarrow> bool" where
  "buffer_pending b = (\<not> ob_poisoned b \<and> (ob_lines b \<noteq> [] \<or> ob_partial b \<noteq> []))"

section \<open>Sessions\<close>

datatype read_outcome = ReadEof | ReadBytes bytes | ReadError

text \<open>A read of the session's reader thread, or the end of its shell.\<close>

datatype pty_event = ReaderGets read_outcome | ShellDies

record pty_session =
  ps_output :: output_buffer
  ps_written :: bytes
  ps_alive :: bool
  ps_reader_lost :: bool
  ps_reader_ended :: bool

definition session_new :: pty_session where
  "session_new = \<lparr>ps_output = buffer_new, ps_written = [], ps_alive = True, ps_reader_lost = False,
     ps_reader_ended = False\<rparr>"

text \<open>
  A read takes at most what its buffer holds. The reader ends at the end of the stream, at its
  second error, and by a panic of the push.
\<close>

fun reader_step :: "pty_session \<Rightarrow> read_outcome \<Rightarrow> pty_session" where
  "reader_step s ReadEof = s\<lparr>ps_reader_ended := True\<rparr>"
| "reader_step s (ReadBytes raw) =
     (let b = buffer_push (ps_output s) (from_utf8_lossy (take READ_BUFFER raw)) in
      s\<lparr>ps_output := b, ps_reader_ended := ob_poisoned b \<and> \<not> ob_poisoned (ps_output s)\<rparr>)"
| "reader_step s ReadError =
     (if ps_reader_lost s then s\<lparr>ps_reader_ended := True\<rparr> else s\<lparr>ps_reader_lost := True\<rparr>)"

fun session_event :: "pty_session \<Rightarrow> pty_event \<Rightarrow> pty_session" where
  "session_event s (ReaderGets r) = (if ps_reader_ended s then s else reader_step s r)"
| "session_event s ShellDies = s\<lparr>ps_alive := False\<rparr>"

definition session_events :: "pty_session \<Rightarrow> pty_event list \<Rightarrow> pty_session" where
  "session_events s evs = foldl session_event s evs"

text \<open>A write to the shell's input; the parameter's text says whether the write or the flush failed.\<close>

definition write_line :: "(pty_session \<Rightarrow> string option) \<Rightarrow> pty_session \<Rightarrow> string \<Rightarrow> (string, pty_session) res" where
  "write_line failing s text =
     (case failing s of
        Some e \<Rightarrow> Err e
      | None \<Rightarrow> Ok (s\<lparr>ps_written := ps_written s @ text @ LF\<rparr>))"

section \<open>The engine\<close>

definition MAX_SESSIONS :: nat where "MAX_SESSIONS = 8"
definition BOOT_MARKER :: string where "BOOT_MARKER = ''__BRIDGE_READY__''"
definition BOOT_TIMEOUT_MS :: nat where "BOOT_TIMEOUT_MS = 10000"

record pty_engine =
  pt_gate :: capability_gate
  pt_sessions :: "(string \<times> pty_session) list"

text \<open>
  Outside: whether the terminal opens and the shell spawns, whether writes fail, and for each
  waiting loop the time passed at the look at the clock and the events of the sleep beside it.
\<close>

record pty_env =
  py_spawn :: "string option"
  py_write :: "pty_session \<Rightarrow> string option"
  py_boot :: "(nat \<times> pty_event list) list"
  py_slices :: "(nat \<times> pty_event list) list"

datatype pty_op =
    PtyRun string string "nat option"
  | PtyRead string
  | PtyStatus string
  | PtyList
  | PtyExit string

datatype pty_payload =
    RunPayload string string bool "string option"
  | ReadPayload string string
  | StatusPayload string bool
  | ListPayload "string list"
  | ExitPayload string bool

type_synonym 'a pty_res = "(string, 'a) res \<times> pty_engine"

definition gate_shell :: "pty_engine \<Rightarrow> (string, unit) res" where
  "gate_shell en =
     (if allows (pt_gate en) ''desktop.shell.execute'' then Ok ()
      else Err ''desktop.pty: capability not granted (desktop.shell.execute)'')"

text \<open>The boot loop. Its clock has passed the limit when the polls are used up.\<close>

fun boot_wait :: "pty_session \<Rightarrow> (nat \<times> pty_event list) list \<Rightarrow> (string, pty_session) res" where
  "boot_wait s polls =
     (if \<not> ps_alive s then Err ''spawn shell: process exited immediately (unavailable or crashed)''
      else if buffer_contains (ps_output s) BOOT_MARKER then Ok s
      else (case polls of
              [] \<Rightarrow> Err ''spawn shell: boot handshake timed out''
            | (elapsed, evs) # later \<Rightarrow>
                if elapsed \<ge> BOOT_TIMEOUT_MS then Err ''spawn shell: boot handshake timed out''
                else boot_wait (session_events s evs) later))"

declare boot_wait.simps [simp del]

definition boot :: "pty_env \<Rightarrow> (string, pty_session) res" where
  "boot env =
     (case py_spawn env of
        Some e \<Rightarrow> Err e
      | None \<Rightarrow>
          try_bind (write_line (py_write env) session_new (''echo '' @ BOOT_MARKER)) (\<lambda>s.
          try_bind (boot_wait s (py_boot env)) (\<lambda>s1.
            Ok (s1\<lparr>ps_output := snd (buffer_drain (ps_output s1))\<rparr>))))"

text \<open>At the cap the first key of the map's order is evicted; dropping it kills its shell.\<close>

definition admit :: "pty_engine \<Rightarrow> string \<Rightarrow> pty_session \<Rightarrow> pty_engine" where
  "admit en name s =
     (let m = pt_sessions en;
          m1 = (if length m \<ge> MAX_SESSIONS \<and> map_of m name = None then assoc_remove (fst (hd m)) m else m)
      in en\<lparr>pt_sessions := assoc_insert name s m1\<rparr>)"

definition get_or_create :: "pty_env \<Rightarrow> pty_engine \<Rightarrow> string \<Rightarrow> pty_session pty_res" where
  "get_or_create env en name =
     (case map_of (pt_sessions en) name of
        Some s \<Rightarrow> (Ok s, en)
      | None \<Rightarrow>
          (case boot env of
             Inl e \<Rightarrow> (Err e, en)
           | Inr s \<Rightarrow> (Ok s, admit en name s)))"

definition put_session :: "pty_engine \<Rightarrow> string \<Rightarrow> pty_session \<Rightarrow> pty_engine" where
  "put_session en name s = en\<lparr>pt_sessions := map (\<lambda>(k, v). if k = name then (k, s) else (k, v)) (pt_sessions en)\<rparr>"

definition run_timeout :: "nat option \<Rightarrow> nat" where
  "run_timeout t = clamp 200 120000 (case t of Some n \<Rightarrow> n | None \<Rightarrow> 10000)"

text \<open>
  The settling loop: sleep, look whether output is pending, count the quiet slices, look at the
  clock. Beside the session it returns the time at which it stopped.
\<close>

fun settle :: "nat \<Rightarrow> bool \<Rightarrow> nat \<Rightarrow> nat \<Rightarrow> pty_session \<Rightarrow> (nat \<times> pty_event list) list \<Rightarrow> pty_session \<times> nat" where
  "settle timeout was quiet now s [] = (s, now)"
| "settle timeout was quiet now s ((elapsed, evs) # later) =
     (let s1 = session_events s evs;
          p = buffer_pending (ps_output s1);
          quiet1 = (if p \<and> was then 0 else if \<not> p \<and> \<not> was then quiet + 1 else quiet)
      in if \<not> p \<and> \<not> was \<and> quiet1 \<ge> 2 then (s1, elapsed)
         else if elapsed \<ge> timeout then (s1, elapsed)
         else settle timeout p quiet1 elapsed s1 later)"

definition pty_run :: "pty_env \<Rightarrow> pty_engine \<Rightarrow> string \<Rightarrow> string \<Rightarrow> nat option \<Rightarrow> pty_payload pty_res" where
  "pty_run env en name command timeout_ms =
     (case gate_shell en of
        Inl e \<Rightarrow> (Err e, en)
      | Inr _ \<Rightarrow>
     if str_trim command = [] then (Err ''run: command is empty'', en)
     else
     (case get_or_create env en name of
        (Inl e, en1) \<Rightarrow> (Err e, en1)
      | (Inr s, en1) \<Rightarrow>
     if \<not> ps_alive s
     then (Err (''run: session '' @ [CHR 0x27] @ name @ [CHR 0x27] @ '' already exited; use a new session id''), en1)
     else
     (case write_line (py_write env) s command of
        Inl e \<Rightarrow> (Err e, en1)
      | Inr s1 \<Rightarrow>
          let s2 = fst (settle (run_timeout timeout_ms) (buffer_pending (ps_output s1)) 0 0 s1 (py_slices env));
              d = buffer_drain (ps_output s2);
              exited = (\<not> ps_alive s2)
          in (Ok (RunPayload name (fst d) exited
                (if exited
                 then Some (''shell '' @ [CHR 0x27] @ name @ [CHR 0x27] @
                   '' exited (last command may have killed it or the session ended); open a new session id'')
                 else None)),
              put_session en1 name (s2\<lparr>ps_output := snd d\<rparr>)))))"

definition pty_read :: "pty_engine \<Rightarrow> string \<Rightarrow> pty_payload pty_res" where
  "pty_read en name =
     (case gate_shell en of
        Inl e \<Rightarrow> (Err e, en)
      | Inr _ \<Rightarrow>
          (case map_of (pt_sessions en) name of
             None \<Rightarrow> (Err (''read: unknown session '' @ [CHR 0x27] @ name @ [CHR 0x27]), en)
           | Some s \<Rightarrow>
               (Ok (ReadPayload name (fst (buffer_drain (ps_output s)))),
                put_session en name (s\<lparr>ps_output := snd (buffer_drain (ps_output s))\<rparr>))))"

definition pty_status :: "pty_engine \<Rightarrow> string \<Rightarrow> pty_payload pty_res" where
  "pty_status en name =
     (case gate_shell en of
        Inl e \<Rightarrow> (Err e, en)
      | Inr _ \<Rightarrow>
          (Ok (StatusPayload name (case map_of (pt_sessions en) name of Some s \<Rightarrow> ps_alive s | None \<Rightarrow> False)), en))"

definition pty_list :: "pty_engine \<Rightarrow> pty_payload pty_res" where
  "pty_list en =
     (case gate_shell en of
        Inl e \<Rightarrow> (Err e, en)
      | Inr _ \<Rightarrow> (Ok (ListPayload (map fst (pt_sessions en))), en))"

text \<open>
  The session is removed first, told to exit (a failing write is ignored), and killed, as is
  every session that leaves the table.
\<close>

definition pty_exit :: "pty_engine \<Rightarrow> string \<Rightarrow> pty_payload pty_res" where
  "pty_exit en name =
     (case gate_shell en of
        Inl e \<Rightarrow> (Err e, en)
      | Inr _ \<Rightarrow>
          (Ok (ExitPayload name (map_of (pt_sessions en) name \<noteq> None)),
           en\<lparr>pt_sessions := assoc_remove name (pt_sessions en)\<rparr>))"

fun pty_execute :: "pty_env \<Rightarrow> pty_engine \<Rightarrow> pty_op \<Rightarrow> pty_payload pty_res" where
  "pty_execute env en (PtyRun name command timeout_ms) = pty_run env en name command timeout_ms"
| "pty_execute env en (PtyRead name) = pty_read en name"
| "pty_execute env en (PtyStatus name) = pty_status en name"
| "pty_execute env en PtyList = pty_list en"
| "pty_execute env en (PtyExit name) = pty_exit en name"

text \<open>
  The reader threads run all the time: a step of the engine is an operation, or a session getting
  events outside any of its own sleeps.
\<close>

definition deliver :: "pty_engine \<Rightarrow> string \<Rightarrow> pty_event list \<Rightarrow> pty_engine" where
  "deliver en name evs =
     en\<lparr>pt_sessions := map (\<lambda>(k, s). (k, if k = name then session_events s evs else s)) (pt_sessions en)\<rparr>"

datatype pty_step = Operate pty_env pty_op | Delivered string "pty_event list"

fun engine_step :: "pty_engine \<Rightarrow> pty_step \<Rightarrow> pty_engine" where
  "engine_step en (Operate env op) = snd (pty_execute env en op)"
| "engine_step en (Delivered name evs) = deliver en name evs"


section \<open>The buffer's account\<close>

text \<open>What a buffer shows: its lines, each ended, and the partial line.\<close>

definition shown :: "output_buffer \<Rightarrow> string" where
  "shown b = concat (map (\<lambda>l. l @ LF) (ob_lines b)) @ ob_partial b"

definition buffer_ok :: "output_buffer \<Rightarrow> bool" where
  "buffer_ok b \<longleftrightarrow>
     length (ob_lines b) \<le> RING_LINES \<and> line_bytes (ob_lines b) \<le> ob_bytes b \<and>
     list_all (\<lambda>l. CHR 0x0A \<notin> set l) (ob_lines b) \<and> CHR 0x0A \<notin> set (ob_partial b)"

lemma line_bytes_simps [simp]:
  "line_bytes [] = 0" "line_bytes (l # ls) = length l + 1 + line_bytes ls"
  "line_bytes (ls @ ms) = line_bytes ls + line_bytes ms"
  by (simp_all add: line_bytes_def)

lemma line_bytes_take_drop: "line_bytes (take n ls) + line_bytes (drop n ls) = line_bytes ls"
  by (metis append_take_drop_id line_bytes_simps(3))

lemma strip_suffix_length: "length (strip_suffix_char c s) \<le> length s"
  by (simp add: strip_suffix_char_def)

lemma strip_suffix_set: "set (strip_suffix_char c s) \<subseteq> set s"
  by (auto simp: strip_suffix_char_def dest: in_set_butlastD)

lemma str_contains_refl: "str_contains (a @ s @ b) s"
  by (simp add: str_contains_sublist)

lemma scrub_chars_subset: "set (scrub_chars chs) \<subseteq> set chs"
proof (induction chs rule: scrub_chars.induct)
  case (2 c chs)
  have skip: "set (skip_csi ms) \<subseteq> set ms" for ms by (induction ms) auto
  show ?case
  proof (cases "c = ESC")
    case True
    show ?thesis
    proof (cases chs)
      case (Cons n rest)
      from 2(1) [OF True Cons] True Cons skip [of rest] show ?thesis
        by (cases "n = [CHR 0x5B]") auto
    qed (simp add: True)
  next
    case False
    with 2(2,3) show ?thesis by (cases "control_noise c") auto
  qed
qed simp

text \<open>The characters pushed for a valid chunk are whole, and a line feed is one by itself.\<close>

lemma pushed_chars:
  assumes "valid_utf8 chunk"
  shows "chars_of (scrub_ansi chunk) = scrub_chars (chars_of chunk)"
    and "list_all (\<lambda>w. w = LF \<or> CHR 0x0A \<notin> set w) (scrub_chars (chars_of chunk))"
proof -
  have p: "list_all proper_char (chars_of chunk)"
    using chars_of_proper [OF valid_utf8_start [OF assms]] .
  then have q: "list_all proper_char (scrub_chars (chars_of chunk))"
    using scrub_chars_subset by (auto simp: list_all_iff)
  show "chars_of (scrub_ansi chunk) = scrub_chars (chars_of chunk)"
    unfolding scrub_ansi_def by (rule chars_of_concat [OF q])
  show "list_all (\<lambda>w. w = LF \<or> CHR 0x0A \<notin> set w) (scrub_chars (chars_of chunk))"
    unfolding list_all_iff
  proof (intro ballI)
    fix w assume w: "w \<in> set (scrub_chars (chars_of chunk))"
    then have "proper_char w" using q by (simp add: list_all_iff)
    then obtain c cs where c: "w = c # cs" "list_all is_cont_byte cs"
      by (cases w) (auto simp: proper_char_def)
    have "w \<in> set (chars_of chunk)" using w scrub_chars_subset by blast
    from valid_char_ascii [OF assms this] c have "c = CHR 0x0A \<Longrightarrow> cs = []" by simp
    moreover have "CHR 0x0A \<notin> set cs" using c(2) by (auto simp: list_all_iff is_cont_byte_def)
    ultimately show "w = LF \<or> CHR 0x0A \<notin> set w" using c(1) by (auto simp: LF_def)
  qed
qed

lemma push_char_no_underflow:
  assumes "buffer_ok b"
  shows "line_bytes (take n (ob_lines b @ [strip_suffix_char c (ob_partial b)])) \<le>
    ob_bytes b + length (ob_partial b) + 1"
proof -
  have "line_bytes (take n (ob_lines b @ [strip_suffix_char c (ob_partial b)])) \<le>
      line_bytes (ob_lines b @ [strip_suffix_char c (ob_partial b)])"
    using line_bytes_take_drop [of n "ob_lines b @ [strip_suffix_char c (ob_partial b)]"] by linarith
  also have "\<dots> \<le> ob_bytes b + length (ob_partial b) + 1"
    using assms strip_suffix_length [of c "ob_partial b"] by (simp add: buffer_ok_def)
  finally show ?thesis .
qed

lemma push_char_ok:
  assumes "buffer_ok b" and "ch = LF \<or> CHR 0x0A \<notin> set ch"
  shows "buffer_ok (push_char b ch)"
proof (cases "ch = LF")
  case True
  define lines where "lines = ob_lines b @ [strip_suffix_char (CHR 0x0D) (ob_partial b)]"
  define n where "n = length lines - RING_LINES"
  have "line_bytes (take n lines) + line_bytes (drop n lines) \<le> ob_bytes b + length (ob_partial b) + 1"
    using assms(1) strip_suffix_length [of "CHR 0x0D" "ob_partial b"] line_bytes_take_drop [of n lines]
    by (simp add: lines_def buffer_ok_def)
  moreover have "list_all (\<lambda>l. CHR 0x0A \<notin> set l) (drop n lines)"
    using assms(1) strip_suffix_set [of "CHR 0x0D" "ob_partial b"]
    by (auto simp: lines_def buffer_ok_def list_all_iff dest!: in_set_dropD)
  moreover have "length (drop n lines) \<le> RING_LINES" by (simp add: n_def)
  ultimately show ?thesis
    using True by (simp add: push_char_def Let_def lines_def [symmetric] n_def [symmetric] buffer_ok_def)
next
  case False
  with assms show ?thesis by (simp add: push_char_def buffer_ok_def)
qed

lemma push_chars_ok:
  "buffer_ok b \<Longrightarrow> list_all (\<lambda>w. w = LF \<or> CHR 0x0A \<notin> set w) chs \<Longrightarrow> buffer_ok (foldl push_char b chs)"
  by (induction chs arbitrary: b) (auto simp: push_char_ok)

lemma push_chars_poisoned: "ob_poisoned (foldl push_char b chs) = ob_poisoned b"
  by (induction chs arbitrary: b) (simp_all add: push_char_def Let_def)

text \<open>
  How long a line gets: it grows from a partial line of at most 16 KiB by one chunk, and a chunk of
  8192 bytes decodes to at most three times as many.
\<close>

definition LINE_BOUND :: nat where "LINE_BOUND = 40 * 1024"

definition buffer_bounded :: "nat \<Rightarrow> output_buffer \<Rightarrow> bool" where
  "buffer_bounded n b \<longleftrightarrow> list_all (\<lambda>l. length l \<le> n) (ob_lines b) \<and> length (ob_partial b) \<le> n"

lemma push_chars_bounded:
  assumes "list_all (\<lambda>l. length l \<le> n) (ob_lines b)" and "length (ob_partial b) + length (concat chs) \<le> n"
  shows "buffer_bounded n (foldl push_char b chs)"
  using assms
proof (induction chs arbitrary: b)
  case Nil
  then show ?case by (simp add: buffer_bounded_def)
next
  case (Cons w chs)
  have "length (strip_suffix_char (CHR 0x0D) (ob_partial b)) \<le> n"
    using Cons.prems(2) strip_suffix_length [of "CHR 0x0D" "ob_partial b"] by simp
  then have "list_all (\<lambda>l. length l \<le> n) (ob_lines (push_char b w))"
    using Cons.prems(1) by (auto simp: push_char_def Let_def list_all_iff dest!: in_set_dropD)
  moreover have "length (ob_partial (push_char b w)) + length (concat chs) \<le> n"
    using Cons.prems(2) by (simp add: push_char_def Let_def)
  ultimately show ?case using Cons.IH by simp
qed

lemma scrub_chars_length: "length (concat (scrub_chars chs)) \<le> length (concat chs)"
proof (induction chs rule: scrub_chars.induct)
  case (2 c chs)
  have skip: "length (concat (skip_csi ms)) \<le> length (concat ms)" for ms by (induction ms) auto
  show ?case
  proof (cases "c = ESC")
    case True
    show ?thesis
    proof (cases chs)
      case (Cons n rest)
      from 2(1) [OF True Cons] True Cons skip [of rest] show ?thesis
        by (cases "n = [CHR 0x5B]") auto
    qed (simp add: True)
  next
    case False
    with 2(2,3) show ?thesis by (cases "control_noise c") auto
  qed
qed simp

lemma lossy_length: "length (from_utf8_lossy s) \<le> 3 * length s"
proof (induction s rule: from_utf8_lossy.induct)
  case (1 s)
  show ?case
  proof (cases "s = []")
    case True
    then show ?thesis by (simp add: from_utf8_lossy.simps)
  next
    case False
    obtain n ok where c: "utf8_chunk s = (n, ok)" by (cases "utf8_chunk s")
    have n: "0 < n" using utf8_chunk_pos [of s] c by simp
    have step: "from_utf8_lossy s = (if ok then take n s else replacement_char) @ from_utf8_lossy (drop n s)"
      using False c by (subst from_utf8_lossy.simps) simp
    have "length (drop n s) + 1 \<le> length s" using n False by (cases s) auto
    moreover have "length (take n s) + length (drop n s) = length s" by (simp flip: length_append)
    ultimately show ?thesis
      using 1 [OF False c [symmetric]] unfolding step by (cases ok) (simp_all add: replacement_char_def)
  qed
qed

definition session_ok :: "pty_session \<Rightarrow> bool" where
  "session_ok s \<longleftrightarrow> buffer_ok (ps_output s) \<and> buffer_bounded LINE_BOUND (ps_output s) \<and>
     (\<not> ob_poisoned (ps_output s) \<longrightarrow> length (ob_partial (ps_output s)) \<le> PARTIAL_CAP)"

lemma buffer_push_bounded:
  assumes "buffer_bounded LINE_BOUND b" and "\<not> ob_poisoned b \<Longrightarrow> length (ob_partial b) \<le> PARTIAL_CAP"
    and "valid_utf8 chunk" and "length chunk \<le> 3 * READ_BUFFER"
  shows "buffer_bounded LINE_BOUND (buffer_push b chunk)"
proof (cases "ob_poisoned b")
  case True
  with assms(1) show ?thesis by (simp add: buffer_push_def)
next
  case False
  have "length (concat (chars_of (scrub_ansi chunk))) \<le> length (concat (chars_of chunk))"
    unfolding pushed_chars(1) [OF assms(3)] by (rule scrub_chars_length)
  then have "length (ob_partial b) + length (concat (chars_of (scrub_ansi chunk))) \<le> LINE_BOUND"
    using assms(2) [OF False] assms(4) by (simp add: LINE_BOUND_def PARTIAL_CAP_def READ_BUFFER_def)
  then have "buffer_bounded LINE_BOUND (foldl push_char b (chars_of (scrub_ansi chunk)))"
    using assms(1) by (intro push_chars_bounded) (simp_all add: buffer_bounded_def)
  then have "buffer_bounded LINE_BOUND (cap_partial (foldl push_char b (chars_of (scrub_ansi chunk))))"
    by (auto simp: buffer_bounded_def cap_partial_def Let_def)
  with False show ?thesis by (simp add: buffer_push_def)
qed

lemma buffer_push_ok:
  assumes "buffer_ok b" and "valid_utf8 chunk"
  shows "buffer_ok (buffer_push b chunk)"
    and "\<not> ob_poisoned (buffer_push b chunk) \<Longrightarrow> length (ob_partial (buffer_push b chunk)) \<le> PARTIAL_CAP"
proof -
  define b1 where "b1 = foldl push_char b (chars_of (scrub_ansi chunk))"
  have ok: "buffer_ok b1"
    unfolding b1_def pushed_chars(1) [OF assms(2)] by (rule push_chars_ok [OF assms(1) pushed_chars(2) [OF assms(2)]])
  then have "CHR 0x0A \<notin> set (drop n (ob_partial b1))" for n
    by (auto simp: buffer_ok_def dest: in_set_dropD)
  with ok have "buffer_ok (cap_partial b1)"
    by (auto simp: cap_partial_def buffer_ok_def Let_def)
  with assms(1) show "buffer_ok (buffer_push b chunk)"
    by (simp add: buffer_push_def b1_def)
  show "\<not> ob_poisoned (buffer_push b chunk) \<Longrightarrow> length (ob_partial (buffer_push b chunk)) \<le> PARTIAL_CAP"
    by (auto simp: buffer_push_def cap_partial_def Let_def split: if_splits)
qed

lemma session_event_ok: "session_ok s \<Longrightarrow> session_ok (session_event s e)"
proof (cases e)
  case (ReaderGets r)
  assume s: "session_ok s"
  show ?thesis
  proof (cases r)
    case (ReadBytes raw)
    have "length (from_utf8_lossy (take READ_BUFFER raw)) \<le> 3 * length (take READ_BUFFER raw)" by (rule lossy_length)
    also have "\<dots> \<le> 3 * READ_BUFFER" by simp
    finally have "buffer_bounded LINE_BOUND (buffer_push (ps_output s) (from_utf8_lossy (take READ_BUFFER raw)))"
      using s by (intro buffer_push_bounded lossy_valid) (simp_all add: session_ok_def)
    with s ReaderGets ReadBytes buffer_push_ok [of "ps_output s" "from_utf8_lossy (take READ_BUFFER raw)"] show ?thesis
      by (simp add: session_ok_def lossy_valid Let_def)
  qed (use s ReaderGets in \<open>simp_all add: session_ok_def\<close>)
qed (simp add: session_ok_def)

lemma session_events_ok: "session_ok s \<Longrightarrow> session_ok (session_events s evs)"
  unfolding session_events_def by (induction evs arbitrary: s) (simp_all add: session_event_ok)

lemma drained_ok: "session_ok s \<Longrightarrow> session_ok (s\<lparr>ps_output := snd (buffer_drain (ps_output s))\<rparr>)"
  by (auto simp: session_ok_def buffer_drain_def buffer_ok_def buffer_bounded_def)

lemma settle_ok: "session_ok s \<Longrightarrow> session_ok (fst (settle timeout was quiet now s slices))"
proof (induction slices arbitrary: was quiet now s)
  case (Cons x slices)
  obtain elapsed evs where x: "x = (elapsed, evs)" by force
  show ?case using Cons session_events_ok [of s evs] unfolding x by (simp add: Let_def)
qed simp

lemma write_line_Ok: "write_line failing s text = Ok s' \<Longrightarrow> s' = s\<lparr>ps_written := ps_written s @ text @ LF\<rparr>"
  by (simp add: write_line_def split: option.splits)

lemma boot_wait_ok: "session_ok s \<Longrightarrow> boot_wait s polls = Ok s' \<Longrightarrow> session_ok s'"
proof (induction polls arbitrary: s)
  case Nil
  then show ?case by (auto simp: boot_wait.simps [of s "[]"] split: if_splits)
next
  case (Cons x polls)
  obtain elapsed evs where x: "x = (elapsed, evs)" by force
  show ?case
    using Cons.prems Cons.IH [OF session_events_ok, of s evs]
    by (auto simp: boot_wait.simps [of s "(elapsed, evs) # polls"] x split: if_splits)
qed

lemma boot_ok: "boot env = Ok s \<Longrightarrow> session_ok s"
proof -
  assume "boot env = Ok s"
  then obtain s0 s1 where w: "write_line (py_write env) session_new (''echo '' @ BOOT_MARKER) = Ok s0"
    and b: "boot_wait s0 (py_boot env) = Ok s1" and s: "s = s1\<lparr>ps_output := snd (buffer_drain (ps_output s1))\<rparr>"
    by (auto simp: boot_def try_bind_Inr split: option.splits)
  have "session_ok s0"
    using write_line_Ok [OF w] by (simp add: session_ok_def session_new_def buffer_new_def buffer_ok_def buffer_bounded_def)
  from drained_ok [OF boot_wait_ok [OF this b]] s show ?thesis by simp
qed


section \<open>The engine's invariant\<close>

definition pty_wf :: "pty_engine \<Rightarrow> bool" where
  "pty_wf en \<longleftrightarrow>
     distinct (map fst (pt_sessions en)) \<and> length (pt_sessions en) \<le> MAX_SESSIONS \<and>
     (\<forall>name s. map_of (pt_sessions en) name = Some s \<longrightarrow> session_ok s)"

lemma length_assoc_remove: "length (assoc_remove k m) \<le> length m"
  by (simp add: assoc_remove_def)

lemma length_assoc_remove_hd: "m \<noteq> [] \<Longrightarrow> length (assoc_remove (fst (hd m)) m) < length m"
  by (cases m) (simp_all add: assoc_remove_def less_Suc_eq_le)

lemma assoc_remove_absent: "map_of m k = None \<Longrightarrow> assoc_remove k m = m"
  by (auto simp: assoc_remove_def map_of_eq_None_iff intro!: filter_True)

lemma admit_wf:
  assumes "pty_wf en" and "session_ok s" and "map_of (pt_sessions en) name = None"
  shows "pty_wf (admit en name s)" and "map_of (pt_sessions (admit en name s)) name = Some s"
proof -
  let ?m = "pt_sessions en"
  define m1 where "m1 = (if length ?m \<ge> MAX_SESSIONS then assoc_remove (fst (hd ?m)) ?m else ?m)"
  have admit: "pt_sessions (admit en name s) = assoc_insert name s m1"
    using assms(3) by (simp add: admit_def Let_def m1_def)
  have d: "distinct (map fst m1)"
    using assms(1) by (simp add: m1_def pty_wf_def distinct_assoc_remove)
  have len: "length m1 < MAX_SESSIONS"
  proof (cases "length ?m \<ge> MAX_SESSIONS")
    case True
    then have "?m \<noteq> []" by (auto simp: MAX_SESSIONS_def)
    from length_assoc_remove_hd [OF this] True assms(1) show ?thesis by (simp add: m1_def pty_wf_def)
  qed (simp add: m1_def)
  have "map_of m1 k = Some v \<Longrightarrow> session_ok v" for k v
    using assms(1) by (auto simp: m1_def pty_wf_def split: if_splits)
  moreover have "length (assoc_insert name s m1) \<le> MAX_SESSIONS"
    using len length_assoc_remove [of name m1] by (simp add: assoc_insert_def)
  ultimately show "pty_wf (admit en name s)"
    using assms(2) d by (auto simp: pty_wf_def admit distinct_assoc_insert)
  show "map_of (pt_sessions (admit en name s)) name = Some s" by (simp add: admit)
qed

lemma get_or_create_wf:
  assumes "pty_wf en" and "get_or_create env en name = (r, en')"
  shows "pty_wf en' \<and> (\<forall>s. r = Ok s \<longrightarrow> session_ok s \<and> map_of (pt_sessions en') name = Some s)"
proof (cases "map_of (pt_sessions en) name")
  case None
  show ?thesis
  proof (cases "boot env")
    case (Inl e)
    with None assms show ?thesis by (auto simp: get_or_create_def)
  next
    case (Inr s)
    with None assms(2) have "r = Ok s" "en' = admit en name s" by (auto simp: get_or_create_def)
    with admit_wf [OF assms(1) boot_ok [OF Inr] None] boot_ok [OF Inr] show ?thesis by simp
  qed
next
  case (Some s)
  with assms show ?thesis by (auto simp: get_or_create_def pty_wf_def)
qed

lemma put_session_wf: "pty_wf en \<Longrightarrow> session_ok s \<Longrightarrow> pty_wf (put_session en name s)"
proof -
  assume wf: "pty_wf en" and s: "session_ok s"
  let ?f = "\<lambda>(k, v). if k = name then (k, s) else (k, v :: pty_session)"
  have keys: "map fst (map ?f m) = map fst m" for m by (induction m) auto
  have vals: "map_of (map ?f m) k = Some v \<Longrightarrow> v = s \<or> map_of m k = Some v" for m k v
    by (induction m) (auto split: if_splits)
  have "session_ok v" if "map_of (map ?f (pt_sessions en)) k = Some v" for k v
    using vals [OF that] wf s unfolding pty_wf_def by blast
  moreover have "pt_sessions (put_session en name s) = map ?f (pt_sessions en)" by (simp add: put_session_def)
  ultimately show ?thesis using wf by (simp only: pty_wf_def keys length_map) blast
qed

lemma pty_run_wf: "pty_wf en \<Longrightarrow> pty_wf (snd (pty_run env en name command t))"
proof -
  assume wf: "pty_wf en"
  obtain r en1 where g: "get_or_create env en name = (r, en1)" by force
  note ok = get_or_create_wf [OF wf g]
  show ?thesis
  proof (cases "\<exists>s. r = Ok s \<and> ps_alive s")
    case False
    with wf ok g show ?thesis by (cases r) (auto simp: pty_run_def split: sum.splits)
  next
    case True
    then obtain s where s: "r = Ok s" "ps_alive s" by blast
    have put: "pty_wf (put_session en1 name (s2\<lparr>ps_output := snd (buffer_drain (ps_output s2))\<rparr>))"
      if "s2 = fst (settle (run_timeout t) w q n (s\<lparr>ps_written := x\<rparr>) slices)" for s2 w q n x slices
    proof -
      have "session_ok (s\<lparr>ps_written := x\<rparr>)" using ok s by (simp add: session_ok_def)
      from settle_ok [OF this] that have "session_ok s2" by simp
      from put_session_wf [OF _ drained_ok [OF this]] ok show ?thesis by blast
    qed
    show ?thesis
    proof (cases "write_line (py_write env) s command")
      case (Inl e)
      with wf ok g s show ?thesis by (auto simp: pty_run_def split: sum.splits)
    next
      case (Inr s1)
      from put [OF refl] show ?thesis
        using wf g s Inr write_line_Ok [OF Inr] by (auto simp: pty_run_def Let_def split: sum.splits)
    qed
  qed
qed

lemma pty_execute_wf: "pty_wf en \<Longrightarrow> pty_wf (snd (pty_execute env en op))"
proof (cases op)
  case (PtyRead name)
  assume wf: "pty_wf en"
  show ?thesis
  proof (cases "map_of (pt_sessions en) name")
    case (Some s)
    then have "session_ok s" using wf by (simp add: pty_wf_def)
    from put_session_wf [OF wf drained_ok [OF this]] wf Some PtyRead show ?thesis
      by (simp add: pty_read_def split: sum.splits)
  qed (use wf PtyRead in \<open>simp add: pty_read_def split: sum.splits\<close>)
next
  case (PtyExit name)
  assume wf: "pty_wf en"
  have "length (assoc_remove name (pt_sessions en)) \<le> MAX_SESSIONS"
    using wf length_assoc_remove [of name "pt_sessions en"] by (simp add: pty_wf_def)
  then have "pty_wf (en\<lparr>pt_sessions := assoc_remove name (pt_sessions en)\<rparr>)"
    using wf by (auto simp: pty_wf_def distinct_assoc_remove)
  with wf PtyExit show ?thesis by (simp add: pty_exit_def split: sum.splits)
qed (simp_all add: pty_run_wf pty_status_def pty_list_def split: sum.splits)

lemma deliver_wf: "pty_wf en \<Longrightarrow> pty_wf (deliver en name evs)"
proof -
  assume wf: "pty_wf en"
  have keys: "map fst (map (\<lambda>(k, s). (k, if k = name then session_events s evs else s)) m) = map fst m" for m
    by (induction m) auto
  have vals: "map_of (map (\<lambda>(k, s). (k, if k = name then session_events s evs else s)) m) k =
      map_option (\<lambda>s. if k = name then session_events s evs else s) (map_of m k)" for m k
    by (induction m) auto
  have sessions: "pt_sessions (deliver en name evs) =
      map (\<lambda>(k, s). (k, if k = name then session_events s evs else s)) (pt_sessions en)"
    by (simp add: deliver_def)
  show ?thesis
    unfolding pty_wf_def sessions keys length_map vals
    using wf session_events_ok by (auto simp: pty_wf_def)
qed

lemma engine_step_wf: "pty_wf en \<Longrightarrow> pty_wf (engine_step en step)"
  by (cases step) (simp_all add: pty_execute_wf deliver_wf)

lemma engine_steps_wf: "pty_wf en \<Longrightarrow> pty_wf (foldl engine_step en steps)"
  by (induction steps arbitrary: en) (simp_all add: engine_step_wf)

text \<open>
  An operation neither reads nor changes what the readers of other sessions deliver meanwhile: their
  events may as well come after it.
\<close>

lemma deliver_gate [simp]: "pt_gate (deliver en n evs) = pt_gate en"
  by (simp add: deliver_def)

lemma deliver_lookup: "k \<noteq> n \<Longrightarrow> map_of (pt_sessions (deliver en n evs)) k = map_of (pt_sessions en) k"
proof -
  assume "k \<noteq> n"
  then have "map_of (map (\<lambda>(k, s). (k, if k = n then session_events s evs else s)) m) k = map_of m k" for m
    by (induction m) auto
  then show ?thesis by (simp add: deliver_def)
qed

lemma deliver_put: "k \<noteq> n \<Longrightarrow> put_session (deliver en n evs) k s = deliver (put_session en k s) n evs"
proof -
  assume "k \<noteq> n"
  then have "map (\<lambda>(j, v). if j = k then (j, s) else (j, v)) (map (\<lambda>(j, v). (j, if j = n then session_events v evs else v)) m) =
      map (\<lambda>(j, v). (j, if j = n then session_events v evs else v)) (map (\<lambda>(j, v). if j = k then (j, s) else (j, v)) m)" for m
    by (induction m) auto
  then show ?thesis by (simp add: put_session_def deliver_def del: map_map)
qed

lemma deliver_admit:
  assumes "k \<noteq> n"
  shows "admit (deliver en n evs) k s = deliver (admit en k s) n evs"
proof -
  let ?up = "map (\<lambda>(k, s). (k, if k = n then session_events s evs else s))"
  have remove: "assoc_remove j (?up m) = ?up (assoc_remove j m)" for j m
    by (induction m) (auto simp: assoc_remove_def)
  have insert: "assoc_insert k s (?up m) = ?up (assoc_insert k s m)" for m
    using assms remove [of k m] by (simp add: assoc_insert_def)
  have first: "fst (hd (?up m)) = fst (hd m)" if "8 \<le> length m" for m
    using that by (cases m) (auto split: prod.split)
  have present: "map_of (?up m) k = map_of m k" for m
    using assms by (induction m) auto
  show ?thesis
    by (auto simp: admit_def Let_def deliver_def present insert remove first MAX_SESSIONS_def
        intro!: arg_cong [of _ _ "\<lambda>x. en\<lparr>pt_sessions := x\<rparr>"])
qed

lemma run_leaves_others:
  assumes "k \<noteq> n"
  shows "pty_run env (deliver en n evs) k command t =
    (fst (pty_run env en k command t), deliver (snd (pty_run env en k command t)) n evs)"
  by (auto simp: pty_run_def gate_shell_def get_or_create_def Let_def deliver_lookup [OF assms]
      deliver_admit [OF assms] deliver_put [OF assms] split: option.split sum.split)

section \<open>Waiting for output\<close>

lemma push_char_nonempty:
  "ob_lines b \<noteq> [] \<or> ob_partial b \<noteq> [] \<Longrightarrow> w \<noteq> [] \<Longrightarrow>
   ob_lines (push_char b w) \<noteq> [] \<or> ob_partial (push_char b w) \<noteq> []"
  by (auto simp: push_char_def Let_def RING_LINES_def)

lemma push_chars_nonempty:
  "ob_lines b \<noteq> [] \<or> ob_partial b \<noteq> [] \<Longrightarrow> [] \<notin> set chs \<Longrightarrow>
   ob_lines (foldl push_char b chs) \<noteq> [] \<or> ob_partial (foldl push_char b chs) \<noteq> []"
proof (induction chs arbitrary: b)
  case (Cons w chs)
  have "w \<noteq> []" "[] \<notin> set chs" using Cons.prems(2) by auto
  from Cons.IH [OF push_char_nonempty [OF Cons.prems(1) this(1)] this(2)] show ?case by simp
qed simp

lemma pending_push:
  assumes "buffer_pending b" and "\<not> ob_poisoned (buffer_push b chunk)"
  shows "buffer_pending (buffer_push b chunk)"
proof -
  define b1 where "b1 = foldl push_char b (chars_of (scrub_ansi chunk))"
  have "ob_lines b1 \<noteq> [] \<or> ob_partial b1 \<noteq> []"
    unfolding b1_def using assms(1) chars_of_ne by (intro push_chars_nonempty) (auto simp: buffer_pending_def)
  then have "ob_lines (cap_partial b1) \<noteq> [] \<or> ob_partial (cap_partial b1) \<noteq> []"
    by (auto simp: cap_partial_def Let_def PARTIAL_CAP_def)
  with assms show ?thesis by (auto simp: buffer_pending_def buffer_push_def b1_def)
qed

lemma poisoned_reader: "ob_poisoned (ps_output s) \<Longrightarrow> ob_poisoned (ps_output (reader_step s r))"
  by (cases r) (auto simp: Let_def buffer_push_def)

lemma poisoned_event: "ob_poisoned (ps_output s) \<Longrightarrow> ob_poisoned (ps_output (session_event s e))"
  by (cases e) (auto simp: poisoned_reader)

lemma pending_event:
  assumes "buffer_pending (ps_output s)" and "\<not> ob_poisoned (ps_output (session_event s e))"
  shows "buffer_pending (ps_output (session_event s e))"
proof (cases e)
  case (ReaderGets r)
  with assms pending_push show ?thesis by (cases r) (auto simp: Let_def split: if_splits)
qed (use assms in simp)

lemma pending_events:
  assumes "buffer_pending (ps_output s)" and "\<not> ob_poisoned (ps_output (session_events s evs))"
  shows "buffer_pending (ps_output (session_events s evs))"
  using assms
proof (induction evs arbitrary: s)
  case (Cons e evs)
  have "ob_poisoned (ps_output s1) \<Longrightarrow> ob_poisoned (ps_output (session_events s1 evs))" for s1
    unfolding session_events_def by (induction evs arbitrary: s1) (simp_all add: poisoned_event)
  with Cons.prems(2) have "\<not> ob_poisoned (ps_output (session_event s e))" by (auto simp: session_events_def)
  from Cons.IH [OF pending_event [OF Cons.prems(1) this]] Cons.prems(2) show ?case
    by (simp add: session_events_def)
qed (simp add: session_events_def)

lemma poisoned_events: "ob_poisoned (ps_output s) \<Longrightarrow> ob_poisoned (ps_output (session_events s evs))"
  unfolding session_events_def by (induction evs arbitrary: s) (simp_all add: poisoned_event)

lemma poisoned_settle:
  "ob_poisoned (ps_output s) \<Longrightarrow> ob_poisoned (ps_output (fst (settle timeout was quiet now s slices)))"
proof (induction slices arbitrary: was quiet now s)
  case (Cons x slices)
  obtain elapsed evs where x: "x = (elapsed, evs)" by force
  show ?case using Cons poisoned_events [of s evs] unfolding x by (simp add: Let_def)
qed simp

lemma settle_pending:
  assumes "buffer_pending (ps_output s)" and "list_ex (\<lambda>(elapsed, evs). elapsed \<ge> timeout) slices"
    and "settle timeout True quiet now s slices = (s', stop)" and "\<not> ob_poisoned (ps_output s')"
  shows "stop \<ge> timeout"
  using assms
proof (induction slices arbitrary: quiet now s)
  case (Cons x slices)
  obtain elapsed evs where x: "x = (elapsed, evs)" by force
  define s1 where "s1 = session_events s evs"
  show ?case
  proof (cases "elapsed \<ge> timeout")
    case True
    with Cons.prems(3) show ?thesis unfolding x by (auto simp: Let_def split: if_splits)
  next
    case False
    have np: "\<not> ob_poisoned (ps_output s1)"
      using Cons.prems(3,4) poisoned_settle [of s1] False unfolding x s1_def
      by (auto simp: Let_def split: if_splits) (metis fst_conv)+
    then have p: "buffer_pending (ps_output s1)"
      unfolding s1_def by (intro pending_events Cons.prems(1))
    have "settle timeout True 0 elapsed s1 slices = (s', stop)"
      using Cons.prems(3) p False unfolding x by (simp add: Let_def s1_def)
    moreover have "list_ex (\<lambda>(elapsed, evs). elapsed \<ge> timeout) slices"
      using Cons.prems(2) False by (simp add: x)
    ultimately show ?thesis using Cons.IH [OF p] Cons.prems(4) by blast
  qed
qed simp

lemma shown_length:
  "length (ob_lines b) \<le> n \<Longrightarrow> buffer_bounded m b \<Longrightarrow> length (shown b) \<le> n * (m + 1) + m"
proof -
  assume n: "length (ob_lines b) \<le> n" and m: "buffer_bounded m b"
  have "list_all (\<lambda>l. length l \<le> m) ls \<Longrightarrow> length (concat (map (\<lambda>l. l @ LF) ls)) \<le> length ls * (m + 1)" for ls
    by (induction ls) (auto simp: LF_def)
  with m have "length (concat (map (\<lambda>l. l @ LF) (ob_lines b))) \<le> length (ob_lines b) * (m + 1)"
    by (simp add: buffer_bounded_def)
  also have "\<dots> \<le> n * (m + 1)" using n by (rule mult_le_mono1)
  finally show ?thesis using m by (simp add: shown_def buffer_bounded_def)
qed

lemma session_limits:
  assumes "session_ok s"
  shows "length (ob_lines (ps_output s)) \<le> 1000 \<and>
    list_all (\<lambda>l. length l \<le> 40 * 1024 \<and> CHR 0x0A \<notin> set l) (ob_lines (ps_output s)) \<and>
    length (shown (ps_output s)) \<le> 1000 * (40 * 1024 + 1) + 40 * 1024 \<and>
    sum_list (map (\<lambda>l. length l + 1) (ob_lines (ps_output s))) \<le> ob_bytes (ps_output s) \<and>
    length (ob_partial (ps_output s)) \<le> (if ob_poisoned (ps_output s) then 40 * 1024 else 16 * 1024)"
proof -
  have b: "buffer_bounded (40 * 1024) (ps_output s)" "length (ob_lines (ps_output s)) \<le> 1000"
    using assms by (simp_all add: session_ok_def buffer_ok_def LINE_BOUND_def RING_LINES_def)
  from shown_length [OF b(2,1)] b assms show ?thesis
    unfolding session_ok_def buffer_ok_def line_bytes_def buffer_bounded_def PARTIAL_CAP_def
    by (auto simp: list_all_iff)
qed

section \<open>Properties\<close>

text \<open>
  C35. What every session keeps. From an engine without sessions, after any operations and any
  output the reader threads deliver to any session between them, under any behaviour of the
  shells: session names are unique and at most eight; every buffer holds at most 1000 lines of at
  most 40 KiB each, none with a line feed in it, so at most about 39 MiB; it accounts for at least
  the bytes of its lines, so the code's subtraction cannot underflow when old lines are dropped;
  and its partial line holds at most 16 KiB, or 40 KiB once its reader panicked. (The module's
  header promises 64 KiB for each shell, and no code keeps that: \<open>ring_exceeds_64_kib\<close>.) Without
  the shell capability every operation is refused and changes nothing.
\<close>

theorem pty_engine_invariant:
  assumes "en = foldl engine_step \<lparr>pt_gate = g, pt_sessions = []\<rparr> steps"
  shows "distinct (map fst (pt_sessions en)) \<and> length (pt_sessions en) \<le> 8 \<and>
    (\<forall>name s. map_of (pt_sessions en) name = Some s \<longrightarrow>
       length (ob_lines (ps_output s)) \<le> 1000 \<and>
       list_all (\<lambda>l. length l \<le> 40 * 1024 \<and> CHR 0x0A \<notin> set l) (ob_lines (ps_output s)) \<and>
       length (shown (ps_output s)) \<le> 1000 * (40 * 1024 + 1) + 40 * 1024 \<and>
       sum_list (map (\<lambda>l. length l + 1) (ob_lines (ps_output s))) \<le> ob_bytes (ps_output s) \<and>
       length (ob_partial (ps_output s)) \<le> (if ob_poisoned (ps_output s) then 40 * 1024 else 16 * 1024)) \<and>
    (\<not> allows (pt_gate en) ''desktop.shell.execute'' \<longrightarrow>
       (\<forall>env op. pty_execute env en op =
          (Err ''desktop.pty: capability not granted (desktop.shell.execute)'', en)))"
proof -
  have wf: "pty_wf en" unfolding assms by (rule engine_steps_wf) (simp add: pty_wf_def)
  have "pty_execute env en op =
      (Err ''desktop.pty: capability not granted (desktop.shell.execute)'', en)"
    if "\<not> allows (pt_gate en) ''desktop.shell.execute''" for env op
    using that
    by (cases op) (simp_all add: gate_shell_def pty_run_def pty_read_def pty_status_def pty_list_def pty_exit_def)
  with wf session_limits show ?thesis
    unfolding pty_wf_def MAX_SESSIONS_def by blast
qed

text \<open>A session for witnesses: its shell answers the marker, then prints one line.\<close>

definition demo_pty :: pty_env where
  "demo_pty = \<lparr>py_spawn = None, py_write = (\<lambda>_. None),
     py_boot = [(0, [ReaderGets (ReadBytes (BOOT_MARKER @ LF @ ''$ ''))])],
     py_slices = [(150, [ReaderGets (ReadBytes (''hi'' @ LF @ ''$ ''))]), (300, []), (450, [])]\<rparr>"

definition demo_pty_gate :: capability_gate where
  "demo_pty_gate = gate_new \<lparr>capabilities = [''desktop.shell.execute''], always_allow_paths = [], one_shot_paths = []\<rparr>"

lemma lossy_ascii_step: "from_utf8_lossy [] = []" "byte_val c < 128 \<Longrightarrow> from_utf8_lossy (c # s) = c # from_utf8_lossy s"
  by (subst from_utf8_lossy.simps, simp add: utf8_chunk_def)+

lemmas pty_eval = boot_def boot_wait.simps write_line_def session_new_def session_events_def buffer_new_def
  buffer_contains_def buffer_push_def buffer_drain_def buffer_pending_def push_char_def cap_partial_def scrub_ansi_def
  strip_suffix_char_def is_cont_byte_def starts_with_def control_noise_def lossy_ascii_step
  BOOT_MARKER_def BOOT_TIMEOUT_MS_def READ_BUFFER_def RING_LINES_def PARTIAL_CAP_def MAX_SESSIONS_def ESC_def LF_def Let_def

definition demo_session :: "string \<Rightarrow> pty_session" where
  "demo_session written =
     \<lparr>ps_output = \<lparr>ob_lines = [], ob_partial = ''$ '', ob_bytes = 0, ob_poisoned = False\<rparr>,
      ps_written = written, ps_alive = True, ps_reader_lost = False, ps_reader_ended = False\<rparr>"

lemma demo_boot: "boot demo_pty = Ok (demo_session (''echo __BRIDGE_READY__'' @ LF))"
  by (simp add: demo_pty_def pty_eval demo_session_def)

lemma demo_run:
  "pty_run demo_pty \<lparr>pt_gate = demo_pty_gate, pt_sessions = []\<rparr> ''a'' ''echo hi'' (Some 200) =
   (Ok (RunPayload ''a'' (''$ hi'' @ LF @ ''$ '') False None),
    \<lparr>pt_gate = demo_pty_gate,
     pt_sessions = [(''a'', demo_session (''echo __BRIDGE_READY__'' @ LF @ ''echo hi'' @ LF))]\<rparr>)"
proof -
  have g: "allows demo_pty_gate ''desktop.shell.execute''" by code_simp
  have tr: "str_trim ''echo hi'' = ''echo hi''" by code_simp
  show ?thesis
    by (simp add: pty_run_def gate_shell_def g tr get_or_create_def demo_boot)
      (simp add: demo_session_def demo_pty_def admit_def run_timeout_def clamp_def put_session_def
        assoc_insert_def assoc_remove_def pty_eval)
qed

theorem pty_engine_invariant_witness:
  "let en = foldl engine_step \<lparr>pt_gate = demo_pty_gate, pt_sessions = []\<rparr>
         [Operate demo_pty (PtyRun ''a'' ''echo hi'' (Some 200)), Delivered ''a'' [ReaderGets (ReadBytes ''late'')]] in
   map fst (pt_sessions en) = [''a''] \<and> length (shown (ps_output (the (map_of (pt_sessions en) ''a'')))) \<le> 41001960 \<and>
   ob_partial (ps_output (the (map_of (pt_sessions en) ''a''))) = ''$ late''"
proof -
  let ?steps = "[Operate demo_pty (PtyRun ''a'' ''echo hi'' (Some 200)), Delivered ''a'' [ReaderGets (ReadBytes ''late'')]]"
  define en where "en = foldl engine_step \<lparr>pt_gate = demo_pty_gate, pt_sessions = []\<rparr> ?steps"
  have e: "map fst (pt_sessions en) = [''a'']"
    "ob_partial (ps_output (the (map_of (pt_sessions en) ''a''))) = ''$ late''"
    by (simp_all add: en_def demo_run deliver_def demo_session_def pty_eval)
  then obtain s where "map_of (pt_sessions en) ''a'' = Some s" by (cases "pt_sessions en") auto
  with pty_engine_invariant [OF en_def] e show ?thesis unfolding en_def [symmetric] Let_def by fastforce
qed

text \<open>
  C40. When a run stops waiting. If output is pending when the waiting starts, as it always is
  after a shell has printed its prompt, the run waits out its whole time limit, whatever the
  shell prints or not (unless the reader panics). If none is pending and the shell is silent in
  the first two slices, the run returns after the second, with nothing, whatever the limit is.
\<close>

theorem settle_waits_all_or_nothing:
  assumes "settle timeout (buffer_pending (ps_output s)) 0 0 s slices = (s', stop)"
  shows "(buffer_pending (ps_output s) \<longrightarrow> \<not> ob_poisoned (ps_output s') \<longrightarrow>
      list_ex (\<lambda>(elapsed, evs). elapsed \<ge> timeout) slices \<longrightarrow> stop \<ge> timeout) \<and>
    (\<not> buffer_pending (ps_output s) \<longrightarrow> slices = (t1, []) # (t2, []) # later \<longrightarrow> t1 < timeout \<longrightarrow>
      s' = s \<and> stop = t2)"
proof -
  have "stop \<ge> timeout"
    if "buffer_pending (ps_output s)" "\<not> ob_poisoned (ps_output s')"
      "list_ex (\<lambda>(elapsed, evs). elapsed \<ge> timeout) slices"
    using settle_pending [OF that(1,3)] assms that(1,2) by simp
  moreover have "s' = s \<and> stop = t2"
    if "\<not> buffer_pending (ps_output s)" "slices = (t1, []) # (t2, []) # later" "t1 < timeout"
    using assms that by (auto simp: session_events_def Let_def)
  ultimately show ?thesis by blast
qed

theorem settle_waits_all_or_nothing_witness:
  "let s = demo_session [] in
   snd (settle 200 True 0 0 s [(150, []), (300, [])]) \<ge> 200 \<and>
   settle 9000 False 0 0 session_new [(150, []), (300, []), (450, [ReaderGets (ReadBytes ''late'')])] = (session_new, 300)"
proof -
  let ?s = "demo_session []"
  let ?late = "[(450, [ReaderGets (ReadBytes ''late'')])]"
  have p: "buffer_pending (ps_output ?s) = True" "buffer_pending (ps_output session_new) = False"
    by (simp_all add: demo_session_def pty_eval)
  obtain s1 t where a: "settle 200 True 0 0 ?s [(150, []), (300, [])] = (s1, t)" by fastforce
  then have "s1 = ?s" by (simp add: p Let_def session_events_def)
  then have "\<not> ob_poisoned (ps_output s1)" by (simp add: demo_session_def)
  with settle_waits_all_or_nothing [of 200 ?s "[(150, []), (300, [])]" s1 t 0 0 "[]", unfolded p, OF a]
  have "t \<ge> 200" by simp
  moreover obtain s2 u where b: "settle 9000 False 0 0 session_new ((150, []) # (300, []) # ?late) = (s2, u)"
    by fastforce
  have "s2 = session_new \<and> u = 300"
    using settle_waits_all_or_nothing [of 9000 session_new "(150, []) # (300, []) # ?late" s2 u 150 300 ?late, unfolded p, OF b]
    by simp
  ultimately show ?thesis unfolding Let_def a b by simp
qed

section \<open>What a session gets wrong\<close>

text \<open>
  The ring is bounded in lines only: a thousand lines of a hundred characters, in chunks of one
  line, are all kept, against the header's 64 KiB for each shell.
\<close>

lemma push_ascii_line:
  assumes "ob_partial b = []" "\<not> ob_poisoned b" "length (ob_lines b) < RING_LINES"
  shows "buffer_push b (replicate 99 (CHR ''x'') @ LF) =
    b\<lparr>ob_lines := ob_lines b @ [replicate 99 (CHR ''x'')], ob_bytes := ob_bytes b + 100\<rparr>"
proof -
  have chars: "chars_of (scrub_ansi (replicate 99 (CHR ''x'') @ LF)) = replicate 99 ''x'' @ [LF]"
    by (simp add: eval_nat_numeral scrub_ansi_def is_cont_byte_def control_noise_def ESC_def LF_def)
  have "foldl push_char b (replicate n ''x'') = b\<lparr>ob_partial := ob_partial b @ replicate n (CHR ''x'')\<rparr>" for n b
    by (induction n arbitrary: b) (simp_all add: push_char_def LF_def)
  with assms show ?thesis
    by (simp add: buffer_push_def chars push_char_def cap_partial_def Let_def strip_suffix_char_def PARTIAL_CAP_def)
qed

lemma ring_exceeds_64_kib:
  "length (shown (foldl buffer_push buffer_new (replicate 1000 (replicate 99 (CHR ''x'') @ LF)))) = 100000"
proof -
  let ?line = "replicate 99 (CHR ''x'')"
  have "foldl buffer_push buffer_new (replicate n (?line @ LF)) =
      \<lparr>ob_lines = replicate n ?line, ob_partial = [], ob_bytes = n * 100, ob_poisoned = False\<rparr>" if "n \<le> 1000" for n
    using that
  proof (induction n)
    case (Suc n)
    have "replicate (Suc n) (?line @ LF) = replicate n (?line @ LF) @ [?line @ LF]"
      by (simp only: replicate_Suc replicate_append_same)
    moreover have "replicate (Suc n) ?line = replicate n ?line @ [?line]"
      by (simp only: replicate_Suc replicate_append_same)
    ultimately show ?case
      using Suc push_ascii_line [of "\<lparr>ob_lines = replicate n ?line, ob_partial = [], ob_bytes = n * 100, ob_poisoned = False\<rparr>"]
      by (simp add: RING_LINES_def del: replicate_Suc)
  qed (simp add: buffer_new_def)
  from this [of 1000] have "foldl buffer_push buffer_new (replicate 1000 (?line @ LF)) =
      \<lparr>ob_lines = replicate 1000 ?line, ob_partial = [], ob_bytes = 100000, ob_poisoned = False\<rparr>" by simp
  moreover have "length (concat (map (\<lambda>l. l @ LF) (replicate n ?line))) = n * 100" for n
    by (induction n) (simp_all add: LF_def)
  ultimately show ?thesis by (simp add: shown_def)
qed

text \<open>A drain keeps the partial line: the next one returns it again, with a line feed before it.\<close>

lemma drain_repeats_partial:
  assumes "\<not> ob_poisoned b" and "ob_partial b \<noteq> []"
  shows "buffer_drain (snd (buffer_drain b)) = (LF @ ob_partial b, snd (buffer_drain b))"
  using assms by (simp add: buffer_drain_def)

text \<open>The terminal's echo of the boot command is taken for the marker the shell should print.\<close>

lemma echo_passes_for_marker:
  "buffer_contains (buffer_push buffer_new (''echo '' @ BOOT_MARKER)) BOOT_MARKER"
  by code_simp

text \<open>An escape sequence split between two reads is not removed.\<close>

lemma split_escape_is_kept:
  "ob_partial (buffer_push (buffer_push buffer_new [CHR 0x1B, CHR 0x5B]) ''31mred'') = ''31mred''"
  by code_simp

text \<open>At the cap the victim is the first of the map's order, not the oldest session.\<close>

lemma eviction_takes_first_key:
  assumes "length (pt_sessions en) = MAX_SESSIONS" and "map_of (pt_sessions en) name = None"
    and "name \<noteq> fst (hd (pt_sessions en))"
  shows "map_of (pt_sessions (admit en name s)) (fst (hd (pt_sessions en))) = None"
  using assms by (simp add: admit_def Let_def)

text \<open>
  A partial line cut inside a character panics in the reader with the buffer locked: from then
  on the session prints nothing, although its shell lives.
\<close>

lemma poisoned_session_is_silent:
  "ob_poisoned b \<Longrightarrow> fst (buffer_drain b) = [] \<and> buffer_push b chunk = b \<and> \<not> buffer_pending b"
  by (simp add: buffer_drain_def buffer_push_def buffer_pending_def)

lemma cut_inside_character_poisons:
  assumes "\<not> ob_poisoned b" and "length (ob_partial b) > PARTIAL_CAP"
    and "is_cont_byte (ob_partial b ! (length (ob_partial b) - PARTIAL_CAP))"
  shows "ob_poisoned (cap_partial b)"
proof -
  have "\<not> is_char_boundary (ob_partial b) (length (ob_partial b) - PARTIAL_CAP)"
    using assms(2,3) by (auto simp: is_char_boundary_def PARTIAL_CAP_def)
  with assms(2) show ?thesis by (simp add: cap_partial_def Let_def)
qed

end
