(* ===== verification/Git_Ops.thy ===== *)
theory Git_Ops
  imports Text_Scan Daemon_Error Capability "HOL-Library.Word"
begin

text \<open>
  \<open>daemon-core/src/git_ops.rs\<close>: read-only questions to \<open>git\<close>. The program is a parameter: how
  its \<open>n\<close>-th call ends, given its directory and arguments. An operation carries the list of the
  calls it made, so the properties can say which they are.
\<close>

section \<open>Calls\<close>

definition GIT_MAX_OUTPUT_BYTES :: nat where "GIT_MAX_OUTPUT_BYTES = 512 * 1024"

datatype git_end =
    GitNotSpawned string
  | GitTimedOut
  | GitWaitFailed io_error
  | GitExited bool bytes bytes

record git_env =
  ge_git :: "nat \<Rightarrow> path \<Rightarrow> string list \<Rightarrow> git_end"
  ge_cwd :: "(io_error, path) res"
  ge_debug :: "string \<Rightarrow> string"

type_synonym git_calls = "(path \<times> string list) list"
type_synonym 'a git_res = "(daemon_error, 'a) res \<times> git_calls"

definition git_then :: "'a git_res \<Rightarrow> ('a \<Rightarrow> git_calls \<Rightarrow> 'b git_res) \<Rightarrow> 'b git_res" where
  "git_then r k = (case r of (Inl e, cs) \<Rightarrow> (Err e, cs) | (Inr a, cs) \<Rightarrow> k a cs)"

lemma git_then_simps [simp, result_simps]:
  "git_then (Inl e, cs) k = (Inl e, cs)"
  "git_then (Inr a, cs) k = k a cs"
  by (simp_all add: git_then_def)

definition first_line :: "string \<Rightarrow> string option" where
  "first_line s = (case str_lines s of l # ls \<Rightarrow> Some l | [] \<Rightarrow> None)"

definition git_output :: "git_end \<Rightarrow> (daemon_error, string) res" where
  "git_output result =
     (case result of
        GitNotSpawned e \<Rightarrow> Err (Io (OtherIo (''git: '' @ e)))
      | GitTimedOut \<Rightarrow> Err (Protocol ''git: timed out'')
      | GitWaitFailed e \<Rightarrow> Err (Io e)
      | GitExited ok out err \<Rightarrow>
          if \<not> ok
          then Err (Protocol (''git: '' @
                 (case first_line (from_utf8_lossy err) of Some l \<Rightarrow> l | None \<Rightarrow> ''git failed'')))
          else
            let kept = take GIT_MAX_OUTPUT_BYTES out in
            if valid_utf8 kept then Ok kept else Err (Protocol ''git: non-utf8 output''))"

definition run_git :: "git_env \<Rightarrow> path \<Rightarrow> string list \<Rightarrow> git_calls \<Rightarrow> string git_res" where
  "run_git E dir args calls = (git_output (ge_git E (length calls) dir args), calls @ [(dir, args)])"

definition gate_root :: "capability_gate \<Rightarrow> path \<Rightarrow> (daemon_error, path) res" where
  "gate_root g root =
     (case check_path g ''desktop.fs.read'' root of
        Allow \<Rightarrow> Ok root
      | RequireConsent \<Rightarrow>
          Err (CapabilityDenied (''desktop.git: repo '' @ path_display root @ '' requires consent (desktop.fs.read)''))
      | Deny \<Rightarrow> Err (CapabilityDenied ''desktop.git: not granted''))"

definition absolute_path :: "git_env \<Rightarrow> path \<Rightarrow> (daemon_error, path) res" where
  "absolute_path E p =
     (if p \<noteq> [] \<and> hd p = RootDir then Ok p else io_try (ge_cwd E) (\<lambda>d. Ok (path_join d p)))"

definition gate_repo :: "git_env \<Rightarrow> capability_gate \<Rightarrow> path \<Rightarrow> path git_res" where
  "gate_repo E g p =
     git_then (absolute_path E p, []) (\<lambda>dir cs.
     git_then (run_git E dir [''rev-parse'', ''--show-toplevel''] cs) (\<lambda>root_line cs.
       (gate_root g (path_components (str_trim root_line)), cs)))"

section \<open>Overview\<close>

text \<open>\<open>parse\<close> of an \<open>i64\<close>.\<close>

definition parse_i64 :: "string \<Rightarrow> int option" where
  "parse_i64 s =
     (case s of
        c # ds \<Rightarrow>
          if c = CHR ''-'' then
            (if ds = [] \<or> \<not> list_all is_digit ds \<or> int (digits_value ds) > 2 ^ 63 then None
             else Some (- int (digits_value ds)))
          else map_option int (parse_unsigned 63 s)
      | [] \<Rightarrow> None)"

definition upstream_of :: "string \<Rightarrow> string option" where
  "upstream_of line =
     (case split_str ''...'' line of
        a # rest # _ \<Rightarrow>
          (case split_whitespace rest of w # _ \<Rightarrow> Some (trim_start_char (CHR 0x5B) w) | [] \<Rightarrow> None)
      | _ \<Rightarrow> None)"

definition count_part :: "int \<times> int \<Rightarrow> string \<Rightarrow> int \<times> int" where
  "count_part ab part0 =
     (let part = str_trim part0; value = (\<lambda>n. case parse_i64 n of Some i \<Rightarrow> i | None \<Rightarrow> 0) in
      case strip_prefix ''ahead '' part of
        Some n \<Rightarrow> (value n, snd ab)
      | None \<Rightarrow> (case strip_prefix ''behind '' part of Some n \<Rightarrow> (fst ab, value n) | None \<Rightarrow> ab))"

text \<open>The bracketed counters of the line. A slice outside the line is a panic, \<open>None\<close>.\<close>

definition tracking_counts :: "string \<Rightarrow> (int \<times> int) option" where
  "tracking_counts line =
     (if CHR 0x5B \<notin> set line then Some (0, 0)
      else
        let idx = length (takeWhile (\<lambda>c. c \<noteq> CHR 0x5B) line); stop = length line - 1 in
        if idx + 1 \<le> stop \<and> is_char_boundary line stop
        then Some (foldl count_part (0, 0) (split_on (CHR '','') (drop (idx + 1) (take stop line))))
        else None)"

record status_lists =
  gs_staged :: "string list"
  gs_modified :: "string list"
  gs_untracked :: "string list"

definition porcelain_line :: "status_lists \<Rightarrow> string \<Rightarrow> status_lists" where
  "porcelain_line st line =
     (if length line < 4 then st
      else
        let x = line ! 0; file = trim_start (drop 2 line) in
        if x = CHR 0x3F then st\<lparr>gs_untracked := gs_untracked st @ [file]\<rparr>
        else if x \<noteq> CHR '' '' then st\<lparr>gs_staged := gs_staged st @ [file]\<rparr>
        else st\<lparr>gs_modified := gs_modified st @ [file]\<rparr>)"

definition porcelain :: "string \<Rightarrow> status_lists" where
  "porcelain text = foldl porcelain_line \<lparr>gs_staged = [], gs_modified = [], gs_untracked = []\<rparr> (str_lines text)"

record git_commit =
  gc_hash :: string
  gc_subject :: string
  gc_relative_date :: string
  gc_author :: string

definition TAB :: char where "TAB = CHR 0x09"

definition commit_line :: "string \<Rightarrow> git_commit option" where
  "commit_line line =
     (case split_on TAB line of
        h # s # d # rest \<Rightarrow>
          Some \<lparr>gc_hash = h, gc_subject = s, gc_relative_date = d,
                gc_author = (case rest of a # _ \<Rightarrow> a | [] \<Rightarrow> [])\<rparr>
      | _ \<Rightarrow> None)"

record git_overview_result =
  go_root :: path
  go_branch :: string
  go_upstream :: "string option"
  go_ahead :: int
  go_behind :: int
  go_head :: string
  go_subject :: string
  go_status :: status_lists
  go_recent_commits :: "git_commit list"

definition LOG_FORMAT :: string where
  "LOG_FORMAT = ''--format=%h%x09%s%x09%ar%x09%an''"

text \<open>An overview's outcome: a panic of the counters' slice is \<open>Ok None\<close>.\<close>

definition git_overview :: "git_env \<Rightarrow> capability_gate \<Rightarrow> path \<Rightarrow> git_overview_result option git_res" where
  "git_overview E g p =
     git_then (gate_repo E g p) (\<lambda>root cs.
     git_then (run_git E root [''rev-parse'', ''--abbrev-ref'', ''HEAD''] cs) (\<lambda>branch cs.
     git_then (run_git E root [''rev-parse'', ''HEAD''] cs) (\<lambda>head cs.
     git_then (run_git E root [''log'', ''-1'', ''--format=%s''] cs) (\<lambda>subject cs.
     git_then (run_git E root [''status'', ''-sb''] cs) (\<lambda>track cs.
       let line = (case first_line track of Some l \<Rightarrow> l | None \<Rightarrow> []) in
       case tracking_counts line of
         None \<Rightarrow> (Ok None, cs)
       | Some (ahead, behind) \<Rightarrow>
           git_then (run_git E root [''status'', ''--porcelain''] cs) (\<lambda>status cs.
           git_then (run_git E root [''log'', ''--max-count=10'', ''--date=relative'', LOG_FORMAT] cs) (\<lambda>log cs.
             (Ok (Some \<lparr>go_root = root, go_branch = str_trim branch, go_upstream = upstream_of line,
                go_ahead = ahead, go_behind = behind, go_head = str_trim head,
                go_subject = str_trim subject, go_status = porcelain status,
                go_recent_commits = List.map_filter commit_line (str_lines log)\<rparr>), cs))))))))"

section \<open>Diff\<close>

record git_diff_request =
  gd_path :: path
  gd_target :: "string option"
  gd_max_files :: "nat option"

record git_diff_result =
  gr_target :: string
  gr_files_changed :: nat
  gr_insertions :: "64 word"
  gr_deletions :: "64 word"
  gr_truncated :: bool
  gr_diff :: string

definition bad_target :: "string \<Rightarrow> bool" where
  "bad_target target = (starts_with target ''-'' \<or> has_control target)"

text \<open>The arguments that select what is compared; the second name of the index is never reached.\<close>

definition target_args :: "string \<Rightarrow> string list" where
  "target_args target =
     (if target = ''staged'' \<or> target = ''--cached'' then [''diff'', ''--cached'']
      else if target = ''unstaged'' \<or> target = [] then [''diff'']
      else [''diff'', target])"

text \<open>The sums are those of \<open>usize\<close> in a release build, where they wrap.\<close>

definition numstat_line :: "nat \<times> 64 word \<times> 64 word \<Rightarrow> string \<Rightarrow> nat \<times> 64 word \<times> 64 word" where
  "numstat_line fid line =
     (case fid of (f, i, d) \<Rightarrow>
        (case split_on TAB line of
           a # b # c # _ \<Rightarrow>
             (let value = (\<lambda>s. case parse_unsigned 64 s of Some n \<Rightarrow> word_of_nat n | None \<Rightarrow> 0) in
              (f + 1, i + value a, d + value b))
         | _ \<Rightarrow> fid))"

definition third_column :: "string \<Rightarrow> string option" where
  "third_column line = (case split_on TAB line of a # b # c # _ \<Rightarrow> Some c | _ \<Rightarrow> None)"

definition diff_files :: "nat \<Rightarrow> string \<Rightarrow> string list" where
  "diff_files max_files numstat = take max_files (List.map_filter third_column (str_lines numstat))"

definition renamed_to :: "string \<Rightarrow> string" where
  "renamed_to f = last (split_on TAB f)"

definition diff_limit :: "nat option \<Rightarrow> nat" where
  "diff_limit max_files = clamp 1 200 (case max_files of Some n \<Rightarrow> n | None \<Rightarrow> 40)"

definition git_diff :: "git_env \<Rightarrow> capability_gate \<Rightarrow> git_diff_request \<Rightarrow> git_diff_result git_res" where
  "git_diff E g req =
     git_then (gate_repo E g (gd_path req)) (\<lambda>root cs.
       let max_files = diff_limit (gd_max_files req);
           target = (case gd_target req of Some t \<Rightarrow> t | None \<Rightarrow> ''unstaged'') in
       if bad_target target
       then (Err (Protocol (''git diff: invalid target '' @ ge_debug E target)), cs)
       else
         git_then (run_git E root (target_args target @ [''--numstat'']) cs) (\<lambda>numstat cs.
           case foldl numstat_line (0, 0, 0) (str_lines numstat) of
             (files_changed, insertions, deletions) \<Rightarrow>
               let files = diff_files max_files numstat;
                   result = (\<lambda>body. \<lparr>gr_target = target, gr_files_changed = files_changed,
                     gr_insertions = insertions, gr_deletions = deletions,
                     gr_truncated = (files_changed > length files), gr_diff = body\<rparr>) in
               if files = [] then (Ok (result []), cs)
               else
                 git_then (run_git E root (target_args target @
                     [''--no-color'', ''--no-ext-diff'', ''--unified=3'', ''--''] @ map renamed_to files) cs)
                   (\<lambda>body cs. (Ok (result body), cs))))"

section \<open>What git is asked\<close>

definition GIT_FLAGS :: "string list" where
  "GIT_FLAGS = [''--show-toplevel'', ''--abbrev-ref'', ''-1'', ''--format=%s'', ''-sb'', ''--porcelain'',
     ''--max-count=10'', ''--date=relative'', LOG_FORMAT, ''--cached'', ''--numstat'', ''--no-color'',
     ''--no-ext-diff'', ''--unified=3'']"

text \<open>Arguments of a reading command: no option but the fixed ones before the double dash.\<close>

definition reading_args :: "string list \<Rightarrow> bool" where
  "reading_args args \<longleftrightarrow>
     args \<noteq> [] \<and> hd args \<in> {''rev-parse'', ''log'', ''status'', ''diff''} \<and>
     list_all (\<lambda>a. starts_with a ''-'' \<longrightarrow> a \<in> set GIT_FLAGS) (takeWhile (\<lambda>a. a \<noteq> ''--'') args)"

text \<open>Calls made after some others, all of them reading and in a directory the gate allows.\<close>

definition gated_calls :: "capability_gate \<Rightarrow> git_calls \<Rightarrow> bool" where
  "gated_calls g cs \<longleftrightarrow>
     list_all (\<lambda>(d, a). reading_args a) cs \<and> list_all (\<lambda>(d, a). check_path g ''desktop.fs.read'' d = Allow) (tl cs)"

lemma gated_calls_snoc:
  "gated_calls g cs \<Longrightarrow> check_path g ''desktop.fs.read'' root = Allow \<Longrightarrow> reading_args args \<Longrightarrow>
   gated_calls g (cs @ [(root, args)])"
  by (cases cs) (auto simp: gated_calls_def)

lemma gate_repo_calls:
  "gate_repo E g p = (r, cs) \<Longrightarrow>
   gated_calls g cs \<and> (\<forall>root. r = Ok root \<longrightarrow> check_path g ''desktop.fs.read'' root = Allow)"
proof -
  assume g: "gate_repo E g p = (r, cs)"
  have fixed: "reading_args [''rev-parse'', ''--show-toplevel'']" by code_simp
  show ?thesis
  proof (cases "absolute_path E p")
    case (Inl e)
    with g show ?thesis by (auto simp: gate_repo_def gated_calls_def)
  next
    case (Inr dir)
    have "cs = [(dir, [''rev-parse'', ''--show-toplevel''])]"
      using g Inr by (auto simp: gate_repo_def run_git_def git_then_def split: sum.splits)
    moreover have "check_path g ''desktop.fs.read'' root = Allow" if "r = Ok root" for root
      using g Inr that
      by (auto simp: gate_repo_def run_git_def git_then_def gate_root_def split: sum.splits gate_decision.splits)
    ultimately show ?thesis using fixed by (simp add: gated_calls_def)
  qed
qed

text \<open>One more call of an operation, in the root, keeps the calls gated.\<close>

lemma then_run_gated:
  assumes "gated_calls g cs" and "check_path g ''desktop.fs.read'' root = Allow" and "reading_args args"
    and "\<And>out cs'. gated_calls g cs' \<Longrightarrow> gated_calls g (snd (k out cs'))"
  shows "gated_calls g (snd (git_then (run_git E root args cs) k))"
  using assms gated_calls_snoc [OF assms(1-3)]
  by (auto simp: git_then_def run_git_def split: sum.splits)

lemma overview_args:
  "reading_args [''rev-parse'', ''--abbrev-ref'', ''HEAD'']" "reading_args [''rev-parse'', ''HEAD'']"
  "reading_args [''log'', ''-1'', ''--format=%s'']" "reading_args [''status'', ''-sb'']"
  "reading_args [''status'', ''--porcelain'']"
  "reading_args [''log'', ''--max-count=10'', ''--date=relative'', LOG_FORMAT]"
  by code_simp+

lemma target_args_reading:
  assumes "\<not> bad_target target"
  shows "reading_args (target_args target @ [''--numstat''])"
    and "reading_args (target_args target @ ''--no-color'' # ''--no-ext-diff'' # ''--unified=3'' # ''--'' # files)"
proof -
  have t: "\<not> starts_with target ''-''" using assms by (simp add: bad_target_def)
  then have d: "target \<noteq> ''--''" by (auto simp: starts_with_def)
  show "reading_args (target_args target @ [''--numstat''])"
    using t d by (auto simp: reading_args_def target_args_def GIT_FLAGS_def starts_with_def)
  show "reading_args (target_args target @ ''--no-color'' # ''--no-ext-diff'' # ''--unified=3'' # ''--'' # files)"
    using t d by (auto simp: reading_args_def target_args_def GIT_FLAGS_def starts_with_def)
qed

section \<open>Totals\<close>

text \<open>An entry as \<open>git diff --numstat\<close> prints it; a binary file has dashes.\<close>

definition stat_text :: "nat option \<Rightarrow> string" where
  "stat_text v = (case v of Some n \<Rightarrow> nat_to_string n | None \<Rightarrow> ''-'')"

definition stat_value :: "nat option \<Rightarrow> nat" where
  "stat_value v = (case v of Some n \<Rightarrow> n | None \<Rightarrow> 0)"

definition entry_line :: "nat option \<times> nat option \<times> string \<Rightarrow> string" where
  "entry_line e = (case e of (i, d, f) \<Rightarrow> stat_text i @ TAB # stat_text d @ TAB # f)"

definition plain_entry :: "nat option \<times> nat option \<times> string \<Rightarrow> bool" where
  "plain_entry e \<longleftrightarrow> (case e of (i, d, f) \<Rightarrow>
     stat_value i < 2 ^ 64 \<and> stat_value d < 2 ^ 64 \<and> TAB \<notin> set f \<and> CHR 0x0A \<notin> set f \<and> CHR 0x0D \<notin> set f)"

definition added :: "(nat option \<times> nat option \<times> string) list \<Rightarrow> nat" where
  "added es = sum_list (map (\<lambda>(i, d, f). stat_value i) es)"

definition removed :: "(nat option \<times> nat option \<times> string) list \<Rightarrow> nat" where
  "removed es = sum_list (map (\<lambda>(i, d, f). stat_value d) es)"

lemma nat_text_plain: "c \<in> set (nat_to_string n) \<Longrightarrow> is_digit c"
  using list_all_nat_to_string [of n] by (simp add: list_all_iff)

lemma stat_text_plain: "TAB \<notin> set (stat_text v) \<and> CHR 0x0A \<notin> set (stat_text v) \<and> CHR 0x0D \<notin> set (stat_text v)"
  by (auto simp: stat_text_def TAB_def is_digit_def split: option.splits dest!: nat_text_plain)

lemma stat_text_value:
  "stat_value v < 2 ^ 64 \<Longrightarrow>
   (case parse_unsigned 64 (stat_text v) of Some n \<Rightarrow> word_of_nat n | None \<Rightarrow> 0) =
   (word_of_nat (stat_value v) :: 64 word)"
proof (cases v)
  case None
  have "parse_unsigned 64 ''-'' = None" by code_simp
  with None show ?thesis by (simp add: stat_text_def stat_value_def)
next
  case (Some n)
  moreover assume "stat_value v < 2 ^ 64"
  ultimately show ?thesis using parse_unsigned_nat [of n 64] by (simp add: stat_text_def stat_value_def)
qed

lemma entry_columns: "plain_entry (i, d, f) \<Longrightarrow> split_on TAB (entry_line (i, d, f)) = [stat_text i, stat_text d, f]"
  using stat_text_plain by (simp add: entry_line_def plain_entry_def split_on_append_sep split_on_no_sep)

lemma numstat_step:
  "plain_entry (i, d, f) \<Longrightarrow>
   numstat_line (n, a, b) (entry_line (i, d, f)) = (n + 1, a + word_of_nat (stat_value i), b + word_of_nat (stat_value d)) \<and>
   third_column (entry_line (i, d, f)) = Some f"
  using stat_text_value [of i] stat_text_value [of d]
  by (simp add: numstat_line_def third_column_def entry_columns plain_entry_def Let_def)

lemma numstat_fold:
  "list_all plain_entry es \<Longrightarrow>
   foldl numstat_line (n, a, b) (map entry_line es) =
     (n + length es, a + word_of_nat (added es), b + word_of_nat (removed es)) \<and>
   List.map_filter third_column (map entry_line es) = map (\<lambda>(i, d, f). f) es"
proof (induction es arbitrary: n a b)
  case (Cons e es)
  obtain i d f where e: "e = (i, d, f)" by (cases e)
  show ?case using Cons numstat_step [of i d f n a b]
    by (simp add: e map_filter_simps added_def removed_def add.assoc)
qed (simp add: map_filter_simps added_def removed_def)

section \<open>Properties\<close>

text \<open>
  C33. Git is only read, and only where the gate allows. Whatever git answers and whatever the
  request says, every call of an overview or a diff is a reading command (rev-parse, log,
  status, diff) whose options before the double dash are the fixed ones, so a requested target
  never becomes an option; and every call after the first, which asks for the root of the
  repository, runs in a root that the gate allows to be read.
\<close>

theorem git_only_reads_granted_roots:
  assumes "calls = snd (git_overview E g p) \<or> calls = snd (git_diff E g req)"
  shows "list_all (\<lambda>(d, args). reading_args args) calls \<and>
    list_all (\<lambda>(d, args). check_path g ''desktop.fs.read'' d = Allow) (tl calls)"
proof -
  have "gated_calls g (snd (git_overview E g p))"
  proof (cases "gate_repo E g p")
    case (Pair r cs)
    note repo = gate_repo_calls [OF Pair]
    show ?thesis
    proof (cases r)
      case (Inr root)
      with repo have root: "check_path g ''desktop.fs.read'' root = Allow" by simp
      show ?thesis
        using repo unfolding git_overview_def Pair Inr git_then_simps
        by (auto intro!: then_run_gated root overview_args simp: Let_def split: option.splits)
    qed (use Pair repo in \<open>simp add: git_overview_def\<close>)
  qed
  moreover have "gated_calls g (snd (git_diff E g req))"
  proof (cases "gate_repo E g (gd_path req)")
    case (Pair r cs)
    note repo = gate_repo_calls [OF Pair]
    show ?thesis
    proof (cases r)
      case (Inr root)
      with repo have root: "check_path g ''desktop.fs.read'' root = Allow" by simp
      show ?thesis
        using repo unfolding git_diff_def Pair Inr git_then_simps Let_def
        by (auto intro!: then_run_gated root target_args_reading split: prod.splits)
    qed (use Pair repo in \<open>simp add: git_diff_def\<close>)
  qed
  ultimately show ?thesis using assms by (auto simp: gated_calls_def)
qed

text \<open>A repository at \<open>/r\<close> with two changed files.\<close>

definition demo_git :: git_env where
  "demo_git = \<lparr>ge_git = (\<lambda>n d a. GitExited True
       (if n = 0 then ''/r'' else if n = 1 then terminated_by [CHR 0x0A] [entry_line (Some 3, None, ''a'')] else ''x'') []),
     ge_cwd = Ok [RootDir], ge_debug = id\<rparr>"

definition demo_git_gate :: capability_gate where
  "demo_git_gate = gate_new \<lparr>capabilities = [''desktop.fs.read''], always_allow_paths = [[RootDir, Normal ''r'']],
     one_shot_paths = []\<rparr>"

lemma demo_git_eval:
  "git_diff demo_git demo_git_gate
     \<lparr>gd_path = [RootDir, Normal ''r'', Normal ''s''], gd_target = Some ''main'', gd_max_files = None\<rparr> =
   (Ok \<lparr>gr_target = ''main'', gr_files_changed = 1, gr_insertions = 3, gr_deletions = 0, gr_truncated = False,
        gr_diff = ''x''\<rparr>,
    [([RootDir, Normal ''r'', Normal ''s''], [''rev-parse'', ''--show-toplevel'']),
     ([RootDir, Normal ''r''], [''diff'', ''main'', ''--numstat'']),
     ([RootDir, Normal ''r''], [''diff'', ''main'', ''--no-color'', ''--no-ext-diff'', ''--unified=3'', ''--'', ''a''])])"
proof -
  have out: "git_output (GitExited True out []) = Ok out"
    if "list_all (\<lambda>c. byte_val c < 128) out" "length out < 10" for out
    using that by (simp add: git_output_def GIT_MAX_OUTPUT_BYTES_def valid_utf8_def lossy_ascii)
  let ?stat = "terminated_by [CHR 0x0A] [entry_line (Some 3, None, ''a'')]"
  have root: "path_components (str_trim ''/r'') = [RootDir, Normal ''r'']"
    "gate_root demo_git_gate [RootDir, Normal ''r''] = Ok [RootDir, Normal ''r'']" by code_simp+
  have files: "\<not> bad_target ''main''" "foldl numstat_line (0, 0, 0) (str_lines ?stat) = (1, 3, 0)"
    "diff_files 40 ?stat = [''a'']" "list_all (\<lambda>c. byte_val c < 128) ?stat" "int (length ?stat) < 10"
    "renamed_to ''a'' = ''a''"
    by code_simp+
  then have "length ?stat < 10" by simp
  with files show ?thesis
    by (simp add: git_diff_def gate_repo_def absolute_path_def run_git_def demo_git_def out root diff_limit_def clamp_def Let_def target_args_def)
qed

theorem git_only_reads_granted_roots_witness:
  "let calls = snd (git_diff demo_git demo_git_gate
       \<lparr>gd_path = [RootDir, Normal ''r'', Normal ''s''], gd_target = Some ''main'', gd_max_files = None\<rparr>) in
   map fst calls = [[RootDir, Normal ''r'', Normal ''s''], [RootDir, Normal ''r''], [RootDir, Normal ''r'']] \<and>
   list_all (\<lambda>(d, args). check_path demo_git_gate ''desktop.fs.read'' d = Allow) (tl calls)"
  using git_only_reads_granted_roots [OF disjI2 [OF refl], of demo_git demo_git_gate
      "\<lparr>gd_path = [RootDir, Normal ''r'', Normal ''s''], gd_target = Some ''main'', gd_max_files = None\<rparr>"]
  by (simp add: demo_git_eval)

text \<open>
  C39. A diff's totals are those git printed. When git prints a list of entries whose numbers fit
  the machine and whose file names have no tabs or line breaks, in no more than the 512 KiB that are
  read, and the diff succeeds, its result counts every entry; its insertions and deletions are the
  sums over them, a binary file counting zero, modulo two to the 64th, hence the sums themselves
  when these fit the machine; it is marked as truncated exactly when there are more entries than the
  limit; and the second call asks for the first entries' files by name.
\<close>

theorem diff_totals_read_back:
  assumes "git_diff E g req = (Ok res, calls)" and "list_all plain_entry es"
    and "\<And>root. ge_git E 1 root (target_args (gr_target res) @ [''--numstat'']) =
           GitExited True (terminated_by [CHR 0x0A] (map entry_line es)) err"
    and "length (terminated_by [CHR 0x0A] (map entry_line es)) \<le> GIT_MAX_OUTPUT_BYTES"
    and "limit = diff_limit (gd_max_files req)"
  shows "gr_files_changed res = length es \<and>
    unat (gr_insertions res) = added es mod 2 ^ 64 \<and>
    unat (gr_deletions res) = removed es mod 2 ^ 64 \<and>
    (gr_truncated res \<longleftrightarrow> length es > limit) \<and>
    (es \<noteq> [] \<longrightarrow> length calls = 3 \<and> suffix (''--'' # take limit (map (\<lambda>(i, d, f). f) es)) (snd (calls ! 2)))"
proof -
  have "CHR 0x0A \<notin> set l \<and> CHR 0x0D \<notin> set l" if "l \<in> set (map entry_line es)" for l
    using that assms(2) stat_text_plain
    by (auto simp: entry_line_def plain_entry_def list_all_iff TAB_def)
  from str_lines_terminated [OF this] have lines: "str_lines (terminated_by [CHR 0x0A] (map entry_line es)) = map entry_line es"
    by blast
  let ?names = "take limit (map (\<lambda>(i, d, f). f) es)"
  have "TAB \<notin> set f" if "f \<in> set ?names" for f
    using assms(2) in_set_takeD [OF that] by (fastforce simp: plain_entry_def list_all_iff)
  then have names: "map renamed_to ?names = ?names"
    by (intro map_idI) (simp add: renamed_to_def split_on_no_sep)
  have files: "diff_files limit (terminated_by [CHR 0x0A] (map entry_line es)) = ?names"
    using numstat_fold [OF assms(2)] by (simp add: diff_files_def lines)
  have totals: "foldl numstat_line (0, 0, 0) (str_lines (terminated_by [CHR 0x0A] (map entry_line es))) =
      (length es, word_of_nat (added es), word_of_nat (removed es))"
    using numstat_fold [OF assms(2), of 0 0 0] by (simp add: lines)
  have pos: "1 \<le> limit" using clamp_bounds [of 1 200] assms(5) by (simp add: diff_limit_def)
  obtain r cs where repo: "gate_repo E g (gd_path req) = (r, cs)" by force
  from assms(1) repo obtain root where r: "r = Ok root" by (cases r) (auto simp: git_diff_def)
  have one: "length cs = 1"
    using repo r by (auto simp: gate_repo_def run_git_def git_then_def split: sum.splits)
  define target where "target = (case gd_target req of Some t \<Rightarrow> t | None \<Rightarrow> ''unstaged'')"
  have t: "gr_target res = target"
    using assms(1) repo r
    by (auto simp: git_diff_def Let_def target_def git_then_def split: if_splits sum.splits prod.splits)
  let ?out = "terminated_by [CHR 0x0A] (map entry_line es)"
  note git = assms(3) [of root, unfolded t]
  have "valid_utf8 ?out"
    using assms(1,4) repo r one git
    by (auto simp: git_diff_def Let_def target_def [symmetric] run_git_def git_output_def split: if_splits)
  with assms(4) git have out: "git_output (ge_git E 1 root (target_args target @ [''--numstat''])) = Ok ?out"
    by (simp add: git_output_def)
  have unat: "unat (word_of_nat n :: 64 word) = n mod 2 ^ 64" for n
    by (simp add: unat_of_nat)
  show ?thesis
  proof (cases "es = []")
    case True
    with assms(1) repo r one out totals files show ?thesis
      by (auto simp: unat git_diff_def Let_def target_def [symmetric] run_git_def assms(5) [symmetric] split: if_splits)
  next
    case False
    then have ne: "?names \<noteq> []" using pos by auto
    define args where "args = target_args target @ [''--no-color'', ''--no-ext-diff'', ''--unified=3'', ''--''] @ ?names"
    from assms(1) repo r one out totals files ne names obtain body where
      "res = \<lparr>gr_target = target, gr_files_changed = length es,
         gr_insertions = word_of_nat (added es), gr_deletions = word_of_nat (removed es),
         gr_truncated = (length es > length ?names), gr_diff = body\<rparr>"
      "calls = cs @ [(root, target_args target @ [''--numstat'']), (root, args)]"
      by (auto simp: git_diff_def Let_def target_def [symmetric] run_git_def assms(5) [symmetric] git_then_def args_def
          split: if_splits sum.splits)
    moreover have "suffix (''--'' # ?names) args"
      by (auto simp: args_def suffix_def)
    ultimately show ?thesis using one by (auto simp: unat nth_append)
  qed
qed

theorem diff_totals_read_back_witness:
  "let (r, calls) = git_diff demo_git demo_git_gate
       \<lparr>gd_path = [RootDir, Normal ''r'', Normal ''s''], gd_target = Some ''main'', gd_max_files = None\<rparr> in
   \<exists>res. r = Ok res \<and> gr_insertions res = 3 \<and> gr_deletions res = 0 \<and> suffix [''--'', ''a''] (snd (calls ! 2))"
proof -
  have plain: "list_all plain_entry [(Some 3, None, ''a'')]"
    by (simp add: plain_entry_def stat_value_def TAB_def)
  have stat: "ge_git demo_git 1 root args = GitExited True (terminated_by [CHR 0x0A] (map entry_line [(Some 3, None, ''a'')])) []"
    for root args
    by (simp add: demo_git_def)
  have "int (length (terminated_by [CHR 0x0A] (map entry_line [(Some 3, None, ''a'')]))) < 10" by code_simp
  then have short: "length (terminated_by [CHR 0x0A] (map entry_line [(Some 3, None, ''a'')])) \<le> GIT_MAX_OUTPUT_BYTES"
    by (simp add: GIT_MAX_OUTPUT_BYTES_def)
  from diff_totals_read_back [OF demo_git_eval plain stat short refl] show ?thesis
    by (simp add: demo_git_eval stat_value_def diff_limit_def clamp_def)
qed

text \<open>Two entries can overflow the total: it is then 0, and a build that checks would panic.\<close>

lemma diff_total_wraps:
  "foldl numstat_line (0, 0, 0) (map entry_line [(Some (2 ^ 63), None, ''a''), (Some (2 ^ 63), None, ''b'')]) = (2, 0, 0)"
proof -
  have "list_all plain_entry [(Some (2 ^ 63), None, ''a''), (Some (2 ^ 63), None, ''b'')]"
    by (simp add: plain_entry_def stat_value_def TAB_def)
  from numstat_fold [OF this, of 0 0 0] show ?thesis by (simp add: added_def removed_def stat_value_def)
qed

section \<open>What the parsers do\<close>

text \<open>Every third column is one field, so taking the part after a tab changes nothing.\<close>

lemma split_on_parts: "w \<in> set (split_on d s) \<Longrightarrow> d \<notin> set w"
  by (induction s arbitrary: w) (auto split: list.splits if_splits)

lemma rename_step_does_nothing: "third_column line = Some f \<Longrightarrow> renamed_to f = f"
proof -
  assume "third_column line = Some f"
  then have "f \<in> set (split_on TAB line)"
    by (auto simp: third_column_def split: list.splits)
  then show ?thesis by (simp add: renamed_to_def split_on_no_sep split_on_parts)
qed

text \<open>What git prints for a rename is passed on as if it were the name of a file.\<close>

lemma rename_arrow_is_a_file_name:
  "diff_files 40 (''1'' @ [TAB] @ ''0'' @ [TAB] @ ''{a => b}/f'' @ [CHR 0x0A]) = [''{a => b}/f'']"
  by code_simp

text \<open>A tab in a subject shifts the date and the author.\<close>

lemma tab_in_subject_shifts_columns:
  "map_option gc_relative_date (commit_line (''h'' @ [TAB] @ ''fix'' @ [TAB] @ ''it'' @ [TAB] @ ''now'' @ [TAB] @ ''me'')) =
   Some ''it''"
  by code_simp

text \<open>The second name of the index is refused as an option before it is looked for.\<close>

lemma cached_is_refused: "bad_target ''--cached''"
  by code_simp

text \<open>A file changed both in the index and after it is listed as staged only.\<close>

lemma staged_hides_modified:
  "let st = porcelain (''MM a.rs'' @ [CHR 0x0A]) in gs_staged st = [''a.rs''] \<and> gs_modified st = []"
  by code_simp

text \<open>
  Output past 512 KiB is cut at a byte: a cut inside a character fails the whole request, and a
  clean cut is not reported, since \<open>gr_truncated\<close> only counts files.
\<close>

lemma cut_inside_character_fails:
  "length out > GIT_MAX_OUTPUT_BYTES \<Longrightarrow> \<not> valid_utf8 (take GIT_MAX_OUTPUT_BYTES out) \<Longrightarrow>
   git_output (GitExited True out err) = Err (Protocol ''git: non-utf8 output'')"
  by (simp add: git_output_def)

end
