(* ===== verification/Mcp_Ops.thy ===== *)
theory Mcp_Ops
  imports Text_Scan Daemon_Error
begin

text \<open>
  \<open>daemon-core/src/mcp_ops.rs\<close>: the client of tool servers declared in the owner's configuration.
  A running server is its state in the daemon; the child is a parameter, which gives the events
  that happen while a request waits. The JSON codec and the decoder of a definition are
  parameters too.
\<close>

section \<open>Parameters\<close>

record server_def =
  sd_name :: string
  sd_command :: "string list"
  sd_cwd :: "string option"
  sd_env :: "string list"

text \<open>What a child does: a line of output, output that ends or is not UTF-8, its own end.\<close>

datatype mcp_event = ServerLine string | OutputEnds | ServerDies

record mcp_server =
  ms_def :: server_def
  ms_env :: "(string \<times> string) list"
  ms_pending :: "nat list"
  ms_next_id :: nat
  ms_written :: bytes
  ms_alive :: bool
  ms_reader_ended :: bool

record mcp_env =
  mx_parse :: "string \<Rightarrow> (string, json) res"
  mx_text :: "json \<Rightarrow> string"
  mx_def :: "json \<Rightarrow> (string, server_def) res"
  mx_config_path :: "string option"
  mx_config :: "string option"
  mx_var :: "string \<Rightarrow> string option"
  mx_spawn :: "server_def \<Rightarrow> (string \<times> string) list \<Rightarrow> string option"
  mx_write :: "mcp_server \<Rightarrow> string option"
  mx_events :: "mcp_server \<Rightarrow> mcp_event list"
  mx_version :: string

section \<open>Configuration\<close>

definition quoted :: "string \<Rightarrow> string" where
  "quoted s = [CHR 0x27] @ s @ [CHR 0x27]"

fun parse_defs :: "mcp_env \<Rightarrow> (string \<times> json) list \<Rightarrow> (string, server_def list) res" where
  "parse_defs E [] = Ok []"
| "parse_defs E ((name, v) # ms) =
     (case mx_def E v of
        Inl e \<Rightarrow> Err (''server '' @ quoted name @ '': '' @ e)
      | Inr d \<Rightarrow>
          if sd_command d = [] then Err (''server '' @ quoted name @ '': command must be non-empty'')
          else try_bind (parse_defs E ms) (\<lambda>ds. Ok (d\<lparr>sd_name := name\<rparr> # ds)))"

definition parse_servers_config :: "mcp_env \<Rightarrow> string \<Rightarrow> (string, server_def list) res" where
  "parse_servers_config E raw =
     (case mx_parse E raw of
        Inl e \<Rightarrow> Err (''mcp-servers.json: '' @ e)
      | Inr v \<Rightarrow>
          (case (case json_get v ''servers'' of Some s \<Rightarrow> s | None \<Rightarrow> v) of
             JObj ms \<Rightarrow> parse_defs E ms
           | _ \<Rightarrow> Err ''mcp-servers.json: expected an object of servers''))"

definition load_config :: "mcp_env \<Rightarrow> (string, server_def list) res" where
  "load_config E =
     (case mx_config_path E of
        None \<Rightarrow> Ok []
      | Some _ \<Rightarrow> (case mx_config E of None \<Rightarrow> Ok [] | Some raw \<Rightarrow> parse_servers_config E raw))"

section \<open>Messages\<close>

definition mcp_request :: "mcp_env \<Rightarrow> nat \<Rightarrow> string \<Rightarrow> json \<Rightarrow> string" where
  "mcp_request E i meth params =
     mx_text E (JObj [(''id'', JInt (int i)), (''jsonrpc'', JStr ''2.0''), (''method'', JStr meth), (''params'', params)])"

definition mcp_notification :: "mcp_env \<Rightarrow> string \<Rightarrow> json \<Rightarrow> string" where
  "mcp_notification E meth params =
     mx_text E (JObj [(''jsonrpc'', JStr ''2.0''), (''method'', JStr meth), (''params'', params)])"

definition classify_response :: "mcp_env \<Rightarrow> string \<Rightarrow> (nat \<times> bool \<times> json) option" where
  "classify_response E line =
     (case mx_parse E line of
        Inl _ \<Rightarrow> None
      | Inr v \<Rightarrow>
          (case Option.bind (json_get v ''id'') as_u64 of
             None \<Rightarrow> None
           | Some i \<Rightarrow>
               (case json_get v ''result'' of
                  Some r \<Rightarrow> Some (i, True, r)
                | None \<Rightarrow> (case json_get v ''error'' of Some e \<Rightarrow> Some (i, False, e) | None \<Rightarrow> None))))"

section \<open>A running server\<close>

type_synonym envelope = "bool \<times> json"
type_synonym 'a mcp_res = "(string, 'a) res \<times> mcp_server"

definition server_exited :: envelope where
  "server_exited = (False, JObj [(''message'', JStr ''server exited'')])"

text \<open>
  The reader task: the new state and the envelopes sent to waiters. When the output ends, every
  pending request is failed.
\<close>

fun reader_event :: "mcp_env \<Rightarrow> mcp_server \<Rightarrow> mcp_event \<Rightarrow> mcp_server \<times> (nat \<times> envelope) list" where
  "reader_event E st (ServerLine line) =
     (if ms_reader_ended st \<or> str_trim line = [] then (st, [])
      else (case classify_response E line of
              None \<Rightarrow> (st, [])
            | Some (i, ok, payload) \<Rightarrow>
                if i \<in> set (ms_pending st)
                then (st\<lparr>ms_pending := filter (\<lambda>j. j \<noteq> i) (ms_pending st)\<rparr>, [(i, ok, payload)])
                else (st, [])))"
| "reader_event E st OutputEnds =
     (if ms_reader_ended st then (st, [])
      else (st\<lparr>ms_pending := [], ms_reader_ended := True\<rparr>, map (\<lambda>i. (i, server_exited)) (ms_pending st)))"
| "reader_event E st ServerDies = (st\<lparr>ms_alive := False\<rparr>, [])"

fun await_envelope :: "mcp_env \<Rightarrow> mcp_server \<Rightarrow> nat \<Rightarrow> mcp_event list \<Rightarrow> envelope option \<times> mcp_server" where
  "await_envelope E st i [] = (None, st)"
| "await_envelope E st i (e # es) =
     (case reader_event E st e of
        (st1, sent) \<Rightarrow>
          (case map_of sent i of
             Some env \<Rightarrow> (Some env, st1)
           | None \<Rightarrow> await_envelope E st1 i es))"

definition send_line :: "mcp_env \<Rightarrow> mcp_server \<Rightarrow> string \<Rightarrow> unit mcp_res" where
  "send_line E st line =
     (case mx_write E st of
        Some e \<Rightarrow> (Err (''write to server '' @ quoted (sd_name (ms_def st)) @ '': '' @ e), st)
      | None \<Rightarrow> (Ok (), st\<lparr>ms_written := ms_written st @ line @ [CHR 0x0A]\<rparr>))"

text \<open>The waiting ends by an envelope or by the time limit; only an envelope clears the request.\<close>

definition rpc :: "mcp_env \<Rightarrow> mcp_server \<Rightarrow> string \<Rightarrow> json \<Rightarrow> nat \<Rightarrow> json mcp_res" where
  "rpc E st meth params timeout_ms =
     (let i = ms_next_id st;
          st1 = st\<lparr>ms_next_id := i + 1, ms_pending := i # ms_pending st\<rparr>;
          server = ''server '' @ quoted (sd_name (ms_def st)) @ '': '' in
      case send_line E st1 (mcp_request E i meth params) of
        (Inl e, st2) \<Rightarrow> (Err e, st2)
      | (Inr _, st2) \<Rightarrow>
          (case await_envelope E st2 i (mx_events E st2) of
             (None, st3) \<Rightarrow>
               (Err (server @ quoted meth @ '' timed out after '' @ nat_to_string timeout_ms @ ''ms''), st3)
           | (Some (ok, payload), st3) \<Rightarrow>
               if ok then (Ok payload, st3)
               else (Err (server @ (case Option.bind (json_get payload ''message'') as_str of
                                      Some m \<Rightarrow> m | None \<Rightarrow> ''unknown error'')), st3)))"

definition STARTUP_TIMEOUT_MS :: nat where "STARTUP_TIMEOUT_MS = 10000"
definition LIST_TIMEOUT_MS :: nat where "LIST_TIMEOUT_MS = 10000"
definition CALL_TIMEOUT_MS :: nat where "CALL_TIMEOUT_MS = 60000"
definition MAX_LIST_PAGES :: nat where "MAX_LIST_PAGES = 10"

definition BASE_ENV :: "string list" where
  "BASE_ENV = [''PATH'', ''HOME'', ''USER'', ''LANG'', ''TMPDIR'', ''TEMP'', ''TMP'', ''SYSTEMROOT'']"

definition child_env :: "mcp_env \<Rightarrow> server_def \<Rightarrow> (string \<times> string) list" where
  "child_env E d = List.map_filter (\<lambda>k. map_option (Pair k) (mx_var E k)) (BASE_ENV @ sd_env d)"

definition fresh_server :: "server_def \<Rightarrow> (string \<times> string) list \<Rightarrow> mcp_server" where
  "fresh_server d vars =
     \<lparr>ms_def = d, ms_env = vars, ms_pending = [], ms_next_id = 1, ms_written = [], ms_alive = True,
      ms_reader_ended = False\<rparr>"

definition mcp_init_params :: "mcp_env \<Rightarrow> json" where
  "mcp_init_params E =
     JObj [(''capabilities'', JObj []),
       (''clientInfo'', JObj [(''name'', JStr ''synthhires-bridge''), (''version'', JStr (mx_version E))]),
       (''protocolVersion'', JStr ''2024-11-05'')]"

text \<open>A server whose handshake fails is dropped, which kills its child.\<close>

definition spawn_mcp :: "mcp_env \<Rightarrow> server_def \<Rightarrow> (string, mcp_server) res" where
  "spawn_mcp E d =
     (if sd_command d = [] then Err (''server '' @ quoted (sd_name d) @ '': empty command'')
      else
        (case mx_spawn E d (child_env E d) of
           Some e \<Rightarrow> Err (''spawn '' @ quoted (str_join '' '' (sd_command d)) @ '': '' @ e)
         | None \<Rightarrow>
             (case rpc E (fresh_server d (child_env E d)) ''initialize'' (mcp_init_params E) STARTUP_TIMEOUT_MS of
                (Inl e, _) \<Rightarrow> Err e
              | (Inr _, st) \<Rightarrow>
                  (case send_line E st (mcp_notification E ''notifications/initialized'' (JObj [])) of
                     (Inl e, _) \<Rightarrow> Err e
                   | (Inr _, st1) \<Rightarrow> Ok st1))))"

section \<open>The store\<close>

type_synonym mcp_store = "(string \<times> mcp_server) list"

definition unknown_server :: "mcp_env \<Rightarrow> string \<Rightarrow> string" where
  "unknown_server E name =
     ''no MCP server named '' @ quoted name @ '' in '' @
     (case mx_config_path E of Some p \<Rightarrow> p | None \<Rightarrow> ''<config dir>'') @
     '' (declared servers only; the daemon never installs anything)''"

definition declared_server :: "mcp_env \<Rightarrow> string \<Rightarrow> (string, mcp_server) res" where
  "declared_server E name =
     try_bind (load_config E) (\<lambda>ds.
       case find (\<lambda>d. sd_name d = name) ds of
         Some d \<Rightarrow> spawn_mcp E d
       | None \<Rightarrow> Err (unknown_server E name))"

definition ensure_running :: "mcp_env \<Rightarrow> mcp_store \<Rightarrow> string \<Rightarrow> (string, mcp_server) res \<times> mcp_store" where
  "ensure_running E store name =
     (let respawned = (case declared_server E name of
            Inl e \<Rightarrow> (Err e, store)
          | Inr fresh \<Rightarrow> (Ok fresh, assoc_insert name fresh store)) in
      case map_of store name of
        Some st \<Rightarrow> if ms_alive st then (Ok st, store) else respawned
      | None \<Rightarrow> respawned)"

definition mcp_stop :: "mcp_store \<Rightarrow> string \<Rightarrow> bool \<times> mcp_store" where
  "mcp_stop store name =
     (case map_of store name of
        None \<Rightarrow> (False, store)
      | Some _ \<Rightarrow> (True, assoc_remove name store))"

definition status_entry :: "mcp_store \<Rightarrow> server_def \<Rightarrow> json" where
  "status_entry store d =
     JObj [(''command'', JArr (map JStr (sd_command d))), (''name'', JStr (sd_name d)),
       (''running'', JBool (case map_of store (sd_name d) of Some st \<Rightarrow> ms_alive st | None \<Rightarrow> False))]"

definition mcp_status :: "mcp_env \<Rightarrow> mcp_store \<Rightarrow> (string, json) res" where
  "mcp_status E store =
     try_bind (load_config E) (\<lambda>ds.
       Ok (JObj [(''configPath'', case mx_config_path E of Some p \<Rightarrow> JStr p | None \<Rightarrow> JNull),
         (''servers'', JArr (map (status_entry store) ds))]))"

fun list_pages :: "mcp_env \<Rightarrow> nat \<Rightarrow> mcp_server \<Rightarrow> json option \<Rightarrow> json list \<Rightarrow> json list mcp_res" where
  "list_pages E 0 st cursor tools = (Ok tools, st)"
| "list_pages E (Suc n) st cursor tools =
     (case rpc E st ''tools/list'' (JObj (case cursor of Some c \<Rightarrow> [(''cursor'', c)] | None \<Rightarrow> [])) LIST_TIMEOUT_MS of
        (Inl e, st1) \<Rightarrow> (Err e, st1)
      | (Inr page, st1) \<Rightarrow>
          let tools1 = tools @ (case Option.bind (json_get page ''tools'') as_array of Some b \<Rightarrow> b | None \<Rightarrow> []) in
          (case json_get page ''nextCursor'' of
             Some c \<Rightarrow> if c \<noteq> JNull then list_pages E n st1 (Some c) tools1 else (Ok tools1, st1)
           | None \<Rightarrow> (Ok tools1, st1)))"

text \<open>A running server is shared with the store: what a request does to it stays there.\<close>

definition put_mcp :: "mcp_store \<Rightarrow> string \<Rightarrow> mcp_server \<Rightarrow> mcp_store" where
  "put_mcp store name st = map (\<lambda>(k, v). if k = name then (k, st) else (k, v)) store"

definition with_server ::
    "mcp_env \<Rightarrow> mcp_store \<Rightarrow> string \<Rightarrow> (mcp_server \<Rightarrow> json mcp_res) \<Rightarrow> (string, json) res \<times> mcp_store" where
  "with_server E store name k =
     (case ensure_running E store name of
        (Inl e, store1) \<Rightarrow> (Err e, store1)
      | (Inr st, store1) \<Rightarrow> (case k st of (r, st1) \<Rightarrow> (r, put_mcp store1 name st1)))"

definition list_tools :: "mcp_env \<Rightarrow> mcp_store \<Rightarrow> string \<Rightarrow> (string, json) res \<times> mcp_store" where
  "list_tools E store server =
     with_server E store server (\<lambda>st.
       case list_pages E MAX_LIST_PAGES st None [] of
         (Inl e, st1) \<Rightarrow> (Err e, st1)
       | (Inr tools, st1) \<Rightarrow> (Ok (JObj [(''server'', JStr server), (''tools'', JArr tools)]), st1))"

definition mcp_call :: "mcp_env \<Rightarrow> mcp_store \<Rightarrow> string \<Rightarrow> string \<Rightarrow> json \<Rightarrow> (string, json) res \<times> mcp_store" where
  "mcp_call E store server tool args =
     with_server E store server (\<lambda>st.
       case rpc E st ''tools/call'' (JObj [(''arguments'', args), (''name'', JStr tool)]) CALL_TIMEOUT_MS of
         (Inl e, st1) \<Rightarrow> (Err e, st1)
       | (Inr result, st1) \<Rightarrow>
           (Ok (JObj [(''result'', result), (''server'', JStr server), (''tool'', JStr tool)]), st1))"

datatype mcp_op = McpStatus | McpListTools string | McpCall string string json | McpStop string

fun mcp_execute :: "mcp_env \<Rightarrow> mcp_store \<Rightarrow> mcp_op \<Rightarrow> (string, json) res \<times> mcp_store" where
  "mcp_execute E store McpStatus = (mcp_status E store, store)"
| "mcp_execute E store (McpListTools server) = list_tools E store server"
| "mcp_execute E store (McpCall server tool args) = mcp_call E store server tool args"
| "mcp_execute E store (McpStop server) =
     (case mcp_stop store server of (stopped, store1) \<Rightarrow> (Ok (JObj [(''stopped'', JBool stopped)]), store1))"

section \<open>Frames\<close>

lemma reader_event_frame [frame_simps]:
  "ms_def (fst (reader_event E st e)) = ms_def st" "ms_env (fst (reader_event E st e)) = ms_env st"
  by (cases e; simp split: option.splits prod.splits)+

lemma await_frame [frame_simps]:
  "ms_def (snd (await_envelope E st i es)) = ms_def st \<and> ms_env (snd (await_envelope E st i es)) = ms_env st"
proof (induction es arbitrary: st)
  case (Cons e es)
  obtain st1 sent where r: "reader_event E st e = (st1, sent)" by force
  with reader_event_frame [of E st e] have "ms_def st1 = ms_def st" "ms_env st1 = ms_env st" by simp_all
  with Cons r show ?case by (simp split: option.splits)
qed simp

lemma send_line_frame [frame_simps]:
  "ms_def (snd (send_line E st l)) = ms_def st" "ms_env (snd (send_line E st l)) = ms_env st"
  by (simp_all add: send_line_def split: option.splits)

lemma rpc_frame [frame_simps]:
  "ms_def (snd (rpc E st meth params t)) = ms_def st" "ms_env (snd (rpc E st meth params t)) = ms_env st"
proof -
  define st1 where "st1 = st\<lparr>ms_next_id := ms_next_id st + 1, ms_pending := ms_next_id st # ms_pending st\<rparr>"
  obtain r st2 where s: "send_line E st1 (mcp_request E (ms_next_id st) meth params) = (r, st2)" by force
  obtain a st3 where w: "await_envelope E st2 (ms_next_id st) (mx_events E st2) = (a, st3)" by force
  have "ms_def st2 = ms_def st \<and> ms_env st2 = ms_env st"
    using send_line_frame [of E st1 "mcp_request E (ms_next_id st) meth params"] s by (simp add: st1_def)
  moreover have "ms_def st3 = ms_def st2 \<and> ms_env st3 = ms_env st2"
    using await_frame [of E st2 "ms_next_id st" "mx_events E st2"] w by simp
  moreover have "snd (rpc E st meth params t) = st2 \<or> snd (rpc E st meth params t) = st3"
    using s w unfolding rpc_def Let_def st1_def by (cases r) (auto split: option.splits prod.splits)
  ultimately show "ms_def (snd (rpc E st meth params t)) = ms_def st"
    and "ms_env (snd (rpc E st meth params t)) = ms_env st" by auto
qed

lemma list_pages_frame [frame_simps]:
  "ms_def (snd (list_pages E n st cursor tools)) = ms_def st \<and> ms_env (snd (list_pages E n st cursor tools)) = ms_env st"
proof (induction n arbitrary: st cursor tools)
  case (Suc n)
  define params where "params = JObj (case cursor of Some c \<Rightarrow> [(''cursor'', c)] | None \<Rightarrow> [])"
  obtain r st1 where p: "rpc E st ''tools/list'' params LIST_TIMEOUT_MS = (r, st1)" by force
  with rpc_frame [of E st "''tools/list''" params LIST_TIMEOUT_MS] have "ms_def st1 = ms_def st" "ms_env st1 = ms_env st"
    by simp_all
  with Suc p show ?case
    by (cases r) (simp_all add: params_def [symmetric] Let_def split: option.splits)
qed simp

section \<open>Which servers run\<close>

text \<open>A child started from the configuration, with no variable but the named ones.\<close>

definition declared_child :: "mcp_env \<Rightarrow> string \<Rightarrow> mcp_server \<Rightarrow> bool" where
  "declared_child E name st \<longleftrightarrow>
     (\<exists>ds. load_config E = Ok ds \<and> ms_def st \<in> set ds) \<and> sd_name (ms_def st) = name \<and>
     sd_command (ms_def st) \<noteq> [] \<and> mx_spawn E (ms_def st) (ms_env st) = None \<and>
     list_all (\<lambda>(k, v). k \<in> set (BASE_ENV @ sd_env (ms_def st)) \<and> mx_var E k = Some v) (ms_env st)"

lemma child_env_named: "list_all (\<lambda>(k, v). k \<in> set (BASE_ENV @ sd_env d) \<and> mx_var E k = Some v) (child_env E d)"
  by (auto simp: child_env_def list_all_iff List.map_filter_def)

lemma spawn_mcp_frame:
  "spawn_mcp E d = Ok st \<Longrightarrow>
   ms_def st = d \<and> ms_env st = child_env E d \<and> sd_command d \<noteq> [] \<and> mx_spawn E d (child_env E d) = None"
  using rpc_frame [of E "fresh_server d (child_env E d)" "''initialize''" "mcp_init_params E" STARTUP_TIMEOUT_MS]
    send_line_frame [of E _ "mcp_notification E ''notifications/initialized'' (JObj [])"]
  by (auto simp: spawn_mcp_def fresh_server_def split: if_splits option.splits prod.splits sum.splits) (metis snd_conv)+

lemma declared_server_child: "declared_server E name = Ok st \<Longrightarrow> declared_child E name st"
proof -
  assume "declared_server E name = Ok st"
  then obtain ds d where d: "load_config E = Ok ds" "find (\<lambda>d. sd_name d = name) ds = Some d" "spawn_mcp E d = Ok st"
    by (auto simp: declared_server_def try_bind_Inr split: option.splits)
  then have "d \<in> set ds" "sd_name d = name" by (auto simp: find_Some_iff)
  with d(1) spawn_mcp_frame [OF d(3)] child_env_named [where E = E and d = d] show ?thesis by (auto simp: declared_child_def)
qed

lemma ensure_running_cases:
  assumes "ensure_running E store name = (r, store1)" and "(n, st) \<in> set store1"
  shows "(n, st) \<in> set store \<or> declared_child E n st"
proof -
  from assms(1) consider "store1 = store"
    | fresh where "declared_server E name = Ok fresh" "store1 = assoc_insert name fresh store"
    by (cases "map_of store name"; cases "declared_server E name") (auto simp: ensure_running_def split: if_splits)
  then show ?thesis
  proof cases
    case 2
    with assms(2) declared_server_child [OF 2(1)] show ?thesis by (auto simp: assoc_insert_def assoc_remove_def)
  qed (use assms(2) in simp)
qed

lemma ensure_running_stored: "ensure_running E store name = (Ok st, store1) \<Longrightarrow> (name, st) \<in> set store1"
  by (cases "map_of store name"; cases "declared_server E name")
    (auto simp: ensure_running_def assoc_insert_def map_of_SomeD split: if_splits)

lemma with_server_children:
  assumes "with_server E store name k = (r, store')" and "(n, st') \<in> set store'"
    and "\<And>st. ms_def (snd (k st)) = ms_def st \<and> ms_env (snd (k st)) = ms_env st"
  shows "(\<exists>st. (n, st) \<in> set store \<and> ms_def st' = ms_def st \<and> ms_env st' = ms_env st) \<or> declared_child E n st'"
proof -
  obtain q store1 where e: "ensure_running E store name = (q, store1)" by force
  have "\<exists>st. (n, st) \<in> set store1 \<and> ms_def st' = ms_def st \<and> ms_env st' = ms_env st"
  proof (cases q)
    case (Inl x)
    with assms(1,2) e show ?thesis by (auto simp: with_server_def)
  next
    case (Inr st)
    with assms(1) e have "store' = put_mcp store1 name (snd (k st))" by (auto simp: with_server_def split: prod.splits)
    with assms(2,3) ensure_running_stored [of E store name st store1] e Inr show ?thesis
      by (auto simp: put_mcp_def split: if_splits)
  qed
  then obtain st where st: "(n, st) \<in> set store1" "ms_def st' = ms_def st" "ms_env st' = ms_env st" by blast
  from ensure_running_cases [OF e st(1)] st(2,3) show ?thesis by (auto simp: declared_child_def)
qed

section \<open>Waiting for a reply\<close>

lemma ended_reader_sends_nothing:
  "ms_reader_ended st \<Longrightarrow> reader_event E st e = (st1, sent) \<Longrightarrow> sent = [] \<and> ms_reader_ended st1"
  by (cases e) auto

lemma await_ended: "ms_reader_ended st \<Longrightarrow> fst (await_envelope E st i es) = None"
proof (induction es arbitrary: st)
  case (Cons e es)
  obtain st1 sent where r: "reader_event E st e = (st1, sent)" by force
  from ended_reader_sends_nothing [OF Cons.prems r] Cons.IH [of st1] r show ?case by simp
qed simp

text \<open>While the reader runs, a pending request stays pending or gets its envelope.\<close>

lemma reader_event_pending:
  assumes "i \<in> set (ms_pending st)" and "\<not> ms_reader_ended st" and "reader_event E st e = (st1, sent)"
    and "map_of sent i = None"
  shows "e \<noteq> OutputEnds \<and> i \<in> set (ms_pending st1) \<and> \<not> ms_reader_ended st1"
proof (cases e)
  case (ServerLine line)
  with assms show ?thesis by (auto split: if_splits option.splits)
next
  case OutputEnds
  with assms(1-3) have "sent = map (\<lambda>j. (j, server_exited)) (ms_pending st)" by auto
  with assms(1,4) show ?thesis by (force simp: map_of_eq_None_iff)
next
  case ServerDies
  with assms show ?thesis by auto
qed

text \<open>
  The replies to a request among what the server's output brings before it ends: each a JSON object
  with the request's id and a result or else an error, on a line that is not blank.
\<close>

definition reply_on :: "mcp_env \<Rightarrow> nat \<Rightarrow> mcp_event \<Rightarrow> (bool \<times> json) option" where
  "reply_on E i e =
     (case e of
        ServerLine line \<Rightarrow>
          (case mx_parse E line of
             Inr v \<Rightarrow>
               if str_trim line \<noteq> [] \<and> Option.bind (json_get v ''id'') as_u64 = Some i
               then (case json_get v ''result'' of Some r \<Rightarrow> Some (True, r) | None \<Rightarrow> map_option (Pair False) (json_get v ''error''))
               else None
           | Inl _ \<Rightarrow> None)
      | _ \<Rightarrow> None)"

definition replies :: "mcp_env \<Rightarrow> nat \<Rightarrow> mcp_event list \<Rightarrow> (bool \<times> json) list" where
  "replies E i es = List.map_filter (reply_on E i) (takeWhile (\<lambda>e. e \<noteq> OutputEnds) es)"

lemma reader_event_replies:
  assumes "i \<in> set (ms_pending st)" and "\<not> ms_reader_ended st" and "reader_event E st e = (st1, sent)" and "e \<noteq> OutputEnds"
  shows "map_of sent i = reply_on E i e"
proof (cases e)
  case (ServerLine line)
  with assms show ?thesis
    by (auto simp: reply_on_def classify_response_def split: if_splits option.splits sum.splits)
qed (use assms in \<open>auto simp: reply_on_def\<close>)

lemma await_replies:
  "i \<in> set (ms_pending st) \<Longrightarrow> \<not> ms_reader_ended st \<Longrightarrow>
   fst (await_envelope E st i es) =
     (case replies E i es of
        env # _ \<Rightarrow> Some env
      | [] \<Rightarrow> if OutputEnds \<in> set es then Some (False, JObj [(''message'', JStr ''server exited'')]) else None)"
proof (induction es arbitrary: st)
  case (Cons e es)
  obtain st1 sent where r: "reader_event E st e = (st1, sent)" by force
  show ?case
  proof (cases "e = OutputEnds")
    case True
    with Cons.prems r have "map_of sent i = Some server_exited"
      by (auto simp: map_of_map_restrict restrict_map_def comp_def)
    with r True show ?thesis by (simp add: server_exited_def replies_def map_filter_simps)
  next
    case False
    with reader_event_replies [OF Cons.prems r] have sent: "map_of sent i = reply_on E i e" by simp
    show ?thesis
    proof (cases "reply_on E i e")
      case None
      with reader_event_pending [OF Cons.prems r] sent Cons.IH [of st1] r False
      show ?thesis by (simp add: replies_def map_filter_simps)
    qed (use sent r False in \<open>simp add: replies_def map_filter_simps\<close>)
  qed
qed (simp add: replies_def map_filter_simps)

section \<open>Properties\<close>

text \<open>
  C34. Only declared servers run, with a minimal environment. After any operation, every server
  in the store either was there before, with the same definition and environment, or was
  started by this operation from a definition in the owner's configuration, under its own name,
  with a non-empty command, and with no variable but those of the fixed baseline and of the
  definition's list, each with the daemon's own value.
\<close>

theorem mcp_children_declared:
  assumes "mcp_execute E store op = (r, store')" and "(name, st') \<in> set store'"
  shows "(\<exists>st. (name, st) \<in> set store \<and> ms_def st' = ms_def st \<and> ms_env st' = ms_env st) \<or>
    ((\<exists>ds. load_config E = Ok ds \<and> ms_def st' \<in> set ds) \<and> sd_name (ms_def st') = name \<and>
     sd_command (ms_def st') \<noteq> [] \<and> mx_spawn E (ms_def st') (ms_env st') = None \<and>
     list_all (\<lambda>(k, v). k \<in> set (BASE_ENV @ sd_env (ms_def st')) \<and> mx_var E k = Some v) (ms_env st'))"
proof (cases op)
  case (McpListTools server)
  have "ms_def (snd (k st)) = ms_def st \<and> ms_env (snd (k st)) = ms_env st"
    if "k = (\<lambda>st. case list_pages E MAX_LIST_PAGES st None [] of
         (Inl e, st1) \<Rightarrow> (Err e, st1)
       | (Inr tools, st1) \<Rightarrow> (Ok (JObj [(''server'', JStr server), (''tools'', JArr tools)]), st1))" for k st
    using list_pages_frame [of E MAX_LIST_PAGES st None "[]"] unfolding that by (auto split: prod.splits sum.splits)
  from with_server_children [OF _ assms(2) this [OF refl]] assms(1) McpListTools show ?thesis
    by (simp add: list_tools_def declared_child_def)
next
  case (McpCall server tool args)
  have "ms_def (snd (k st)) = ms_def st \<and> ms_env (snd (k st)) = ms_env st"
    if "k = (\<lambda>st. case rpc E st ''tools/call'' (JObj [(''arguments'', args), (''name'', JStr tool)]) CALL_TIMEOUT_MS of
         (Inl e, st1) \<Rightarrow> (Err e, st1)
       | (Inr result, st1) \<Rightarrow>
           (Ok (JObj [(''result'', result), (''server'', JStr server), (''tool'', JStr tool)]), st1))" for k st
    using rpc_frame [of E st "''tools/call''" "JObj [(''arguments'', args), (''name'', JStr tool)]" CALL_TIMEOUT_MS]
    unfolding that by (auto split: prod.splits sum.splits)
  from with_server_children [OF _ assms(2) this [OF refl]] assms(1) McpCall show ?thesis
    by (simp add: mcp_call_def declared_child_def)
next
  case (McpStop server)
  with assms show ?thesis by (auto simp: mcp_stop_def assoc_remove_def split: option.splits)
qed (use assms in auto)

text \<open>A configuration with one server that answers its handshake, and an environment with a secret.\<close>

definition demo_def :: server_def where
  "demo_def = \<lparr>sd_name = ''g'', sd_command = [''npx''], sd_cwd = None, sd_env = [''TOKEN'']\<rparr>"

definition demo_mcp :: mcp_env where
  "demo_mcp = \<lparr>mx_parse = (\<lambda>s. Ok (if s = ''config'' then JObj [(''servers'', JObj [(''g'', JNull)])]
       else JObj [(''id'', JInt 1), (''result'', JNull)])),
     mx_text = (\<lambda>_. ''m''), mx_def = (\<lambda>_. Ok demo_def), mx_config_path = Some ''c'', mx_config = Some ''config'',
     mx_var = (\<lambda>k. if k \<in> {''PATH'', ''TOKEN'', ''SECRET''} then Some ''v'' else None),
     mx_spawn = (\<lambda>_ _. None), mx_write = (\<lambda>_. None), mx_events = (\<lambda>_. [ServerLine ''ok'']), mx_version = ''1''\<rparr>"

theorem mcp_children_declared_witness:
  "let store = snd (mcp_execute demo_mcp [] (McpCall ''g'' ''t'' JNull)) in
   map (ms_env \<circ> snd) store = [[(''PATH'', ''v''), (''TOKEN'', ''v'')]] \<and> map (sd_name \<circ> ms_def \<circ> snd) store = [''g'']"
proof -
  obtain r store where e: "mcp_execute demo_mcp [] (McpCall ''g'' ''t'' JNull) = (r, store)" by force
  have trim: "str_trim ''ok'' = ''ok''" by code_simp
  have cfg: "load_config demo_mcp = Ok [demo_def]" "child_env demo_mcp demo_def = [(''PATH'', ''v''), (''TOKEN'', ''v'')]"
    by code_simp+
  have "is_ok (spawn_mcp demo_mcp demo_def)"
    by (simp add: spawn_mcp_def rpc_def send_line_def fresh_server_def classify_response_def demo_def_def demo_mcp_def trim Let_def)
  then obtain st0 where st0: "spawn_mcp demo_mcp demo_def = Ok st0"
    by (cases "spawn_mcp demo_mcp demo_def") auto
  have "declared_server demo_mcp ''g'' = Ok st0"
    by (simp add: declared_server_def cfg st0) (simp add: demo_def_def)
  moreover have "ms_env st0 = [(''PATH'', ''v''), (''TOKEN'', ''v'')]" using spawn_mcp_frame [OF st0] cfg by simp
  ultimately have "map fst store = [''g'']" "map (ms_env \<circ> snd) store = [[(''PATH'', ''v''), (''TOKEN'', ''v'')]]"
    using e rpc_frame [of demo_mcp st0 "''tools/call''" "JObj [(''arguments'', JNull), (''name'', JStr ''t'')]" CALL_TIMEOUT_MS]
    by (auto simp: mcp_call_def with_server_def ensure_running_def put_mcp_def assoc_insert_def assoc_remove_def
        split: prod.splits sum.splits)
  then obtain st where st: "store = [(''g'', st)]" "ms_env st = [(''PATH'', ''v''), (''TOKEN'', ''v'')]" by auto
  with mcp_children_declared [OF e, of "''g''" st] e show ?thesis by simp
qed

text \<open>
  C38. A request waits only for a reader that runs. A request that could be written is settled by
  the first reply to it that the server prints before its output ends: a result is the answer, an
  error fails the request with its message. If the output ends with no reply, the request fails at
  once with "server exited", and it runs into its time limit only if the output stays open. But if
  the output had ended before the request was sent, nothing is left to fail it: whatever happens, it
  fails by the time limit, though the server counts as running as long as its process lives.
\<close>

theorem rpc_waits_for_reader_only:
  assumes "mx_write E (st\<lparr>ms_next_id := ms_next_id st + 1, ms_pending := ms_next_id st # ms_pending st\<rparr>) = None"
    and "late = (Err (''server '' @ quoted (sd_name (ms_def st)) @ '': '' @ quoted meth @ '' timed out after '' @
           nat_to_string timeout_ms @ ''ms''))"
    and "failed = (\<lambda>m. Err (''server '' @ quoted (sd_name (ms_def st)) @ '': '' @ m))"
    and "sent = st\<lparr>ms_next_id := ms_next_id st + 1, ms_pending := ms_next_id st # ms_pending st,
           ms_written := ms_written st @ mcp_request E (ms_next_id st) meth params @ [CHR 0x0A]\<rparr>"
  shows "fst (rpc E st meth params timeout_ms) =
    (if ms_reader_ended st then late
     else case replies E (ms_next_id st) (mx_events E sent) of
       (True, result) # _ \<Rightarrow> Ok result
     | (False, e) # _ \<Rightarrow> failed (case Option.bind (json_get e ''message'') as_str of Some m \<Rightarrow> m | None \<Rightarrow> ''unknown error'')
     | [] \<Rightarrow> if OutputEnds \<in> set (mx_events E sent) then failed ''server exited'' else late)"
proof -
  let ?i = "ms_next_id st"
  define st1 where "st1 = st\<lparr>ms_next_id := ?i + 1, ms_pending := ?i # ms_pending st\<rparr>"
  have line: "send_line E st1 (mcp_request E ?i meth params) = (Ok (), sent)"
    using assms(1,4) by (simp add: send_line_def st1_def)
  obtain a st3 where w: "await_envelope E sent ?i (mx_events E sent) = (a, st3)" by force
  have rpc: "fst (rpc E st meth params timeout_ms) =
      (case a of None \<Rightarrow> late
       | Some (ok, payload) \<Rightarrow> if ok then Ok payload
           else failed (case Option.bind (json_get payload ''message'') as_str of Some m \<Rightarrow> m | None \<Rightarrow> ''unknown error''))"
    using line w assms(2,3) unfolding rpc_def Let_def st1_def by (simp split: option.splits prod.splits)
  show ?thesis
  proof (cases "ms_reader_ended st")
    case True
    then have "a = None"
      using await_ended [of sent E ?i "mx_events E sent"] w assms(4) by simp
    with True rpc show ?thesis by simp
  next
    case False
    then have "a = (case replies E ?i (mx_events E sent) of env # _ \<Rightarrow> Some env
        | [] \<Rightarrow> if OutputEnds \<in> set (mx_events E sent) then Some (False, JObj [(''message'', JStr ''server exited'')]) else None)"
      using await_replies [of ?i sent E "mx_events E sent"] w assms(4) by simp
    with False rpc show ?thesis
      by (auto split: list.splits prod.splits)
  qed
qed

text \<open>A reader that meets a line which is not UTF-8 ends like one whose output ended, and the server stays.\<close>

definition demo_deaf :: mcp_server where
  "demo_deaf = (fresh_server demo_def [])\<lparr>ms_reader_ended := True\<rparr>"

definition demo_leaving :: mcp_env where
  "demo_leaving = demo_mcp\<lparr>mx_events := \<lambda>_. [ServerLine ''ok'', OutputEnds]\<rparr>"

theorem rpc_waits_for_reader_only_witness:
  "fst (rpc demo_leaving demo_deaf ''m'' JNull 5) = Err (''server '' @ quoted ''g'' @ '': '' @ quoted ''m'' @ '' timed out after 5ms'') \<and>
   fst (ensure_running demo_leaving [(''g'', demo_deaf)] ''g'') = Ok demo_deaf \<and>
   fst (rpc demo_leaving (fresh_server demo_def []) ''m'' JNull 5) = Ok JNull \<and>
   fst (rpc demo_leaving ((fresh_server demo_def [])\<lparr>ms_next_id := 2\<rparr>) ''m'' JNull 5) =
     Err (''server '' @ quoted ''g'' @ '': '' @ ''server exited'')"
proof -
  have w: "mx_write demo_leaving s = None" for s by (simp add: demo_leaving_def demo_mcp_def)
  have d: "ms_reader_ended demo_deaf" "sd_name (ms_def demo_deaf) = ''g''" "ms_alive demo_deaf"
    "\<not> ms_reader_ended (fresh_server demo_def [])" "ms_next_id (fresh_server demo_def []) = 1"
    "sd_name (ms_def (fresh_server demo_def [])) = ''g''"
    by (simp_all add: demo_deaf_def fresh_server_def demo_def_def)
  have five: "nat_to_string 5 = ''5''" by code_simp
  have replies: "replies demo_leaving 1 [ServerLine ''ok'', OutputEnds] = [(True, JNull)]"
    "replies demo_leaving 2 [ServerLine ''ok'', OutputEnds] = []"
    by code_simp+
  have events: "mx_events demo_leaving s = [ServerLine ''ok'', OutputEnds]" for s by (simp add: demo_leaving_def)
  note rule = rpc_waits_for_reader_only [OF w refl refl refl, where meth = "''m''" and timeout_ms = 5 and params = JNull]
  from rule [of demo_deaf] rule [of "fresh_server demo_def []"] rule [of "(fresh_server demo_def [])\<lparr>ms_next_id := 2\<rparr>"]
  show ?thesis by (simp add: ensure_running_def d five replies [simplified] events)
qed

section \<open>What goes unnoticed\<close>

text \<open>A request that runs into its limit stays in the table of pending requests.\<close>

lemma timed_out_request_stays_pending:
  "ms_pending (snd (rpc (demo_mcp\<lparr>mx_events := \<lambda>_. []\<rparr>) (fresh_server demo_def []) ''m'' JNull 5)) = [1]"
  by code_simp

text \<open>After ten pages the list of tools ends, whether the server has more or not.\<close>

lemma list_pages_stops_silently: "list_pages E 0 st (Some c) tools = (Ok tools, st)"
  by simp

text \<open>In a bare map, a server called \<open>servers\<close> hides every other.\<close>

lemma bare_map_server_hides_others:
  "json_get (JObj ms) ''servers'' = Some (JObj d) \<Longrightarrow> mx_parse E raw = Ok (JObj ms) \<Longrightarrow>
   parse_servers_config E raw = parse_defs E d"
  by (simp add: parse_servers_config_def)

end
