(* ===== verification/Memory_Store.thy ===== *)
theory Memory_Store
  imports Text_Scan Daemon_Error "HOL-Library.Product_Lexorder" "HOL-Library.Multiset"
begin

text \<open>
  \<open>daemon-core/src/memory_store.rs\<close>: the agent's memory per project. The table is the list of its
  rows by id, with the counter of AUTOINCREMENT. SHA-256, the clock and the FTS5 extension are
  parameters, and so is the failure of each statement, by the label its error carries:
  \<open>me_fault\<close>, \<open>me_touch_ok\<close> for the updates whose errors are dropped, and \<open>me_read\<close>, the number of
  rows a query yields before it fails, for the rows whose errors are dropped.
\<close>

section \<open>Rows\<close>

record memory_row =
  mr_id :: nat
  mr_project :: string
  mr_hash :: string
  mr_kind :: string
  mr_content :: string
  mr_importance :: int
  mr_tags :: string
  mr_created_at :: nat
  mr_updated_at :: nat
  mr_hits :: nat

record memory_db =
  md_rows :: "memory_row list"
  md_seq :: nat

record memory_env =
  me_sha_hex :: "bytes \<Rightarrow> string"
  me_now :: nat
  me_fault :: "string \<Rightarrow> string option"
  me_touch_ok :: "nat \<Rightarrow> bool"
  me_read :: "nat option"
  me_fts :: "(string \<Rightarrow> string \<Rightarrow> bool) option"

datatype memory_op =
    Remember string string "string option" "int option" "string list"
  | Recall string "string option" "int option"
  | Forget string "int option" bool
  | Reflect string string "string list"
  | Stats string

record memory_entry =
  mn_id :: nat
  mn_kind :: string
  mn_content :: string
  mn_importance :: int
  mn_tags :: "string list"
  mn_created_at :: nat
  mn_updated_at :: nat
  mn_hits :: nat

datatype memory_result =
    WriteResult nat bool nat
  | RecallResult "memory_entry list" nat
  | ForgetResult nat
  | StatsResult nat nat

type_synonym memory_res = "(string, memory_result) res \<times> memory_db"

definition parse_tags :: "string \<Rightarrow> string list" where
  "parse_tags raw = filter (\<lambda>s. s \<noteq> []) (map str_trim (split_on (CHR '','') raw))"

definition row_to_entry :: "memory_row \<Rightarrow> memory_entry" where
  "row_to_entry r =
     \<lparr>mn_id = mr_id r, mn_kind = mr_kind r, mn_content = mr_content r, mn_importance = mr_importance r,
      mn_tags = parse_tags (mr_tags r), mn_created_at = mr_created_at r, mn_updated_at = mr_updated_at r,
      mn_hits = mr_hits r\<rparr>"

text \<open>A statement: its error, labelled, or what it does.\<close>

definition statement :: "memory_env \<Rightarrow> string \<Rightarrow> memory_db \<Rightarrow> memory_res \<Rightarrow> memory_res" where
  "statement E label db k =
     (case me_fault E label of Some e \<Rightarrow> (Err (label @ '': '' @ e), db) | None \<Rightarrow> k)"

definition project_total :: "memory_db \<Rightarrow> string \<Rightarrow> nat" where
  "project_total db project = length (filter (\<lambda>r. mr_project r = project) (md_rows db))"

section \<open>Remembering\<close>

definition dedup_id :: "memory_db \<Rightarrow> string \<Rightarrow> string \<Rightarrow> nat option" where
  "dedup_id db project hash =
     map_option mr_id (find (\<lambda>r. mr_project r = project \<and> mr_hash r = hash) (md_rows db))"

definition bump_row :: "nat \<Rightarrow> memory_row \<Rightarrow> memory_row" where
  "bump_row t r = r\<lparr>mr_importance := min 5 (mr_importance r + 1), mr_updated_at := t, mr_hits := mr_hits r + 1\<rparr>"

definition bump :: "memory_db \<Rightarrow> nat \<Rightarrow> string \<Rightarrow> nat \<Rightarrow> memory_db" where
  "bump db i project t =
     db\<lparr>md_rows := map (\<lambda>r. if mr_id r = i \<and> mr_project r = project then bump_row t r else r) (md_rows db)\<rparr>"

definition insert_row :: "memory_db \<Rightarrow> memory_row \<Rightarrow> memory_db" where
  "insert_row db r = \<lparr>md_rows = md_rows db @ [r\<lparr>mr_id := md_seq db + 1\<rparr>], md_seq = md_seq db + 1\<rparr>"

definition clamp_importance :: "int option \<Rightarrow> int" where
  "clamp_importance i = max 1 (min 5 (case i of Some n \<Rightarrow> n | None \<Rightarrow> 3))"

definition new_row :: "string \<Rightarrow> string \<Rightarrow> string \<Rightarrow> string \<Rightarrow> int \<Rightarrow> string list \<Rightarrow> nat \<Rightarrow> memory_row" where
  "new_row project hash kind content importance tags t =
     \<lparr>mr_id = 0, mr_project = project, mr_hash = hash, mr_kind = kind, mr_content = content,
      mr_importance = importance, mr_tags = str_join '','' tags, mr_created_at = t, mr_updated_at = t,
      mr_hits = 0\<rparr>"

definition remember ::
    "memory_env \<Rightarrow> memory_db \<Rightarrow> string \<Rightarrow> string \<Rightarrow> string option \<Rightarrow> int option \<Rightarrow> string list \<Rightarrow> memory_res" where
  "remember E db project content0 kind0 importance0 tags =
     (let content = str_trim content0 in
      if content = [] then (Err ''remember: content is empty'', db)
      else
        let kind = (case kind0 of Some k \<Rightarrow> if str_trim k \<noteq> [] then k else ''fact'' | None \<Rightarrow> ''fact'');
            hash = me_sha_hex E content;
            t = me_now E in
        statement E ''dedup lookup'' db
          (case dedup_id db project hash of
             Some i \<Rightarrow>
               statement E ''bump'' db
                 (let db1 = bump db i project t in
                  statement E ''count'' db1 (Ok (WriteResult i True (project_total db1 project)), db1))
           | None \<Rightarrow>
               statement E ''insert'' db
                 (let db1 = insert_row db
                        (new_row project hash kind content (clamp_importance importance0) tags t) in
                  statement E ''count'' db1
                    (Ok (WriteResult (md_seq db1) False (project_total db1 project)), db1))))"

section \<open>Recalling\<close>

definition recall_limit :: "int option \<Rightarrow> nat" where
  "recall_limit l = nat (max 1 (min 100 (case l of Some n \<Rightarrow> n | None \<Rightarrow> 20)))"

definition rank :: "memory_row \<Rightarrow> int" where
  "rank r = mr_importance r * 10 + int (mr_updated_at r div 86400)"

text \<open>The order of every query: rank, then recency, then id, all descending.\<close>

definition order_key :: "memory_row \<Rightarrow> int \<times> int \<times> int" where
  "order_key r = (- rank r, - int (mr_updated_at r), - int (mr_id r))"

definition fts_term :: "string \<Rightarrow> string" where
  "fts_term t = [CHR 0x22] @ filter (\<lambda>c. c \<noteq> CHR 0x22) t @ [CHR 0x22] @ ''*''"

definition fts_terms :: "string \<Rightarrow> string list" where
  "fts_terms query = filter (\<lambda>t. length t > 2) (map fts_term (split_whitespace query))"

definition like_pattern :: "string \<Rightarrow> string" where
  "like_pattern query = filter (\<lambda>c. c \<noteq> CHR ''%'' \<and> c \<noteq> CHR ''_'') query"

text \<open>\<open>LIKE\<close> with a pattern between two percent signs and no other wildcard.\<close>

definition like_matches :: "string \<Rightarrow> string \<Rightarrow> bool" where
  "like_matches pattern content = str_contains (to_ascii_lowercase content) (to_ascii_lowercase pattern)"

datatype strategy = AllRows | FtsRows string | LikeRows string

definition recall_strategy :: "memory_env \<Rightarrow> string option \<Rightarrow> strategy" where
  "recall_strategy E query =
     (let q = (case query of Some s \<Rightarrow> s | None \<Rightarrow> []) in
      if str_trim q = [] then AllRows
      else
        (case me_fts E of
           Some _ \<Rightarrow> (if fts_terms q = [] then AllRows else FtsRows (str_join '' '' (fts_terms q)))
         | None \<Rightarrow> LikeRows (like_pattern q)))"

fun strategy_matches :: "memory_env \<Rightarrow> strategy \<Rightarrow> memory_row \<Rightarrow> bool" where
  "strategy_matches E AllRows r = True"
| "strategy_matches E (FtsRows q) r = (case me_fts E of Some m \<Rightarrow> m q (mr_content r) | None \<Rightarrow> False)"
| "strategy_matches E (LikeRows p) r = like_matches p (mr_content r)"

fun prepare_label :: "strategy \<Rightarrow> string" where
  "prepare_label (FtsRows _) = ''prepare fts''"
| "prepare_label _ = ''prepare''"

fun strategy_label :: "strategy \<Rightarrow> string" where
  "strategy_label (FtsRows _) = ''query fts''"
| "strategy_label _ = ''query''"

definition recalled_rows :: "memory_env \<Rightarrow> memory_db \<Rightarrow> string \<Rightarrow> strategy \<Rightarrow> nat \<Rightarrow> memory_row list" where
  "recalled_rows E db project s limit =
     (let rows = take limit (sort_key order_key
            (filter (\<lambda>r. mr_project r = project \<and> strategy_matches E s r) (md_rows db))) in
      case me_read E of None \<Rightarrow> rows | Some n \<Rightarrow> take n rows)"

definition touch_hits :: "memory_env \<Rightarrow> nat list \<Rightarrow> memory_db \<Rightarrow> memory_db" where
  "touch_hits E ids db =
     db\<lparr>md_rows := map (\<lambda>r. if mr_id r \<in> set ids \<and> me_touch_ok E (mr_id r) then r\<lparr>mr_hits := mr_hits r + 1\<rparr> else r)
       (md_rows db)\<rparr>"

definition recall :: "memory_env \<Rightarrow> memory_db \<Rightarrow> string \<Rightarrow> string option \<Rightarrow> int option \<Rightarrow> memory_res" where
  "recall E db project query limit0 =
     (let s = recall_strategy E query in
      statement E (prepare_label s) db (statement E (strategy_label s) db
        (let rows = recalled_rows E db project s (recall_limit limit0);
             db1 = touch_hits E (map mr_id rows) db in
         statement E ''count'' db1
           (Ok (RecallResult (map row_to_entry rows) (project_total db1 project)), db1))))"

section \<open>Forgetting and counting\<close>

definition delete_rows :: "(memory_row \<Rightarrow> bool) \<Rightarrow> memory_db \<Rightarrow> memory_db" where
  "delete_rows P db = db\<lparr>md_rows := filter (\<lambda>r. \<not> P r) (md_rows db)\<rparr>"

definition forget :: "memory_env \<Rightarrow> memory_db \<Rightarrow> string \<Rightarrow> int option \<Rightarrow> bool \<Rightarrow> memory_res" where
  "forget E db project i all =
     (let delete = (\<lambda>P. statement E ''delete'' db
            (Ok (ForgetResult (length (filter P (md_rows db)))), delete_rows P db)) in
      if all then delete (\<lambda>r. mr_project r = project)
      else (case i of
              Some n \<Rightarrow> delete (\<lambda>r. int (mr_id r) = n \<and> mr_project r = project)
            | None \<Rightarrow> (Err ''forget: needs id or all=true'', db)))"

definition stats :: "memory_env \<Rightarrow> memory_db \<Rightarrow> string \<Rightarrow> memory_res" where
  "stats E db project =
     statement E ''stats'' db
       (Ok (StatsResult (project_total db project)
          (length (filter (\<lambda>r. mr_project r = project \<and> mr_kind r = ''reflection'') (md_rows db)))), db)"

fun memory_execute :: "memory_env \<Rightarrow> memory_db \<Rightarrow> memory_op \<Rightarrow> memory_res" where
  "memory_execute E db (Remember project content kind importance tags) =
     remember E db project content kind importance tags"
| "memory_execute E db (Recall project query limit) = recall E db project query limit"
| "memory_execute E db (Forget project i all) = forget E db project i all"
| "memory_execute E db (Reflect project summary tags) =
     remember E db project summary (Some ''reflection'') (Some 4) tags"
| "memory_execute E db (Stats project) = stats E db project"


section \<open>What the table keeps\<close>

definition row_ok :: "(bytes \<Rightarrow> string) \<Rightarrow> memory_row \<Rightarrow> bool" where
  "row_ok sha r \<longleftrightarrow> 1 \<le> mr_importance r \<and> mr_importance r \<le> 5 \<and> mr_content r \<noteq> [] \<and> mr_hash r = sha (mr_content r)"

definition memory_inv :: "(bytes \<Rightarrow> string) \<Rightarrow> memory_db \<Rightarrow> bool" where
  "memory_inv sha db \<longleftrightarrow>
     sorted_wrt (<) (map mr_id (md_rows db)) \<and> list_all (\<lambda>r. mr_id r \<le> md_seq db) (md_rows db) \<and>
     distinct (map (\<lambda>r. (mr_project r, mr_hash r)) (md_rows db)) \<and> list_all (row_ok sha) (md_rows db)"

definition op_project :: "memory_op \<Rightarrow> string" where
  "op_project op = (case op of Remember p _ _ _ _ \<Rightarrow> p | Recall p _ _ \<Rightarrow> p | Forget p _ _ \<Rightarrow> p
     | Reflect p _ _ \<Rightarrow> p | Stats p \<Rightarrow> p)"

definition other_rows :: "string \<Rightarrow> memory_db \<Rightarrow> memory_row list" where
  "other_rows project db = filter (\<lambda>r. mr_project r \<noteq> project) (md_rows db)"

text \<open>A change of rows that keeps what identifies them keeps the invariant.\<close>

lemma memory_inv_map:
  assumes "memory_inv sha db"
    and "\<And>r. mr_id (f r) = mr_id r" "\<And>r. mr_project (f r) = mr_project r" "\<And>r. mr_hash (f r) = mr_hash r"
    and "\<And>r. row_ok sha r \<Longrightarrow> row_ok sha (f r)"
  shows "memory_inv sha (db\<lparr>md_rows := map f (md_rows db)\<rparr>)"
proof -
  have "map mr_id (map f (md_rows db)) = map mr_id (md_rows db)"
    and "map (\<lambda>r. (mr_project r, mr_hash r)) (map f (md_rows db)) = map (\<lambda>r. (mr_project r, mr_hash r)) (md_rows db)"
    using assms(2-4) by simp_all
  then show ?thesis
    using assms(1,2,5) unfolding memory_inv_def by (simp add: list_all_iff del: map_map)
qed

lemma bump_inv:
  assumes "memory_inv sha db" shows "memory_inv sha (bump db i p t)"
  unfolding bump_def by (rule memory_inv_map [OF assms]) (auto simp: bump_row_def row_ok_def)

lemma touch_hits_inv:
  assumes "memory_inv sha db" shows "memory_inv sha (touch_hits E ids db)"
  unfolding touch_hits_def by (rule memory_inv_map [OF assms]) (auto simp: row_ok_def)

lemma delete_rows_inv:
  assumes "memory_inv sha db" shows "memory_inv sha (delete_rows P db)"
  using assms unfolding memory_inv_def delete_rows_def
  by (auto simp: list_all_iff sorted_wrt_map sorted_wrt_filter distinct_map intro: inj_on_subset)

lemma dedup_id_None: "dedup_id db p h = None \<longleftrightarrow> (\<forall>r\<in>set (md_rows db). \<not> (mr_project r = p \<and> mr_hash r = h))"
  by (auto simp: dedup_id_def find_None_iff)

lemma insert_row_inv:
  assumes "memory_inv sha db" and "row_ok sha r" and "dedup_id db (mr_project r) (mr_hash r) = None"
  shows "memory_inv sha (insert_row db r)"
  using assms unfolding memory_inv_def insert_row_def dedup_id_None
  by (auto simp: list_all_iff sorted_wrt_append row_ok_def less_Suc_eq_le le_Suc_eq)

text \<open>Only the rows of the project named change.\<close>

lemma other_rows_map:
  assumes "\<And>r. mr_project (f r) = mr_project r"
    and "\<And>r. r \<in> set (md_rows db) \<Longrightarrow> mr_project r \<noteq> p \<Longrightarrow> f r = r"
  shows "other_rows p (db\<lparr>md_rows := map f (md_rows db)\<rparr>) = other_rows p db"
proof -
  have "filter (\<lambda>r. mr_project r \<noteq> p) (map f xs) = filter (\<lambda>r. mr_project r \<noteq> p) xs"
    if "\<forall>r\<in>set xs. mr_project r \<noteq> p \<longrightarrow> f r = r" for xs
    using that assms(1) by (induction xs) auto
  then show ?thesis using assms(2) by (simp add: other_rows_def)
qed

lemma bump_others: "other_rows p (bump db i p t) = other_rows p db"
  unfolding bump_def by (rule other_rows_map) (auto simp: bump_row_def)

lemma insert_others: "mr_project r = p \<Longrightarrow> other_rows p (insert_row db r) = other_rows p db"
  by (simp add: other_rows_def insert_row_def)

lemma delete_others:
  assumes "\<And>r. P r \<Longrightarrow> mr_project r = p" shows "other_rows p (delete_rows P db) = other_rows p db"
  using assms by (auto simp: other_rows_def delete_rows_def intro: filter_cong)

lemma recalled_subset:
  "set (recalled_rows E db p s n) \<subseteq> {r \<in> set (md_rows db). mr_project r = p \<and> strategy_matches E s r}"
  by (auto simp: recalled_rows_def Let_def split: option.splits dest!: in_set_takeD)

lemma ids_inj:
  assumes "memory_inv sha db" shows "inj_on mr_id (set (md_rows db))"
  using assms unfolding memory_inv_def
  by (meson distinct_map strict_sorted_iff)

text \<open>The update of the hit counts names no project: that it stays inside one rests on the ids.\<close>

lemma touch_others:
  assumes "memory_inv sha db"
  shows "other_rows p (touch_hits E (map mr_id (recalled_rows E db p s n)) db) = other_rows p db"
  unfolding touch_hits_def
proof (rule other_rows_map)
  fix r assume r: "r \<in> set (md_rows db)" "mr_project r \<noteq> p"
  have "mr_id r \<notin> mr_id ` set (recalled_rows E db p s n)"
    using r recalled_subset [of E db p s n] ids_inj [OF assms] by (fastforce dest: inj_onD)
  then show "(if mr_id r \<in> set (map mr_id (recalled_rows E db p s n)) \<and> me_touch_ok E (mr_id r)
      then r\<lparr>mr_hits := mr_hits r + 1\<rparr> else r) = r" by simp
qed simp

definition keeps :: "(bytes \<Rightarrow> string) \<Rightarrow> string \<Rightarrow> memory_db \<Rightarrow> memory_db \<Rightarrow> bool" where
  "keeps sha p db db' \<longleftrightarrow> memory_inv sha db' \<and> other_rows p db' = other_rows p db"

lemma statement_keeps:
  assumes "keeps sha p db0 db" and "keeps sha p db0 (snd k)"
  shows "keeps sha p db0 (snd (statement E l db k))"
  using assms by (simp add: statement_def split: option.split)

lemma keeps_refl: "memory_inv sha db \<Longrightarrow> keeps sha p db db"
  by (simp add: keeps_def)

lemma clamp_importance_range: "1 \<le> clamp_importance i" "clamp_importance i \<le> 5"
  by (auto simp: clamp_importance_def)

lemma remember_keeps:
  assumes inv: "memory_inv (me_sha_hex E) db"
  shows "keeps (me_sha_hex E) p db (snd (remember E db p c k i tags))"
proof -
  have "keeps (me_sha_hex E) p db (bump db j p t)" for j t
    by (simp add: keeps_def bump_inv [OF inv] bump_others)
  moreover have "keeps (me_sha_hex E) p db (insert_row db r)"
    if "mr_project r = p" "row_ok (me_sha_hex E) r" "dedup_id db p (mr_hash r) = None" for r
    using that by (simp add: keeps_def insert_row_inv [OF inv] insert_others)
  ultimately show ?thesis
    unfolding remember_def Let_def
    by (auto simp: row_ok_def new_row_def clamp_importance_range inv split: option.split
        intro!: statement_keeps keeps_refl)
qed

lemma recall_keeps:
  assumes inv: "memory_inv (me_sha_hex E) db"
  shows "keeps (me_sha_hex E) p db (snd (recall E db p q l))"
proof -
  have "keeps (me_sha_hex E) p db (touch_hits E (map mr_id (recalled_rows E db p s n)) db)" for s n
    by (simp add: keeps_def touch_hits_inv [OF inv] touch_others [OF inv])
  then show ?thesis
    unfolding recall_def Let_def by (auto simp: inv intro!: statement_keeps keeps_refl)
qed

lemma forget_keeps:
  assumes inv: "memory_inv (me_sha_hex E) db"
  shows "keeps (me_sha_hex E) p db (snd (forget E db p i all))"
proof -
  have gone: "keeps (me_sha_hex E) p db (delete_rows P db)" if "\<And>r. P r \<Longrightarrow> mr_project r = p" for P
    using that by (simp add: keeps_def delete_rows_inv [OF inv] delete_others)
  show ?thesis
    unfolding forget_def Let_def
    by (auto simp: inv split: option.split intro!: statement_keeps keeps_refl gone)
qed

text \<open>C36. The table stays sound, whichever statement fails: ids increase and stay below the
  counter, a project holds one row per content hash, every row has content, the hash of it and an
  importance from 1 to 5; and an operation leaves the rows of every other project as they are.\<close>

theorem memory_kept:
  assumes "memory_inv (me_sha_hex E) db"
  shows "memory_inv (me_sha_hex E) (snd (memory_execute E db op)) \<and>
    other_rows (op_project op) (snd (memory_execute E db op)) = other_rows (op_project op) db"
  using remember_keeps [OF assms] recall_keeps [OF assms] forget_keeps [OF assms]
  by (cases op) (auto simp: op_project_def keeps_def stats_def statement_def assms split: option.split)

definition memory_demo_env :: memory_env where
  "memory_demo_env = \<lparr>me_sha_hex = (\<lambda>b. b), me_now = 172800, me_fault = (\<lambda>_. None), me_touch_ok = (\<lambda>_. True),
     me_read = None, me_fts = None\<rparr>"

definition memory_demo_db :: memory_db where
  "memory_demo_db =
     \<lparr>md_rows = [\<lparr>mr_id = 1, mr_project = ''a'', mr_hash = ''tea'', mr_kind = ''fact'', mr_content = ''tea'',
         mr_importance = 3, mr_tags = [], mr_created_at = 0, mr_updated_at = 0, mr_hits = 0\<rparr>,
       \<lparr>mr_id = 2, mr_project = ''b'', mr_hash = ''tea'', mr_kind = ''fact'', mr_content = ''tea'',
         mr_importance = 5, mr_tags = [], mr_created_at = 0, mr_updated_at = 0, mr_hits = 0\<rparr>], md_seq = 2\<rparr>"

lemma memory_demo_inv: "memory_inv (me_sha_hex memory_demo_env) memory_demo_db"
  by (simp add: memory_inv_def row_ok_def memory_demo_env_def memory_demo_db_def)

theorem memory_kept_witness:
  "other_rows ''b'' (snd (memory_execute memory_demo_env memory_demo_db (Recall ''b'' None None))) = other_rows ''b'' memory_demo_db"
  using memory_kept [OF memory_demo_inv, of "Recall ''b'' None None"] by (simp add: op_project_def)

section \<open>What the operations answer\<close>

lemma memory_demo_trim: "str_trim ''tea'' = ''tea''" "str_trim '' tea '' = ''tea''" "str_trim ''reflection'' \<noteq> []"
  by code_simp+

lemma statement_Ok:
  "statement E l db k = (Ok v, db') \<longleftrightarrow> me_fault E l = None \<and> k = (Ok v, db')"
  by (auto simp: statement_def split: option.split)

lemma find_SomeE:
  assumes "find P xs = Some x" shows "x \<in> set xs \<and> P x"
  using assms by (auto simp: find_Some_iff)

lemma dedup_id_Some:
  assumes "dedup_id db p h = Some i"
  shows "\<exists>r\<in>set (md_rows db). mr_project r = p \<and> mr_hash r = h \<and> mr_id r = i"
  using assms by (auto simp: dedup_id_def dest!: find_SomeE)

lemma remember_Ok:
  assumes "remember E db p c k i tags = (Ok (WriteResult j d n), db')"
  defines "h \<equiv> me_sha_hex E (str_trim c)"
  shows "n = project_total db' p \<and>
    (if d then dedup_id db p h = Some j \<and> db' = bump db j p (me_now E)
     else dedup_id db p h = None \<and> j = md_seq db' \<and>
       (\<exists>kind imp. db' = insert_row db (new_row p h kind (str_trim c) imp tags (me_now E))))"
proof (cases "str_trim c = []")
  case False
  show ?thesis
  proof (cases "dedup_id db p h")
    case None
    then show ?thesis
      using assms(1) False unfolding remember_def Let_def h_def [symmetric] by (auto simp: statement_Ok)
  next
    case (Some x)
    then show ?thesis
      using assms(1) False unfolding remember_def Let_def h_def [symmetric] by (auto simp: statement_Ok)
  qed
qed (use assms(1) in \<open>simp add: remember_def Let_def\<close>)

lemma filter_key_single:
  assumes "distinct (map f xs)" "x \<in> set xs"
  shows "filter (\<lambda>y. f y = f x) xs = [x]"
  using assms by (induction xs) (auto simp: filter_empty_conv image_iff)

lemma filter_bumped:
  "filter (\<lambda>r. mr_project r = p \<and> mr_hash r = h) (md_rows (bump db j q t)) =
   map (\<lambda>r. if mr_id r = j \<and> mr_project r = q then bump_row t r else r)
     (filter (\<lambda>r. mr_project r = p \<and> mr_hash r = h) (md_rows db))"
  by (auto simp: bump_def filter_map bump_row_def comp_def intro!: arg_cong2 [where f = map] filter_cong)

lemma project_total_bump: "project_total (bump db j q t) p = project_total db p"
  by (auto simp: project_total_def bump_def bump_row_def filter_map comp_def intro!: arg_cong [where f = length] filter_cong)

lemma project_total_insert: "mr_project r = p \<Longrightarrow> project_total (insert_row db r) p = Suc (project_total db p)"
  by (simp add: project_total_def insert_row_def)

lemma dedup_single:
  assumes "memory_inv sha db" and "dedup_id db p h = Some j"
  shows "map mr_id (filter (\<lambda>r. mr_project r = p \<and> mr_hash r = h) (md_rows db)) = [j]"
proof -
  obtain x where x: "x \<in> set (md_rows db)" "mr_project x = p" "mr_hash x = h" "mr_id x = j"
    using dedup_id_Some [OF assms(2)] by auto
  then show ?thesis
    using assms(1) filter_key_single [of "\<lambda>r. (mr_project r, mr_hash r)" "md_rows db" x]
    by (simp add: memory_inv_def)
qed

text \<open>Remembering is idempotent up to importance, recency and hits: when it succeeds, the content
  stands in the project under the answered id and under no other; and it is reported as a duplicate
  exactly when the project had a row of that hash before, in which case no row is added.\<close>

lemma remember_once:
  assumes "memory_inv (me_sha_hex E) db"
    and "remember E db p c k i tags = (Ok (WriteResult j d n), db')"
  shows "map mr_id (filter (\<lambda>r. mr_project r = p \<and> mr_hash r = me_sha_hex E (str_trim c)) (md_rows db')) = [j] \<and>
    d = (dedup_id db p (me_sha_hex E (str_trim c)) \<noteq> None) \<and>
    n = project_total db p + (if d then 0 else 1)"
proof (cases d)
  case True
  then have dup: "dedup_id db p (me_sha_hex E (str_trim c)) = Some j" "db' = bump db j p (me_now E)" "n = project_total db' p"
    using remember_Ok [OF assms(2)] by auto
  have "mr_id (if mr_id r = j \<and> mr_project r = p then bump_row (me_now E) r else r) = mr_id r" for r
    by (simp add: bump_row_def)
  then show ?thesis
    using dedup_single [OF assms(1) dup(1)] dup True
    by (simp add: filter_bumped project_total_bump comp_def)
next
  case False
  then obtain kind imp where "dedup_id db p (me_sha_hex E (str_trim c)) = None" "j = md_seq db'"
    "db' = insert_row db (new_row p (me_sha_hex E (str_trim c)) kind (str_trim c) imp tags (me_now E))"
    "n = project_total db' p"
    using remember_Ok [OF assms(2)] by auto
  then show ?thesis
    using False by (auto simp: dedup_id_None insert_row_def new_row_def project_total_def filter_empty_conv)
qed

lemma remember_once_witness:
  "fst (remember memory_demo_env memory_demo_db ''a'' '' tea '' None None []) = Ok (WriteResult 1 True 1) \<and>
   map mr_id (filter (\<lambda>r. mr_project r = ''a'' \<and> mr_hash r = me_sha_hex memory_demo_env (str_trim '' tea ''))
     (md_rows (snd (remember memory_demo_env memory_demo_db ''a'' '' tea '' None None [])))) = [1]"
proof -
  have out: "fst (remember memory_demo_env memory_demo_db ''a'' '' tea '' None None []) = Ok (WriteResult 1 True 1)"
    by (simp add: remember_def statement_def memory_demo_env_def memory_demo_db_def dedup_id_def memory_demo_trim bump_def bump_row_def
        project_total_def Let_def)
  then have "remember memory_demo_env memory_demo_db ''a'' '' tea '' None None [] =
      (Ok (WriteResult 1 True 1), snd (remember memory_demo_env memory_demo_db ''a'' '' tea '' None None []))"
    by (metis prod.collapse)
  then show ?thesis using out remember_once [OF memory_demo_inv] by blast
qed

text \<open>Three characters are the least a sanitized term has, so the test on its length drops none: a
  word of quotes only is still sent to the engine, as an empty prefix.\<close>

lemma fts_filter_drops_nothing: "fts_terms query = map fts_term (split_whitespace query)"
  by (simp add: fts_terms_def fts_term_def filter_id_conv)

text \<open>The rows recall picks.\<close>

definition matching :: "memory_env \<Rightarrow> memory_db \<Rightarrow> string \<Rightarrow> strategy \<Rightarrow> memory_row list" where
  "matching E db p s = filter (\<lambda>r. mr_project r = p \<and> strategy_matches E s r) (md_rows db)"

lemma sorted_take_best:
  assumes "sorted (map f xs)" "x \<in> set (take n xs)" "y \<in> set (drop n xs)"
  shows "f x \<le> f y"
proof -
  have "sorted (map f (take n xs) @ map f (drop n xs))"
    using assms(1) by (metis append_take_drop_id map_append)
  then show ?thesis using assms(2,3) by (auto simp: sorted_append)
qed

lemma recalled_rows_best:
  assumes "me_read E = None" and rows_def: "rows = recalled_rows E db p s n"
  shows "sorted_wrt (\<lambda>x y. order_key x \<le> order_key y) rows \<and> length rows = min n (length (matching E db p s)) \<and>
    mset rows \<subseteq># mset (matching E db p s) \<and>
    (\<forall>x \<in># mset rows. \<forall>y \<in># mset (matching E db p s) - mset rows. order_key x \<le> order_key y)"
proof -
  define ys where "ys = sort_key order_key (matching E db p s)"
  have rows: "rows = take n ys"
    using assms by (simp add: recalled_rows_def ys_def matching_def)
  have sorted: "sorted (map order_key ys)" and ys: "mset (matching E db p s) = mset ys" "length (matching E db p s) = length ys"
    by (simp_all add: ys_def)
  have split: "mset ys = mset (take n ys) + mset (drop n ys)"
    by (metis append_take_drop_id mset_append)
  have "sorted_wrt (\<lambda>x y. order_key x \<le> order_key y) (take n ys)"
    using sorted_wrt_take [OF sorted, of n] by (simp add: take_map sorted_wrt_map)
  moreover have "order_key x \<le> order_key y" if "x \<in># mset (take n ys)" "y \<in># mset ys - mset (take n ys)" for x y
    using that sorted_take_best [OF sorted, of x n y] by (simp add: split)
  ultimately show ?thesis by (simp add: rows ys split min.commute)
qed

text \<open>
  The reference of a recall, apart from the code's queries. A row comes before another by importance
  times ten plus the day of its last change, then by that time, then by its id, the greater first. A
  row answers a query that is blank in any case; with the full-text index, when the index matches it
  with the query's words, each in quotes and as a prefix; and else when its content contains the
  query, less its percent signs and underscores, in any letter case.
\<close>

definition ranks_before :: "memory_row \<Rightarrow> memory_row \<Rightarrow> bool" where
  "ranks_before x y \<longleftrightarrow>
     (let a = mr_importance x * 10 + int (mr_updated_at x div 86400);
          b = mr_importance y * 10 + int (mr_updated_at y div 86400)
      in a > b \<or> a = b \<and> (mr_updated_at x > mr_updated_at y \<or> mr_updated_at x = mr_updated_at y \<and> mr_id x > mr_id y))"

definition answers_query :: "(string \<Rightarrow> string \<Rightarrow> bool) option \<Rightarrow> string \<Rightarrow> memory_row \<Rightarrow> bool" where
  "answers_query index q r \<longleftrightarrow> str_trim q = [] \<or>
     (case index of
        Some m \<Rightarrow> split_whitespace q = [] \<or>
          m (str_join '' '' [[CHR 0x22] @ filter (\<lambda>c. c \<noteq> CHR 0x22) w @ [CHR 0x22, CHR ''*'']. w \<leftarrow> split_whitespace q]) (mr_content r)
      | None \<Rightarrow> str_contains (to_ascii_lowercase (mr_content r))
          (to_ascii_lowercase (filter (\<lambda>c. c \<noteq> CHR ''%'' \<and> c \<noteq> CHR ''_'') q)))"

lemma order_key_before: "order_key x \<le> order_key y \<longleftrightarrow> \<not> ranks_before y x"
  by (auto simp: order_key_def rank_def ranks_before_def Let_def)

lemma strategy_answers:
  "strategy_matches E (recall_strategy E query) r \<longleftrightarrow>
   answers_query (me_fts E) (case query of Some s \<Rightarrow> s | None \<Rightarrow> []) r"
proof -
  have "fts_term = (\<lambda>w. [CHR 0x22] @ filter (\<lambda>c. c \<noteq> CHR 0x22) w @ [CHR 0x22, CHR ''*''])"
    by (simp add: fts_term_def fun_eq_iff)
  then show ?thesis
    by (simp add: recall_strategy_def answers_query_def Let_def fts_filter_drops_nothing like_matches_def
        like_pattern_def split: option.split)
qed

text \<open>
  C37. Recall returns the best rows. A recall that succeeds, with no error while the rows are read,
  answers with rows of the project that answer the query: as many as there are, but at most the
  limit, which is 20 if none was asked for and else the asked one brought between 1 and 100. They are
  in order: by ten times the importance plus the day of the last change, then by the time of the last
  change, then by id, each descending; and no row left out comes before one returned. The total
  counts the project's rows, and nothing in the table changes but hit counts.
\<close>

theorem recall_best:
  assumes "recall E db p query limit = (Ok (RecallResult es n), db')" and "me_read E = None"
  shows "(\<exists>rows. es = map row_to_entry rows \<and> sorted_wrt (\<lambda>x y. \<not> ranks_before y x) rows \<and>
      (let found = [r \<leftarrow> md_rows db. mr_project r = p \<and> answers_query (me_fts E) (case query of Some s \<Rightarrow> s | None \<Rightarrow> []) r] in
       length rows = min (length found)
         (case limit of None \<Rightarrow> 20 | Some l \<Rightarrow> if l < 1 then 1 else if l > 100 then 100 else nat l) \<and>
       mset rows \<subseteq># mset found \<and>
       (\<forall>x \<in># mset rows. \<forall>y \<in># mset found - mset rows. \<not> ranks_before y x))) \<and>
    n = project_total db p \<and>
    map (\<lambda>r. r\<lparr>mr_hits := 0\<rparr>) (md_rows db') = map (\<lambda>r. r\<lparr>mr_hits := 0\<rparr>) (md_rows db)"
proof -
  let ?rows = "recalled_rows E db p (recall_strategy E query) (recall_limit limit)"
  have Ok: "es = map row_to_entry ?rows" "db' = touch_hits E (map mr_id ?rows) db" "n = project_total db' p"
    using assms(1) by (auto simp: recall_def Let_def statement_Ok)
  moreover have "project_total (touch_hits E ids db) p = project_total db p" for ids
    by (auto simp: project_total_def touch_hits_def filter_map comp_def intro!: arg_cong [where f = length] filter_cong)
  moreover have "map (\<lambda>r. r\<lparr>mr_hits := 0\<rparr>) (md_rows (touch_hits E ids db)) = map (\<lambda>r. r\<lparr>mr_hits := 0\<rparr>) (md_rows db)" for ids
    by (simp add: touch_hits_def)
  moreover have "matching E db p (recall_strategy E query) =
      [r \<leftarrow> md_rows db. mr_project r = p \<and> answers_query (me_fts E) (case query of Some s \<Rightarrow> s | None \<Rightarrow> []) r]"
    by (simp add: matching_def strategy_answers)
  moreover have "recall_limit limit =
      (case limit of None \<Rightarrow> 20 | Some l \<Rightarrow> if l < 1 then 1 else if l > 100 then 100 else nat l)"
    by (auto simp: recall_limit_def split: option.split)
  ultimately show ?thesis
    using recalled_rows_best [OF assms(2) refl, of db p "recall_strategy E query" "recall_limit limit"]
    by (auto simp: order_key_before Let_def min.commute)
qed

text \<open>Two memories of one project, the second more important.\<close>

definition recall_demo_db :: memory_db where
  "recall_demo_db = memory_demo_db\<lparr>md_rows := map (mr_project_update (\<lambda>_. ''a'')) (md_rows memory_demo_db)\<rparr>"

theorem recall_best_witness:
  "\<exists>r db'. recall memory_demo_env recall_demo_db ''a'' (Some ''TE'') (Some 1) = (Ok (RecallResult [row_to_entry r] 2), db') \<and>
    r \<in> set (md_rows recall_demo_db) \<and> mr_id r = 2"
proof -
  obtain es n db' where out: "recall memory_demo_env recall_demo_db ''a'' (Some ''TE'') (Some 1) = (Ok (RecallResult es n), db')"
    by (simp add: recall_def statement_def memory_demo_env_def Let_def split: option.split)
  have env: "me_read memory_demo_env = None" "me_fts memory_demo_env = None" by (simp_all add: memory_demo_env_def)
  define a where "a = hd (md_rows recall_demo_db)"
  define b where "b = hd (tl (md_rows recall_demo_db))"
  have rows: "md_rows recall_demo_db = [a, b]" by (simp add: a_def b_def recall_demo_db_def memory_demo_db_def)
  have te: "str_contains (to_ascii_lowercase ''tea'') (to_ascii_lowercase ''TE'')" by code_simp
  have hit: "answers_query None ''TE'' a" "answers_query None ''TE'' b" "mr_project a = ''a''" "mr_project b = ''a''"
    "ranks_before b a" "mr_id b = 2" "project_total recall_demo_db ''a'' = 2"
    using te by (simp_all add: a_def b_def recall_demo_db_def memory_demo_db_def answers_query_def ranks_before_def
        project_total_def Let_def)
  from recall_best [OF out env(1)] obtain rs where rs: "es = map row_to_entry rs" "length rs = 1" "n = 2"
    "mset rs \<subseteq># {#a, b#}" "\<forall>x \<in># mset rs. \<forall>y \<in># {#a, b#} - mset rs. \<not> ranks_before y x"
    by (auto simp: rows hit env Let_def)
  from rs(2) obtain r where r: "rs = [r]" by (auto simp: length_Suc_conv)
  have "r = b"
  proof (rule ccontr)
    assume "r \<noteq> b"
    with rs(4) r have "r = a" by auto
    with rs(5) r hit(5) show False by simp
  qed
  with out rs(1,3) r rows hit(6) show ?thesis by auto
qed

text \<open>A reading error shortens the answer and is not reported; the total still counts every row.\<close>

lemma recall_hides_read_error:
  assumes "me_read E = Some 0" "\<And>l. me_fault E l = None"
  shows "\<exists>db'. recall E db p query limit = (Ok (RecallResult [] (project_total db p)), db')"
  using assms by (simp add: recall_def statement_def Let_def recalled_rows_def touch_hits_def)

text \<open>Reflecting on what is already stored as a fact leaves it a fact.\<close>

lemma reflect_keeps_kind:
  "map (\<lambda>r. (mr_kind r, mr_importance r)) (md_rows (snd (memory_execute memory_demo_env memory_demo_db (Reflect ''a'' ''tea'' [])))) =
   [(''fact'', 4), (''fact'', 5)]"
  by (simp add: remember_def statement_def memory_demo_env_def memory_demo_db_def dedup_id_def bump_def bump_row_def
      project_total_def Let_def memory_demo_trim)

text \<open>A tag with a comma comes back as two.\<close>

lemma comma_splits_tag: "parse_tags (str_join '','' [''a,b'']) = [''a'', ''b'']"
  by code_simp

end
