(* ===== verification/Audit_Log.thy ===== *)
theory Audit_Log
  imports Private_Dir Daemon_Error
begin

text \<open>
  \<open>daemon-core/src/audit.rs\<close>: the local encrypted log, frames of a nonce and a ciphertext, one
  after the other with a line feed between them. SHA-256, AES-256-GCM, the JSON codec of an entry
  and the room left on the disk are parameters; random bytes are arguments of what draws them.
\<close>

section \<open>The log\<close>

record audit_entry =
  ae_ts :: string
  ae_capability :: string
  ae_params_summary :: string
  ae_ok :: bool
  ae_duration_ms :: nat
  ae_device_id :: string

record audit_env =
  au_sha :: "bytes \<Rightarrow> bytes"
  au_encrypt :: "bytes \<Rightarrow> bytes \<Rightarrow> bytes \<Rightarrow> (string, bytes) res"
  au_decrypt :: "bytes \<Rightarrow> bytes \<Rightarrow> bytes \<Rightarrow> (string, bytes) res"
  au_to_vec :: "audit_entry \<Rightarrow> (string, bytes) res"
  au_from_slice :: "bytes \<Rightarrow> (string, audit_entry) res"
  au_chmod :: "io_error option"
  au_room :: "nat option"

record audit_log =
  al_path :: path
  al_key :: bytes

definition PBKDF2_ITERATIONS :: nat where
  "PBKDF2_ITERATIONS = 200000"

definition derive_key :: "audit_env \<Rightarrow> string \<Rightarrow> bytes \<Rightarrow> bytes" where
  "derive_key E device_id salt = (au_sha E ^^ PBKDF2_ITERATIONS) (au_sha E (device_id @ salt))"

text \<open>The salt is read, or drawn, written and then made private; a failed change of mode leaves it.\<close>

definition audit_salt ::
    "audit_env \<Rightarrow> host_fs \<Rightarrow> path \<Rightarrow> bytes \<Rightarrow> (daemon_error, bytes) res \<times> host_fs" where
  "audit_salt E fs salt_path drawn =
     (if fs_exists fs salt_path then (io_try (fs_read fs salt_path) Ok, fs)
      else (case fs_write fs salt_path drawn of
              Inl e \<Rightarrow> (Err (Io e), fs_write_left fs salt_path drawn)
            | Inr fs1 \<Rightarrow> (case au_chmod E of Some e \<Rightarrow> (Err (Io e), fs1) | None \<Rightarrow> (Ok drawn, fs1))))"

definition audit_open ::
    "audit_env \<Rightarrow> host_fs \<Rightarrow> path \<Rightarrow> string \<Rightarrow> bytes \<Rightarrow> (daemon_error, audit_log) res \<times> host_fs" where
  "audit_open E fs base_dir device_id drawn =
     (case fs_create_dir_all fs base_dir of
        Inl e \<Rightarrow> (Err (Io e), fs_dirs_left fs base_dir)
      | Inr fs1 \<Rightarrow>
          (case audit_salt E fs1 (base_dir @ [Normal ''audit.salt'']) drawn of
             (Inl e, fs2) \<Rightarrow> (Err e, fs2)
           | (Inr salt, fs2) \<Rightarrow>
               (Ok \<lparr>al_path = base_dir @ [Normal ''audit.log''], al_key = derive_key E device_id salt\<rparr>, fs2)))"

text \<open>\<open>OpenOptions\<close> with create and append, then \<open>write_all\<close>: the disk may fill in the middle.\<close>

definition fs_append :: "nat option \<Rightarrow> host_fs \<Rightarrow> path \<Rightarrow> bytes \<Rightarrow> (io_error, unit) res \<times> host_fs" where
  "fs_append room fs p b =
     (case locate fs p of
        None \<Rightarrow> (Err NotFound, fs)
      | Some r \<Rightarrow>
          if deny_write fs r then (Err PermissionDenied, fs)
          else if node_at fs r = Some DirNode then (Err IsADirectory, fs)
          else if node_at fs (butlast r) \<noteq> Some DirNode then (Err NotFound, fs)
          else
            let old = (case node_at fs r of Some (FileNode c) \<Rightarrow> c | _ \<Rightarrow> []);
                put = (\<lambda>new. put_node fs r (FileNode (old @ new)))
            in (case room of
                  Some n \<Rightarrow>
                    (if length b > n then (Err (OtherIo ''No space left on device (os error 28)''), put (take n b))
                     else (Ok (), put b))
                | None \<Rightarrow> (Ok (), put b)))"

definition audit_frame :: "audit_env \<Rightarrow> bytes \<Rightarrow> bytes \<Rightarrow> audit_entry \<Rightarrow> (daemon_error, bytes) res" where
  "audit_frame E key nonce entry =
     (case au_to_vec E entry of
        Inl e \<Rightarrow> Err (Keyring (''audit ser: '' @ e))
      | Inr plaintext \<Rightarrow>
          (case au_encrypt E key nonce plaintext of
             Inl e \<Rightarrow> Err (Keyring (''audit enc: '' @ e))
           | Inr ct \<Rightarrow> Ok (nonce @ ct)))"

text \<open>The frame and the line feed are two writes to one open file.\<close>

definition audit_append ::
    "audit_env \<Rightarrow> host_fs \<Rightarrow> audit_log \<Rightarrow> bytes \<Rightarrow> audit_entry \<Rightarrow> (daemon_error, unit) res \<times> host_fs" where
  "audit_append E fs log nonce entry =
     (case audit_frame E (al_key log) nonce entry of
        Inl e \<Rightarrow> (Err e, fs)
      | Inr frame \<Rightarrow>
          (case fs_append (au_room E) fs (al_path log) (frame @ [CHR 0x0A]) of
             (Inl e, fs1) \<Rightarrow> (Err (Io e), fs1)
           | (Inr _, fs1) \<Rightarrow> (Ok (), fs1)))"

fun read_frames :: "audit_env \<Rightarrow> bytes \<Rightarrow> bytes list \<Rightarrow> (daemon_error, audit_entry list) res" where
  "read_frames E key [] = Ok []"
| "read_frames E key (line # lines) =
     (if length line < 12 then read_frames E key lines
      else
        (case au_decrypt E key (take 12 line) (drop 12 line) of
           Inl e \<Rightarrow> Err (Keyring (''audit dec: '' @ e))
         | Inr pt \<Rightarrow>
             (case au_from_slice E pt of
                Inl e \<Rightarrow> Err (Keyring (''audit de: '' @ e))
              | Inr entry \<Rightarrow>
                  (case read_frames E key lines of Inl e \<Rightarrow> Err e | Inr es \<Rightarrow> Ok (entry # es)))))"

definition audit_read_all :: "audit_env \<Rightarrow> host_fs \<Rightarrow> audit_log \<Rightarrow> (daemon_error, audit_entry list) res" where
  "audit_read_all E fs log =
     (if \<not> fs_exists fs (al_path log) then Ok []
      else io_try (fs_read fs (al_path log)) (\<lambda>raw.
        read_frames E (al_key log) (filter (\<lambda>l. l \<noteq> []) (split_on (CHR 0x0A) raw))))"


section \<open>What is read back\<close>

definition log_bytes :: "host_fs \<Rightarrow> path \<Rightarrow> bytes" where
  "log_bytes fs r = (case node_at fs r of Some (FileNode c) \<Rightarrow> c | _ \<Rightarrow> [])"

lemma file_dir_append:
  assumes "file_dir fs root R" and "\<not> deny_write fs (R @ [Normal n])"
  shows "fs_append None fs (root @ [Normal n]) b =
    (Ok (), put_node fs (R @ [Normal n]) (FileNode (log_bytes fs (R @ [Normal n]) @ b)))"
proof -
  from assms(1) have "leaf_at fs (R @ [Normal n])" "node_at fs R = Some DirNode"
    by (simp_all add: file_dir_def)
  with file_dir_locate [OF assms(1), of n] assms(2) show ?thesis
    by (auto simp: fs_append_def leaf_at_def log_bytes_def Let_def)
qed

text \<open>Where the log is: a directory of plain files that can be read and written.\<close>

definition log_at :: "host_fs \<Rightarrow> audit_log \<Rightarrow> path \<Rightarrow> bool" where
  "log_at fs log r \<longleftrightarrow>
     (\<exists>base R. al_path log = base @ [Normal ''audit.log''] \<and> r = R @ [Normal ''audit.log''] \<and> file_dir fs base R) \<and>
     \<not> deny_read fs r \<and> \<not> deny_write fs r"

lemma log_at_put:
  assumes "log_at fs log r" shows "log_at (put_node fs r (FileNode b)) log r"
  using assms unfolding log_at_def by (force intro: file_dir_put)

lemma audit_read_all_at:
  assumes "log_at fs log r"
  shows "audit_read_all E fs log =
    read_frames E (al_key log) (filter (\<lambda>l. l \<noteq> []) (split_on (CHR 0x0A) (log_bytes fs r)))"
proof -
  obtain base R where d: "al_path log = base @ [Normal ''audit.log'']" "r = R @ [Normal ''audit.log'']"
    "file_dir fs base R" using assms by (auto simp: log_at_def)
  then have leaf: "leaf_at fs r" and loc: "locate fs (al_path log) = Some r"
    by (simp_all add: file_dir_locate)
  then show ?thesis
    using assms by (auto simp: audit_read_all_def fs_exists_def canonicalize_def fs_read_def log_bytes_def leaf_at_def log_at_def)
qed

definition append_all :: "audit_env \<Rightarrow> audit_log \<Rightarrow> host_fs \<Rightarrow> (bytes \<times> audit_entry) list \<Rightarrow> host_fs" where
  "append_all E log = foldl (\<lambda>fs (nonce, entry). snd (audit_append E fs log nonce entry))"

definition frame_of :: "audit_env \<Rightarrow> bytes \<Rightarrow> bytes \<times> audit_entry \<Rightarrow> bytes" where
  "frame_of E key x = (case audit_frame E key (fst x) (snd x) of Inl _ \<Rightarrow> [] | Inr f \<Rightarrow> f)"

text \<open>An entry that the codec and the cipher take and give back.\<close>

definition sealed :: "audit_env \<Rightarrow> bytes \<Rightarrow> bytes \<times> audit_entry \<Rightarrow> bool" where
  "sealed E key x \<longleftrightarrow>
     length (fst x) = 12 \<and>
     (\<exists>pt ct. au_to_vec E (snd x) = Ok pt \<and> au_encrypt E key (fst x) pt = Ok ct \<and>
        au_decrypt E key (fst x) ct = Ok pt \<and> au_from_slice E pt = Ok (snd x))"

lemma append_all_bytes:
  assumes "log_at fs log r" and "au_room E = None" and "list_all (sealed E (al_key log)) xs"
  shows "log_at (append_all E log fs xs) log r \<and>
    log_bytes (append_all E log fs xs) r = log_bytes fs r @ concat (map (\<lambda>x. frame_of E (al_key log) x @ [CHR 0x0A]) xs)"
  using assms(1,3)
proof (induction xs arbitrary: fs)
  case (Cons x xs)
  obtain base R where d: "al_path log = base @ [Normal ''audit.log'']" "r = R @ [Normal ''audit.log'']"
    "file_dir fs base R" "\<not> deny_write fs (R @ [Normal ''audit.log''])" using Cons.prems(1) by (auto simp: log_at_def)
  obtain f where f: "audit_frame E (al_key log) (fst x) (snd x) = Ok f"
    using Cons.prems(2) by (auto simp: sealed_def audit_frame_def)
  let ?fs = "put_node fs r (FileNode (log_bytes fs r @ f @ [CHR 0x0A]))"
  have step: "audit_append E fs log (fst x) (snd x) = (Ok (), ?fs)"
    using file_dir_append [OF d(3,4)] by (simp add: audit_append_def f assms(2) d(1,2))
  have "log_bytes ?fs r = log_bytes fs r @ f @ [CHR 0x0A]"
    by (simp add: log_bytes_def d(2))
  with Cons.IH [OF log_at_put [OF Cons.prems(1)]] Cons.prems(2) step f show ?case
    by (simp add: append_all_def frame_of_def case_prod_beta)
qed (simp add: append_all_def)

lemma read_frames_sealed:
  assumes "list_all (sealed E key) xs"
  shows "read_frames E key (map (frame_of E key) xs) = Ok (map snd xs)"
  using assms
  by (induction xs) (auto simp: sealed_def frame_of_def audit_frame_def)

lemma sealed_frame_ne: "sealed E key x \<Longrightarrow> frame_of E key x \<noteq> []"
  by (auto simp: sealed_def frame_of_def audit_frame_def)

lemma split_on_terminated:
  "(\<And>w. w \<in> set ws \<Longrightarrow> d \<notin> set w) \<Longrightarrow> split_on d (concat (map (\<lambda>w. w @ [d]) ws)) = ws @ [[]]"
  by (induction ws) (simp_all add: split_on_append_sep)

text \<open>A log directory, and a cipher whose tag is the nonce and four bytes more.\<close>

definition log_entry :: "string \<Rightarrow> audit_entry" where
  "log_entry cap =
     \<lparr>ae_ts = ''t'', ae_capability = cap, ae_params_summary = [], ae_ok = True, ae_duration_ms = 1, ae_device_id = ''d''\<rparr>"

definition demo_cipher :: audit_env where
  "demo_cipher =
     \<lparr>au_sha = id, au_encrypt = (\<lambda>k n p. Ok (p @ n @ ''1234'')),
      au_decrypt = (\<lambda>k n c. if drop (length c - 16) c = n @ ''1234'' then Ok (take (length c - 16) c) else Err ''aead::Error''),
      au_to_vec = (\<lambda>e. Ok (ae_capability e)), au_from_slice = (\<lambda>b. Ok (log_entry b)),
      au_chmod = None, au_room = None\<rparr>"

definition demo_log_fs :: host_fs where
  "demo_log_fs = \<lparr>nodes = [([RootDir, Normal ''l''], DirNode)], cwd = [RootDir], deny_read = (\<lambda>_. False), deny_write = (\<lambda>_. False),
     disk_fault = (\<lambda>_. None)\<rparr>"

definition demo_log :: audit_log where
  "demo_log = \<lparr>al_path = [RootDir, Normal ''l''] @ [Normal ''audit.log''], al_key = []\<rparr>"

abbreviation "demo_log_at \<equiv> [RootDir, Normal ''l'', Normal ''audit.log'']"

lemma demo_log_dir: "file_dir demo_log_fs [RootDir, Normal ''l''] [RootDir, Normal ''l'']"
proof -
  have "canonicalize demo_log_fs [RootDir, Normal ''l''] = Some [RootDir, Normal ''l'']" by code_simp
  then show ?thesis
    by (simp add: file_dir_def leaf_at_def demo_log_fs_def node_at_def)
qed

lemma demo_log_at: "log_at demo_log_fs demo_log demo_log_at" "log_bytes demo_log_fs demo_log_at = []"
proof -
  have "\<exists>base R. al_path demo_log = base @ [Normal ''audit.log''] \<and> demo_log_at = R @ [Normal ''audit.log''] \<and>
      file_dir demo_log_fs base R"
    using demo_log_dir by (intro exI [of _ "[RootDir, Normal ''l'']"]) (simp add: demo_log_def)
  then show "log_at demo_log_fs demo_log demo_log_at"
    by (simp add: log_at_def) (simp add: demo_log_fs_def)
qed (simp add: log_bytes_def demo_log_fs_def node_at_def)

text \<open>A log written from empty is read back, entry by entry and in order, if the codec and the
  cipher give back what they took and no frame has a line feed among its bytes.\<close>

lemma audit_reads_back:
  assumes "log_at fs log r" and "log_bytes fs r = []" and "au_room E = None"
    and "list_all (sealed E (al_key log)) xs"
    and "list_all (\<lambda>x. CHR 0x0A \<notin> set (frame_of E (al_key log) x)) xs"
  shows "audit_read_all E (append_all E log fs xs) log = Ok (map snd xs)"
proof -
  let ?f = "frame_of E (al_key log)"
  have "log_bytes (append_all E log fs xs) r = concat (map (\<lambda>w. w @ [CHR 0x0A]) (map ?f xs))"
    using append_all_bytes [OF assms(1,3,4)] assms(2) by (simp add: comp_def cong: map_cong)
  moreover have "split_on (CHR 0x0A) (concat (map (\<lambda>w. w @ [CHR 0x0A]) (map ?f xs))) = map ?f xs @ [[]]"
    using assms(5) by (intro split_on_terminated) (auto simp: list_all_iff)
  moreover have "filter (\<lambda>l. l \<noteq> []) (map ?f xs) = map ?f xs"
    using assms(4) sealed_frame_ne by (fastforce simp: filter_id_conv list_all_iff)
  ultimately show ?thesis
    using append_all_bytes [OF assms(1,3,4)] read_frames_sealed [OF assms(4)]
      audit_read_all_at [of "append_all E log fs xs" log r E]
    by (simp del: map_map)
qed

lemma audit_reads_back_witness:
  "audit_read_all demo_cipher (append_all demo_cipher demo_log demo_log_fs [(''aaaaaaaaaaaa'', log_entry ''read'')]) demo_log =
   Ok [log_entry ''read'']"
  using audit_reads_back [OF demo_log_at, of demo_cipher "[(''aaaaaaaaaaaa'', log_entry ''read'')]"]
  by (simp add: demo_cipher_def sealed_def frame_of_def audit_frame_def log_entry_def)

text \<open>A piece that does not decrypt fails the whole reading.\<close>

lemma read_frames_fails:
  assumes "w \<in> set ls" "12 \<le> length w" "au_decrypt E key (take 12 w) (drop 12 w) = Err e"
  shows "\<not> is_ok (read_frames E key ls)"
  using assms by (induction ls) (auto split: sum.splits)

lemma split_on_append: "split_on d (a @ d # b) = split_on d a @ split_on d b"
proof (induction a)
  case (Cons c a)
  then show ?case by (cases "split_on d a") auto
qed simp

lemma long_piece:
  assumes "\<forall>w\<in>set (split_on d f). length w < 12"
  shows "length f < 12 * (count_list f d + 1)"
proof -
  have "length f + 1 = sum_list (map (\<lambda>w. length w + 1) (split_on d f)) \<and> length (split_on d f) = count_list f d + 1"
    by (induction f) (auto split: list.splits)
  moreover have "sum_list (map (\<lambda>w. length w + 1) ws) \<le> 12 * length ws" if "\<forall>w\<in>set ws. length w < 12" for ws :: "string list"
    using that by (induction ws) auto
  ultimately show ?thesis using assms by fastforce
qed

text \<open>One line feed among the random bytes of one frame makes the whole log unreadable. The frames
  are cut at line feeds: when a frame anywhere in the file has some, and is at least twelve bytes
  long for each piece, and no piece of it decrypts by itself, then reading the log fails, and the
  entries before and after it are not given either.\<close>

lemma line_feed_spoils_log:
  assumes "log_at fs log r" and "log_bytes fs r = pre @ frame @ CHR 0x0A # post" and "pre = [] \<or> last pre = CHR 0x0A"
    and "CHR 0x0A \<in> set frame" and "12 * (count_list frame (CHR 0x0A) + 1) \<le> length frame"
    and "\<forall>w\<in>set (split_on (CHR 0x0A) frame). 12 \<le> length w \<longrightarrow>
           \<not> is_ok (au_decrypt E (al_key log) (take 12 w) (drop 12 w))"
  shows "\<not> is_ok (audit_read_all E fs log)"
proof -
  obtain w where w: "w \<in> set (split_on (CHR 0x0A) frame)" "12 \<le> length w"
    using long_piece [of "CHR 0x0A" frame] assms(5) by (meson linorder_not_less)
  then obtain e where e: "au_decrypt E (al_key log) (take 12 w) (drop 12 w) = Err e"
    using assms(6) by (cases "au_decrypt E (al_key log) (take 12 w) (drop 12 w)") auto
  have "w \<in> set (split_on (CHR 0x0A) (log_bytes fs r))"
    using w(1) assms(2,3) split_on_append [of "CHR 0x0A" "butlast pre" "frame @ CHR 0x0A # post"]
    by (cases pre rule: rev_cases) (auto simp: split_on_append)
  then have "w \<in> set (filter (\<lambda>l. l \<noteq> []) (split_on (CHR 0x0A) (log_bytes fs r)))" using w(2) by auto
  from read_frames_fails [OF this w(2) e] show ?thesis
    by (simp add: audit_read_all_at [OF assms(1)])
qed

lemma line_feed_spoils_log_witness:
  "let nonce = ''aaaaa'' @ [CHR 0x0A] @ ''bbbbbb'';
       (r, fs) = audit_append demo_cipher demo_log_fs demo_log nonce (log_entry ''desktop.fs.read'')
   in r = Ok () \<and> \<not> is_ok (audit_read_all demo_cipher fs demo_log)"
proof -
  let ?nonce = "''aaaaa'' @ [CHR 0x0A] @ ''bbbbbb''"
  let ?frame = "?nonce @ ''desktop.fs.read'' @ ?nonce @ ''1234''"
  let ?fs = "put_node demo_log_fs demo_log_at (FileNode (?frame @ [CHR 0x0A]))"
  have w: "audit_append demo_cipher demo_log_fs demo_log ?nonce (log_entry ''desktop.fs.read'') = (Ok (), ?fs)"
    using file_dir_append [OF demo_log_dir, of "''audit.log''"]
    by (simp add: audit_append_def audit_frame_def demo_cipher_def log_entry_def demo_log_def)
      (simp add: demo_log_fs_def log_bytes_def node_at_def)
  have p: "log_at ?fs demo_log demo_log_at" "log_bytes ?fs demo_log_at = [] @ ?frame @ CHR 0x0A # []"
    using log_at_put [OF demo_log_at(1)] by (simp_all add: log_bytes_def)
  have f: "CHR 0x0A \<in> set ?frame" "12 * (count_list ?frame (CHR 0x0A) + 1) \<le> length ?frame"
    "list_all (\<lambda>w. 12 \<le> length w \<longrightarrow> \<not> is_ok (au_decrypt demo_cipher [] (take 12 w) (drop 12 w))) (split_on (CHR 0x0A) ?frame)"
    by code_simp+
  have "\<not> is_ok (audit_read_all demo_cipher ?fs demo_log)"
    using f(3) by (intro line_feed_spoils_log [OF p _ f(1,2)]) (auto simp: list_all_iff demo_log_def)
  then show ?thesis unfolding Let_def w by simp
qed

end
