(* ===== verification/Host_Probes.thy ===== *)
theory Host_Probes
  imports Pairing
begin

text \<open>
  What the daemon finds out about its host: \<open>daemon-core/src/fingerprint.rs\<close>, \<open>os_info.rs\<close> and
  \<open>tools_probe.rs\<close>. Files, variables, the output of commands and how long a tool takes to answer
  are parameters. A file that is not UTF-8 reads like a missing one.
\<close>

record host_env =
  ho_os :: string
  ho_arch :: string
  ho_var :: "string \<Rightarrow> string option"
  ho_file :: "string \<Rightarrow> string option"
  ho_run :: "string \<Rightarrow> string list \<Rightarrow> (bool \<times> bytes) option"
  ho_exists :: "string \<Rightarrow> bool"
  ho_lower :: "string \<Rightarrow> string"

definition run_utf8 :: "host_env \<Rightarrow> string \<Rightarrow> string list \<Rightarrow> string option" where
  "run_utf8 H cmd args =
     (case ho_run H cmd args of Some (_, out) \<Rightarrow> (if valid_utf8 out then Some out else None) | None \<Rightarrow> None)"

definition or_empty :: "string option \<Rightarrow> string" where
  "or_empty s = (case s of Some t \<Rightarrow> t | None \<Rightarrow> [])"

definition non_empty :: "string option \<Rightarrow> string option" where
  "non_empty s = (case s of Some t \<Rightarrow> (if t \<noteq> [] then Some t else None) | None \<Rightarrow> None)"

section \<open>The fingerprint\<close>

record device_fingerprint =
  df_hostname :: string
  df_os :: string
  df_machine_id :: string

definition host_name :: "host_env \<Rightarrow> string" where
  "host_name H =
     (if ho_os H = ''windows'' then or_empty (ho_var H ''COMPUTERNAME'')
      else if ho_os H = ''macos'' then
        (case run_utf8 H ''scutil'' [''--get'', ''ComputerName''] of
           Some s \<Rightarrow> str_trim s
         | None \<Rightarrow> or_empty (ho_var H ''HOST''))
      else
        (case ho_file H ''/etc/hostname'' of
           Some s \<Rightarrow> str_trim s
         | None \<Rightarrow> or_empty (ho_var H ''HOSTNAME'')))"

definition machine_id :: "host_env \<Rightarrow> string option" where
  "machine_id H =
     (if ho_os H = ''windows'' then None
      else if ho_os H = ''macos'' then
        (case run_utf8 H ''ioreg'' [''-rd1'', ''-c'', ''IOPlatformExpertDevice''] of
           None \<Rightarrow> None
         | Some s \<Rightarrow>
             (case find (\<lambda>l. str_contains l ''IOPlatformUUID'') (str_lines s) of
                None \<Rightarrow> None
              | Some l \<Rightarrow> nth_opt (split_on (CHR 0x22) l) 3))
      else
        map_option str_trim
          (case ho_file H ''/var/lib/dbus/machine-id'' of
             Some s \<Rightarrow> Some s
           | None \<Rightarrow> ho_file H ''/etc/machine-id''))"

definition fingerprint_collect :: "host_env \<Rightarrow> device_fingerprint" where
  "fingerprint_collect H = \<lparr>df_hostname = host_name H, df_os = ho_os H, df_machine_id = or_empty (machine_id H)\<rparr>"

definition hash_hex :: "(bytes \<Rightarrow> string) \<Rightarrow> device_fingerprint \<Rightarrow> string" where
  "hash_hex sha_hex f = sha_hex (df_hostname f @ ''|'' @ df_os f @ ''|'' @ df_machine_id f)"

section \<open>The operating system\<close>

record os_release =
  or_id :: "string option"
  or_id_like :: "string option"
  or_name :: "string option"
  or_version_id :: "string option"
  or_pretty_name :: "string option"
  or_variant_id :: "string option"

definition no_release :: os_release where
  "no_release = \<lparr>or_id = None, or_id_like = None, or_name = None, or_version_id = None, or_pretty_name = None, or_variant_id = None\<rparr>"

definition trim_char :: "char \<Rightarrow> string \<Rightarrow> string" where
  "trim_char c s = trim_end_char c (dropWhile (\<lambda>x. x = c) s)"

text \<open>Doubled backslashes are kept aside as a NUL while the others are dropped.\<close>

definition unescape :: "string \<Rightarrow> string" where
  "unescape s =
     (let a = str_replace s [CHR 0x5C, CHR 0x5C] [CHR 0x00];
          b = str_replace a [CHR 0x5C, CHR 0x22] [CHR 0x22];
          c = str_replace b [CHR 0x5C, CHR ''$''] ''$'';
          d = str_replace c [CHR 0x5C, CHR 0x60] [CHR 0x60];
          e = str_replace d [CHR 0x5C] []
      in str_replace e [CHR 0x00] [CHR 0x5C])"

definition set_release_field :: "os_release \<Rightarrow> string \<Rightarrow> string \<Rightarrow> os_release" where
  "set_release_field r key v =
     (if key = ''ID'' then r\<lparr>or_id := Some v\<rparr>
      else if key = ''ID_LIKE'' then r\<lparr>or_id_like := Some v\<rparr>
      else if key = ''NAME'' then r\<lparr>or_name := Some v\<rparr>
      else if key = ''VERSION_ID'' then r\<lparr>or_version_id := Some v\<rparr>
      else if key = ''PRETTY_NAME'' then r\<lparr>or_pretty_name := Some v\<rparr>
      else if key = ''VARIANT_ID'' then r\<lparr>or_variant_id := Some v\<rparr>
      else r)"

definition release_line :: "os_release \<Rightarrow> string \<Rightarrow> os_release" where
  "release_line r raw_line =
     (let line = str_trim raw_line in
      if line = [] \<or> starts_with line ''#'' then r
      else
        (case split_once ''='' line of
           None \<Rightarrow> r
         | Some (key, raw) \<Rightarrow>
             (let v = unescape (trim_char (CHR 0x27) (trim_char (CHR 0x22) (str_trim raw))) in
              if v = [] then r else set_release_field r key v)))"

definition parse_os_release :: "string \<Rightarrow> os_release" where
  "parse_os_release src = foldl release_line no_release (str_lines src)"

record os_info =
  oi_family :: string
  oi_id :: "string option"
  oi_id_like :: "string option"
  oi_name :: "string option"
  oi_version :: "string option"
  oi_pretty_name :: "string option"
  oi_variant_id :: "string option"
  oi_kernel :: "string option"
  oi_arch :: string
  oi_libc :: "string option"

definition os_fallback :: "host_env \<Rightarrow> string \<Rightarrow> os_info" where
  "os_fallback H family =
     \<lparr>oi_family = family, oi_id = None, oi_id_like = None,
      oi_name = (if family = ''windows'' then Some ''Windows'' else if family = ''macos'' then Some ''macOS'' else None),
      oi_version = None, oi_pretty_name = None, oi_variant_id = None, oi_kernel = None, oi_arch = ho_arch H, oi_libc = None\<rparr>"

definition kernel_release :: "host_env \<Rightarrow> string option" where
  "kernel_release H = non_empty (map_option str_trim (ho_file H ''/proc/sys/kernel/osrelease''))"

definition detect_libc :: "host_env \<Rightarrow> string option" where
  "detect_libc H =
     (case (case ho_run H ''getconf'' [''GNU_LIBC_VERSION''] of
              Some (success, out) \<Rightarrow>
                (let s = str_trim (from_utf8_lossy out) in if success \<and> s \<noteq> [] then Some s else None)
            | None \<Rightarrow> None) of
        Some s \<Rightarrow> Some s
      | None \<Rightarrow>
          if (case ho_run H ''ldd'' [''--version''] of
                Some (_, out) \<Rightarrow> str_contains (ho_lower H (from_utf8_lossy out)) ''musl''
              | None \<Rightarrow> False) then Some ''musl''
          else if ho_exists H ''/lib/ld-musl-x86_64.so.1'' \<or> ho_exists H ''/lib/ld-musl-aarch64.so.1'' then Some ''musl''
          else None)"

definition os_linux :: "host_env \<Rightarrow> os_info" where
  "os_linux H =
     (let src = or_empty (case ho_file H ''/etc/os-release'' of Some s \<Rightarrow> Some s | None \<Rightarrow> ho_file H ''/usr/lib/os-release'');
          r = parse_os_release src
      in \<lparr>oi_family = ''linux'', oi_id = or_id r, oi_id_like = or_id_like r, oi_name = or_name r,
          oi_version = or_version_id r, oi_pretty_name = or_pretty_name r, oi_variant_id = or_variant_id r,
          oi_kernel = kernel_release H, oi_arch = ho_arch H, oi_libc = detect_libc H\<rparr>)"

definition sw_vers :: "host_env \<Rightarrow> string \<Rightarrow> string option" where
  "sw_vers H arg = non_empty (map_option str_trim (run_utf8 H ''sw_vers'' [arg]))"

definition probe_kernel_uname :: "host_env \<Rightarrow> string option" where
  "probe_kernel_uname H = non_empty (map_option str_trim (run_utf8 H ''uname'' [''-r'']))"

definition os_macos :: "host_env \<Rightarrow> os_info" where
  "os_macos H =
     (let version = sw_vers H ''-productVersion'' in
      \<lparr>oi_family = ''macos'', oi_id = Some ''macos'', oi_id_like = None, oi_name = Some ''macOS'', oi_version = version,
       oi_pretty_name = map_option (\<lambda>v. ''macOS '' @ v) version, oi_variant_id = None,
       oi_kernel = probe_kernel_uname H, oi_arch = ho_arch H, oi_libc = None\<rparr>)"

definition os_android :: "host_env \<Rightarrow> os_info" where
  "os_android H =
     \<lparr>oi_family = ''android'', oi_id = Some ''android'', oi_id_like = None, oi_name = Some ''Android'',
      oi_version = ho_var H ''ANDROID_VERSION'', oi_pretty_name = None, oi_variant_id = None,
      oi_kernel = kernel_release H, oi_arch = ho_arch H, oi_libc = Some ''bionic''\<rparr>"

definition os_collect :: "host_env \<Rightarrow> os_info" where
  "os_collect H =
     (if ho_os H = ''linux'' then os_linux H
      else if ho_os H = ''macos'' then os_macos H
      else if ho_os H = ''android'' then os_android H
      else os_fallback H (ho_os H))"

section \<open>The user's tools\<close>

definition PROBES :: "(string \<times> string list \<times> tools_probe_kind) list" where
  "PROBES =
     [(''git'', [''--version''], ProbeVcs), (''gh'', [''--version''], ProbeShell), (''node'', [''--version''], ProbeShell),
      (''npm'', [''--version''], ProbeShell), (''python3'', [''--version''], ProbeShell), (''python'', [''--version''], ProbeShell),
      (''pip3'', [''--version''], ProbeShell), (''cargo'', [''--version''], ProbeShell), (''rustc'', [''--version''], ProbeShell),
      (''go'', [''version''], ProbeShell), (''docker'', [''--version''], ProbeShell), (''jq'', [''--version''], ProbeShell),
      (''rg'', [''--version''], ProbeShell), (''fd'', [''--version''], ProbeShell), (''ffmpeg'', [''-version''], ProbeShell),
      (''psql'', [''--version''], ProbeShell), (''sqlite3'', [''--version''], ProbeShell),
      (''rust-analyzer'', [''--version''], ProbeLsp), (''typescript-language-server'', [''--version''], ProbeLsp),
      (''pyright-langserver'', [''--version''], ProbeLsp), (''gopls'', [''version''], ProbeLsp),
      (''clangd'', [''--version''], ProbeLsp), (''dlv'', [''version''], ProbeDap), (''debugpy'', [''--version''], ProbeDap)]"

definition PROBE_TIMEOUT_MS :: nat where "PROBE_TIMEOUT_MS = 750"
definition TOTAL_BUDGET_MS :: nat where "TOTAL_BUDGET_MS = 8000"

text \<open>Digits and at most two dots, not at the start and not at the end.\<close>

fun version_chars :: "nat \<Rightarrow> nat \<Rightarrow> string \<Rightarrow> bool" where
  "version_chars i dots [] = True"
| "version_chars i dots (c # s) =
     (if is_digit c then version_chars (i + 1) dots s
      else if c = CHR ''.'' \<and> i > 0 then dots + 1 \<le> 2 \<and> version_chars (i + 1) (dots + 1) s
      else False)"

definition version_token :: "string \<Rightarrow> string option" where
  "version_token w0 =
     (let w = rev (dropWhile (\<lambda>c. c = CHR '','' \<or> c = CHR 0x3B)
                (rev (dropWhile (\<lambda>c. c = CHR ''v'' \<or> c = CHR ''V'') w0)))
      in if w \<noteq> [] \<and> version_chars 0 0 w \<and> is_digit (last w) then Some w else None)"

fun first_some :: "('a \<Rightarrow> 'b option) \<Rightarrow> 'a list \<Rightarrow> 'b option" where
  "first_some f [] = None"
| "first_some f (x # xs) = (case f x of Some y \<Rightarrow> Some y | None \<Rightarrow> first_some f xs)"

definition parse_version :: "string \<Rightarrow> string option" where
  "parse_version first = first_some version_token (split_whitespace first)"

text \<open>What a tool does: it cannot be started, or it answers after so many milliseconds.\<close>

type_synonym tool_answers = "string \<Rightarrow> string list \<Rightarrow> (nat \<times> bytes) option"

definition probe_one :: "tool_answers \<Rightarrow> string \<times> string list \<times> tools_probe_kind \<Rightarrow> tool_probe option \<times> nat" where
  "probe_one A p =
     (case p of (bin, args, kind) \<Rightarrow>
        (case A bin args of
           None \<Rightarrow> (None, 0)
         | Some (ms, out) \<Rightarrow>
             if ms > PROBE_TIMEOUT_MS then (None, PROBE_TIMEOUT_MS)
             else
               let first = (case str_lines (from_utf8_lossy out) of l # _ \<Rightarrow> l | [] \<Rightarrow> []) in
               (Some \<lparr>tp_name = bin, tp_version = parse_version first, tp_kind = kind\<rparr>, ms)))"

fun sweep :: "tool_answers \<Rightarrow> nat \<Rightarrow> (string \<times> string list \<times> tools_probe_kind) list \<Rightarrow> tool_probe list \<times> nat" where
  "sweep A spent [] = ([], spent)"
| "sweep A spent (p # ps) =
     (if spent \<ge> TOTAL_BUDGET_MS then ([], spent)
      else (case probe_one A p of
              (t, ms) \<Rightarrow>
                (case sweep A (spent + ms) ps of
                   (found, spent1) \<Rightarrow> ((case t of Some x \<Rightarrow> x # found | None \<Rightarrow> found), spent1))))"

definition detect_tools :: "tool_answers \<Rightarrow> tool_probe list option \<Rightarrow> tool_probe list \<times> tool_probe list option" where
  "detect_tools A cache =
     (case cache of
        Some hit \<Rightarrow> (hit, cache)
      | None \<Rightarrow> (let found = fst (sweep A 0 PROBES) in (found, Some found)))"

section \<open>Lemmas\<close>

lemma sweep_bounds:
  assumes "sweep A spent ps = (found, spent1)"
  shows "spent1 < max (spent + 1) (TOTAL_BUDGET_MS + PROBE_TIMEOUT_MS) \<and> subseq (map tp_name found) (map fst ps) \<and>
    (\<forall>t\<in>set found. \<exists>args ms out. (tp_name t, args, tp_kind t) \<in> set ps \<and> A (tp_name t) args = Some (ms, out) \<and> ms \<le> PROBE_TIMEOUT_MS)"
  using assms
proof (induction A spent ps arbitrary: found spent1 rule: sweep.induct)
  case (2 A spent p ps)
  show ?case
  proof (cases "spent \<ge> TOTAL_BUDGET_MS")
    case False
    obtain bin args kind where p: "p = (bin, args, kind)" by (cases p)
    obtain t ms where o: "probe_one A p = (t, ms)" by force
    obtain f tot where s: "sweep A (spent + ms) ps = (f, tot)" by force
    have ms: "ms \<le> PROBE_TIMEOUT_MS"
      using o by (auto simp: probe_one_def p Let_def split: option.splits if_splits)
    from "2.IH" [OF False o [symmetric] s] have IH:
      "tot < max (spent + ms + 1) (TOTAL_BUDGET_MS + PROBE_TIMEOUT_MS)" "subseq (map tp_name f) (map fst ps)"
      "\<forall>t\<in>set f. \<exists>args ms out. (tp_name t, args, tp_kind t) \<in> set ps \<and> A (tp_name t) args = Some (ms, out) \<and> ms \<le> PROBE_TIMEOUT_MS"
      by auto
    from False "2.prems" o s have "spent1 = tot" "found = (case t of Some x \<Rightarrow> x # f | None \<Rightarrow> f)" by auto
    moreover have "tot < max (spent + 1) (TOTAL_BUDGET_MS + PROBE_TIMEOUT_MS)" using IH(1) ms False by simp
    moreover have "tp_name x = bin \<and> tp_kind x = kind \<and> (\<exists>out. A bin args = Some (ms, out))" if "t = Some x" for x
      using o that by (auto simp: probe_one_def p Let_def split: option.splits if_splits)
    ultimately show ?thesis using IH(2,3) ms p by (cases t) fastforce+
  qed (use "2.prems" in auto)
qed simp


text \<open>The sweep ends in time and reports only what answered. It spends less than the whole budget and
  one probe more; what it finds is, in the order of the table, a part of the tools of the table,
  each with its kind, and each answered its version command within the time of a probe; and the
  first result is the result for the life of the process, whatever the tools do later.\<close>

lemma tools_sweep_bounded:
  assumes "sweep A 0 PROBES = (found, spent)"
  shows "spent < TOTAL_BUDGET_MS + PROBE_TIMEOUT_MS \<and> subseq (map tp_name found) (map fst PROBES) \<and>
    (\<forall>t\<in>set found. \<exists>args ms out. (tp_name t, args, tp_kind t) \<in> set PROBES \<and>
       A (tp_name t) args = Some (ms, out) \<and> ms \<le> PROBE_TIMEOUT_MS) \<and>
    (\<forall>B. detect_tools B (snd (detect_tools A None)) = (found, Some found))"
proof -
  have "fst (sweep A 0 PROBES) = found" by (simp add: assms)
  moreover have "spent < TOTAL_BUDGET_MS + PROBE_TIMEOUT_MS"
    using sweep_bounds [OF assms] by (simp add: TOTAL_BUDGET_MS_def PROBE_TIMEOUT_MS_def)
  ultimately show ?thesis using sweep_bounds [OF assms] by (simp add: detect_tools_def)
qed

definition demo_tools :: tool_answers where
  "demo_tools bin args = (if bin = ''git'' then Some (5, ''git 2.1'') else if bin = ''rg'' then Some (900, ''rg 1.0'') else None)"

lemma tools_sweep_bounded_witness:
  "let (found, spent) = sweep demo_tools 0 PROBES in
   map tp_name found = [''git''] \<and> spent = 755 \<and> subseq (map tp_name found) (map fst PROBES) \<and>
   detect_tools (\<lambda>_ _. None) (snd (detect_tools demo_tools None)) = (found, Some found)"
proof -
  obtain found spent where s: "sweep demo_tools 0 PROBES = (found, spent)" by force
  moreover have "map tp_name (fst (sweep demo_tools 0 PROBES)) = [''git'']" "snd (sweep demo_tools 0 PROBES) = 755"
    by (simp_all add: PROBES_def probe_one_def demo_tools_def TOTAL_BUDGET_MS_def PROBE_TIMEOUT_MS_def Let_def)
  ultimately show ?thesis using tools_sweep_bounded [OF s] by simp
qed

text \<open>A version is digits with at most two dots between.\<close>

lemma version_chars_shape:
  "version_chars i dots w \<Longrightarrow> set w \<subseteq> {c. is_digit c} \<union> {CHR ''.''} \<and> (w \<noteq> [] \<longrightarrow> i = 0 \<longrightarrow> is_digit (hd w)) \<and>
   (dots \<le> 2 \<longrightarrow> count_list w (CHR ''.'') + dots \<le> 2)"
proof (induction i dots w rule: version_chars.induct)
  case (2 i dots c s)
  have "\<not> is_digit (CHR ''.'')" by (simp add: is_digit_def)
  with 2 show ?case by (cases "is_digit c") (auto split: if_splits)
qed simp

lemma parse_version_shape:
  assumes "parse_version line = Some v"
  shows "v \<noteq> [] \<and> is_digit (hd v) \<and> is_digit (last v) \<and> set v \<subseteq> {c. is_digit c} \<union> {CHR ''.''} \<and> count_list v (CHR ''.'') \<le> 2"
proof -
  have "\<exists>w. version_token w = Some v" if "first_some version_token ws = Some v" for ws
    using that by (induction ws) (auto split: option.splits)
  then obtain w where "version_token w = Some v" using assms unfolding parse_version_def by blast
  then have "v \<noteq> []" "version_chars 0 0 v" "is_digit (last v)" by (auto simp: version_token_def Let_def split: if_splits)
  then show ?thesis using version_chars_shape [of 0 0 v] by auto
qed

text \<open>Names glued to their version, as \<open>jq\<close> and \<open>go\<close> print them, have none.\<close>

lemma glued_versions_missed:
  "version_token ''jq-1.7.1'' = None" "version_token ''go1.22.1'' = None"
  "version_token ''2.47.1'' = Some ''2.47.1''" "version_token ''3..1'' = Some ''3..1''"
  by (simp_all add: version_token_def is_digit_def)

text \<open>Two hosts whose parts hold bars can share a fingerprint.\<close>

lemma fingerprint_not_injective:
  "hash_hex sha \<lparr>df_hostname = ''a|linux'', df_os = ''linux'', df_machine_id = ''m''\<rparr> =
   hash_hex sha \<lparr>df_hostname = ''a'', df_os = ''linux'', df_machine_id = ''linux|m''\<rparr>"
  by (simp add: hash_hex_def)

end
