(* ===== verification/Key_Store.thy ===== *)
theory Key_Store
  imports Daemon_Error
begin

text \<open>
  \<open>daemon-core/src/keyring.rs\<close>: device tokens in the key store of the operating system. The store
  is the passwords of one service by account; what fails in it, and how, is a parameter.
\<close>

record key_env =
  ky_entry :: "string \<Rightarrow> string option"
  ky_set :: "string \<Rightarrow> string option"
  ky_get :: "string \<Rightarrow> string option"
  ky_delete :: "string \<Rightarrow> string option"
  ky_gives :: "string \<Rightarrow> string"

type_synonym key_store = "(string \<times> string) list"
type_synonym 'a key_res = "(daemon_error, 'a) res \<times> key_store"

text \<open>\<open>Entry::new\<close>, before every use of the store.\<close>

definition with_entry :: "key_env \<Rightarrow> key_store \<Rightarrow> string \<Rightarrow> 'a key_res \<Rightarrow> 'a key_res" where
  "with_entry E ks account k = (case ky_entry E account of Some e \<Rightarrow> (Err (Keyring e), ks) | None \<Rightarrow> k)"

definition token_save :: "key_env \<Rightarrow> key_store \<Rightarrow> string \<Rightarrow> string \<Rightarrow> unit key_res" where
  "token_save E ks device_id token =
     with_entry E ks device_id
       (case ky_set E device_id of
          Some e \<Rightarrow> (Err (Keyring e), ks)
        | None \<Rightarrow> (Ok (), assoc_insert device_id token ks))"

definition token_load :: "key_env \<Rightarrow> key_store \<Rightarrow> string \<Rightarrow> string option key_res" where
  "token_load E ks device_id =
     with_entry E ks device_id
       (case ky_get E device_id of
          Some e \<Rightarrow> (Err (Keyring e), ks)
        | None \<Rightarrow> (Ok (map_option (ky_gives E) (map_of ks device_id)), ks))"

definition token_delete :: "key_env \<Rightarrow> key_store \<Rightarrow> string \<Rightarrow> unit key_res" where
  "token_delete E ks device_id =
     with_entry E ks device_id
       (case ky_delete E device_id of
          Some e \<Rightarrow> (Err (Keyring e), ks)
        | None \<Rightarrow> (Ok (), assoc_remove device_id ks))"

definition PROBE_ACCOUNT :: string where
  "PROBE_ACCOUNT = ''__synthhires_probe__''"

text \<open>Write, read back, delete; what the deletion answers is dropped.\<close>

definition token_probe :: "key_env \<Rightarrow> key_store \<Rightarrow> string \<Rightarrow> unit key_res" where
  "token_probe E ks sentinel =
     with_entry E ks PROBE_ACCOUNT
       (case ky_set E PROBE_ACCOUNT of
          Some e \<Rightarrow> (Err (Keyring (''keyring unavailable (no Secret Service / dbus session?): '' @ e)), ks)
        | None \<Rightarrow>
            (case ky_get E PROBE_ACCOUNT of
               Some e \<Rightarrow> (Err (Keyring (''keyring read-back failed: '' @ e)), assoc_insert PROBE_ACCOUNT sentinel ks)
             | None \<Rightarrow>
                 let ks1 = assoc_insert PROBE_ACCOUNT sentinel ks;
                     ks2 = (case ky_delete E PROBE_ACCOUNT of Some _ \<Rightarrow> ks1 | None \<Rightarrow> assoc_remove PROBE_ACCOUNT ks1) in
                 if ky_gives E sentinel \<noteq> sentinel
                 then (Err (Keyring (''keyring read-back mismatch '' @ em_dash @ '' refusing to pair'')), ks2)
                 else (Ok (), ks2)))"

definition list_device_ids :: "(daemon_error, string list) res" where
  "list_device_ids = Ok []"

section \<open>Lemmas\<close>

lemma token_saved_loads:
  assumes "token_save E ks d t = (Ok (), ks')" and "ky_get F d = None" and "ky_entry F d = None" and "ky_gives F t = t"
  shows "token_load F ks' d = (Ok (Some t), ks')"
  using assms by (auto simp: token_save_def token_load_def with_entry_def split: option.splits)

lemma token_deleted_gone:
  assumes "token_delete E ks d = (Ok (), ks')" and "ky_get F d = None" and "ky_entry F d = None"
  shows "token_load F ks' d = (Ok None, ks')"
  using assms by (auto simp: token_delete_def token_load_def with_entry_def split: option.splits)

text \<open>A probe, whatever it meets, leaves every device's token; one that passes leaves no sentinel
  if the deletion worked.\<close>

lemma probe_keeps_tokens:
  "a \<noteq> PROBE_ACCOUNT \<Longrightarrow> map_of (snd (token_probe E ks s)) a = map_of ks a"
  by (auto simp: token_probe_def with_entry_def Let_def split: option.split)

lemma probe_leaves_sentinel:
  "ky_delete E PROBE_ACCOUNT = Some e \<Longrightarrow> fst (token_probe E ks s) = Ok () \<Longrightarrow>
   map_of (snd (token_probe E ks s)) PROBE_ACCOUNT = Some s"
  by (auto simp: token_probe_def with_entry_def Let_def split: option.splits if_splits)

end
