(* ===== verification/Local_Server.thy ===== *)
theory Local_Server
  imports Key_Store Pairing Private_Dir
begin

text \<open>
  \<open>daemon-cli/src/server.rs\<close>, the loopback HTTP server through which the web page and the command
  line pair, unpair and stop the daemon, with the saved state of \<open>main.rs\<close>. A request arrives
  decoded; clocks, fresh identifiers, the key store's faults and the JSON codec of the state are
  parameters. Of the status answer the model keeps what depends on the server: version, counters
  and platform are passed through.
\<close>

section \<open>The saved state\<close>

record daemon_state =
  ds_device_id :: "string option"
  ds_scopes :: scopes
  ds_backend_url :: "string option"

definition default_daemon_state :: daemon_state where
  "default_daemon_state =
     \<lparr>ds_device_id = None, ds_scopes = \<lparr>sc_capabilities = [], sc_always_allow_paths = []\<rparr>, ds_backend_url = None\<rparr>"

record server_env =
  se_now :: nat
  se_unix :: nat
  se_uuid :: string
  se_key :: key_env
  se_to_vec :: "daemon_state \<Rightarrow> bytes"
  se_from_slice :: "bytes \<Rightarrow> daemon_state option"

definition state_path :: "path \<Rightarrow> path" where
  "state_path config_dir = config_dir @ [Normal ''state.json'']"

definition state_load :: "server_env \<Rightarrow> host_fs \<Rightarrow> path \<Rightarrow> (daemon_error, daemon_state) res" where
  "state_load E fs config_dir =
     (if \<not> fs_exists fs (state_path config_dir) then Ok default_daemon_state
      else io_try (fs_read fs (state_path config_dir)) (\<lambda>raw.
        Ok (case se_from_slice E raw of Some s \<Rightarrow> s | None \<Rightarrow> default_daemon_state)))"

text \<open>The change of mode after the write is best effort, and modes are not modelled.\<close>

definition state_save :: "server_env \<Rightarrow> host_fs \<Rightarrow> path \<Rightarrow> daemon_state \<Rightarrow> (daemon_error, unit) res \<times> host_fs" where
  "state_save E fs config_dir s =
     (case fs_write fs (state_path config_dir) (se_to_vec E s) of
        Inl e \<Rightarrow> (Err (Io e), fs_write_left fs (state_path config_dir) (se_to_vec E s))
      | Inr fs1 \<Rightarrow> (Ok (), fs1))"

section \<open>The server\<close>

record local_server =
  sv_state :: daemon_state
  sv_fs :: host_fs
  sv_dir :: path
  sv_port :: nat
  sv_nonce :: "(string \<times> nat) option"
  sv_last_poll :: nat
  sv_ws :: "string option"
  sv_messages :: "string list"
  sv_keys :: key_store
  sv_exiting :: bool

record http_headers =
  hh_origin :: "string option"
  hh_host :: "string option"

datatype local_request =
    GetStatus
  | PostPair string string string "string option"
  | PostUnpair string
  | PostShutdown string

datatype local_reply = StatusReply bool "string option" "string option" | Success

type_synonym server_res = "(nat \<times> string, local_reply) res \<times> local_server"

definition start_server :: "server_env \<Rightarrow> nat \<Rightarrow> local_server \<Rightarrow> local_server" where
  "start_server E port sv =
     (let sv1 = (if ds_device_id (sv_state sv) = None then sv\<lparr>sv_nonce := Some (se_uuid E, se_now E)\<rparr> else sv)
      in sv1\<lparr>sv_port := port\<rparr>)"

definition is_allowed_origin :: "string \<Rightarrow> bool" where
  "is_allowed_origin origin =
     (origin = ''https://synthhires.com'' \<or>
      (if starts_with origin ''http://localhost:'' then list_all is_digit (drop 17 origin)
       else if starts_with origin ''http://127.0.0.1:'' then list_all is_digit (drop 17 origin)
       else False))"

definition check_origin :: "http_headers \<Rightarrow> (nat \<times> string, unit) res" where
  "check_origin h =
     (if is_allowed_origin (case hh_origin h of Some s \<Rightarrow> s | None \<Rightarrow> []) then Ok () else Err (403, ''Invalid Origin''))"

definition check_host :: "http_headers \<Rightarrow> nat \<Rightarrow> (nat \<times> string, unit) res" where
  "check_host h port =
     (let host = to_ascii_lowercase (trim_end_char (CHR ''.'') (case hh_host h of Some s \<Rightarrow> s | None \<Rightarrow> [])) in
      if host = ''127.0.0.1:'' @ nat_to_string port \<or> host = ''localhost:'' @ nat_to_string port then Ok ()
      else Err (403, ''Invalid Host''))"

definition check_local :: "http_headers \<Rightarrow> nat \<Rightarrow> (nat \<times> string, unit) res" where
  "check_local h port = (case check_origin h of Inl e \<Rightarrow> Err e | Inr _ \<Rightarrow> check_host h port)"

definition NONCE_TTL_MS :: nat where
  "NONCE_TTL_MS = 120000"

definition nonce_fresh :: "server_env \<Rightarrow> nat \<Rightarrow> bool" where
  "nonce_fresh E created_at = (se_now E - created_at \<le> NONCE_TTL_MS)"

definition take_nonce :: "server_env \<Rightarrow> local_server \<Rightarrow> string \<Rightarrow> (nat \<times> string, unit) res \<times> local_server" where
  "take_nonce E sv presented =
     (if (case sv_nonce sv of Some (v, created_at) \<Rightarrow> v = presented \<and> nonce_fresh E created_at | None \<Rightarrow> False)
      then (Ok (), sv\<lparr>sv_nonce := None\<rparr>)
      else (Err (403, ''Invalid nonce''), sv))"

definition mint_nonce :: "server_env \<Rightarrow> local_server \<Rightarrow> string \<times> local_server" where
  "mint_nonce E sv =
     (case sv_nonce sv of
        Some (v, created_at) \<Rightarrow>
          (if nonce_fresh E created_at then (v, sv)
           else (se_uuid E, sv\<lparr>sv_nonce := Some (se_uuid E, se_now E)\<rparr>))
      | None \<Rightarrow> (se_uuid E, sv\<lparr>sv_nonce := Some (se_uuid E, se_now E)\<rparr>))"

definition handle_status :: "server_env \<Rightarrow> local_server \<Rightarrow> http_headers \<Rightarrow> server_res" where
  "handle_status E sv h =
     (case check_local h (sv_port sv) of
        Inl e \<Rightarrow> (Err e, sv)
      | Inr _ \<Rightarrow>
          (let sv1 = sv\<lparr>sv_last_poll := se_unix E\<rparr>;
               (nonce, sv2) = mint_nonce E sv1
           in (Ok (StatusReply (ds_device_id (sv_state sv) \<noteq> None) (Some nonce) (ds_device_id (sv_state sv2))), sv2)))"

text \<open>The process ends 200 ms later.\<close>

definition handle_shutdown :: "server_env \<Rightarrow> local_server \<Rightarrow> http_headers \<Rightarrow> string \<Rightarrow> server_res" where
  "handle_shutdown E sv h nonce =
     (case check_local h (sv_port sv) of
        Inl e \<Rightarrow> (Err e, sv)
      | Inr _ \<Rightarrow>
          (case take_nonce E sv nonce of
             (Inl e, sv1) \<Rightarrow> (Err e, sv1)
           | (Inr _, sv1) \<Rightarrow> (Ok Success, sv1\<lparr>sv_exiting := True\<rparr>)))"

text \<open>A task that runs is aborted before the next is spawned; \<open>sv_ws\<close> is the address it was given.\<close>

definition handle_pair ::
    "server_env \<Rightarrow> local_server \<Rightarrow> http_headers \<Rightarrow> string \<Rightarrow> string \<Rightarrow> string \<Rightarrow> string option \<Rightarrow> server_res" where
  "handle_pair E sv h token backend_url nonce device =
     (case check_local h (sv_port sv) of
        Inl e \<Rightarrow> (Err e, sv)
      | Inr _ \<Rightarrow>
          if ds_device_id (sv_state sv) \<noteq> None then (Err (409, ''Already paired''), sv)
          else
            (case take_nonce E sv nonce of
               (Inl e, sv1) \<Rightarrow> (Err e, sv1)
             | (Inr _, sv1) \<Rightarrow>
                 if \<not> is_ok (validate_backend_url backend_url) then (Err (400, ''Invalid backend_url''), sv1)
                 else
                   (case device of
                      None \<Rightarrow> (Err (400, ''Missing device_id''), sv1)
                    | Some device_id \<Rightarrow>
                        if str_trim device_id = [] then (Err (400, ''Missing device_id''), sv1)
                        else
                          (case token_save (se_key E) (sv_keys sv1) device_id token of
                             (Inl _, ks) \<Rightarrow> (Err (500, ''Failed to save token to keyring''), sv1\<lparr>sv_keys := ks\<rparr>)
                           | (Inr _, ks) \<Rightarrow>
                               let s = (sv_state sv1)\<lparr>ds_device_id := Some device_id, ds_backend_url := Some backend_url\<rparr> in
                               (Ok Success, sv1\<lparr>sv_keys := ks, sv_state := s,
                                  sv_fs := snd (state_save E (sv_fs sv1) (sv_dir sv1) s), sv_ws := Some backend_url\<rparr>)))))"

definition unpaired :: "daemon_state \<Rightarrow> daemon_state" where
  "unpaired s = s\<lparr>ds_device_id := None, ds_backend_url := None\<rparr>"

definition WAITING_MESSAGE :: string where
  "WAITING_MESSAGE = ''Esperando emparejamiento...''"

definition handle_unpair :: "server_env \<Rightarrow> local_server \<Rightarrow> http_headers \<Rightarrow> string \<Rightarrow> server_res" where
  "handle_unpair E sv h nonce =
     (case check_local h (sv_port sv) of
        Inl e \<Rightarrow> (Err e, sv)
      | Inr _ \<Rightarrow>
          (case take_nonce E sv nonce of
             (Inl e, sv1) \<Rightarrow> (Err e, sv1)
           | (Inr _, sv1) \<Rightarrow>
               let ks = (case ds_device_id (sv_state sv1) of
                           Some d \<Rightarrow> snd (token_delete (se_key E) (sv_keys sv1) d)
                         | None \<Rightarrow> sv_keys sv1);
                   s = unpaired (sv_state sv1)
               in (Ok Success, sv1\<lparr>sv_keys := ks, sv_state := s,
                     sv_fs := snd (state_save E (sv_fs sv1) (sv_dir sv1) s), sv_ws := None,
                     sv_nonce := Some (se_uuid E, se_now E), sv_messages := sv_messages sv1 @ [WAITING_MESSAGE]\<rparr>)))"

fun serve :: "server_env \<Rightarrow> local_server \<Rightarrow> http_headers \<Rightarrow> local_request \<Rightarrow> server_res" where
  "serve E sv h GetStatus = handle_status E sv h"
| "serve E sv h (PostPair token backend_url nonce device) = handle_pair E sv h token backend_url nonce device"
| "serve E sv h (PostUnpair nonce) = handle_unpair E sv h nonce"
| "serve E sv h (PostShutdown nonce) = handle_shutdown E sv h nonce"

section \<open>The client a pairing starts\<close>

record ws_launch =
  wl_backend :: string
  wl_token :: string
  wl_device_id :: string

definition run_ws_client :: "server_env \<Rightarrow> local_server \<Rightarrow> string \<Rightarrow> (daemon_error, ws_launch) res" where
  "run_ws_client E sv backend_url =
     (case ds_device_id (sv_state sv) of
        None \<Rightarrow> Err (Keyring ''not paired'')
      | Some d \<Rightarrow>
          (case fst (token_load (se_key E) (sv_keys sv) d) of
             Inl e \<Rightarrow> Err (Keyring (''token load: '' @ error_to_string e))
           | Inr None \<Rightarrow> Err (Keyring (''token not found in keyring '' @ em_dash @
               '' pair first (`synthhires-bridge pair <backend> <code>`); on headless Linux this also means no Secret Service session (set DBUS_SESSION_BUS_ADDRESS, see docs/install.md)''))
           | Inr (Some t) \<Rightarrow> Ok \<lparr>wl_backend = backend_url, wl_token = t, wl_device_id = d\<rparr>))"

text \<open>The address a daemon uses that starts already paired.\<close>

definition startup_backend :: "daemon_state \<Rightarrow> string \<Rightarrow> string" where
  "startup_backend s cli_default =
     (case ds_backend_url s of
        Some origin \<Rightarrow> ws_endpoint_for_origin origin ''/api/devices/ws''
      | None \<Rightarrow> cli_default)"


section \<open>Lemmas\<close>

lemma check_local_Ok:
  "check_local h port = Ok u \<longleftrightarrow>
   is_allowed_origin (case hh_origin h of Some s \<Rightarrow> s | None \<Rightarrow> []) \<and>
   to_ascii_lowercase (trim_end_char (CHR ''.'') (case hh_host h of Some s \<Rightarrow> s | None \<Rightarrow> [])) \<in>
     {''127.0.0.1:'' @ nat_to_string port, ''localhost:'' @ nat_to_string port}"
  by (auto simp: check_local_def check_origin_def check_host_def Let_def)

lemma take_nonce_cases:
  obtains (refused) "take_nonce E sv n = (Err (403, ''Invalid nonce''), sv)"
  | (taken) t where "take_nonce E sv n = (Ok (), sv\<lparr>sv_nonce := None\<rparr>)" "sv_nonce sv = Some (n, t)" "nonce_fresh E t"
proof (cases "\<exists>t. sv_nonce sv = Some (n, t) \<and> nonce_fresh E t")
  case True
  then show ?thesis using taken by (auto simp: take_nonce_def)
next
  case False
  then have "take_nonce E sv n = (Err (403, ''Invalid nonce''), sv)"
    by (auto simp: take_nonce_def split: option.split)
  then show ?thesis by (rule refused)
qed

text \<open>What a mutating request presents, and whether the server takes it.\<close>

fun presented :: "local_request \<Rightarrow> string option" where
  "presented GetStatus = None"
| "presented (PostPair _ _ n _) = Some n"
| "presented (PostUnpair n) = Some n"
| "presented (PostShutdown n) = Some n"

definition takes :: "server_env \<Rightarrow> local_server \<Rightarrow> http_headers \<Rightarrow> local_request \<Rightarrow> bool" where
  "takes E sv h q \<longleftrightarrow>
     is_ok (check_local h (sv_port sv)) \<and>
     (case q of PostPair _ _ _ _ \<Rightarrow> ds_device_id (sv_state sv) = None | _ \<Rightarrow> True) \<and>
     (\<exists>n t. presented q = Some n \<and> sv_nonce sv = Some (n, t) \<and> nonce_fresh E t)"

definition kept :: "local_server \<Rightarrow> daemon_state \<times> host_fs \<times> key_store \<times> string option \<times> bool" where
  "kept sv = (sv_state sv, sv_fs sv, sv_keys sv, sv_ws sv, sv_exiting sv)"

lemma kept_frame [simp, frame_simps]:
  "kept (sv\<lparr>sv_nonce := n\<rparr>) = kept sv" "kept (sv\<lparr>sv_last_poll := t\<rparr>) = kept sv"
  by (simp_all add: kept_def)

lemma token_save_Err: "token_save E ks d t = (Inl e, ks') \<Longrightarrow> ks' = ks"
  by (auto simp: token_save_def with_entry_def split: option.splits)

lemma serve_not_taken:
  assumes "\<not> takes E sv h q" and "serve E sv h q = (r, sv')"
  shows "kept sv' = kept sv \<and> sv_nonce sv' \<in> {sv_nonce sv, Some (se_uuid E, se_now E)} \<and> (q = GetStatus \<or> \<not> is_ok r)"
proof (cases q)
  case GetStatus
  then show ?thesis
    using assms(2)
    by (auto simp: handle_status_def mint_nonce_def Let_def split: sum.splits option.splits if_splits prod.splits)
next
  case (PostPair token backend_url n device)
  from assms show ?thesis
    unfolding PostPair
    by (cases rule: take_nonce_cases [of E sv n])
      (auto simp: takes_def handle_pair_def split: sum.splits if_splits)
next
  case (PostUnpair n)
  from assms show ?thesis
    unfolding PostUnpair
    by (cases rule: take_nonce_cases [of E sv n])
      (auto simp: takes_def handle_unpair_def split: sum.splits if_splits)
next
  case (PostShutdown n)
  from assms show ?thesis
    unfolding PostShutdown
    by (cases rule: take_nonce_cases [of E sv n])
      (auto simp: takes_def handle_shutdown_def split: sum.splits if_splits)
qed

lemma serve_taken:
  assumes "takes E sv h q" and "serve E sv h q = (r, sv')"
  shows "sv_nonce sv' \<in> {None, Some (se_uuid E, se_now E)}"
proof -
  from assms(1) obtain n t where n: "presented q = Some n" "sv_nonce sv = Some (n, t)" "nonce_fresh E t"
    "is_ok (check_local h (sv_port sv))" by (auto simp: takes_def)
  then have take: "take_nonce E sv n = (Ok (), sv\<lparr>sv_nonce := None\<rparr>)" by (simp add: take_nonce_def)
  have chk: "\<exists>u. check_local h (sv_port sv) = Ok u"
    using n(4) by (cases "check_local h (sv_port sv)") auto
  from assms(1) n(1) take chk assms(2) show ?thesis
    by (cases q) (auto simp: takes_def handle_pair_def handle_unpair_def handle_shutdown_def Let_def
        split: if_splits option.splits prod.splits sum.splits)
qed

text \<open>A server on port 7333 that holds the nonce \<open>n\<close>.\<close>

definition demo_server_env :: "string \<Rightarrow> server_env" where
  "demo_server_env u =
     \<lparr>se_now = 5, se_unix = 9, se_uuid = u,
      se_key = \<lparr>ky_entry = (\<lambda>_. None), ky_set = (\<lambda>_. None), ky_get = (\<lambda>_. None), ky_delete = (\<lambda>_. None), ky_gives = id\<rparr>,
      se_to_vec = (\<lambda>s. case ds_device_id s of Some d \<Rightarrow> d | None \<Rightarrow> []),
      se_from_slice = (\<lambda>b. Some (default_daemon_state\<lparr>ds_device_id := Some b, ds_backend_url := Some ''https://h''\<rparr>))\<rparr>"

definition demo_server :: local_server where
  "demo_server =
     \<lparr>sv_state = default_daemon_state,
      sv_fs = \<lparr>nodes = [([RootDir, Normal ''c''], DirNode)], cwd = [RootDir], deny_read = (\<lambda>_. False), deny_write = (\<lambda>_. False),
     disk_fault = (\<lambda>_. None)\<rparr>,
      sv_dir = [RootDir, Normal ''c''], sv_port = 7333, sv_nonce = Some (''n'', 0), sv_last_poll = 0, sv_ws = None,
      sv_messages = [], sv_keys = [], sv_exiting = False\<rparr>"

definition demo_headers :: http_headers where
  "demo_headers = \<lparr>hh_origin = Some ''https://synthhires.com'', hh_host = Some ''localhost:7333''\<rparr>"

lemma demo_headers_pass: "check_local demo_headers 7333 = Ok ()"
proof -
  have "char_of (55 :: nat) = CHR ''7''" "char_of (51 :: nat) = CHR ''3''" by code_simp+
  then have "nat_to_string 7333 = ''7333''" by (simp add: nat_to_string.simps)
  moreover have "is_allowed_origin ''https://synthhires.com''"
    "to_ascii_lowercase (trim_end_char (CHR ''.'') ''localhost:7333'') = ''localhost:7333''" by code_simp+
  ultimately show ?thesis unfolding check_local_Ok by (simp add: demo_headers_def)
qed

lemma demo_server_simps:
  "sv_port demo_server = 7333" "sv_nonce demo_server = Some (''n'', 0)" "sv_state demo_server = default_daemon_state"
  "sv_keys demo_server = []"
  by (simp_all add: demo_server_def)

lemma demo_takes: "take_nonce (demo_server_env u) demo_server ''n'' = (Ok (), demo_server\<lparr>sv_nonce := None\<rparr>)"
  by (simp add: take_nonce_def demo_server_simps nonce_fresh_def demo_server_env_def NONCE_TTL_MS_def)

section \<open>Properties\<close>

text \<open>Nothing of the daemon changes without a nonce. A request that changes the pairing, the saved
  file, the key store, the running client or ends the process, or a mutating request that
  succeeds, came with an allowed origin and this machine's loopback host and port, presented the
  nonce the server held, not older than two minutes, and used it up; and pairing happens only
  where no device is paired.\<close>

lemma local_mutation_needs_nonce:
  assumes "serve E sv h q = (r, sv')" and "kept sv' \<noteq> kept sv \<or> (q \<noteq> GetStatus \<and> is_ok r)"
  shows "is_allowed_origin (case hh_origin h of Some s \<Rightarrow> s | None \<Rightarrow> []) \<and>
    to_ascii_lowercase (trim_end_char (CHR ''.'') (case hh_host h of Some s \<Rightarrow> s | None \<Rightarrow> [])) \<in>
      {''127.0.0.1:'' @ nat_to_string (sv_port sv), ''localhost:'' @ nat_to_string (sv_port sv)} \<and>
    (\<exists>n t. presented q = Some n \<and> sv_nonce sv = Some (n, t) \<and> se_now E - t \<le> 120000) \<and>
    sv_nonce sv' \<in> {None, Some (se_uuid E, se_now E)} \<and>
    (\<forall>token url n d. q = PostPair token url n d \<longrightarrow> ds_device_id (sv_state sv) = None)"
proof -
  have t: "takes E sv h q" using serve_not_taken [OF _ assms(1)] assms(2) by blast
  then obtain u where "check_local h (sv_port sv) = Ok u"
    by (cases "check_local h (sv_port sv)") (auto simp: takes_def)
  with t serve_taken [OF t assms(1)] show ?thesis
    unfolding check_local_Ok by (auto simp: takes_def nonce_fresh_def NONCE_TTL_MS_def)
qed

lemma local_mutation_needs_nonce_witness:
  "let (r, sv) = serve (demo_server_env ''u'') demo_server demo_headers (PostShutdown ''n'')
   in r = Ok Success \<and> sv_exiting sv \<and> sv_nonce sv \<in> {None, Some (''u'', 5)}"
proof -
  have s: "serve (demo_server_env ''u'') demo_server demo_headers (PostShutdown ''n'') =
      (Ok Success, demo_server\<lparr>sv_nonce := None, sv_exiting := True\<rparr>)"
    by (simp add: handle_shutdown_def demo_server_simps demo_headers_pass demo_takes)
  from local_mutation_needs_nonce [OF s] show ?thesis
    unfolding s by (simp add: demo_server_env_def)
qed

text \<open>Requests in order, each with its clock and identifiers, and the nonces the server took.\<close>

fun taken_nonces :: "local_server \<Rightarrow> (server_env \<times> http_headers \<times> local_request) list \<Rightarrow> string list" where
  "taken_nonces sv [] = []"
| "taken_nonces sv ((E, h, q) # steps) =
     (if takes E sv h q then [the (presented q)] else []) @ taken_nonces (snd (serve E sv h q)) steps"

definition drawn :: "(server_env \<times> http_headers \<times> local_request) list \<Rightarrow> string list" where
  "drawn steps = map (\<lambda>x. se_uuid (fst x)) steps"

lemma taken_nonces_distinct:
  assumes "distinct (drawn steps)" and "\<And>n t. sv_nonce sv = Some (n, t) \<Longrightarrow> n \<notin> set (drawn steps)"
  shows "distinct (taken_nonces sv steps) \<and>
    (\<forall>m\<in>set (taken_nonces sv steps). m \<in> set (drawn steps) \<or> (\<exists>t. sv_nonce sv = Some (m, t)))"
  using assms
proof (induction steps arbitrary: sv)
  case (Cons x steps)
  obtain E h q where x: "x = (E, h, q)" by (cases x)
  obtain r sv1 where s: "serve E sv h q = (r, sv1)" by force
  have nonce: "sv_nonce sv1 \<in> (if takes E sv h q then {None, Some (se_uuid E, se_now E)} else {sv_nonce sv, Some (se_uuid E, se_now E)})"
    using serve_taken [OF _ s] serve_not_taken [OF _ s] by auto
  have u: "drawn (x # steps) = se_uuid E # drawn steps" by (simp add: drawn_def x)
  have "n \<notin> set (drawn steps)" if "sv_nonce sv1 = Some (n, t)" for n t
    using that Cons.prems(1) Cons.prems(2) [of n t] nonce unfolding u by (auto split: if_splits)
  with Cons.IH [of sv1] Cons.prems(1) u have IH: "distinct (taken_nonces sv1 steps)"
    "\<And>m. m \<in> set (taken_nonces sv1 steps) \<Longrightarrow> m \<in> set (drawn steps) \<or> (\<exists>t. sv_nonce sv1 = Some (m, t))" by auto
  show ?case
  proof (cases "takes E sv h q")
    case True
    then obtain n t where n: "presented q = Some n" "sv_nonce sv = Some (n, t)" by (auto simp: takes_def)
    with Cons.prems(2) have "n \<notin> set (drawn steps)" "n \<noteq> se_uuid E" by (auto simp: u)
    then have "n \<notin> set (taken_nonces sv1 steps)"
      using IH(2) [of n] nonce True by auto
    then show ?thesis using IH nonce True n unfolding u by (fastforce simp: x s)
  next
    case False
    then show ?thesis using IH nonce unfolding u by (fastforce simp: x s)
  qed
qed (simp add: drawn_def)

text \<open>A nonce is used once. Over any requests, in any order and from any clients, if the
  identifiers the server draws are distinct and differ from the nonce it starts with, no nonce is
  taken twice: a captured call cannot be replayed.\<close>

lemma nonce_single_use:
  assumes "distinct (drawn steps)" and "\<And>n t. sv_nonce sv = Some (n, t) \<Longrightarrow> n \<notin> set (drawn steps)"
  shows "distinct (taken_nonces sv steps)"
  using taken_nonces_distinct [of steps sv] assms by blast

lemma nonce_single_use_witness:
  "let steps = [(demo_server_env ''u'', demo_headers, PostShutdown ''n''), (demo_server_env ''v'', demo_headers, PostShutdown ''n'')]
   in taken_nonces demo_server steps = [''n''] \<and> distinct (taken_nonces demo_server steps)"
proof -
  let ?steps = "[(demo_server_env ''u'', demo_headers, PostShutdown ''n''), (demo_server_env ''v'', demo_headers, PostShutdown ''n'')]"
  have "taken_nonces demo_server ?steps = [''n'']"
    by (simp add: takes_def handle_shutdown_def demo_server_simps demo_headers_pass demo_takes)
      (simp add: nonce_fresh_def demo_server_env_def NONCE_TTL_MS_def)
  moreover have "distinct (taken_nonces demo_server ?steps)"
    by (rule nonce_single_use) (auto simp: drawn_def demo_server_env_def demo_server_simps)
  ultimately show ?thesis by (simp only: Let_def simp_thms)
qed

text \<open>A pairing survives. When a pairing succeeds, the client started from the new state finds
  the token under the device's own identifier, if the key store answers; and when the state file
  was written, a daemon that starts again loads the same device and backend.\<close>

lemma pairing_survives_restart:
  assumes "handle_pair E sv h token url nonce device = (Ok v, sv')"
    and "ky_entry (se_key F) = (\<lambda>_. None)" "ky_get (se_key F) = (\<lambda>_. None)" "ky_gives (se_key F) = id"
  shows "\<exists>d. device = Some d \<and> run_ws_client F sv' url = Ok \<lparr>wl_backend = url, wl_token = token, wl_device_id = d\<rparr> \<and>
    ds_device_id (sv_state sv') = Some d \<and> ds_backend_url (sv_state sv') = Some url \<and>
    (\<forall>R. file_dir (sv_fs sv) (sv_dir sv) R \<longrightarrow> \<not> deny_write (sv_fs sv) (R @ [Normal ''state.json'']) \<longrightarrow>
       \<not> deny_read (sv_fs sv) (R @ [Normal ''state.json'']) \<longrightarrow>
       disk_fault (sv_fs sv) (R @ [Normal ''state.json'']) = None \<longrightarrow>
       se_from_slice F (se_to_vec E (sv_state sv')) = Some (sv_state sv') \<longrightarrow>
       state_load F (sv_fs sv') (sv_dir sv') = Ok (sv_state sv'))"
proof -
  obtain d ks where d: "device = Some d" "token_save (se_key E) (sv_keys sv) d token = (Ok (), ks)"
    and sv': "sv_keys sv' = ks" "sv_state sv' = (sv_state sv)\<lparr>ds_device_id := Some d, ds_backend_url := Some url\<rparr>"
      "sv_fs sv' = snd (state_save E (sv_fs sv) (sv_dir sv) (sv_state sv'))" "sv_dir sv' = sv_dir sv"
    using assms(1)
    by (cases rule: take_nonce_cases [of E sv nonce])
      (auto simp: handle_pair_def Let_def split: sum.splits if_splits option.splits prod.splits)
  have "token_load (se_key F) ks d = (Ok (Some token), ks)"
    using token_saved_loads [OF d(2)] assms(2-4) by simp
  moreover have "state_load F (sv_fs sv') (sv_dir sv') = Ok (sv_state sv')"
    if "file_dir (sv_fs sv) (sv_dir sv) R" "\<not> deny_write (sv_fs sv) (R @ [Normal ''state.json''])"
      "\<not> deny_read (sv_fs sv) (R @ [Normal ''state.json''])" "disk_fault (sv_fs sv) (R @ [Normal ''state.json'']) = None"
      "se_from_slice F (se_to_vec E (sv_state sv')) = Some (sv_state sv')" for R
  proof -
    let ?r = "R @ [Normal ''state.json'']"
    let ?fs = "put_node (sv_fs sv) ?r (FileNode (se_to_vec E (sv_state sv')))"
    have fs: "sv_fs sv' = ?fs"
      using file_dir_write [OF that(1)] that(2,4) sv'(3) by (simp add: state_save_def state_path_def)
    have dir: "file_dir ?fs (sv_dir sv) R" using that(1) by (intro file_dir_put) simp_all
    then have "fs_exists ?fs (state_path (sv_dir sv))"
      using file_dir_locate [OF dir] by (simp add: fs_exists_def canonicalize_def state_path_def)
    moreover have "fs_read ?fs (state_path (sv_dir sv)) = Ok (se_to_vec E (sv_state sv'))"
      using file_dir_read [OF dir] that(3) by (simp add: state_path_def)
    ultimately show ?thesis using that(5) by (simp add: state_load_def fs sv'(4))
  qed
  ultimately show ?thesis
    using d(1) sv' by (auto simp: run_ws_client_def)
qed

lemma pairing_survives_restart_witness:
  "let E = demo_server_env ''u''; (r, sv) = handle_pair E demo_server demo_headers ''t'' ''https://h'' ''n'' (Some ''d'')
   in r = Ok Success \<and> run_ws_client E sv ''https://h'' = Ok \<lparr>wl_backend = ''https://h'', wl_token = ''t'', wl_device_id = ''d''\<rparr> \<and>
      state_load E (sv_fs sv) (sv_dir sv) = Ok (sv_state sv)"
proof -
  let ?E = "demo_server_env ''u''"
  let ?out = "handle_pair ?E demo_server demo_headers ''t'' ''https://h'' ''n'' (Some ''d'')"
  have v: "is_ok (validate_backend_url ''https://h'')" "str_trim ''d'' \<noteq> []" by code_simp+
  have save: "token_save (se_key ?E) [] ''d'' ''t'' = (Ok (), [(''d'', ''t'')])"
    by (simp add: token_save_def with_entry_def demo_server_env_def assoc_insert_def assoc_remove_def)
  obtain sv where out: "?out = (Ok Success, sv)"
    by (simp add: handle_pair_def demo_server_simps demo_headers_pass demo_takes v save default_daemon_state_def Let_def)
  have state: "sv_state sv = default_daemon_state\<lparr>ds_device_id := Some ''d'', ds_backend_url := Some ''https://h''\<rparr>"
    using out by (auto simp: handle_pair_def demo_server_simps demo_headers_pass demo_takes v save default_daemon_state_def Let_def)
  have "canonicalize (sv_fs demo_server) [RootDir, Normal ''c''] = Some [RootDir, Normal ''c'']" by code_simp
  then have "file_dir (sv_fs demo_server) (sv_dir demo_server) [RootDir, Normal ''c'']"
    by (simp add: file_dir_def leaf_at_def demo_server_def node_at_def)
  moreover have "se_from_slice ?E (se_to_vec ?E (sv_state sv)) = Some (sv_state sv)"
    by (simp add: demo_server_env_def state)
  moreover have "\<not> deny_write (sv_fs demo_server) p" "\<not> deny_read (sv_fs demo_server) p"
    "disk_fault (sv_fs demo_server) p = None" for p
    by (simp_all add: demo_server_def)
  ultimately show ?thesis
    using pairing_survives_restart [OF out, of ?E]
    unfolding Let_def out by (auto simp: demo_server_env_def)
qed

text \<open>Any process on the machine that sets the two headers gets the nonce, and with it unpairs or stops.\<close>

lemma any_local_process_unpairs:
  assumes "check_local h (sv_port sv) = Ok u"
  shows "\<exists>paired n d sv1. serve E sv h GetStatus = (Ok (StatusReply paired (Some n) d), sv1) \<and>
    fst (serve E sv1 h (PostUnpair n)) = Ok Success \<and> fst (serve E sv1 h (PostShutdown n)) = Ok Success"
  using assms
  by (auto simp: handle_status_def mint_nonce_def Let_def handle_unpair_def handle_shutdown_def take_nonce_def
      nonce_fresh_def split: option.split)

text \<open>An origin without a port number passes.\<close>

lemma empty_port_is_allowed: "is_allowed_origin ''http://localhost:''"
  by code_simp

text \<open>A state file that cannot be opened is no error: the device comes back at the next start.\<close>

lemma failed_save_is_dropped:
  assumes "write_open (sv_fs sv) (state_path (sv_dir sv)) = Err e"
    and "handle_unpair E sv h nonce = (Ok v, sv')"
  shows "ds_device_id (sv_state sv') = None \<and> state_load F (sv_fs sv') (sv_dir sv') = state_load F (sv_fs sv) (sv_dir sv)"
  using assms
  by (cases rule: take_nonce_cases [of E sv nonce])
    (auto simp: handle_unpair_def state_save_def fs_write_def fs_write_left_def Let_def unpaired_def split: sum.splits option.splits)

text \<open>The client a pairing starts gets the address as it came; the one of the next start gets the endpoint.\<close>

lemma pairing_uses_raw_address:
  assumes "handle_pair E sv h token url nonce device = (Ok v, sv')"
  shows "sv_ws sv' = Some url \<and> startup_backend (sv_state sv') dflt = ws_endpoint_for_origin url ''/api/devices/ws''"
  using assms
  by (cases rule: take_nonce_cases [of E sv nonce])
    (auto simp: handle_pair_def Let_def startup_backend_def split: sum.splits if_splits option.splits prod.splits)

end
