(* ===== verification/Cli_Main.thy ===== *)
theory Cli_Main
  imports Local_Server Fs_Ops "HOL-Library.Option_ord"
begin

text \<open>
  \<open>daemon-cli/src/main.rs\<close>: the deep links that reach the running daemon over its local socket, the
  names and decoders around them, and the control commands of the command line. Starting tasks,
  the tray and the window are left out; a command is what it prints and its exit code.
\<close>

section \<open>Names and decoders\<close>

definition ipc_socket_path :: "string option \<Rightarrow> string" where
  "ipc_socket_path runtime_dir =
     (case runtime_dir of
        Some dir \<Rightarrow> (if str_trim dir \<noteq> [] then trim_end_char (CHR ''/'') dir @ ''/synthhires-bridge-ipc.sock''
                     else ''/tmp/synthhires-bridge-ipc.sock'')
      | None \<Rightarrow> ''/tmp/synthhires-bridge-ipc.sock'')"

fun url_decode_bytes :: "bytes \<Rightarrow> bytes" where
  "url_decode_bytes (p # a # b # s) =
     (if p = CHR 0x25 then
        (case (hex_val a, hex_val b) of
           (Some hi, Some lo) \<Rightarrow> char_of (16 * hi + lo) # url_decode_bytes s
         | _ \<Rightarrow> p # url_decode_bytes (a # b # s))
      else p # url_decode_bytes (a # b # s))"
| "url_decode_bytes (c # s) = c # url_decode_bytes s"
| "url_decode_bytes [] = []"

definition url_decode :: "string \<Rightarrow> string" where
  "url_decode input = from_utf8_lossy (url_decode_bytes input)"

fun trim_end_str :: "nat \<Rightarrow> string \<Rightarrow> string \<Rightarrow> string" where
  "trim_end_str 0 p s = s"
| "trim_end_str (Suc n) p s = (if ends_with s p then trim_end_str n p (take (length s - length p) s) else s)"

text \<open>The variables, then the kernel's name; a name is not empty.\<close>

definition cli_hostname :: "(string \<Rightarrow> string option) \<Rightarrow> string option \<Rightarrow> string" where
  "cli_hostname var kernel_name =
     (let named = (\<lambda>k. case var k of Some h \<Rightarrow> (if str_trim h \<noteq> [] then Some h else None) | None \<Rightarrow> None) in
      case named ''COMPUTERNAME'' of
        Some h \<Rightarrow> h
      | None \<Rightarrow>
          (case named ''HOSTNAME'' of
             Some h \<Rightarrow> h
           | None \<Rightarrow>
               (case kernel_name of
                  None \<Rightarrow> ''Mi equipo''
                | Some raw \<Rightarrow>
                    (let h = (let t = str_trim (from_utf8_lossy raw) in trim_end_str (length t) ''.local'' t) in
                     if h \<noteq> [] \<and> h \<noteq> ''localhost'' \<and> h \<noteq> ''unknown'' then h else ''Mi equipo''))))"

fun is_ascii_alphabetic :: "char \<Rightarrow> bool" where
  "is_ascii_alphabetic c =
     (let n = byte_val c in (65 \<le> n \<and> n \<le> 90) \<or> (97 \<le> n \<and> n \<le> 122))"

text \<open>What the window's log shows of a line: without escape sequences, each ended by a letter.\<close>

fun strip_escapes :: "bool \<Rightarrow> string \<Rightarrow> string" where
  "strip_escapes in_escape [] = []"
| "strip_escapes in_escape (c # s) =
     (if c = CHR 0x1B then strip_escapes True s
      else if in_escape then strip_escapes (\<not> is_ascii_alphabetic c) s
      else c # strip_escapes False s)"

definition ui_log_line :: "bytes \<Rightarrow> string" where
  "ui_log_line buf = strip_escapes False (from_utf8_lossy buf)"

section \<open>Deep links\<close>

record deep_env =
  de_server :: server_env
  de_client_error :: "string option"
  de_post :: "string \<Rightarrow> pair_request \<Rightarrow> (string, pair_answer) res"
  de_fingerprint :: string
  de_hostname :: string
  de_sentinel :: string

datatype ipc_answer = Ack | Nack | NackLegacy | NoAnswer

definition DESIRED_SCOPES :: "string list" where
  "DESIRED_SCOPES =
     [''desktop.shell.execute'', ''desktop.fs.read'', ''desktop.fs.write'', ''desktop.fs.delete'',
      ''desktop.fs.verify'', ''desktop.fs.list'', ''sync.chat.push'']"

text \<open>The first part of the link, cut at ampersands, whose trimmed key is the one asked for.\<close>

fun find_param :: "string \<Rightarrow> string list \<Rightarrow> string option" where
  "find_param key [] = None"
| "find_param key (part # parts) =
     (case split_once ''='' part of
        Some (k, v) \<Rightarrow> (if str_trim k = key then Some (url_decode (str_trim v)) else find_param key parts)
      | None \<Rightarrow> find_param key parts)"

definition parse_param :: "string \<Rightarrow> string \<Rightarrow> string option" where
  "parse_param clean_uri key = find_param key (split_on (CHR 0x26) clean_uri)"

text \<open>The pairing flow on the daemon's own key store.\<close>

definition pairing_on :: "deep_env \<Rightarrow> key_store \<Rightarrow> pairing_env" where
  "pairing_on D ks =
     \<lparr>pe_probe = fst (token_probe (se_key (de_server D)) ks (de_sentinel D)),
      pe_post = de_post D,
      pe_save = (\<lambda>d t. fst (token_save (se_key (de_server D)) ks d t))\<rparr>"

fun key_effect :: "deep_env \<Rightarrow> pair_effect \<Rightarrow> key_store \<Rightarrow> key_store" where
  "key_effect D ProbeStore ks = snd (token_probe (se_key (de_server D)) ks (de_sentinel D))"
| "key_effect D (SaveToken d t) ks = snd (token_save (se_key (de_server D)) ks d t)"
| "key_effect D (PostTo _ _) ks = ks"

definition link_request :: "deep_env \<Rightarrow> string \<Rightarrow> string option \<Rightarrow> pair_request" where
  "link_request D code pairing_id =
     \<lparr>pq_code = code, pq_pairing_id = pairing_id, pq_device_kind = ''desktop'', pq_device_name = de_hostname D,
      pq_fingerprint = de_fingerprint D, pq_desired_scopes = DESIRED_SCOPES\<rparr>"

definition pair_by_link ::
    "deep_env \<Rightarrow> local_server \<Rightarrow> string \<Rightarrow> string \<Rightarrow> string option \<Rightarrow> ipc_answer \<times> local_server" where
  "pair_by_link D sv backend code pairing_id =
     (if de_client_error D \<noteq> None then (Nack, sv)
      else
        (case complete (pairing_on D (sv_keys sv)) backend (link_request D code pairing_id) of
           (r, effects) \<Rightarrow>
             let sv1 = sv\<lparr>sv_keys := fold (key_effect D) effects (sv_keys sv)\<rparr> in
             (case r of
                Inl e \<Rightarrow> (Nack, sv1)
              | Inr res \<Rightarrow>
                  let s = (sv_state sv1)\<lparr>ds_device_id := Some (pd_device_id (pr_data res)), ds_backend_url := Some backend\<rparr> in
                  (Ack, sv1\<lparr>sv_state := s, sv_fs := snd (state_save (de_server D) (sv_fs sv1) (sv_dir sv1) s),
                     sv_ws := Some (pd_ws_url (pr_data res))\<rparr>))))"

definition ipc_message :: "deep_env \<Rightarrow> string \<Rightarrow> local_server \<Rightarrow> bytes \<Rightarrow> ipc_answer \<times> local_server" where
  "ipc_message D cli_backend sv received =
     (let msg = from_utf8_lossy (take 8192 received) in
      if \<not> starts_with msg ''synthhires://'' then (NoAnswer, sv)
      else
        let clean_uri = str_trim (trim_end_char (CHR ''/'') (drop 13 msg)) in
        if clean_uri = ''ping-ui'' then (Ack, sv)
        else if parse_param clean_uri ''token'' \<noteq> None \<and> parse_param clean_uri ''code'' = None then (NackLegacy, sv)
        else
          let backend = (case parse_param clean_uri ''backend'' of Some b \<Rightarrow> b | None \<Rightarrow> cli_backend) in
          (case parse_param clean_uri ''code'' of
             None \<Rightarrow> (Nack, sv)
           | Some code \<Rightarrow> pair_by_link D sv backend code (parse_param clean_uri ''pairing_id'')))"

section \<open>Control commands\<close>

text \<open>A command ends with an exit code of its own, or fails with an error.\<close>

datatype cli_end = Exit nat | Failed daemon_error

definition read_state :: "server_env \<Rightarrow> host_fs \<Rightarrow> path \<Rightarrow> daemon_state" where
  "read_state E fs config_dir =
     (let raw = (case fs_read fs (state_path config_dir) of Inr b \<Rightarrow> b | Inl _ \<Rightarrow> []) in
      case se_from_slice E raw of Some s \<Rightarrow> s | None \<Rightarrow> default_daemon_state)"

definition write_state :: "server_env \<Rightarrow> host_fs \<Rightarrow> path \<Rightarrow> daemon_state \<Rightarrow> (daemon_error, unit) res \<times> host_fs" where
  "write_state E fs config_dir s =
     (let fs1 = fs_dirs_left fs config_dir in
      case fs_write fs1 (state_path config_dir) (se_to_vec E s) of
        Inl e \<Rightarrow> (Err (Io e), fs_write_left fs1 (state_path config_dir) (se_to_vec E s))
      | Inr fs2 \<Rightarrow> (Ok (), fs2))"

definition keyring_ok :: "server_env \<Rightarrow> key_store \<Rightarrow> daemon_state \<Rightarrow> bool" where
  "keyring_ok E ks s =
     (case ds_device_id s of
        Some d \<Rightarrow> (case fst (token_load (se_key E) ks d) of Inr t \<Rightarrow> t \<noteq> None | Inl _ \<Rightarrow> False)
      | None \<Rightarrow> False)"

text \<open>\<open>remote\<close> is what the running daemon's status answered, if it did.\<close>

definition ws_connected :: "json option \<Rightarrow> bool" where
  "ws_connected remote =
     (case Option.bind (Option.bind remote (\<lambda>r. json_get r ''ws'')) (\<lambda>w. json_get w ''connected'') of
        Some (JBool b) \<Rightarrow> b
      | _ \<Rightarrow> False)"

definition opt_json :: "string option \<Rightarrow> json" where
  "opt_json s = (case s of Some t \<Rightarrow> JStr t | None \<Rightarrow> JNull)"

definition remote_version :: "json option \<Rightarrow> string \<Rightarrow> string" where
  "remote_version remote own_version =
     (case Option.bind (Option.bind remote (\<lambda>r. json_get r ''version'')) as_str of Some v \<Rightarrow> v | None \<Rightarrow> own_version)"

definition status_json :: "server_env \<Rightarrow> daemon_state \<Rightarrow> key_store \<Rightarrow> json option \<Rightarrow> string \<Rightarrow> json" where
  "status_json E s ks remote own_version =
     JObj [(''backendUrl'', opt_json (ds_backend_url s)), (''daemonHttp'', JBool (remote \<noteq> None)),
           (''daemonRunning'', JBool (remote \<noteq> None)), (''deviceId'', opt_json (ds_device_id s)),
           (''keyringToken'', JBool (keyring_ok E ks s)), (''paired'', JBool (ds_device_id s \<noteq> None)),
           (''version'', JStr (remote_version remote own_version)), (''wsConnected'', JBool (ws_connected remote))]"

definition yes_no :: "string \<Rightarrow> string \<Rightarrow> bool \<Rightarrow> string" where
  "yes_no yes no b = (if b then yes else no)"

definition status_text :: "server_env \<Rightarrow> daemon_state \<Rightarrow> key_store \<Rightarrow> json option \<Rightarrow> string \<Rightarrow> string list" where
  "status_text E s ks remote own_version =
     [''synthhires-bridge v'' @ remote_version remote own_version,
      ''  running      : '' @ yes_no ''yes'' ''no'' (remote \<noteq> None),
      ''  paired       : '' @ yes_no ''yes'' ''no'' (ds_device_id s \<noteq> None)] @
     (case ds_device_id s of Some d \<Rightarrow> [''  device_id    : '' @ d] | None \<Rightarrow> []) @
     [''  keyring token: '' @ yes_no ''present'' ''missing'' (keyring_ok E ks s),
      ''  ws connected : '' @ yes_no ''yes'' ''no'' (ws_connected remote)] @
     (case ds_backend_url s of Some u \<Rightarrow> [''  backend      : '' @ u] | None \<Rightarrow> [])"

text \<open>What is printed, as JSON or as lines, and how the command ends.\<close>

definition cmd_status ::
    "server_env \<Rightarrow> host_fs \<Rightarrow> path \<Rightarrow> key_store \<Rightarrow> json option \<Rightarrow> string \<Rightarrow> bool \<Rightarrow> (json + string list) \<times> cli_end" where
  "cmd_status E fs config_dir ks remote own_version as_json =
     (let s = read_state E fs config_dir in
      (if as_json then Inl (status_json E s ks remote own_version) else Inr (status_text E s ks remote own_version),
       if ds_device_id s \<noteq> None \<and> \<not> ws_connected remote then Exit 2 else if remote = None then Exit 3 else Exit 0))"

text \<open>A check: its name, whether it passes, and the detail printed with it.\<close>

definition doctor_checks ::
    "server_env \<Rightarrow> host_fs \<Rightarrow> path \<Rightarrow> key_store \<Rightarrow> nat \<Rightarrow> json option \<Rightarrow> (string \<times> bool \<times> string) list" where
  "doctor_checks E fs config_dir ks port remote =
     [(''state.json exists'', fs_exists fs (state_path config_dir), path_display (state_path config_dir)),
      (''daemon HTTP ('' @ nat_to_string port @ '') reachable'', remote \<noteq> None,
       ''http://127.0.0.1:'' @ nat_to_string port @ ''/status''),
      (''keyring token present'', keyring_ok E ks (read_state E fs config_dir), []),
      (''WS connected'', ws_connected remote, [])]"

definition doctor_json :: "(string \<times> bool \<times> string) list \<Rightarrow> daemon_state \<Rightarrow> json option \<Rightarrow> json" where
  "doctor_json checks s remote =
     JObj [(''checks'', JArr (map (\<lambda>(n, ok, d). JObj [(''detail'', JStr d), (''name'', JStr n), (''ok'', JBool ok)]) checks)),
           (''state'', JObj [(''backendUrl'', opt_json (ds_backend_url s)), (''deviceId'', opt_json (ds_device_id s)),
              (''paired'', JBool (ds_device_id s \<noteq> None))]),
           (''ws'', case Option.bind remote (\<lambda>r. json_get r ''ws'') of Some w \<Rightarrow> w | None \<Rightarrow> JNull)]"

definition doctor_text :: "(string \<times> bool \<times> string) list \<Rightarrow> string list" where
  "doctor_text checks =
     map (\<lambda>(n, ok, d). yes_no ''[ok]'' ''[FAIL]'' ok @ '' '' @ n @ (if d = [] then [] else '' '' @ em_dash @ '' '' @ d)) checks"

definition cmd_doctor ::
    "server_env \<Rightarrow> host_fs \<Rightarrow> path \<Rightarrow> key_store \<Rightarrow> nat \<Rightarrow> json option \<Rightarrow> bool \<Rightarrow> (json + string list) \<times> cli_end" where
  "cmd_doctor E fs config_dir ks port remote as_json =
     (let checks = doctor_checks E fs config_dir ks port remote in
      (if as_json then Inl (doctor_json checks (read_state E fs config_dir) remote) else Inr (doctor_text checks),
       if list_ex (\<lambda>(n, ok, d). \<not> ok) checks then Exit 1 else Exit 0))"

definition verified :: "fs_verify_result \<Rightarrow> bool" where
  "verified r = (vf_exists r \<and> vf_readable r \<and> vf_writable r)"

definition verify_json :: "string \<Rightarrow> fs_verify_result \<Rightarrow> json" where
  "verify_json shown r =
     JObj [(''error'', opt_json (vf_error r)), (''exists'', JBool (vf_exists r)), (''isDir'', JBool (vf_is_dir r)),
           (''path'', JStr shown), (''readable'', JBool (vf_readable r)), (''verified'', JBool (verified r)),
           (''writable'', JBool (vf_writable r))]"

definition verify_text :: "string \<Rightarrow> fs_verify_result \<Rightarrow> string list" where
  "verify_text shown r =
     [''path     : '' @ shown, ''exists   : '' @ yes_no ''yes'' ''NO'' (vf_exists r),
      ''is_dir   : '' @ yes_no ''yes'' ''no'' (vf_is_dir r), ''readable : '' @ yes_no ''yes'' ''NO'' (vf_readable r),
      ''writable : '' @ yes_no ''yes'' ''NO'' (vf_writable r)] @
     (case vf_error r of Some e \<Rightarrow> [''error    : '' @ e] | None \<Rightarrow> [])"

definition cmd_verify ::
    "host_fs \<Rightarrow> string \<Rightarrow> string \<Rightarrow> path \<Rightarrow> bool \<Rightarrow> (json + string list) \<times> cli_end \<times> host_fs" where
  "cmd_verify fs uuid1 uuid2 p as_json =
     (case fs_ops_verify fs uuid1 uuid2 \<lparr>vf_path = p\<rparr> of
        (r, fs1) \<Rightarrow>
          (if as_json then Inl (verify_json (path_display p) r) else Inr (verify_text (path_display p) r),
           if verified r then Exit 0 else Exit 1, fs1))"

text \<open>The directory as it is read: the names with their times of change, or nothing.\<close>

definition newest_log :: "(string \<times> nat option) list option \<Rightarrow> bool \<Rightarrow> string option" where
  "newest_log listing fallback_exists =
     (let files = (case listing of
                     None \<Rightarrow> []
                   | Some es \<Rightarrow> sort_key snd (filter (\<lambda>(n, _). starts_with n ''daemon'' \<and> ends_with n ''.log'') es))
      in if files \<noteq> [] then Some (fst (last files))
         else if fallback_exists then Some ''daemon-fallback.log'' else None)"

definition cmd_logs :: "host_fs \<Rightarrow> path \<Rightarrow> (string \<times> nat option) list option \<Rightarrow> nat \<Rightarrow> string list \<times> cli_end" where
  "cmd_logs fs config_dir listing n =
     (case newest_log listing (fs_exists fs (config_dir @ [Normal ''daemon-fallback.log''])) of
        None \<Rightarrow> ([], Exit 1)
      | Some name \<Rightarrow>
          (case fs_read fs (config_dir @ [Normal name]) of
             Inl e \<Rightarrow> ([], Failed (Io e))
           | Inr raw \<Rightarrow>
               if \<not> valid_utf8 raw then ([], Failed (Io (OtherIo ''stream did not contain valid UTF-8'')))
               else (rev (take n (rev (str_lines raw))), Exit 0)))"

definition cmd_pair ::
    "deep_env \<Rightarrow> host_fs \<Rightarrow> path \<Rightarrow> key_store \<Rightarrow> string \<Rightarrow> string \<Rightarrow> string option \<Rightarrow> cli_end \<times> host_fs \<times> key_store" where
  "cmd_pair D fs config_dir ks backend code pairing_id =
     (if \<not> is_ok (validate_backend_url backend) then (Exit 2, fs, ks)
      else
        (case token_probe (se_key (de_server D)) ks (de_sentinel D) of
           (Inl _, ks1) \<Rightarrow> (Exit 2, fs, ks1)
         | (Inr _, ks1) \<Rightarrow>
             (case de_client_error D of
                Some e \<Rightarrow> (Failed (Protocol (''reqwest client: '' @ e)), fs, ks1)
              | None \<Rightarrow>
                  (case complete (pairing_on D ks1) backend (link_request D code pairing_id) of
                     (r, effects) \<Rightarrow>
                       let ks2 = fold (key_effect D) effects ks1 in
                       (case r of
                          Inl e \<Rightarrow> (Failed e, fs, ks2)
                        | Inr res \<Rightarrow>
                            (case write_state (de_server D) fs config_dir
                                    \<lparr>ds_device_id = Some (pd_device_id (pr_data res)), ds_scopes = pd_scopes (pr_data res),
                                     ds_backend_url = Some backend\<rparr> of
                               (Inl e, fs1) \<Rightarrow> (Failed e, fs1, ks2)
                             | (Inr _, fs1) \<Rightarrow> (Exit 0, fs1, ks2)))))))"

definition cmd_unpair :: "server_env \<Rightarrow> host_fs \<Rightarrow> path \<Rightarrow> key_store \<Rightarrow> cli_end \<times> host_fs \<times> key_store" where
  "cmd_unpair E fs config_dir ks =
     (let ks1 = (case ds_device_id (read_state E fs config_dir) of
                   Some d \<Rightarrow> snd (token_delete (se_key E) ks d)
                 | None \<Rightarrow> ks)
      in case write_state E fs config_dir default_daemon_state of
           (Inl e, fs1) \<Rightarrow> (Failed e, fs1, ks1)
         | (Inr _, fs1) \<Rightarrow> (Exit 0, fs1, ks1))"

definition LOCAL_ORIGIN :: string where
  "LOCAL_ORIGIN = ''http://localhost:4321''"

definition local_headers :: "nat \<Rightarrow> http_headers" where
  "local_headers port = \<lparr>hh_origin = Some LOCAL_ORIGIN, hh_host = Some (''127.0.0.1:'' @ nat_to_string port)\<rparr>"

text \<open>Stopping the daemon that listens on the port: its status for the nonce, then the shutdown. An
  answer to the status that is an error has a text for a body, which does not decode.\<close>

definition cmd_stop :: "server_env \<Rightarrow> server_env \<Rightarrow> nat \<Rightarrow> local_server option \<Rightarrow> cli_end \<times> local_server option" where
  "cmd_stop E1 E2 port daemon =
     (case daemon of
        None \<Rightarrow> (Failed (Protocol ''stop status: connection refused''), None)
      | Some sv \<Rightarrow>
          (case serve E1 sv (local_headers port) GetStatus of
             (Inr (StatusReply _ nonce _), sv1) \<Rightarrow>
               (case serve E2 sv1 (local_headers port) (PostShutdown (case nonce of Some n \<Rightarrow> n | None \<Rightarrow> [])) of
                  (Inr _, sv2) \<Rightarrow> (Exit 0, Some sv2)
                | (Inl _, sv2) \<Rightarrow> (Exit 1, Some sv2))
           | (_, sv1) \<Rightarrow> (Failed (Protocol ''stop status decode: expected value''), Some sv1)))"


section \<open>Lemmas\<close>

lemma url_decode_plain: "c \<noteq> CHR 0x25 \<Longrightarrow> url_decode_bytes (c # s) = c # url_decode_bytes s"
  by (cases s; cases "tl s") auto

text \<open>Percent-encoding of every byte outside a set that the encoder leaves as it is.\<close>

definition hex_digit :: "nat \<Rightarrow> char" where
  "hex_digit n = ''0123456789ABCDEF'' ! n"

definition percent_encode :: "(char \<Rightarrow> bool) \<Rightarrow> bytes \<Rightarrow> string" where
  "percent_encode plain s =
     concat (map (\<lambda>c. if plain c then [c] else [CHR 0x25, hex_digit (byte_val c div 16), hex_digit (byte_val c mod 16)]) s)"

lemma hex_digit_val: "n < 16 \<Longrightarrow> hex_val (hex_digit n) = Some n"
proof -
  have "list_all (\<lambda>n. hex_val (hex_digit n) = Some n) [0..<16]" by code_simp
  then show "n < 16 \<Longrightarrow> hex_val (hex_digit n) = Some n" by (simp add: list_all_iff)
qed

lemma url_decode_bytes_encode:
  assumes "\<not> plain (CHR 0x25)"
  shows "url_decode_bytes (percent_encode plain s) = s"
proof (induction s)
  case (Cons c s)
  have "byte_val c div 16 < 16" "byte_val c mod 16 < 16"
    using nat_of_char_less_256 [of c] by (simp_all add: div_less_iff_less_mult)
  then have "hex_val (hex_digit (byte_val c div 16)) = Some (byte_val c div 16)"
    "hex_val (hex_digit (byte_val c mod 16)) = Some (byte_val c mod 16)" by (simp_all only: hex_digit_val)
  then have hex: "hex_val (hex_digit (byte_val c div 16)) = Some (byte_val c div 16)"
    "hex_val (hex_digit (byte_val c mod 16)) = Some (byte_val c mod 16)"
    "char_of (16 * (byte_val c div 16) + byte_val c mod 16) = c"
    by (simp_all add: mult.commute)
  show ?case
  proof (cases "plain c")
    case True
    then have "c \<noteq> CHR 0x25" using assms by auto
    with Cons True show ?thesis by (simp add: percent_encode_def url_decode_plain)
  next
    case False
    with Cons hex show ?thesis by (simp add: percent_encode_def del: hex_val.simps)
  qed
qed (simp add: percent_encode_def)

text \<open>A parameter of a link is read back: whatever set of characters an encoder leaves alone, so
  long as it encodes the percent sign, decoding gives the text it encoded.\<close>

lemma url_decode_encode:
  assumes "\<not> plain (CHR 0x25)" and "valid_utf8 s"
  shows "url_decode (percent_encode plain s) = s"
  using assms by (simp add: url_decode_def url_decode_bytes_encode valid_utf8_def)

section \<open>Deep links\<close>

text \<open>The link of the documentation is refused. The parts are cut from the whole text after the
  scheme, so the first key keeps the action before it, and \<open>pair?code\<close> is not \<open>code\<close>: a link
  with the code first, as the install guide writes it, is answered with a refusal, whatever the
  code, the identifier and the backend are, and nothing changes.\<close>

lemma documented_link_refused:
  assumes "msg = ''synthhires://pair?code='' @ c @ ''&pairing_id='' @ i @ ''&backend='' @ b"
    and "valid_utf8 msg" and "length msg \<le> 8192" and "CHR 0x26 \<notin> set (c @ i @ b)"
    and "str_trim (trim_end_char (CHR ''/'') (drop 13 msg)) = drop 13 msg"
  shows "ipc_message D cli_backend sv msg = (Nack, sv)"
proof -
  let ?uri = "''pair?code='' @ c @ ''&pairing_id='' @ i @ ''&backend='' @ b"
  have uri: "drop 13 msg = ?uri" and start: "starts_with msg ''synthhires://''"
    by (simp_all add: assms(1) starts_with_def)
  have parts: "split_on (CHR 0x26) ?uri = [''pair?code'' @ ''='' @ c, ''pairing_id'' @ ''='' @ i, ''backend'' @ ''='' @ b]"
    using assms(4) split_on_append_sep [of "CHR 0x26" "''pair?code='' @ c"]
      split_on_append_sep [of "CHR 0x26" "''pairing_id='' @ i"] split_on_no_sep [of "CHR 0x26" "''backend='' @ b"]
    by simp
  have keys: "str_trim ''pair?code'' = ''pair?code''" "str_trim ''pairing_id'' = ''pairing_id''" "str_trim ''backend'' = ''backend''"
    by code_simp+
  have none: "parse_param ?uri key = None" if "key \<in> {''code'', ''token''}" for key
    unfolding parse_param_def parts using that keys
    by (auto simp: starts_with_def)
  have "from_utf8_lossy (take 8192 msg) = msg" using assms(2,3) by (simp add: valid_utf8_def)
  then show ?thesis
    using none start assms(5) unfolding uri by (simp add: ipc_message_def uri Let_def)
qed

lemma documented_link_refused_witness:
  "ipc_message D dflt sv ''synthhires://pair?code=A&pairing_id=1&backend=https%3A%2F%2Fh'' = (Nack, sv)"
proof -
  let ?m = "''synthhires://pair?code='' @ ''A'' @ ''&pairing_id='' @ ''1'' @ ''&backend='' @ ''https%3A%2F%2Fh''"
  have "valid_utf8 ?m" by (simp add: valid_utf8_def lossy_ascii)
  moreover have "CHR 0x26 \<notin> set (''A'' @ ''1'' @ ''https%3A%2F%2Fh'')"
    "str_trim (trim_end_char (CHR ''/'') (drop 13 ?m)) = drop 13 ?m" by code_simp+
  ultimately show ?thesis using documented_link_refused [OF refl, of "''A''" "''1''" "''https%3A%2F%2Fh''"] by simp
qed

lemma complete_Ok:
  assumes "complete env backend req = (Ok res, es)"
  shows "trusted_backend backend \<and> pe_probe env = Ok () \<and>
    (\<exists>url answer body. pe_post env url (with_default_scopes req) = Ok answer \<and> pa_is_success answer \<and> pa_json answer = Ok body \<and>
       url = trim_end_char (CHR ''/'') backend @ ''/api/devices/pair/complete'' \<and>
       es = [ProbeStore, PostTo url (with_default_scopes req), SaveToken (pd_device_id (pr_data body)) (pd_token (pr_data body))] \<and>
       pe_save env (pd_device_id (pr_data body)) (pd_token (pr_data body)) = Ok () \<and>
       pr_data res = (pr_data body)\<lparr>pd_ws_url := ws_endpoint_for_origin backend (pd_ws_url (pr_data body))\<rparr>)"
proof -
  let ?q = "with_default_scopes req"
  let ?url = "trim_end_char (CHR ''/'') backend @ ''/api/devices/pair/complete''"
  obtain u p where ok: "validate_backend_url backend = Ok u" "pe_probe env = Ok p"
    using assms by (auto simp: complete_def Let_def split: sum.splits)
  obtain answer body where post: "pe_post env ?url ?q = Ok answer" "pa_is_success answer" "pa_json answer = Ok body"
    using assms ok by (auto simp: complete_def Let_def split: sum.splits if_splits)
  show ?thesis
    using assms ok post validate_backend_trusted [OF ok(1)]
    by (intro conjI exI [of _ ?url] exI [of _ answer] exI [of _ body])
      (auto simp: complete_def Let_def split: sum.splits)
qed

lemma token_save_Ok: "token_save E ks d t = (Ok (), ks') \<Longrightarrow> ks' = assoc_insert d t ks"
  by (auto simp: token_save_def with_entry_def split: option.splits)

lemma token_save_ok_any: "fst (token_save E ks d t) = Ok () \<Longrightarrow> snd (token_save E ks' d t) = assoc_insert d t ks'"
  by (auto simp: token_save_def with_entry_def split: option.splits)

text \<open>What a link can do. When a message changes the daemon's state, its saved file or its client,
  it was a link that carried a code, the backend of the link or of the command line passed the
  check, the key store passed its probe, the code was sent to that backend, and it answered with
  success; then the device is the one of the answer, its token is in the key store, and the
  client is given the endpoint of that backend. Nothing asks whether a device was paired before.\<close>

lemma link_pairs_with_answering_backend:
  assumes "ipc_message D cli_backend sv msg = (a, sv')"
    and "(sv_state sv', sv_fs sv', sv_ws sv') \<noteq> (sv_state sv, sv_fs sv, sv_ws sv)"
  shows "\<exists>backend code i url answer body d.
    trusted_backend backend \<and> fst (token_probe (se_key (de_server D)) (sv_keys sv) (de_sentinel D)) = Ok () \<and>
    url = trim_end_char (CHR ''/'') backend @ ''/api/devices/pair/complete'' \<and>
    de_post D url (with_default_scopes (link_request D code i)) = Ok answer \<and> pa_is_success answer \<and>
    pa_json answer = Ok body \<and> d = pd_device_id (pr_data body) \<and> a = Ack \<and>
    map_of (sv_keys sv') d = Some (pd_token (pr_data body)) \<and>
    ds_device_id (sv_state sv') = Some d \<and> ds_backend_url (sv_state sv') = Some backend \<and>
    sv_ws sv' = Some (ws_endpoint_for_origin backend (pd_ws_url (pr_data body)))"
proof -
  have client: "de_client_error D = None"
    using assms by (auto simp: ipc_message_def pair_by_link_def Let_def split: if_splits option.splits)
  obtain backend code i where p: "pair_by_link D sv backend code i = (a, sv')"
    using assms by (auto simp: ipc_message_def Let_def split: if_splits option.splits)
  obtain res es where c: "complete (pairing_on D (sv_keys sv)) backend (link_request D code i) = (Ok res, es)"
    using p assms(2) by (auto simp: pair_by_link_def Let_def split: if_splits prod.splits sum.splits)
  from complete_Ok [OF c] obtain url answer body where b:
    "trusted_backend backend" "fst (token_probe (se_key (de_server D)) (sv_keys sv) (de_sentinel D)) = Ok ()"
    "de_post D url (with_default_scopes (link_request D code i)) = Ok answer" "pa_is_success answer" "pa_json answer = Ok body"
    "url = trim_end_char (CHR ''/'') backend @ ''/api/devices/pair/complete''"
    "es = [ProbeStore, PostTo url (with_default_scopes (link_request D code i)),
       SaveToken (pd_device_id (pr_data body)) (pd_token (pr_data body))]"
    "fst (token_save (se_key (de_server D)) (sv_keys sv) (pd_device_id (pr_data body)) (pd_token (pr_data body))) = Ok ()"
    "pr_data res = (pr_data body)\<lparr>pd_ws_url := ws_endpoint_for_origin backend (pd_ws_url (pr_data body))\<rparr>"
    by (auto simp: pairing_on_def)
  note saved = token_save_ok_any [OF b(8)]
  have "a = Ack" "sv_ws sv' = Some (pd_ws_url (pr_data res))" "ds_device_id (sv_state sv') = Some (pd_device_id (pr_data res))"
    "ds_backend_url (sv_state sv') = Some backend" "sv_keys sv' = fold (key_effect D) es (sv_keys sv)"
    using p c client by (auto simp: pair_by_link_def Let_def)
  then show ?thesis using b saved by (intro exI conjI) auto
qed

lemma ipc_pairs:
  assumes "msg = ''synthhires://'' @ rest" "valid_utf8 msg" "length msg \<le> 8192" "str_trim (trim_end_char (CHR ''/'') rest) = uri"
    and "uri \<noteq> ''ping-ui''" "parse_param uri ''code'' = Some code" "parse_param uri ''backend'' = Some b"
  shows "ipc_message D dflt sv msg = pair_by_link D sv b code (parse_param uri ''pairing_id'')"
proof -
  have "starts_with msg ''synthhires://''" "drop 13 msg = rest" by (simp_all add: assms(1) starts_with_def)
  moreover have "from_utf8_lossy (take 8192 msg) = msg" using assms(2,3) by (simp add: valid_utf8_def)
  ultimately show ?thesis using assms(4-7) by (simp only: ipc_message_def Let_def) simp
qed

text \<open>A link with an empty parameter before the code, to a daemon that is paired with another device.\<close>

definition demo_deep :: deep_env where
  "demo_deep =
     \<lparr>de_server = demo_server_env ''u'', de_client_error = None,
      de_post = (\<lambda>url q. Ok \<lparr>pa_status = ''200 OK'', pa_is_success = True, pa_text = [],
        pa_json = Ok \<lparr>pr_success = True, pr_data = \<lparr>pd_device_id = ''d2'', pd_token = ''t2'', pd_token_expires_at = [],
          pd_ws_url = ''/ws'', pd_scopes = ds_scopes default_daemon_state\<rparr>\<rparr>\<rparr>),
      de_fingerprint = ''f'', de_hostname = ''h'', de_sentinel = ''s''\<rparr>"

definition demo_paired :: local_server where
  "demo_paired = demo_server\<lparr>sv_state := default_daemon_state\<lparr>ds_device_id := Some ''d1''\<rparr>\<rparr>"

abbreviation "demo_link \<equiv> ''synthhires://pair?&code=A&backend=https://h''"

lemma link_pairs_with_answering_backend_witness:
  "ds_device_id (sv_state demo_paired) = Some ''d1'' \<and>
   ds_device_id (sv_state (snd (ipc_message demo_deep [] demo_paired demo_link))) = Some ''d2'' \<and>
   map_of (sv_keys (snd (ipc_message demo_deep [] demo_paired demo_link))) ''d2'' = Some ''t2'' \<and>
   sv_ws (snd (ipc_message demo_deep [] demo_paired demo_link)) = Some ''wss://h/ws''"
proof -
  obtain a sv where m: "ipc_message demo_deep [] demo_paired demo_link = (a, sv)" by fastforce
  let ?uri = "''pair?&code=A&backend=https://h''"
  have parts: "split_on (CHR 0x26) ?uri = [''pair?'', ''code=A'', ''backend=https://h'']" by code_simp
  have trims: "str_trim ''code'' = ''code''" "str_trim ''backend'' = ''backend''" "str_trim ''A'' = ''A''"
    "str_trim ''https://h'' = ''https://h''" "url_decode ''A'' = ''A''" "url_decode ''https://h'' = ''https://h''" by code_simp+
  have q: "valid_utf8 (''synthhires://'' @ ?uri)" "str_trim (trim_end_char (CHR ''/'') ?uri) = ?uri" "?uri \<noteq> ''ping-ui''"
    "parse_param ?uri ''code'' = Some ''A''" "parse_param ?uri ''backend'' = Some ''https://h''"
    "parse_param ?uri ''pairing_id'' = None"
    subgoal by (simp add: valid_utf8_def lossy_ascii)
    subgoal by code_simp
    by (simp_all add: parse_param_def parts trims starts_with_def)
  have len: "length (''synthhires://'' @ ?uri) \<le> 8192" by simp
  have "ipc_message demo_deep [] demo_paired (''synthhires://'' @ ?uri) = pair_by_link demo_deep demo_paired ''https://h'' ''A'' None"
    using ipc_pairs [OF refl q(1) len q(2-5), where D = demo_deep and sv = demo_paired and dflt = "[]"] unfolding q(6) .
  then have "ipc_message demo_deep [] demo_paired demo_link = pair_by_link demo_deep demo_paired ''https://h'' ''A'' None"
    by (simp only: append.simps)
  moreover have "ds_device_id (sv_state (snd (pair_by_link demo_deep demo_paired ''https://h'' ''A'' None))) = Some ''d2''"
    "sv_ws (snd (pair_by_link demo_deep demo_paired ''https://h'' ''A'' None)) = Some ''wss://h/ws''"
    by code_simp+
  ultimately have "ds_device_id (sv_state (snd (ipc_message demo_deep [] demo_paired demo_link))) = Some ''d2''"
    "sv_ws (snd (ipc_message demo_deep [] demo_paired demo_link)) = Some ''wss://h/ws''" by simp_all
  then have d: "ds_device_id (sv_state sv) = Some ''d2''" "sv_ws sv = Some ''wss://h/ws''" by (simp_all add: m)
  have p: "ds_device_id (sv_state demo_paired) = Some ''d1''" by (simp add: demo_paired_def)
  with d have "(sv_state sv, sv_fs sv, sv_ws sv) \<noteq> (sv_state demo_paired, sv_fs demo_paired, sv_ws demo_paired)" by auto
  from link_pairs_with_answering_backend [OF m this] have "map_of (sv_keys sv) ''d2'' = Some ''t2''"
    using d by (auto simp: demo_deep_def)
  with d p show ?thesis by (simp add: m)
qed

text \<open>A link does to a paired daemon what it does to one that is not.\<close>

lemma link_ignores_pairing:
  "fst (pair_by_link D (sv\<lparr>sv_state := unpaired (sv_state sv)\<rparr>) b c i) = fst (pair_by_link D sv b c i)"
  by (simp add: pair_by_link_def Let_def split: prod.split sum.split)

section \<open>Commands\<close>

lemma lower_digits: "list_all is_digit s \<Longrightarrow> to_ascii_lowercase s = s"
  by (induction s) (auto simp: to_ascii_lowercase_def is_digit_def ascii_lower_def Let_def)

lemma local_host_is_itself:
  "to_ascii_lowercase (trim_end_char (CHR ''.'') (''127.0.0.1:'' @ nat_to_string port)) = ''127.0.0.1:'' @ nat_to_string port"
proof -
  have "is_digit (last (nat_to_string port))"
    using list_all_nat_to_string [of port] by (simp add: list_all_iff)
  then have "last (nat_to_string port) \<noteq> CHR ''.''" by (auto simp: is_digit_def)
  then have "trim_end_char (CHR ''.'') (''127.0.0.1:'' @ nat_to_string port) = ''127.0.0.1:'' @ nat_to_string port"
    using nat_to_string_ne [of port] by (cases "nat_to_string port" rule: rev_cases) (auto simp: trim_end_char_def)
  moreover have "to_ascii_lowercase ''127.0.0.1:'' = ''127.0.0.1:''" by code_simp
  ultimately show ?thesis
    using lower_digits [OF list_all_nat_to_string [of port]] by (simp add: to_ascii_lowercase_def)
qed

lemma nat_to_string_eq [simp]: "nat_to_string a = nat_to_string b \<longleftrightarrow> a = b"
  by (metis digits_value_string)

lemma local_headers_pass: "is_ok (check_local (local_headers port) p) \<longleftrightarrow> port = p"
proof -
  have "is_allowed_origin LOCAL_ORIGIN" by code_simp
  then have "check_origin (local_headers port) = Ok ()"
    by (simp add: check_origin_def local_headers_def)
  moreover have "check_host (local_headers port) p =
      (if ''127.0.0.1:'' @ nat_to_string port = ''127.0.0.1:'' @ nat_to_string p \<or>
          ''127.0.0.1:'' @ nat_to_string port = ''localhost:'' @ nat_to_string p then Ok () else Err (403, ''Invalid Host''))"
    by (simp only: check_host_def local_headers_def http_headers.select_convs option.case local_host_is_itself Let_def)
  ultimately show ?thesis by (auto simp: check_local_def)
qed

text \<open>Stopping works against the server as it is. If the daemon listens on the port asked for, and
  the nonce its status gives has not expired when the shutdown arrives, the command succeeds and
  the daemon ends; asked on another port than the server's own, it fails and nothing changes.\<close>

lemma stop_reaches_daemon:
  assumes "se_now E2 - se_now E1 \<le> NONCE_TTL_MS"
    and "\<forall>n t. sv_nonce sv = Some (n, t) \<longrightarrow> nonce_fresh E1 t \<longrightarrow> nonce_fresh E2 t"
  shows "(sv_port sv = port \<longrightarrow> (\<exists>sv'. cmd_stop E1 E2 port (Some sv) = (Exit 0, Some sv') \<and> sv_exiting sv')) \<and>
    (sv_port sv \<noteq> port \<longrightarrow> (\<exists>e. cmd_stop E1 E2 port (Some sv) = (Failed e, Some sv)))"
proof (cases "sv_port sv = port")
  case True
  then obtain u where ok: "check_local (local_headers port) (sv_port sv) = Ok u"
    using local_headers_pass [of port port] by (cases "check_local (local_headers port) port") auto
  have "\<exists>n t sv1. sv_nonce sv1 = Some (n, t) \<and> nonce_fresh E2 t \<and> sv_port sv1 = port \<and>
      serve E1 sv (local_headers port) GetStatus =
         (Ok (StatusReply (ds_device_id (sv_state sv) \<noteq> None) (Some n) (ds_device_id (sv_state sv))), sv1)"
  proof (cases "\<exists>n t. sv_nonce sv = Some (n, t) \<and> nonce_fresh E1 t")
    case held: True
    then obtain n t where n: "sv_nonce sv = Some (n, t)" "nonce_fresh E1 t" by blast
    then have "mint_nonce E1 (sv\<lparr>sv_last_poll := se_unix E1\<rparr>) = (n, sv\<lparr>sv_last_poll := se_unix E1\<rparr>)"
      by (simp add: mint_nonce_def)
    with n assms(2) ok True show ?thesis
      by (intro exI [of _ n] exI [of _ t] exI [of _ "sv\<lparr>sv_last_poll := se_unix E1\<rparr>"]) (simp add: handle_status_def)
  next
    case False
    let ?sv1 = "sv\<lparr>sv_last_poll := se_unix E1, sv_nonce := Some (se_uuid E1, se_now E1)\<rparr>"
    from False have "mint_nonce E1 (sv\<lparr>sv_last_poll := se_unix E1\<rparr>) = (se_uuid E1, ?sv1)"
      by (auto simp: mint_nonce_def split: option.split)
    with assms(1) ok True show ?thesis
      by (intro exI [of _ "se_uuid E1"] exI [of _ "se_now E1"] exI [of _ ?sv1]) (simp add: handle_status_def nonce_fresh_def)
  qed
  then obtain n t sv1 where m: "sv_nonce sv1 = Some (n, t)" "nonce_fresh E2 t" "sv_port sv1 = port"
    "serve E1 sv (local_headers port) GetStatus =
       (Ok (StatusReply (ds_device_id (sv_state sv) \<noteq> None) (Some n) (ds_device_id (sv_state sv))), sv1)" by blast
  then have "serve E2 sv1 (local_headers port) (PostShutdown n) = (Ok Success, sv1\<lparr>sv_nonce := None, sv_exiting := True\<rparr>)"
    using ok True by (simp add: handle_shutdown_def take_nonce_def)
  then show ?thesis using m True by (simp add: cmd_stop_def)
next
  case False
  then obtain e where "check_local (local_headers port) (sv_port sv) = Err e"
    using local_headers_pass [of port "sv_port sv"] by (cases "check_local (local_headers port) (sv_port sv)") auto
  then show ?thesis using False by (simp add: cmd_stop_def handle_status_def)
qed

lemma stop_reaches_daemon_witness:
  "(\<exists>sv. cmd_stop (demo_server_env ''u'') (demo_server_env ''v'') 7333 (Some demo_server) = (Exit 0, Some sv) \<and> sv_exiting sv) \<and>
   (\<exists>e. cmd_stop (demo_server_env ''u'') (demo_server_env ''v'') 7334 (Some demo_server) = (Failed e, Some demo_server))"
proof -
  have "se_now (demo_server_env u) = 5" for u by (simp add: demo_server_env_def)
  then have h: "se_now (demo_server_env ''v'') - se_now (demo_server_env ''u'') \<le> NONCE_TTL_MS"
    "\<forall>n t. sv_nonce demo_server = Some (n, t) \<longrightarrow> nonce_fresh (demo_server_env ''u'') t \<longrightarrow> nonce_fresh (demo_server_env ''v'') t"
    by (simp_all add: nonce_fresh_def)
  show ?thesis
    using stop_reaches_daemon [OF h, of 7333] stop_reaches_daemon [OF h, of 7334] by (simp add: demo_server_simps)
qed

text \<open>A paired device whose daemon does not run is reported with the exit code of a lost connection.\<close>

lemma stopped_daemon_exits_2:
  "ds_device_id (read_state E fs dir) \<noteq> None \<Longrightarrow> snd (cmd_status E fs dir ks None v j) = Exit 2"
  by (simp add: cmd_status_def Let_def ws_connected_def)

lemma doctor_agrees_with_status:
  "snd (cmd_doctor E fs dir ks port remote j) = Exit 0 \<Longrightarrow> snd (cmd_status E fs dir ks remote v j) = Exit 0"
  by (auto simp: cmd_doctor_def doctor_checks_def cmd_status_def Let_def split: if_splits)

lemma logs_are_the_last_lines:
  "cmd_logs fs dir listing n = (out, Exit 0) \<Longrightarrow>
   \<exists>name raw. fs_read fs (dir @ [Normal name]) = Ok raw \<and> out = drop (length (str_lines raw) - n) (str_lines raw)"
  by (auto simp: cmd_logs_def rev_take split: option.splits sum.splits if_splits)

end
