(* ===== verification/Spec2Isabelle.thy ===== *)
theory Spec2Isabelle
  imports Ws_Reconnect Lsp_Safety Autoupdate Pairing System_Ops Proc_Ops Pty_Ops Git_Ops Mcp_Ops
    Memory_Store Audit_Log Host_Probes Cli_Main
begin

text \<open>
  The desktop bridge daemon of this repository (src/apps/desktop-daemon/crates) lets a web
  cockpit act on the owner's machine over a WebSocket. This development models its core: the
  decisions that say what the server may do, the operations on the disk, the undo store, the
  chat archive, and the connection that drives them.

  Parts and how they interact. \<open>Ws_Loop.run\<close> dials the server and folds over the events of each
  connection; a frame goes to \<open>handle_frame\<close>, an action to \<open>handle_action\<close>, which checks scopes
  and the shell tripwire, asks the capability gate for the path, captures a checkpoint before a
  mutation, runs the operation, and answers. An action that needs the owner raises a prompt at
  the consent broker and is parked; the owner's answer, from the web or the native dialog, comes
  back through the broker's channel and resumes it. The heartbeat tick sweeps expired prompts and
  watches for a dead server.

  Theories, in the order they build on each other, with the code they model:
  \<^item> Bridge_Prelude: results, strings as UTF-8 bytes, JSON values, words, hash maps as
    association lists; the collections \<open>frame_simps\<close> and \<open>result_simps\<close>.
  \<^item> Paths: \<open>std::path\<close> components. Protocol: daemon-protocol/src/lib.rs, frames, chat payload
    parsing, the Crockford encoder of pairing codes.
  \<^item> Capability: daemon-core/src/capability.rs; locale \<open>gate_policy\<close> is what every caller relies
    on, interpreted by the lexical check, the link-resolving check and the check of \<open>Fs_Ops\<close>.
  \<^item> Consent: consent.rs, with the locale \<open>consent_desk\<close> the loop relies on. Health: health.rs.
    Tasks: task_registry.rs.
  \<^item> Host_Fs and Private_Dir: an explicit file system (nodes, links, permissions) that stands for
    \<open>std::fs\<close>, and directories only the daemon writes to. Base64, Hashline, Daemon_Error, Fs_Ops:
    fs_ops.rs and the error type of lib.rs. Checkpoint: checkpoint.rs.
  \<^item> Chat_Store: chat_store.rs over tables as row lists, with the locale \<open>lww_table\<close> of a
    last-writer-wins table and a fault for every SQL statement.
  \<^item> Ws_Support, Ws_Client, Ws_Arms: ws_client.rs, its pure decisions, its state (record
    \<open>client\<close>), the primitives that answer and gate, one definition per arm of \<open>handle_action\<close>.
    Ws_Actions proves the contract every arm keeps; Ws_Safety states what an action can do.
  \<^item> Ws_Loop: chat pushes, frames, expiry, resumption, the watchdog, the handshake and the
    reconnect loop. Ws_Session and Ws_Reconnect: the refinement of an abstract consent desk,
    liveness of answers, expiry, the watchdog, well-formedness, backoff.

  \<^item> Text_Scan: what \<open>str\<close> offers beyond bytes, white space, lines, UTF-8 validity and lossy
    decoding, shared by the engines. Lsp_Text, Lsp_Ops, Lsp_Safety: lsp_ops.rs, framing, UTF-16
    positions, the server pool, requests, and the rename engine on the host file system.
  \<^item> Shell: shell.rs, the capped buffer, the pumps and the deadline. Proc_Ops: proc_ops.rs, the log
    ring, handles and the monitor. Pty_Ops: pty_ops.rs, the output buffer, sessions and waits.
  \<^item> Git_Ops: git_ops.rs, what it asks git and how it parses the answers. Mcp_Ops: mcp_ops.rs,
    configuration, child environment, requests and paging. System_Ops: system_ops.rs on Unix.
    Memory_Store: memory_store.rs, the project memory over a table with a fault per statement.
  \<^item> Pairing: pairing.rs, the exchange of a pairing code and its effects in order. Autoupdate:
    autoupdate.rs, the signed manifest, the version order, the verified download.

  What the lemma groups show: the gate confines every allowed path to a granted root after links
  are resolved; no mutation happens without a grant or the owner; writes are atomic; a patch is
  the simultaneous replacement of its ranges, or nothing, and so are the edits of a rename; undo
  gives back the captured bytes; the archive converges and keeps its references under any
  statement fault; no parked action is lost and every answer reaches its action; a dead server is
  noticed in two intervals; the reconnect delay stays between one and thirty seconds; the engines
  keep their buffers bounded, run only the commands and children they declare, and answer each
  request; an update is signed and hashed; a pairing code is not spent before the key store works.

  Termination and bounds. Every definition is total. Path resolution follows at most 40 links, the
  limit of the operating system; the walk to an existing ancestor, the eviction loop and the
  string loops end by their measures. A connection is a fold over the events that happened, and so
  are the waits of the engines over what their child does, so no fuel is needed: a statement about
  every event list is a statement about every run. Clocks are natural numbers, read once per
  handler; counters whose width matters are words.

  Assumptions, each a named argument: \<open>env\<close> holds the serde decoders, the clock, fresh
  identifiers, whether the socket takes frames, and the engines as the action arms call them,
  whose effect on the disk is arbitrary; \<open>engines_quiet\<close> says that engines never make the park
  marker, which occurs only in ws_client.rs; \<open>codec_law\<close> that the JSON line codec of the undo index
  reads back what it wrote. Each engine theory has a record of its own for what its source gets
  from outside: the output and the end of a child process, git's answers, HTTP responses, the key
  store, SHA-256 and Ed25519, the JSON codec, the failure of a statement or a spawn.

  Not modelled, and why: browser_ops.rs and os_ax.rs drive a browser and platform interfaces
  through libraries that are not in the repository; dap_ops.rs, eval_session.rs and ast_ops.rs
  are debug adapters, JavaScript children and the ast-grep library; audit.rs, fingerprint.rs,
  keyring.rs, os_info.rs, tools_probe.rs and jni_android.rs are platform calls; the daemon-cli
  crate is the command line, the local server and the window. The Windows builds are not modelled
  beyond the case-insensitive path comparison, which every platform exports. A poisoned mutex and
  a panic are modelled only where the code can reach them, in Pty_Ops.
\<close>

section \<open>Across components\<close>

text \<open>
  C24. One remembered approval opens the disk. \<open>desktop.checkpoint.list\<close> asks the path gate for
  the empty path. When the owner approves that prompt with "remember", the client's gate keeps
  the empty prefix, and from then on every granted capability is allowed on every path that
  has no parent component and resolves, anywhere on the disk.
\<close>

theorem checkpoint_list_remember_opens_disk:
  assumes "ar_capability r = ''desktop.checkpoint.list''" and "allows (cl_gate c) ''desktop.fs.read''"
    and "\<not> gate_allows_path c ''desktop.fs.read'' []"
    and "c' = snd (handle_action env c r (Some \<lparr>approved = True, remember = True\<rparr>))"
  shows "cl_gate c' = with_additional_path (cl_gate c) [] \<and>
    (\<forall>canon cap p real. allows (cl_gate c) cap \<longrightarrow> \<not> has_parent_dir p \<longrightarrow>
       resolve_existing canon p = Some real \<longrightarrow> \<not> has_parent_dir real \<longrightarrow>
       check_path_real canon (cl_gate c') cap p = Ok Allow)"
proof -
  define c1 where "c1 = audit env (register_task env c r) r"
  have "refusal c r = None"
    using assms(1,2) by (simp add: refusal_def required_scope_def)
  note h = handle_action_runs [OF this c1_def, of "Some \<lparr>approved = True, remember = True\<rparr>"]
  have "path_gate env c1 r ''desktop.fs.read'' [] (Some \<lparr>approved = True, remember = True\<rparr>) =
      (Ok (with_one_shot_path (with_additional_path (cl_gate c1) []) []), c1\<lparr>cl_gate := with_additional_path (cl_gate c1) []\<rparr>)"
    using assms(2,3) by (simp add: path_gate_def c1_def)
  then have "cl_gate c' = with_additional_path (cl_gate c) []"
    using assms(1,4) by (simp add: h run_arm_simps arm_checkpoint_list_def dispatch_op_def outcome_def c1_def)
  then show ?thesis using empty_path_allows_all by simp
qed

theorem checkpoint_list_remember_opens_disk_witness:
  "let c = snd (handle_action demo_env demo_client (demo_request ''desktop.checkpoint.list'')
      (Some \<lparr>approved = True, remember = True\<rparr>)) in
   check_path_real demo_canon demo_fs_gate ''desktop.fs.write'' (path_components ''/etc/passwd'') = Ok RequireConsent \<and>
   check_path_real demo_canon (cl_gate c) ''desktop.fs.write'' (path_components ''/etc/passwd'') = Ok Allow"
proof -
  let ?r = "demo_request ''desktop.checkpoint.list''"
  have a: "ar_capability ?r = ''desktop.checkpoint.list''" "allows (cl_gate demo_client) ''desktop.fs.read''"
    "\<not> gate_allows_path demo_client ''desktop.fs.read'' []"
    by (simp add: demo_request_def, code_simp, code_simp)
  have p: "allows (cl_gate demo_client) ''desktop.fs.write''" "\<not> has_parent_dir (path_components ''/etc/passwd'')"
    "resolve_existing demo_canon (path_components ''/etc/passwd'') = Some (path_components ''/etc'')"
    "\<not> has_parent_dir (path_components ''/etc'')"
    by code_simp+
  have b: "check_path_real demo_canon demo_fs_gate ''desktop.fs.write'' (path_components ''/etc/passwd'') = Ok RequireConsent"
    by code_simp
  from checkpoint_list_remember_opens_disk [OF a refl, of demo_env] p b show ?thesis
    unfolding Let_def by blast
qed

end
